(* ===== verification/Prelude.thy ===== *)
theory Prelude
  imports Main "HOL-Library.Word" "HOL-Library.Multiset"
begin

text \<open>
  Shared vocabulary of the development: the errors the Go code distinguishes, the
  state-and-error computations every database handler is written in, a small Hoare
  calculus over them, 64-bit wrap-around, and the generic lemmas on lists and
  association lists the component theories use.
\<close>

named_theorems mon_simps \<open>unfolding rules of the state-and-error computations\<close>
named_theorems wp \<open>Hoare rules of the state-and-error computations\<close>


section \<open>Errors\<close>

text \<open>
  A Go \<open>error\<close> is a value; the code tells some of them apart with \<open>errors.Is\<close> and
  \<open>errors.As\<close>. \<open>Wrapped\<close> is \<open>fmt.Errorf\<close> with \<open>%w\<close>; \<open>Panic\<close> is a run-time panic
  (an index out of range, a nil dereference, an explicit \<open>panic\<close>).
\<close>

datatype err =
    RecordNotFound
  | Canceled
  | DeadlineExceeded
  | PgError string
  | InvalidValue string string string
  | NotFoundErr string
  | Err string
  | DecodeErr string
  | Wrapped string err
  | Panic string

fun root_cause :: "err \<Rightarrow> err" where
  "root_cause (Wrapped m e) = root_cause e"
| "root_cause e = e"

definition errors_is :: "err \<Rightarrow> err \<Rightarrow> bool" where
  "errors_is e target \<longleftrightarrow> root_cause e = target"

lemma errors_is_Wrapped [simp]: "errors_is (Wrapped m e) t = errors_is e t"
  by (simp add: errors_is_def)


section \<open>Computations with state and errors\<close>

text \<open>
  A handler takes the state and returns its result, or the error it stopped with, and
  the state it leaves. The state is returned in both cases: what an operation did
  before it failed stays done, unless a database transaction undoes it.
\<close>

type_synonym ('s, 'a) act = "'s \<Rightarrow> (err + 'a) \<times> 's"

definition ret :: "'a \<Rightarrow> ('s, 'a) act" where
  "ret x = (\<lambda>s. (Inr x, s))"

definition throw :: "err \<Rightarrow> ('s, 'a) act" where
  "throw e = (\<lambda>s. (Inl e, s))"

definition bnd :: "('s, 'a) act \<Rightarrow> ('a \<Rightarrow> ('s, 'b) act) \<Rightarrow> ('s, 'b) act" where
  "bnd m f = (\<lambda>s. case m s of (Inl e, t) \<Rightarrow> (Inl e, t) | (Inr x, t) \<Rightarrow> f x t)"

definition gets :: "('s \<Rightarrow> 'a) \<Rightarrow> ('s, 'a) act" where
  "gets f = (\<lambda>s. (Inr (f s), s))"

definition modify :: "('s \<Rightarrow> 's) \<Rightarrow> ('s, unit) act" where
  "modify f = (\<lambda>s. (Inr (), f s))"

definition lift_res :: "err + 'a \<Rightarrow> ('s, 'a) act" where
  "lift_res r = (\<lambda>s. (r, s))"

definition wrap_err :: "string \<Rightarrow> ('s, 'a) act \<Rightarrow> ('s, 'a) act" where
  "wrap_err msg m = (\<lambda>s. case m s of (Inl e, t) \<Rightarrow> (Inl (Wrapped msg e), t) | (Inr x, t) \<Rightarrow> (Inr x, t))"

text \<open>A \<open>for range\<close> loop whose body may fail, with the variables it updates as an accumulator.\<close>

fun foreach :: "('x \<Rightarrow> 'a \<Rightarrow> ('s, 'a) act) \<Rightarrow> 'x list \<Rightarrow> 'a \<Rightarrow> ('s, 'a) act" where
  "foreach f [] a = ret a"
| "foreach f (x # xs) a = bnd (f x a) (foreach f xs)"

text \<open>The same loop when the body has no state, and a plain error-propagating sequence.\<close>

fun rbind :: "err + 'a \<Rightarrow> ('a \<Rightarrow> err + 'b) \<Rightarrow> err + 'b" where
  "rbind (Inl e) f = Inl e"
| "rbind (Inr x) f = f x"

fun rfold :: "('x \<Rightarrow> 'a \<Rightarrow> err + 'a) \<Rightarrow> 'x list \<Rightarrow> 'a \<Rightarrow> err + 'a" where
  "rfold f [] a = Inr a"
| "rfold f (x # xs) a = rbind (f x a) (rfold f xs)"

fun map_res :: "('x \<Rightarrow> err + 'a) \<Rightarrow> 'x list \<Rightarrow> err + 'a list" where
  "map_res f [] = Inr []"
| "map_res f (x # xs) = rbind (f x) (\<lambda>y. rbind (map_res f xs) (\<lambda>ys. Inr (y # ys)))"

lemmas act_defs = ret_def throw_def bnd_def gets_def modify_def lift_res_def wrap_err_def

lemma ret_run [mon_simps, simp]: "ret x s = (Inr x, s)"
  and throw_run [mon_simps, simp]: "throw e s = (Inl e, s)"
  and gets_run [mon_simps, simp]: "gets f s = (Inr (f s), s)"
  and modify_run [mon_simps, simp]: "modify g s = (Inr (), g s)"
  and lift_run [mon_simps, simp]: "lift_res r s = (r, s)"
  by (simp_all add: act_defs)

lemma bnd_Inr [simp]: "m s = (Inr x, t) \<Longrightarrow> bnd m f s = f x t"
  and bnd_Inl [simp]: "m s = (Inl e, t) \<Longrightarrow> bnd m f s = (Inl e, t)"
  by (simp_all add: bnd_def)

lemma bnd_eq_Inr:
  "bnd m f s = (Inr y, u) \<longleftrightarrow> (\<exists>x t. m s = (Inr x, t) \<and> f x t = (Inr y, u))"
  by (auto simp: bnd_def split: prod.splits sum.splits)

lemma bnd_assoc: "bnd (bnd m f) g = bnd m (\<lambda>x. bnd (f x) g)"
  by (rule ext) (auto simp: bnd_def split: prod.splits sum.splits)

lemma wrap_err_eq_Inr [simp]: "wrap_err msg m s = (Inr x, t) \<longleftrightarrow> m s = (Inr x, t)"
  by (auto simp: wrap_err_def split: prod.splits sum.splits)

lemma rbind_eq_Inr: "rbind r f = Inr y \<longleftrightarrow> (\<exists>x. r = Inr x \<and> f x = Inr y)"
  by (cases r) auto

lemma rbind_eq_Inl: "rbind r f = Inl e \<longleftrightarrow> r = Inl e \<or> (\<exists>x. r = Inr x \<and> f x = Inl e)"
  by (cases r) auto

lemma map_res_Inr: "map_res f xs = Inr ys \<longleftrightarrow> list_all2 (\<lambda>x y. f x = Inr y) xs ys"
  by (induction xs arbitrary: ys) (auto simp: rbind_eq_Inr list_all2_Cons1)

lemma map_res_total: "(\<And>x. x \<in> set xs \<Longrightarrow> f x = Inr (g x)) \<Longrightarrow> map_res f xs = Inr (map g xs)"
  by (induction xs) auto

lemma rfold_append: "rfold f (xs @ ys) a = rbind (rfold f xs a) (rfold f ys)"
proof (induction xs arbitrary: a)
  case Nil
  show ?case by simp
next
  case (Cons x xs)
  then show ?case by (cases "f x a") auto
qed


section \<open>A Hoare calculus\<close>

text \<open>
  \<open>hoare P m Q R\<close>: started in a state that satisfies \<open>P\<close>, \<open>m\<close> ends with a result
  and a state that satisfy \<open>Q\<close>, or with an error and a state that satisfy \<open>R\<close>.
  The functions are total, so this is total correctness.
\<close>

definition hoare ::
  "('s \<Rightarrow> bool) \<Rightarrow> ('s, 'a) act \<Rightarrow> ('a \<Rightarrow> 's \<Rightarrow> bool) \<Rightarrow> (err \<Rightarrow> 's \<Rightarrow> bool) \<Rightarrow> bool" where
  "hoare P m Q R \<longleftrightarrow>
     (\<forall>s. P s \<longrightarrow> (case m s of (Inr x, t) \<Rightarrow> Q x t | (Inl e, t) \<Rightarrow> R e t))"

lemma hoareI:
  assumes "\<And>s x t. P s \<Longrightarrow> m s = (Inr x, t) \<Longrightarrow> Q x t"
    and "\<And>s e t. P s \<Longrightarrow> m s = (Inl e, t) \<Longrightarrow> R e t"
  shows "hoare P m Q R"
  using assms by (auto simp: hoare_def split: prod.splits sum.splits)

lemma hoareD: "hoare P m Q R \<Longrightarrow> P s \<Longrightarrow> m s = (Inr x, t) \<Longrightarrow> Q x t"
  by (force simp: hoare_def)

lemma hoareD_err: "hoare P m Q R \<Longrightarrow> P s \<Longrightarrow> m s = (Inl e, t) \<Longrightarrow> R e t"
  by (force simp: hoare_def)

lemma hoare_weaken:
  assumes "hoare P m Q R" and "\<And>s. P' s \<Longrightarrow> P s"
    and "\<And>x s. Q x s \<Longrightarrow> Q' x s" and "\<And>e s. R e s \<Longrightarrow> R' e s"
  shows "hoare P' m Q' R'"
  using assms by (fastforce simp: hoare_def split: prod.splits sum.splits)

lemma hoare_pre:
  "hoare P m Q R \<Longrightarrow> (\<And>s. P' s \<Longrightarrow> P s) \<Longrightarrow> hoare P' m Q R"
  by (auto simp: hoare_def)

lemma hoare_assume: "(C \<Longrightarrow> hoare P m Q R) \<Longrightarrow> hoare (\<lambda>s. P s \<and> C) m Q R"
  by (auto simp: hoare_def)

lemma hoare_ex: "(\<And>u. hoare (P u) m Q R) \<Longrightarrow> hoare (\<lambda>s. \<exists>u. P u s) m Q R"
  by (rule hoareI) (blast dest: hoareD, blast dest: hoareD_err)

lemma hoare_conj:
  "hoare P m Q R \<Longrightarrow> hoare P' m Q' R' \<Longrightarrow>
   hoare (\<lambda>s. P s \<and> P' s) m (\<lambda>x s. Q x s \<and> Q' x s) (\<lambda>e s. R e s \<and> R' e s)"
  by (fastforce simp: hoare_def split: prod.splits sum.splits)

lemma hoare_ret [wp]: "hoare (\<lambda>s. Q x s) (ret x) Q R"
  and hoare_throw [wp]: "hoare (\<lambda>s. R e s) (throw e) Q R"
  and hoare_gets [wp]: "hoare (\<lambda>s. Q (f s) s) (gets f) Q R"
  and hoare_modify [wp]: "hoare (\<lambda>s. Q () (g s)) (modify g) Q R"
  for Q :: "_ \<Rightarrow> _ \<Rightarrow> bool"
  by (auto simp: hoare_def modify_def)

lemma hoare_lift [wp]:
  "hoare (\<lambda>s. case r of Inr x \<Rightarrow> Q x s | Inl e \<Rightarrow> R e s) (lift_res r) Q R"
  by (auto simp: hoare_def split: sum.splits)

lemma hoare_bnd [wp]:
  assumes "hoare P m B R" and "\<And>x. hoare (B x) (f x) Q R"
  shows "hoare P (bnd m f) Q R"
proof (rule hoareI)
  fix s y u assume "P s" and "bnd m f s = (Inr y, u)"
  then obtain x t where "m s = (Inr x, t)" "f x t = (Inr y, u)" by (auto simp: bnd_eq_Inr)
  with assms \<open>P s\<close> show "Q y u" by (blast dest: hoareD)
next
  fix s e u assume "P s" and e: "bnd m f s = (Inl e, u)"
  show "R e u"
  proof (cases "m s")
    case (Pair r t)
    with e assms \<open>P s\<close> show ?thesis
      by (cases r) (auto dest: hoareD hoareD_err)
  qed
qed

lemma hoare_foreach:
  assumes "\<And>ys x zs a. xs = ys @ x # zs \<Longrightarrow> hoare (I ys a) (f x a) (I (ys @ [x])) R"
  shows "hoare (I [] a) (foreach f xs a) (I xs) R"
proof -
  have "hoare (I ys a) (foreach f zs a) (I (ys @ zs)) R" if "xs = ys @ zs" for ys zs a
    using that
  proof (induction zs arbitrary: ys a)
    case Nil
    then show ?case by (simp add: hoare_def)
  next
    case (Cons z zs)
    have "hoare (I ys a) (f z a) (I (ys @ [z])) R" using Cons.prems by (rule assms)
    moreover have "hoare (I (ys @ [z]) b) (foreach f zs b) (I (ys @ z # zs)) R" for b
      using Cons.IH [of "ys @ [z]" b] Cons.prems by simp
    ultimately show ?case by (simp add: hoare_bnd)
  qed
  from this [of "[]" xs a] show ?thesis by simp
qed


text \<open>A property of the state that a computation keeps, whether it succeeds or not.\<close>

definition keeps :: "('s \<Rightarrow> bool) \<Rightarrow> ('s, 'a) act \<Rightarrow> bool" where
  "keeps P m \<longleftrightarrow> hoare P m (\<lambda>_. P) (\<lambda>_. P)"

named_theorems keeps_intros \<open>rules for \<open>keeps\<close>\<close>

lemma keepsI: "(\<And>s r t. P s \<Longrightarrow> m s = (r, t) \<Longrightarrow> P t) \<Longrightarrow> keeps P m"
  by (auto simp: keeps_def hoare_def split: prod.splits sum.splits)

lemma keepsD: "keeps P m \<Longrightarrow> P s \<Longrightarrow> m s = (r, t) \<Longrightarrow> P t"
  by (cases r) (auto simp: keeps_def hoare_def)

lemma keeps_ret [keeps_intros]: "keeps P (ret x)"
  and keeps_throw [keeps_intros]: "keeps P (throw e)"
  and keeps_gets [keeps_intros]: "keeps P (gets f)"
  and keeps_lift [keeps_intros]: "keeps P (lift_res r)"
  by (rule keepsI; simp)+

lemma keeps_modify [keeps_intros]: "(\<And>s. P s \<Longrightarrow> P (g s)) \<Longrightarrow> keeps P (modify g)"
  by (rule keepsI) auto

lemma keeps_bnd [keeps_intros]: "keeps P m \<Longrightarrow> (\<And>x. keeps P (f x)) \<Longrightarrow> keeps P (bnd m f)"
  unfolding keeps_def by (rule hoare_bnd)

lemma keeps_foreach [keeps_intros]: "(\<And>x a. x \<in> set xs \<Longrightarrow> keeps P (f x a)) \<Longrightarrow> keeps P (foreach f xs a)"
  unfolding keeps_def by (rule hoare_foreach) auto

lemma keeps_wrap [keeps_intros]: "keeps P m \<Longrightarrow> keeps P (wrap_err msg m)"
  unfolding keeps_def hoare_def wrap_err_def by (fastforce split: prod.splits sum.splits)

lemma keeps_if [keeps_intros]: "(b \<Longrightarrow> keeps P m) \<Longrightarrow> (\<not> b \<Longrightarrow> keeps P n) \<Longrightarrow> keeps P (if b then m else n)"
  and keeps_option [keeps_intros]: "(x = None \<Longrightarrow> keeps P m) \<Longrightarrow> (\<And>y. x = Some y \<Longrightarrow> keeps P (f y)) \<Longrightarrow>
    keeps P (case x of None \<Rightarrow> m | Some y \<Rightarrow> f y)"
  and keeps_sum [keeps_intros]: "(\<And>e. r = Inl e \<Longrightarrow> keeps P (g e)) \<Longrightarrow> (\<And>y. r = Inr y \<Longrightarrow> keeps P (h y)) \<Longrightarrow>
    keeps P (case r of Inl e \<Rightarrow> g e | Inr y \<Rightarrow> h y)"
  and keeps_prod [keeps_intros]: "(\<And>a b. p = (a, b) \<Longrightarrow> keeps P (k a b)) \<Longrightarrow> keeps P (case p of (a, b) \<Rightarrow> k a b)"
  by (auto split: option.splits sum.splits prod.splits)

lemma keeps_conj: "keeps P m \<Longrightarrow> keeps Q m \<Longrightarrow> keeps (\<lambda>s. P s \<and> Q s) m"
  unfolding keeps_def hoare_def by (fastforce split: prod.splits sum.splits)


section \<open>64-bit signed integers\<close>

text \<open>Go's \<open>int64\<close> addition wraps; the value is kept as an \<open>int\<close> in the signed range.\<close>

definition wrap64 :: "int \<Rightarrow> int" where
  "wrap64 n = (n + 2 ^ 63) mod 2 ^ 64 - 2 ^ 63"

definition int64_range :: "int \<Rightarrow> bool" where
  "int64_range n \<longleftrightarrow> - (2 ^ 63) \<le> n \<and> n < 2 ^ 63"

lemma wrap64_range: "int64_range (wrap64 n)"
  by (simp add: wrap64_def int64_range_def pos_mod_bound)

lemma wrap64_id [simp]: "int64_range n \<Longrightarrow> wrap64 n = n"
  by (simp add: wrap64_def int64_range_def)

lemma wrap64_add: "wrap64 (wrap64 a + b) = wrap64 (a + b)"
proof -
  have "(wrap64 a + b + 2 ^ 63) mod 2 ^ 64 = ((a + 2 ^ 63) mod 2 ^ 64 + b) mod 2 ^ 64"
    by (simp add: wrap64_def algebra_simps)
  also have "\<dots> = (a + 2 ^ 63 + b) mod 2 ^ 64"
    by (rule mod_add_left_eq)
  also have "\<dots> = (a + b + 2 ^ 63) mod 2 ^ 64"
    by (simp add: algebra_simps)
  finally show ?thesis by (simp add: wrap64_def)
qed


section \<open>Lists and association lists\<close>

text \<open>Go's \<open>seen\<close> maps: keep the first occurrence of every element, in order.\<close>

fun dedup_from :: "'a list \<Rightarrow> 'a list \<Rightarrow> 'a list" where
  "dedup_from seen [] = []"
| "dedup_from seen (x # xs) =
     (if x \<in> set seen then dedup_from seen xs else x # dedup_from (x # seen) xs)"

definition dedup :: "'a list \<Rightarrow> 'a list" where
  "dedup xs = dedup_from [] xs"

lemma set_dedup_from: "set (dedup_from seen xs) = set xs - set seen"
  by (induction xs arbitrary: seen) auto

lemma distinct_dedup_from: "distinct (dedup_from seen xs)"
  by (induction xs arbitrary: seen) (auto simp: set_dedup_from)

lemma set_dedup [simp]: "set (dedup xs) = set xs"
  and distinct_dedup [simp]: "distinct (dedup xs)"
  by (simp_all add: dedup_def set_dedup_from distinct_dedup_from)

lemma dedup_from_distinct: "distinct xs \<Longrightarrow> set xs \<inter> set seen = {} \<Longrightarrow> dedup_from seen xs = xs"
  by (induction xs arbitrary: seen) auto

lemma dedup_id: "distinct xs \<Longrightarrow> dedup xs = xs"
  by (simp add: dedup_def dedup_from_distinct)

lemma dedup_Nil [simp]: "dedup [] = []"
  by (simp add: dedup_def)

lemma dedup_eq_Nil [simp]: "dedup xs = [] \<longleftrightarrow> xs = []"
  by (metis set_dedup set_empty)

text \<open>Map keys with the values of an association list: facts about \<open>map_of\<close> and filters.\<close>

lemma map_of_filter_fst: "map_of (filter (\<lambda>p. fst p \<noteq> k) ps) j = (if j = k then None else map_of ps j)"
  by (induction ps) auto

lemma map_of_filter_key:
  "map_of (filter (\<lambda>p. P (fst p)) ps) j = (if P j then map_of ps j else None)"
  by (induction ps) auto

lemma distinct_map_filter_fst: "distinct (map f xs) \<Longrightarrow> distinct (map f (filter P xs))"
  by (induction xs) auto

lemma map_of_Some_distinct:
  "distinct (map fst ps) \<Longrightarrow> map_of ps k = Some v \<longleftrightarrow> (k, v) \<in> set ps"
  by (rule map_of_eq_Some_iff)

lemma map_of_sub:
  assumes "set qs \<subseteq> set ps" "distinct (map fst ps)" "map_of qs k = Some v"
  shows "map_of ps k = Some v"
proof -
  have "(k, v) \<in> set qs" using assms(3) by (rule map_of_SomeD)
  with assms(1,2) show ?thesis by (auto simp: map_of_Some_distinct)
qed

lemma in_remove1: "x \<in> set xs \<Longrightarrow> x = b \<or> x \<in> set (remove1 b xs)"
  by (induction xs) auto

end
