(* ===== verification/Sql_Table.thy ===== *)
theory Sql_Table
  imports Prelude
begin

text \<open>
  Relational tables and the statements the code issues on them. A table is the list of its
  rows in insertion order; \<open>key\<close> reads a row's primary key (or unique index). The
  statements are those of the query builder calls under \<open>src/\<close>: \<open>INSERT ... ON CONFLICT
  DO NOTHING\<close> (\<open>orm.DoNothingWhenConflict\<close>), \<open>INSERT ... ON CONFLICT DO UPDATE\<close>
  (\<open>orm.UpdateAllWhenConflict\<close>), \<open>DELETE WHERE\<close>, \<open>UPDATE WHERE\<close>, \<open>SELECT WHERE\<close>
  with \<open>ORDER BY\<close> and \<open>COALESCE(MAX(c), 0)\<close>.
\<close>

named_theorems table_simps \<open>effect of the statements on rows and keys\<close>

section \<open>Statements\<close>

definition unique_key :: "('r \<Rightarrow> 'k) \<Rightarrow> 'r list \<Rightarrow> bool" where
  "unique_key key t \<longleftrightarrow> distinct (map key t)"

definition row_at :: "('r \<Rightarrow> 'k) \<Rightarrow> 'r list \<Rightarrow> 'k \<Rightarrow> 'r option" where
  "row_at key t k = find (\<lambda>r. key r = k) t"

definition insert_row :: "('r \<Rightarrow> 'k) \<Rightarrow> 'r \<Rightarrow> 'r list \<Rightarrow> 'r list" where
  "insert_row key r t = (if key r \<in> key ` set t then t else t @ [r])"

definition insert_rows :: "('r \<Rightarrow> 'k) \<Rightarrow> 'r list \<Rightarrow> 'r list \<Rightarrow> 'r list" where
  "insert_rows key rs t = fold (insert_row key) rs t"

definition upsert_row :: "('r \<Rightarrow> 'k) \<Rightarrow> 'r \<Rightarrow> 'r list \<Rightarrow> 'r list" where
  "upsert_row key r t =
     (if key r \<in> key ` set t then map (\<lambda>x. if key x = key r then r else x) t else t @ [r])"

definition delete_where :: "('r \<Rightarrow> bool) \<Rightarrow> 'r list \<Rightarrow> 'r list" where
  "delete_where P t = filter (\<lambda>r. \<not> P r) t"

definition update_where :: "('r \<Rightarrow> bool) \<Rightarrow> ('r \<Rightarrow> 'r) \<Rightarrow> 'r list \<Rightarrow> 'r list" where
  "update_where P f t = map (\<lambda>r. if P r then f r else r) t"

definition rows_affected :: "('r \<Rightarrow> bool) \<Rightarrow> 'r list \<Rightarrow> int" where
  "rows_affected P t = int (length (filter P t))"

definition order_asc :: "('r \<Rightarrow> 'c::linorder) \<Rightarrow> 'r list \<Rightarrow> 'r list" where
  "order_asc c t = sort_key c t"

text \<open>\<open>COALESCE(MAX(c), 0)\<close>: 0 on an empty table.\<close>

definition coalesce_max :: "('r \<Rightarrow> int) \<Rightarrow> 'r list \<Rightarrow> int" where
  "coalesce_max c t = (case map c t of [] \<Rightarrow> 0 | x # xs \<Rightarrow> fold max xs x)"

section \<open>Laws\<close>

lemma row_at_Nil [simp]: "row_at key [] k = None"
  and row_at_Cons [simp]: "row_at key (r # t) k = (if key r = k then Some r else row_at key t k)"
  by (simp_all add: row_at_def)

lemma row_at_append: "row_at key (t @ u) k =
    (case row_at key t k of Some r \<Rightarrow> Some r | None \<Rightarrow> row_at key u k)"
  by (induction t) auto

lemma row_at_None [table_simps]: "row_at key t k = None \<longleftrightarrow> k \<notin> key ` set t"
  by (induction t) auto

lemma row_at_SomeD: "row_at key t k = Some r \<Longrightarrow> r \<in> set t \<and> key r = k"
  by (induction t) (auto split: if_splits)

lemma row_at_Some [table_simps]:
  "unique_key key t \<Longrightarrow> row_at key t k = Some r \<longleftrightarrow> r \<in> set t \<and> key r = k"
  by (induction t) (auto simp: unique_key_def)

lemma unique_Nil [simp]: "unique_key key []"
  by (simp add: unique_key_def)

lemma unique_insert_row [simp]: "unique_key key t \<Longrightarrow> unique_key key (insert_row key r t)"
  by (auto simp: unique_key_def insert_row_def)

lemma map_key_replace: "map key (map (\<lambda>x. if key x = key r then r else x) t) = map key t"
  by (induction t) auto

lemma unique_upsert_row [simp]: "unique_key key t \<Longrightarrow> unique_key key (upsert_row key r t)"
  by (simp only: unique_key_def upsert_row_def map_key_replace split: if_split) auto

lemma unique_delete_where [simp]: "unique_key key t \<Longrightarrow> unique_key key (delete_where P t)"
  by (simp add: unique_key_def delete_where_def distinct_map_filter_fst)

lemma unique_update_where [simp]:
  assumes "\<And>r. key (f r) = key r"
  shows "unique_key key (update_where P f t) = unique_key key t"
proof -
  have "map key (update_where P f t) = map key t" using assms by (auto simp: update_where_def)
  then show ?thesis by (simp add: unique_key_def)
qed

lemma set_delete_where [simp]: "set (delete_where P t) = {r \<in> set t. \<not> P r}"
  by (auto simp: delete_where_def)

lemma set_update_where [simp]: "set (update_where P f t) = (\<lambda>r. if P r then f r else r) ` set t"
  by (simp add: update_where_def)

lemma row_at_replace:
  "row_at key (map (\<lambda>x. if key x = key r then r else x) t) k =
     (if k = key r \<and> k \<in> key ` set t then Some r else row_at key t k)"
  by (induction t) auto

lemma row_at_upsert:
  "row_at key (upsert_row key r t) k = (if k = key r then Some r else row_at key t k)"
proof (cases "key r \<in> key ` set t")
  case True
  then show ?thesis by (simp add: upsert_row_def row_at_replace)
next
  case False
  then have "row_at key t (key r) = None" by (simp add: row_at_None)
  with False show ?thesis
    by (cases "row_at key t k") (auto simp only: upsert_row_def row_at_append if_False option.case
        row_at_Cons row_at_Nil split: if_split)
qed

lemma row_at_insert_row:
  "row_at key (insert_row key r t) k =
     (case row_at key t k of Some x \<Rightarrow> Some x | None \<Rightarrow> if k = key r then Some r else None)"
proof (cases "key r \<in> key ` set t")
  case True
  then have "row_at key t (key r) \<noteq> None" by (simp add: row_at_None)
  with True show ?thesis by (cases "row_at key t k") (auto simp only: insert_row_def if_True option.case split: if_split)
next
  case False
  then show ?thesis
    by (cases "row_at key t k") (simp_all add: insert_row_def row_at_append)
qed

lemma rows_affected_nonneg [simp]: "0 \<le> rows_affected P t"
  by (simp add: rows_affected_def)

lemma rows_affected_delete:
  "rows_affected P t = int (length t) - int (length (delete_where P t))"
  using sum_length_filter_compl [of P t] by (simp add: rows_affected_def delete_where_def)

lemma order_asc_props [simp]: "set (order_asc c t) = set t" "mset (order_asc c t) = mset t"
  "sorted (map c (order_asc c t))"
  by (simp_all add: order_asc_def)

lemma coalesce_max_upper: "r \<in> set t \<Longrightarrow> c r \<le> coalesce_max c t"
proof -
  have "fold max xs x \<ge> x \<and> (\<forall>y \<in> set xs. y \<le> fold max xs x)" for xs and x :: int
    by (induction xs arbitrary: x) (auto, (meson max.bounded_iff)+)
  then show "r \<in> set t \<Longrightarrow> ?thesis"
    by (auto simp: coalesce_max_def split: list.splits)
qed

lemma fold_max_in: "fold max xs (x :: int) \<in> insert x (set xs)"
proof (induction xs arbitrary: x)
  case (Cons y ys)
  from Cons [of "max y x"] show ?case by (auto simp: max_def split: if_splits)
qed simp

lemma coalesce_max_in:
  assumes "t \<noteq> []"
  shows "\<exists>r \<in> set t. coalesce_max c t = c r"
proof (cases t)
  case (Cons r rs)
  have "fold max (map c rs) (c r) \<in> c ` set t"
    using fold_max_in [of "map c rs" "c r"] Cons by auto
  then show ?thesis using Cons by (auto simp: coalesce_max_def)
qed (use assms in simp)

lemma coalesce_max_Nil [simp]: "coalesce_max c [] = 0"
  by (simp add: coalesce_max_def)


section \<open>The interface of a table with a conflict clause\<close>

text \<open>
  What the collectors rely on when they insert with \<open>ON CONFLICT DO NOTHING\<close>: a row
  already stored under a key is never touched, and an absent key gets the first row offered
  for it.
\<close>

locale conflict_store =
  fixes look :: "'t \<Rightarrow> 'k \<Rightarrow> 'r option"
    and rkey :: "'r \<Rightarrow> 'k"
    and ins :: "'r \<Rightarrow> 't \<Rightarrow> 't"
    and ok :: "'t \<Rightarrow> bool"
  assumes ok_ins: "ok t \<Longrightarrow> ok (ins r t)"
    and look_ins: "ok t \<Longrightarrow> look (ins r t) k =
      (case look t k of Some x \<Rightarrow> Some x | None \<Rightarrow> if k = rkey r then Some r else None)"
begin

lemma ok_fold: "ok t \<Longrightarrow> ok (fold ins rs t)"
  by (induction rs arbitrary: t) (auto simp: ok_ins)

lemma look_fold:
  "ok t \<Longrightarrow> look (fold ins rs t) k =
     (case look t k of Some x \<Rightarrow> Some x | None \<Rightarrow> find (\<lambda>r. rkey r = k) rs)"
proof (induction rs arbitrary: t)
  case Nil
  then show ?case by (simp split: option.splits)
next
  case (Cons r rs)
  then show ?case by (auto simp: ok_ins look_ins split: option.splits)
qed

lemma look_stable: "ok t \<Longrightarrow> look t k = Some x \<Longrightarrow> look (fold ins rs t) k = Some x"
  by (simp add: look_fold)

lemma look_covers: "ok t \<Longrightarrow> r \<in> set rs \<Longrightarrow> look (fold ins rs t) (rkey r) \<noteq> None"
  using find_None_iff [of "\<lambda>x. rkey x = rkey r" rs]
  by (auto simp: look_fold split: option.splits)

lemma look_new:
  "ok t \<Longrightarrow> look t (rkey r) = None \<Longrightarrow> r \<in> set rs \<Longrightarrow> inj_on rkey (set rs) \<Longrightarrow>
   look (fold ins rs t) (rkey r) = Some r"
proof -
  assume a: "ok t" "look t (rkey r) = None" "r \<in> set rs" "inj_on rkey (set rs)"
  then obtain x where x: "look (fold ins rs t) (rkey r) = Some x" using look_covers by blast
  with a(1,2) have "find (\<lambda>s. rkey s = rkey r) rs = Some x" by (simp add: look_fold)
  then have "x \<in> set rs" "rkey x = rkey r" by (auto simp: find_Some_iff)
  with a(3,4) x show ?thesis by (auto dest: inj_onD)
qed

end

text \<open>Rerunning an insert changes nothing: the collectors may see a block twice.\<close>

lemma insert_rows_Cons: "insert_rows key (r # rs) t = insert_rows key rs (insert_row key r t)"
  and insert_rows_Nil [simp]: "insert_rows key [] t = t"
  by (simp_all add: insert_rows_def)

lemma unique_insert_rows [simp]: "unique_key key t \<Longrightarrow> unique_key key (insert_rows key rs t)"
  by (induction rs arbitrary: t) (simp_all add: insert_rows_Cons)

lemma keys_insert_rows: "key ` set (insert_rows key rs t) = key ` set t \<union> key ` set rs"
proof (induction rs arbitrary: t)
  case (Cons r rs)
  have "key ` set (insert_row key r t) = insert (key r) (key ` set t)"
    by (auto simp: insert_row_def)
  with Cons show ?case by (simp add: insert_rows_Cons)
qed simp

lemma insert_rows_present: "key ` set rs \<subseteq> key ` set t \<Longrightarrow> insert_rows key rs t = t"
  by (induction rs) (auto simp: insert_rows_Cons insert_row_def)

lemma insert_rows_idem: "insert_rows key rs (insert_rows key rs t) = insert_rows key rs t"
  by (rule insert_rows_present) (simp add: keys_insert_rows)

lemma insert_rows_extends: "\<exists>u. insert_rows key rs t = t @ u \<and> set u \<subseteq> set rs"
proof (induction rs arbitrary: t)
  case (Cons r rs)
  obtain u where u: "insert_rows key rs (insert_row key r t) = insert_row key r t @ u" "set u \<subseteq> set rs"
    using Cons by blast
  then show ?case by (auto simp: insert_rows_Cons insert_row_def)
qed simp

lemma insert_rows_append: "insert_rows key (rs @ ss) t = insert_rows key ss (insert_rows key rs t)"
  by (simp add: insert_rows_def)

text \<open>Rows with fresh, distinct keys are all appended, in order.\<close>

lemma insert_rows_fresh:
  "distinct (map key rs) \<Longrightarrow> key ` set rs \<inter> key ` set t = {} \<Longrightarrow> insert_rows key rs t = t @ rs"
proof (induction rs arbitrary: t)
  case (Cons r rs)
  have "insert_row key r t = t @ [r]" using Cons.prems by (auto simp: insert_row_def)
  moreover have "insert_rows key rs (t @ [r]) = (t @ [r]) @ rs"
    using Cons.prems by (intro Cons.IH) auto
  ultimately show ?case by (simp add: insert_rows_Cons)
qed simp

end
