(* ===== verification/Hex_Addr.thy ===== *)
theory Hex_Addr
  imports Prelude
begin

text \<open>
  Hex strings and account addresses: \<open>src/util/util.go\<close>. A Go string is a sequence of
  bytes, modelled as a \<open>string\<close> (a \<open>char\<close> is one byte); a Go \<open>[]byte\<close> is a list of
  8-bit words. \<open>strings.HasPrefix\<close>, \<open>TrimPrefix\<close>, \<open>TrimLeft\<close>, \<open>ToLower\<close> and the
  package \<open>encoding/hex\<close> are the Go standard library. \<open>ToLower\<close> is written for ASCII:
  no other code point lower-cases to a hex digit, so both versions reject such input.
  The bech32 decoder of the Cosmos SDK is the argument \<open>from_bech32\<close>.
\<close>

type_synonym byte = "8 word"

named_theorems hex_simps \<open>facts about hex digits and the string helpers\<close>

section \<open>The string functions the code uses\<close>

definition has_prefix :: "string \<Rightarrow> string \<Rightarrow> bool" where
  "has_prefix s p \<longleftrightarrow> take (length p) s = p"

definition trim_prefix :: "string \<Rightarrow> string \<Rightarrow> string" where
  "trim_prefix s p = (if has_prefix s p then drop (length p) s else s)"

definition trim_left :: "string \<Rightarrow> char \<Rightarrow> string" where
  "trim_left s c = dropWhile (\<lambda>d. d = c) s"

definition lower_char :: "char \<Rightarrow> char" where
  "lower_char c = (let n = (of_char c :: nat) in
     if 65 \<le> n \<and> n \<le> 90 then char_of (n + 32) else c)"

definition to_lower :: "string \<Rightarrow> string" where
  "to_lower s = map lower_char s"

definition hex_val :: "char \<Rightarrow> nat option" where
  "hex_val c = (let n = (of_char c :: nat) in
     if 48 \<le> n \<and> n \<le> 57 then Some (n - 48)
     else if 97 \<le> n \<and> n \<le> 102 then Some (n - 87)
     else if 65 \<le> n \<and> n \<le> 70 then Some (n - 55)
     else None)"

definition hex_digit :: "nat \<Rightarrow> char" where
  "hex_digit n = char_of (if n < 10 then 48 + n else 87 + n)"

fun hex_decode :: "string \<Rightarrow> err + byte list" where
  "hex_decode [] = Inr []"
| "hex_decode [c] = Inl (DecodeErr ''encoding/hex: odd length hex string'')"
| "hex_decode (c # d # cs) =
     (case (hex_val c, hex_val d) of
        (Some h, Some l) \<Rightarrow> rbind (hex_decode cs) (\<lambda>bs. Inr (of_nat (16 * h + l) # bs))
      | _ \<Rightarrow> Inl (DecodeErr ''encoding/hex: invalid byte''))"

fun hex_encode :: "byte list \<Rightarrow> string" where
  "hex_encode [] = []"
| "hex_encode (b # bs) = hex_digit (unat b div 16) # hex_digit (unat b mod 16) # hex_encode bs"


section \<open>The functions of util.go\<close>

definition AccAddressFromString :: "(string \<Rightarrow> byte list option) \<Rightarrow> string \<Rightarrow> err + byte list" where
  "AccAddressFromString from_bech32 addrStr =
     (case (if \<not> has_prefix addrStr ''0x'' then from_bech32 addrStr else None) of
        Some addr \<Rightarrow> Inr addr
      | None \<Rightarrow>
         (let hexStr = to_lower (trim_left (trim_prefix addrStr ''0x'') (CHR ''0'')) in
          if length hexStr \<le> 40 then hex_decode (replicate (40 - length hexStr) (CHR ''0'') @ hexStr)
          else if length hexStr \<le> 64 then hex_decode (replicate (64 - length hexStr) (CHR ''0'') @ hexStr)
          else Inl (InvalidValue ''address'' addrStr ''invalid address format'')))"

definition HexToBytes :: "string \<Rightarrow> err + byte list" where
  "HexToBytes s =
     (let hexStr = trim_prefix s ''0x'' in
      if hexStr = '''' then Inr []
      else if length hexStr mod 2 = 1 then hex_decode (CHR ''0'' # hexStr)
      else hex_decode hexStr)"

definition BytesToHex :: "byte list \<Rightarrow> string" where
  "BytesToHex b = hex_encode b"

definition BytesToHexWithPrefix :: "byte list \<Rightarrow> string" where
  "BytesToHexWithPrefix b = ''0x'' @ hex_encode b"

definition BytesToHexWithPrefixIfPresent :: "byte list \<Rightarrow> string" where
  "BytesToHexWithPrefixIfPresent b = (if length b = 0 then '''' else ''0x'' @ hex_encode b)"


section \<open>Hex digits\<close>

lemma hex_val_digit [simp, hex_simps]: "n < 16 \<Longrightarrow> hex_val (hex_digit n) = Some n"
  by (auto simp: hex_val_def hex_digit_def Let_def)

lemma hex_val_bound: "hex_val c = Some n \<Longrightarrow> n < 16"
  by (auto simp: hex_val_def Let_def split: if_splits)

lemma hex_digit_val: "hex_val c = Some n \<Longrightarrow> hex_digit n = lower_char c"
proof -
  assume "hex_val c = Some n"
  moreover have "(of_char c :: nat) < 256" by simp
  ultimately show ?thesis
    by (auto simp: hex_val_def hex_digit_def lower_char_def Let_def split: if_splits)
qed

lemma lower_char_idem [simp]: "lower_char (lower_char c) = lower_char c"
  by (auto simp: lower_char_def Let_def)

lemma is_zero: "c = CHR ''0'' \<longleftrightarrow> (of_char c :: nat) = 48"
proof -
  have "(of_char (CHR ''0'') :: nat) = 48" by simp
  then show ?thesis by (metis of_char_eq_iff)
qed

lemma lower_char_zero [simp]: "lower_char c = CHR ''0'' \<longleftrightarrow> c = CHR ''0''"
proof -
  have "(of_char (lower_char c) :: nat) = 48 \<longleftrightarrow> (of_char c :: nat) = 48"
    by (auto simp: lower_char_def Let_def)
  then show ?thesis by (simp only: is_zero)
qed

lemma hex_val_lower [simp]: "hex_val (lower_char c) = hex_val c"
  by (auto simp: hex_val_def lower_char_def Let_def)

lemma lower_hex_digit [simp, hex_simps]: "n < 16 \<Longrightarrow> lower_char (hex_digit n) = hex_digit n"
  by (auto simp: lower_char_def hex_digit_def Let_def)

lemma hex_digit_zero: "hex_digit 0 = CHR ''0''"
  by (simp add: is_zero hex_digit_def)


section \<open>Encoding and decoding\<close>

lemma length_hex_encode [simp]: "length (hex_encode bs) = 2 * length bs"
  by (induction bs) auto

lemma hex_decode_encode [simp, hex_simps]: "hex_decode (hex_encode bs) = Inr bs"
proof (induction bs)
  case (Cons b bs)
  have "unat b < 2 ^ LENGTH(8)" by (rule unsigned_less)
  then have "unat b < 256" by simp
  then have "unat b div 16 < 16" "16 * (unat b div 16) + unat b mod 16 = unat b" by auto
  with Cons show ?case by simp
qed simp

lemma hex_decode_length: "hex_decode s = Inr bs \<Longrightarrow> length s = 2 * length bs"
  by (induction s arbitrary: bs rule: hex_decode.induct)
     (auto simp: rbind_eq_Inr split: option.splits)

lemma hex_encode_decode: "hex_decode s = Inr bs \<Longrightarrow> hex_encode bs = to_lower s"
proof (induction s arbitrary: bs rule: hex_decode.induct)
  case (3 c d cs)
  then obtain h l bs' where h: "hex_val c = Some h" "hex_val d = Some l"
    and bs': "hex_decode cs = Inr bs'" "bs = of_nat (16 * h + l) # bs'"
    by (auto simp: rbind_eq_Inr split: option.splits)
  have hl: "h < 16" "l < 16" using h by (auto dest: hex_val_bound)
  then have "unat (of_nat (16 * h + l) :: byte) = 16 * h + l"
    by (simp only: unat_of_nat) simp
  with hl h bs' "3.IH" show ?case
    by (auto simp: to_lower_def hex_digit_val simp del: of_nat_add of_nat_mult)
qed (simp_all add: to_lower_def)

lemma to_lower_hex_encode [simp, hex_simps]: "to_lower (hex_encode bs) = hex_encode bs"
  using hex_encode_decode [OF hex_decode_encode] by (rule sym)

lemma hex_decode_lower: "hex_decode (to_lower s) = hex_decode s"
  by (induction s rule: hex_decode.induct) (auto simp: to_lower_def split: option.splits)

text \<open>\<open>hex_decode\<close> fails only on an odd length or a character that is no hex digit.\<close>

lemma hex_decode_ok_iff:
  "(\<exists>bs. hex_decode s = Inr bs) \<longleftrightarrow> even (length s) \<and> (\<forall>c \<in> set s. hex_val c \<noteq> None)"
  by (induction s rule: hex_decode.induct)
     (auto simp: rbind_eq_Inr split: option.splits)

lemma has_prefix_0x [simp]: "has_prefix (CHR ''0'' # CHR ''x'' # s) ''0x''"
  and trim_prefix_0x [simp]: "trim_prefix (CHR ''0'' # CHR ''x'' # s) ''0x'' = s"
  by (simp_all add: has_prefix_def trim_prefix_def)

lemma hex_encode_Nil [simp]: "hex_encode bs = [] \<longleftrightarrow> bs = []"
  by (cases bs) auto

lemma HexToBytes_prefix: "HexToBytes (BytesToHexWithPrefix bs) = Inr bs"
  by (auto simp: HexToBytes_def BytesToHexWithPrefix_def Let_def)


section \<open>Addresses\<close>

text \<open>The digits of a \<open>0x\<close> address without its leading zeros, padded to 20 or 32 bytes.\<close>

definition pad_address :: "string \<Rightarrow> string" where
  "pad_address hexStr =
     replicate ((if length hexStr \<le> 40 then 40 else 64) - length hexStr) (CHR ''0'') @ hexStr"

lemma AccAddressFromString_0x:
  "AccAddressFromString dec (CHR ''0'' # CHR ''x'' # s) =
     (let h = to_lower (trim_left s (CHR ''0'')) in
      if length h \<le> 64 then hex_decode (pad_address h)
      else Inl (InvalidValue ''address'' (''0x'' @ s) ''invalid address format''))"
  by (simp add: AccAddressFromString_def pad_address_def Let_def)

lemma to_lower_trim_left: "to_lower (trim_left s (CHR ''0'')) = trim_left (to_lower s) (CHR ''0'')"
  by (simp add: to_lower_def trim_left_def dropWhile_map o_def)

lemma trim_left_idem [simp]: "trim_left (trim_left s c) c = trim_left s c"
  by (simp add: trim_left_def)

lemma trim_left_replicate [simp]: "trim_left (replicate n c @ s) c = trim_left s c"
  by (simp add: trim_left_def dropWhile_append)

lemma to_lower_replicate_zero [simp]: "to_lower (replicate n (CHR ''0'') @ s) = replicate n (CHR ''0'') @ to_lower s"
proof -
  have "lower_char (CHR ''0'') = CHR ''0''" by (simp only: lower_char_zero)
  then show ?thesis by (simp only: to_lower_def map_append map_replicate)
qed

lemma to_lower_idem [simp]: "to_lower (to_lower s) = to_lower s"
  by (simp add: to_lower_def o_def)

lemma trim_left_pad [simp]: "trim_left (pad_address h) (CHR ''0'') = trim_left h (CHR ''0'')"
  by (simp add: pad_address_def)

lemma length_pad: "length h \<le> 64 \<Longrightarrow> length (pad_address h) = 40 \<or> length (pad_address h) = 64"
  by (auto simp: pad_address_def)

text \<open>
  A \<open>0x\<close> address is either 20 or 32 bytes long, and its own hex form is read back to
  the same bytes: the parsed address is a normal form.
\<close>

lemma AccAddressFromString_normal:
  assumes "AccAddressFromString dec (''0x'' @ s) = Inr b"
  shows "length b = 20 \<or> length b = 32"
    and "AccAddressFromString dec' (BytesToHexWithPrefix b) = Inr b"
proof -
  define h where "h = to_lower (trim_left s (CHR ''0''))"
  from assms have dec: "hex_decode (pad_address h) = Inr b" and len: "length h \<le> 64"
    by (auto simp: AccAddressFromString_0x Let_def h_def split: if_splits)
  from hex_decode_length [OF dec] length_pad [OF len]
  show "length b = 20 \<or> length b = 32" by auto
  have low: "to_lower h = h" by (simp add: h_def)
  have trim: "trim_left h (CHR ''0'') = h" by (simp add: h_def to_lower_trim_left)
  have enc: "hex_encode b = pad_address h"
    using hex_encode_decode [OF dec] low by (simp add: pad_address_def)
  have "to_lower (trim_left (hex_encode b) (CHR ''0'')) = h"
    by (simp add: enc trim low)
  then show "AccAddressFromString dec' (BytesToHexWithPrefix b) = Inr b"
    using dec len by (simp add: BytesToHexWithPrefix_def AccAddressFromString_0x Let_def)
qed

text \<open>Leading zeros do not matter: an EVM topic and the address it pads are the same account.\<close>

lemma AccAddressFromString_padding:
  "AccAddressFromString dec (''0x'' @ replicate n (CHR ''0'') @ s) = Inr b \<longleftrightarrow>
   AccAddressFromString dec (''0x'' @ s) = Inr b"
  by (simp add: AccAddressFromString_0x Let_def)

end
