(* ===== verification/Base64.thy ===== *)
theory Base64
  imports Hex_Addr
begin

text \<open>
  The base64 codec of Go's standard library as the code uses it (\<open>base64.StdEncoding\<close>:
  raw transactions, signatures, pagination keys) and the upper-case hexadecimal of the verb
  \<open>%X\<close> in which transaction hashes are written. The decoder skips line breaks, wants the
  padding, and does not look at the bits the padding leaves over.
\<close>

section \<open>The alphabet\<close>

definition b64_char :: "nat \<Rightarrow> char" where
  "b64_char n = char_of (if n < 26 then 65 + n else if n < 52 then 71 + n
     else if n < 62 then n - 4 else if n = 62 then 43 else 47)"

definition b64_val :: "char \<Rightarrow> nat option" where
  "b64_val c = (let n = (of_char c :: nat) in
     if 65 \<le> n \<and> n \<le> 90 then Some (n - 65)
     else if 97 \<le> n \<and> n \<le> 122 then Some (n - 71)
     else if 48 \<le> n \<and> n \<le> 57 then Some (n + 4)
     else if n = 43 then Some 62
     else if n = 47 then Some 63
     else None)"

lemma b64_val_char [simp]: "n < 64 \<Longrightarrow> b64_val (b64_char n) = Some n"
  by (auto simp: b64_val_def b64_char_def Let_def)

lemma pad_no_value [simp]: "b64_val (CHR ''='') = None"
  by (simp add: b64_val_def)

lemma b64_char_not_pad [simp]: "n < 64 \<Longrightarrow> b64_char n \<noteq> CHR ''=''"
  using b64_val_char pad_no_value by (metis option.distinct(1))


section \<open>Encoding\<close>

fun EncodeToString :: "byte list \<Rightarrow> string" where
  "EncodeToString [] = []"
| "EncodeToString [a] =
     [b64_char (unat a div 4), b64_char (unat a mod 4 * 16), CHR ''='', CHR ''='']"
| "EncodeToString [a, b] =
     [b64_char (unat a div 4), b64_char (unat a mod 4 * 16 + unat b div 16),
      b64_char (unat b mod 16 * 4), CHR ''='']"
| "EncodeToString (a # b # c # bs) =
     b64_char (unat a div 4) # b64_char (unat a mod 4 * 16 + unat b div 16) #
     b64_char (unat b mod 16 * 4 + unat c div 64) # b64_char (unat c mod 64) # EncodeToString bs"


section \<open>Strings and bytes\<close>

definition string_of_bytes :: "byte list \<Rightarrow> string" where
  "string_of_bytes = map (\<lambda>b. char_of (unat b))"

definition bytes_of_string :: "string \<Rightarrow> byte list" where
  "bytes_of_string = map (\<lambda>c. word_of_nat (of_char c))"

lemma string_of_bytes_of_string [simp]: "string_of_bytes (bytes_of_string s) = s"
  by (induction s) (simp_all add: string_of_bytes_def bytes_of_string_def unat_of_nat)


section \<open>Decoding\<close>

definition b64_error :: err where
  "b64_error = DecodeErr ''illegal base64 data''"

definition b64_vals :: "string \<Rightarrow> nat list option" where
  "b64_vals cs = (let vs = map b64_val cs in if None \<in> set vs then None else Some (map the vs))"

fun decode_quanta :: "string \<Rightarrow> err + byte list" where
  "decode_quanta [] = Inr []"
| "decode_quanta (c1 # c2 # c3 # c4 # cs) =
     (if c4 = CHR ''='' \<and> cs = [] then
        (if c3 = CHR ''='' then
           (case b64_vals [c1, c2] of
              Some [v1, v2] \<Rightarrow> Inr [of_nat (v1 * 4 + v2 div 16)]
            | _ \<Rightarrow> Inl b64_error)
         else
           (case b64_vals [c1, c2, c3] of
              Some [v1, v2, v3] \<Rightarrow>
                Inr [of_nat (v1 * 4 + v2 div 16), of_nat (v2 mod 16 * 16 + v3 div 4)]
            | _ \<Rightarrow> Inl b64_error))
      else
        (case b64_vals [c1, c2, c3, c4] of
           Some [v1, v2, v3, v4] \<Rightarrow> rbind (decode_quanta cs) (\<lambda>bs.
             Inr (of_nat (v1 * 4 + v2 div 16) # of_nat (v2 mod 16 * 16 + v3 div 4) #
                  of_nat (v3 mod 4 * 64 + v4) # bs))
         | _ \<Rightarrow> Inl b64_error))"
| "decode_quanta _ = Inl b64_error"

definition DecodeString :: "string \<Rightarrow> err + byte list" where
  "DecodeString s = decode_quanta (filter (\<lambda>c. of_char c \<noteq> (10 :: nat) \<and> of_char c \<noteq> (13 :: nat)) s)"


section \<open>The round trip\<close>

lemma unat_byte: "unat (b :: byte) < 256"
  using unsigned_less [of b] by simp

lemma regroup:
  fixes a b c :: nat
  assumes "a < 256" "b < 256" "c < 256"
  shows "a div 4 * 4 + (a mod 4 * 16 + b div 16) div 16 = a"
    and "(a mod 4 * 16 + b div 16) mod 16 * 16 + (b mod 16 * 4 + c div 64) div 4 = b"
    and "(b mod 16 * 4 + c div 64) mod 4 * 64 + c mod 64 = c"
    and "a div 4 < 64" "a mod 4 * 16 + b div 16 < 64" "b mod 16 * 4 + c div 64 < 64" "c mod 64 < 64"
proof -
  have b16: "b div 16 < 16" and c64: "c div 64 < 4" using assms by auto
  show "a div 4 * 4 + (a mod 4 * 16 + b div 16) div 16 = a" using b16 by simp
  show "(a mod 4 * 16 + b div 16) mod 16 * 16 + (b mod 16 * 4 + c div 64) div 4 = b"
    using b16 c64 by simp
  show "(b mod 16 * 4 + c div 64) mod 4 * 64 + c mod 64 = c" using c64 by simp
  show "a div 4 < 64" using assms by auto
  show "a mod 4 * 16 + b div 16 < 64" using b16 mod_less_divisor [of 4 a] by linarith
  show "b mod 16 * 4 + c div 64 < 64" using c64 mod_less_divisor [of 16 b] by linarith
  show "c mod 64 < 64" by simp
qed

lemma b64_char_no_break: "n < 64 \<Longrightarrow> of_char (b64_char n) \<noteq> (10 :: nat) \<and> of_char (b64_char n) \<noteq> (13 :: nat)"
  by (auto simp: b64_char_def)

lemma encode_chars: "c \<in> set (EncodeToString bs) \<Longrightarrow> c = CHR ''='' \<or> (\<exists>n < 64. c = b64_char n)"
proof (induction bs rule: EncodeToString.induct)
  case (2 a)
  with regroup(4,5) [OF unat_byte [of a] unat_byte [of 0] unat_byte [of 0]] show ?case
    by (simp only: EncodeToString.simps list.set insert_iff empty_iff unat_0 div_0 add_0_right) blast
next
  case (3 a b)
  with regroup(4-6) [OF unat_byte [of a] unat_byte [of b] unat_byte [of 0]] show ?case
    by (simp only: EncodeToString.simps list.set insert_iff empty_iff unat_0 div_0 add_0_right) blast
next
  case (4 a b c bs)
  with regroup(4-7) [OF unat_byte [of a] unat_byte [of b] unat_byte [of c]] show ?case
    by (simp only: EncodeToString.simps list.set insert_iff) blast
qed simp

lemma encode_no_break:
  "filter (\<lambda>c. of_char c \<noteq> (10 :: nat) \<and> of_char c \<noteq> (13 :: nat)) (EncodeToString bs) = EncodeToString bs"
proof (rule filter_True, rule ballI)
  fix c assume "c \<in> set (EncodeToString bs)"
  then show "of_char c \<noteq> (10 :: nat) \<and> of_char c \<noteq> (13 :: nat)"
    using encode_chars b64_char_no_break by fastforce
qed

lemma decode_quantum:
  assumes "v1 < 64" "v2 < 64" "v3 < 64" "v4 < 64"
  shows "decode_quanta [b64_char v1, b64_char v2, CHR ''='', CHR ''=''] = Inr [of_nat (v1 * 4 + v2 div 16)]"
    and "decode_quanta [b64_char v1, b64_char v2, b64_char v3, CHR ''=''] =
      Inr [of_nat (v1 * 4 + v2 div 16), of_nat (v2 mod 16 * 16 + v3 div 4)]"
    and "decode_quanta (b64_char v1 # b64_char v2 # b64_char v3 # b64_char v4 # cs) =
      rbind (decode_quanta cs) (\<lambda>bs. Inr (of_nat (v1 * 4 + v2 div 16) #
        of_nat (v2 mod 16 * 16 + v3 div 4) # of_nat (v3 mod 4 * 64 + v4) # bs))"
proof -
  have vals: "b64_vals [b64_char v1, b64_char v2] = Some [v1, v2]"
    "b64_vals [b64_char v1, b64_char v2, b64_char v3] = Some [v1, v2, v3]"
    "b64_vals [b64_char v1, b64_char v2, b64_char v3, b64_char v4] = Some [v1, v2, v3, v4]"
    using assms by (simp_all add: b64_vals_def)
  have nopad: "b64_char v3 \<noteq> CHR ''=''" "b64_char v4 \<noteq> CHR ''=''" using assms by simp_all
  show "decode_quanta [b64_char v1, b64_char v2, CHR ''='', CHR ''=''] = Inr [of_nat (v1 * 4 + v2 div 16)]"
    by (simp only: decode_quanta.simps vals option.case list.case simp_thms if_True)
  show "decode_quanta [b64_char v1, b64_char v2, b64_char v3, CHR ''=''] =
      Inr [of_nat (v1 * 4 + v2 div 16), of_nat (v2 mod 16 * 16 + v3 div 4)]"
    by (simp only: decode_quanta.simps vals nopad option.case list.case simp_thms if_True if_False)
  show "decode_quanta (b64_char v1 # b64_char v2 # b64_char v3 # b64_char v4 # cs) =
      rbind (decode_quanta cs) (\<lambda>bs. Inr (of_nat (v1 * 4 + v2 div 16) #
        of_nat (v2 mod 16 * 16 + v3 div 4) # of_nat (v3 mod 4 * 64 + v4) # bs))"
    by (simp only: decode_quanta.simps vals nopad option.case list.case simp_thms if_False)
qed

lemma decode_quanta_encode: "decode_quanta (EncodeToString bs) = Inr bs"
proof (induction bs rule: EncodeToString.induct)
  case (2 a)
  note r = regroup [OF unat_byte [of a] unat_byte [of 0] unat_byte [of 0], unfolded unat_0 div_0 add_0_right]
  show ?case by (simp only: EncodeToString.simps decode_quantum(1) [OF r(4,5,4,4)] r(1) of_nat_unat ucast_id)
next
  case (3 a b)
  note r = regroup [OF unat_byte [of a] unat_byte [of b] unat_byte [of 0], unfolded unat_0 div_0 add_0_right]
  show ?case by (simp only: EncodeToString.simps decode_quantum(2) [OF r(4,5,6,4)] r(1,2) of_nat_unat ucast_id)
next
  case (4 a b c bs)
  note r = regroup [OF unat_byte [of a] unat_byte [of b] unat_byte [of c]]
  show ?case
    by (simp only: EncodeToString.simps decode_quantum(3) [OF r(4-7)] r(1-3) of_nat_unat ucast_id 4 rbind.simps)
qed simp

lemma DecodeString_EncodeToString [simp]: "DecodeString (EncodeToString bs) = Inr bs"
  by (simp add: DecodeString_def encode_no_break decode_quanta_encode)

lemma EncodeToString_inj: "EncodeToString a = EncodeToString b \<longleftrightarrow> a = b"
  by (metis DecodeString_EncodeToString sum.inject(2))

lemma EncodeToString_Nil [simp]: "EncodeToString bs = [] \<longleftrightarrow> bs = []"
  by (cases bs rule: EncodeToString.cases) auto

lemma comma_not_encoded: "CHR '','' \<notin> set (EncodeToString bs)"
proof
  assume "CHR '','' \<in> set (EncodeToString bs)"
  then have "CHR '','' = CHR ''='' \<or> (\<exists>n < 64. CHR '','' = b64_char n)" by (rule encode_chars)
  moreover have "b64_val (CHR '','') = None" by (simp add: b64_val_def)
  moreover have "b64_val (CHR '','') \<noteq> None" if "n < 64" "CHR '','' = b64_char n" for n
    unfolding that(2) b64_val_char [OF that(1)] by (rule option.simps)
  moreover have "CHR '','' \<noteq> CHR ''=''" by simp
  ultimately show False by blast
qed


section \<open>Upper-case hexadecimal\<close>

definition upper_char :: "char \<Rightarrow> char" where
  "upper_char c = (let n = (of_char c :: nat) in
     if 97 \<le> n \<and> n \<le> 122 then char_of (n - 32) else c)"

definition to_upper :: "string \<Rightarrow> string" where
  "to_upper s = map upper_char s"

definition hex_upper :: "byte list \<Rightarrow> string" where
  "hex_upper bs = to_upper (hex_encode bs)"

lemma hex_val_upper [simp]: "hex_val (upper_char c) = hex_val c"
  by (auto simp: hex_val_def upper_char_def Let_def)

lemma hex_decode_upper: "hex_decode (to_upper s) = hex_decode s"
  by (induction s rule: hex_decode.induct) (auto simp: to_upper_def split: option.splits)

lemma has_prefix_second: "has_prefix (to_upper s) ''0x'' \<Longrightarrow> False"
proof -
  assume "has_prefix (to_upper s) ''0x''"
  then obtain c d t where "s = c # d # t" "upper_char d = CHR ''x''"
    by (cases s; cases "tl s") (auto simp: has_prefix_def to_upper_def)
  moreover have "upper_char d \<noteq> CHR ''x''"
  proof
    assume a: "upper_char d = CHR ''x''"
    have "of_char (upper_char d) = (120 :: nat)" unfolding a by simp
    then show False by (auto simp: upper_char_def Let_def split: if_splits)
  qed
  ultimately show False by simp
qed

lemma HexToBytes_upper [simp]: "HexToBytes (hex_upper bs) = Inr bs"
proof -
  have "trim_prefix (hex_upper bs) ''0x'' = hex_upper bs"
    using has_prefix_second by (auto simp: trim_prefix_def hex_upper_def)
  moreover have "length (hex_upper bs) = 2 * length bs"
    by (simp add: hex_upper_def to_upper_def)
  ultimately show ?thesis
    by (cases bs) (auto simp: HexToBytes_def Let_def hex_upper_def hex_decode_upper simp del: hex_encode.simps)
qed

end
