(* ===== verification/Json.thy ===== *)
theory Json
  imports Base64
begin

text \<open>
  The part of Go's \<open>encoding/json\<close> the program uses: \<open>Unmarshal\<close> of a text into a
  struct (the text is checked as a whole first, then decoded field by field) and
  \<open>Marshal\<close> of strings, lists and structs. A string is its bytes; ill-formed UTF-8 is
  replaced by U+FFFD in both directions, as the library does. Not modelled: the fold of the
  two non-ASCII letters that match \<open>s\<close> and \<open>k\<close> in a field name, and the nesting limit.
\<close>

datatype json =
    JNull
  | JBool bool
  | JNum string
  | JStr string
  | JArr "json list"
  | JObj "(string \<times> json) list"

definition syntax_error :: err where
  "syntax_error = DecodeErr ''json: syntax error''"

definition type_error :: err where
  "type_error = DecodeErr ''json: cannot unmarshal''"


section \<open>UTF-8\<close>

definition rune_error :: nat where
  "rune_error = 65533"

definition code :: "string \<Rightarrow> nat \<Rightarrow> nat" where
  "code s i = (if i < length s then of_char (s ! i) else 0)"

definition cont :: "string \<Rightarrow> nat \<Rightarrow> bool" where
  "cont s i \<longleftrightarrow> 128 \<le> code s i \<and> code s i < 192"

definition DecodeRune :: "string \<Rightarrow> nat \<times> nat" where
  "DecodeRune s = (let b0 = code s 0; b1 = code s 1 in
     if b0 < 128 then (b0, 1)
     else if 194 \<le> b0 \<and> b0 < 224 \<and> cont s 1 then ((b0 - 192) * 64 + (b1 - 128), 2)
     else if 224 \<le> b0 \<and> b0 < 240 \<and> cont s 1 \<and> cont s 2 \<and> (b0 = 224 \<longrightarrow> 160 \<le> b1) \<and> (b0 = 237 \<longrightarrow> b1 < 160)
       then ((b0 - 224) * 4096 + (b1 - 128) * 64 + (code s 2 - 128), 3)
     else if 240 \<le> b0 \<and> b0 < 245 \<and> cont s 1 \<and> cont s 2 \<and> cont s 3 \<and> (b0 = 240 \<longrightarrow> 144 \<le> b1) \<and> (b0 = 244 \<longrightarrow> b1 < 144)
       then ((b0 - 240) * 262144 + (b1 - 128) * 4096 + (code s 2 - 128) * 64 + (code s 3 - 128), 4)
     else (rune_error, 1))"

definition EncodeRune :: "nat \<Rightarrow> string" where
  "EncodeRune r = map char_of
     (if r < 128 then [r]
      else if r < 2048 then [192 + r div 64, 128 + r mod 64]
      else if 1114112 \<le> r \<or> (55296 \<le> r \<and> r < 57344) then [239, 191, 189]
      else if r < 65536 then [224 + r div 4096, 128 + r div 64 mod 64, 128 + r mod 64]
      else [240 + r div 262144, 128 + r div 4096 mod 64, 128 + r div 64 mod 64, 128 + r mod 64])"


section \<open>Parsing\<close>

definition is_ws :: "char \<Rightarrow> bool" where
  "is_ws c \<longleftrightarrow> of_char c \<in> {9, 10, 13, 32 :: nat}"

definition skip_ws :: "string \<Rightarrow> string" where
  "skip_ws = dropWhile is_ws"

definition is_digit :: "char \<Rightarrow> bool" where
  "is_digit c \<longleftrightarrow> 48 \<le> (of_char c :: nat) \<and> (of_char c :: nat) \<le> 57"

definition num_char :: "char \<Rightarrow> bool" where
  "num_char c \<longleftrightarrow> is_digit c \<or> c \<in> set ''+-.eE''"

definition digits1 :: "string \<Rightarrow> bool" where
  "digits1 s \<longleftrightarrow> s \<noteq> [] \<and> list_all is_digit s"

definition valid_exp :: "string \<Rightarrow> bool" where
  "valid_exp s = (case s of [] \<Rightarrow> True
     | c # r \<Rightarrow> c \<in> set ''eE'' \<and> (case r of [] \<Rightarrow> False | d # ds \<Rightarrow> if d \<in> set ''+-'' then digits1 ds else digits1 r))"

definition valid_frac :: "string \<Rightarrow> bool" where
  "valid_frac s = (case s of [] \<Rightarrow> True
     | c # r \<Rightarrow> if c = CHR ''.'' then digits1 (takeWhile is_digit r) \<and> valid_exp (dropWhile is_digit r)
                else valid_exp s)"

definition valid_number :: "string \<Rightarrow> bool" where
  "valid_number s = (let u = trim_prefix s ''-''; ds = takeWhile is_digit u in
     digits1 ds \<and> (hd ds = CHR ''0'' \<longrightarrow> length ds = 1) \<and> valid_frac (dropWhile is_digit u))"

definition hex4 :: "string \<Rightarrow> (nat \<times> string) option" where
  "hex4 s = (case s of
      a # b # c # d # r \<Rightarrow>
        (case (hex_val a, hex_val b, hex_val c, hex_val d) of
           (Some w, Some x, Some y, Some z) \<Rightarrow> Some (w * 4096 + x * 256 + y * 16 + z, r)
         | _ \<Rightarrow> None)
    | _ \<Rightarrow> None)"

text \<open>\<open>\uXXXX\<close>, with the second half of a surrogate pair when there is one.\<close>

definition unicode_escape :: "string \<Rightarrow> (string \<times> string) option" where
  "unicode_escape s = (case hex4 s of
      None \<Rightarrow> None
    | Some (r, rest) \<Rightarrow>
        (if 55296 \<le> r \<and> r < 57344 then
           (case rest of
              c # d # t \<Rightarrow>
                (if c = CHR 0x5C \<and> d = CHR ''u'' then
                   (case hex4 t of
                      Some (r2, rest2) \<Rightarrow>
                        (if r < 56320 \<and> 56320 \<le> r2 \<and> r2 < 57344
                         then Some (EncodeRune ((r - 55296) * 1024 + (r2 - 56320) + 65536), rest2)
                         else Some (EncodeRune rune_error, rest))
                    | None \<Rightarrow> Some (EncodeRune rune_error, rest))
                 else Some (EncodeRune rune_error, rest))
            | _ \<Rightarrow> Some (EncodeRune rune_error, rest))
         else Some (EncodeRune r, rest)))"

definition simple_escape :: "char \<Rightarrow> char option" where
  "simple_escape c =
     (if c = CHR 0x22 \<or> c = CHR 0x5C \<or> c = CHR ''/'' then Some c
      else if c = CHR ''b'' then Some (CHR 0x08)
      else if c = CHR ''f'' then Some (CHR 0x0C)
      else if c = CHR ''n'' then Some (CHR 0x0A)
      else if c = CHR ''r'' then Some (CHR 0x0D)
      else if c = CHR ''t'' then Some (CHR 0x09)
      else None)"

text \<open>The rest of a string literal after its opening quote; every step consumes a character.\<close>

fun p_string :: "nat \<Rightarrow> string \<Rightarrow> (string \<times> string) option" where
  "p_string 0 s = None"
| "p_string (Suc n) [] = None"
| "p_string (Suc n) (c # cs) =
     (if c = CHR 0x22 then Some ([], cs)
      else if c = CHR 0x5C then
        (case cs of [] \<Rightarrow> None
         | d # ds \<Rightarrow>
             (case (if d = CHR ''u'' then unicode_escape ds else map_option (\<lambda>e. ([e], ds)) (simple_escape d)) of
                None \<Rightarrow> None
              | Some (u, rest) \<Rightarrow> map_option (apfst ((@) u)) (p_string n rest)))
      else if (of_char c :: nat) < 32 then None
      else if (of_char c :: nat) < 128 then map_option (apfst ((#) c)) (p_string n cs)
      else (let (r, k) = DecodeRune (c # cs) in
        map_option (apfst ((@) (EncodeRune r))) (p_string n (drop k (c # cs)))))"

definition p_literal :: "char \<Rightarrow> string \<Rightarrow> (json \<times> string) option" where
  "p_literal c cs = (let s = c # cs in
     if has_prefix s ''true'' then Some (JBool True, drop 4 s)
     else if has_prefix s ''false'' then Some (JBool False, drop 5 s)
     else if has_prefix s ''null'' then Some (JNull, drop 4 s)
     else if valid_number (takeWhile num_char s)
       then Some (JNum (takeWhile num_char s), dropWhile num_char s)
     else None)"

fun p_value :: "nat \<Rightarrow> string \<Rightarrow> (json \<times> string) option"
  and p_elems :: "nat \<Rightarrow> string \<Rightarrow> (json list \<times> string) option"
  and p_members :: "nat \<Rightarrow> string \<Rightarrow> ((string \<times> json) list \<times> string) option" where
  "p_value 0 s = None"
| "p_value (Suc n) s =
     (case skip_ws s of
        [] \<Rightarrow> None
      | c # cs \<Rightarrow>
          (if c = CHR 0x22 then map_option (apfst JStr) (p_string (Suc (length cs)) cs)
           else if c = CHR ''['' then
             (case skip_ws cs of
                [] \<Rightarrow> None
              | d # ds \<Rightarrow> if d = CHR '']'' then Some (JArr [], ds) else map_option (apfst JArr) (p_elems n cs))
           else if c = CHR ''{'' then
             (case skip_ws cs of
                [] \<Rightarrow> None
              | d # ds \<Rightarrow> if d = CHR ''}'' then Some (JObj [], ds) else map_option (apfst JObj) (p_members n cs))
           else p_literal c cs))"
| "p_elems 0 s = None"
| "p_elems (Suc n) s =
     (case p_value n s of
        None \<Rightarrow> None
      | Some (v, t) \<Rightarrow>
          (case skip_ws t of
             [] \<Rightarrow> None
           | c # cs \<Rightarrow>
               (if c = CHR '','' then map_option (apfst ((#) v)) (p_elems n cs)
                else if c = CHR '']'' then Some ([v], cs)
                else None)))"
| "p_members 0 s = None"
| "p_members (Suc n) s =
     (case skip_ws s of
        [] \<Rightarrow> None
      | q # qs \<Rightarrow>
          (if q \<noteq> CHR 0x22 then None
           else (case p_string (Suc (length qs)) qs of
               None \<Rightarrow> None
             | Some (k, t) \<Rightarrow>
                 (case skip_ws t of
                    [] \<Rightarrow> None
                  | c # cs \<Rightarrow>
                      (if c \<noteq> CHR '':'' then None
                       else (case p_value n cs of
                           None \<Rightarrow> None
                         | Some (v, u) \<Rightarrow>
                             (case skip_ws u of
                                [] \<Rightarrow> None
                              | e # es \<Rightarrow>
                                  (if e = CHR '','' then map_option (apfst ((#) (k, v))) (p_members n es)
                                   else if e = CHR ''}'' then Some ([(k, v)], es)
                                   else None))))))))"

text \<open>Twice the length is fuel enough: a value and the list it stands in share a character.\<close>

definition parse_json :: "string \<Rightarrow> err + json" where
  "parse_json s = (case p_value (2 * length s + 2) s of
      Some (v, rest) \<Rightarrow> if skip_ws rest = [] then Inr v else Inl syntax_error
    | None \<Rightarrow> Inl syntax_error)"


section \<open>Decoding into structs\<close>

definition field_match :: "string \<Rightarrow> string \<Rightarrow> bool" where
  "field_match name k \<longleftrightarrow> to_lower k = to_lower name"

text \<open>\<open>null\<close> leaves a field as it is; a value of the wrong kind is an error.\<close>

definition dec_string :: "json \<Rightarrow> string \<Rightarrow> err + string" where
  "dec_string j old = (case j of JStr s \<Rightarrow> Inr s | JNull \<Rightarrow> Inr old | _ \<Rightarrow> Inl type_error)"

definition dec_field :: "string \<Rightarrow> (json \<Rightarrow> 'a \<Rightarrow> err + 'a) \<Rightarrow> (string \<times> json) list \<Rightarrow> 'a \<Rightarrow> err + 'a" where
  "dec_field name f kvs a = rfold (\<lambda>(k, v) b. if field_match name k then f v b else Inr b) kvs a"

definition dec_struct :: "((string \<times> json) list \<Rightarrow> 'a \<Rightarrow> err + 'a) \<Rightarrow> json \<Rightarrow> 'a \<Rightarrow> err + 'a" where
  "dec_struct f j a = (case j of JObj kvs \<Rightarrow> f kvs a | JNull \<Rightarrow> Inr a | _ \<Rightarrow> Inl type_error)"

definition dec_list :: "(json \<Rightarrow> 'a \<Rightarrow> err + 'a) \<Rightarrow> 'a \<Rightarrow> json \<Rightarrow> 'a list \<Rightarrow> err + 'a list" where
  "dec_list f zero j a = (case j of JArr js \<Rightarrow> map_res (\<lambda>x. f x zero) js | JNull \<Rightarrow> Inr [] | _ \<Rightarrow> Inl type_error)"

definition Unmarshal :: "(json \<Rightarrow> 'a \<Rightarrow> err + 'a) \<Rightarrow> string \<Rightarrow> 'a \<Rightarrow> err + 'a" where
  "Unmarshal dec s a = rbind (parse_json s) (\<lambda>j. dec j a)"


section \<open>Printing\<close>

definition escape_ascii :: "char \<Rightarrow> string" where
  "escape_ascii c = (let n = (of_char c :: nat) in
     if c = CHR 0x22 \<or> c = CHR 0x5C then [CHR 0x5C, c]
     else if c = CHR 0x08 then [CHR 0x5C, CHR ''b'']
     else if c = CHR 0x0C then [CHR 0x5C, CHR ''f'']
     else if c = CHR 0x0A then [CHR 0x5C, CHR ''n'']
     else if c = CHR 0x0D then [CHR 0x5C, CHR ''r'']
     else if c = CHR 0x09 then [CHR 0x5C, CHR ''t'']
     else if n < 32 \<or> c \<in> set ''<>&''
       then [CHR 0x5C, CHR ''u'', CHR ''0'', CHR ''0'', hex_digit (n div 16), hex_digit (n mod 16)]
     else [c])"

fun print_chars :: "nat \<Rightarrow> string \<Rightarrow> string" where
  "print_chars 0 s = []"
| "print_chars (Suc n) [] = []"
| "print_chars (Suc n) (c # cs) =
     (if (of_char c :: nat) < 128 then escape_ascii c @ print_chars n cs
      else (let (r, k) = DecodeRune (c # cs) in
        (if r = rune_error \<and> k = 1 then CHR 0x5C # ''ufffd''
         else if r = 8232 then CHR 0x5C # ''u2028''
         else if r = 8233 then CHR 0x5C # ''u2029''
         else take k (c # cs)) @ print_chars n (drop k (c # cs))))"

definition print_string :: "string \<Rightarrow> string" where
  "print_string s = CHR 0x22 # print_chars (length s) s @ [CHR 0x22]"

fun print_json :: "json \<Rightarrow> string"
  and print_elems :: "json list \<Rightarrow> string"
  and print_members :: "(string \<times> json) list \<Rightarrow> string" where
  "print_json JNull = ''null''"
| "print_json (JBool b) = (if b then ''true'' else ''false'')"
| "print_json (JNum s) = s"
| "print_json (JStr s) = print_string s"
| "print_json (JArr js) = CHR ''['' # print_elems js @ [CHR '']'']"
| "print_json (JObj kvs) = CHR ''{'' # print_members kvs @ [CHR ''}'']"
| "print_elems [] = []"
| "print_elems (j # js) = print_json j @ (if js = [] then [] else CHR '','' # print_elems js)"
| "print_members [] = []"
| "print_members ((k, v) # kvs) =
     print_string k @ CHR '':'' # print_json v @ (if kvs = [] then [] else CHR '','' # print_members kvs)"


section \<open>What is printed is read back\<close>

definition ascii :: "string \<Rightarrow> bool" where
  "ascii s \<longleftrightarrow> list_all (\<lambda>c. (of_char c :: nat) < 128) s"

fun printable :: "json \<Rightarrow> bool" where
  "printable (JNum s) \<longleftrightarrow> valid_number s \<and> list_all num_char s"
| "printable (JStr s) \<longleftrightarrow> ascii s"
| "printable (JArr js) \<longleftrightarrow> list_all printable js"
| "printable (JObj kvs) \<longleftrightarrow> list_all (\<lambda>p. ascii (fst p) \<and> printable (snd p)) kvs"
| "printable _ \<longleftrightarrow> True"

lemma char_eq_code: "c = d \<longleftrightarrow> (of_char c :: nat) = of_char d"
  by (rule of_char_eq_iff [symmetric])

lemma p_string_plain:
  assumes "c \<noteq> CHR 0x22" "c \<noteq> CHR 0x5C" "32 \<le> (of_char c :: nat)" "(of_char c :: nat) < 128"
  shows "p_string (Suc m) (c # t) = map_option (apfst ((#) c)) (p_string m t)"
  using assms by simp

lemma hex4_byte: "n < 128 \<Longrightarrow> hex4 (CHR ''0'' # CHR ''0'' # hex_digit (n div 16) # hex_digit (n mod 16) # t) = Some (n, t)"
proof -
  assume n: "n < 128"
  have z: "hex_val (CHR ''0'') = Some 0" by (simp add: hex_val_def)
  from n have "n div 16 < 16" "n mod 16 < 16" by auto
  then show ?thesis by (simp add: hex4_def z)
qed

lemma p_string_escape:
  assumes "(of_char c :: nat) < 128"
  shows "p_string (Suc m) (escape_ascii c @ t) = map_option (apfst ((#) c)) (p_string m t)"
proof -
  define n where "n = (of_char c :: nat)"
  have c: "c = char_of n" by (simp add: n_def)
  have cons: "map_option (apfst ((@) [d])) r = map_option (apfst ((#) d)) r" for d and r :: "(string \<times> string) option"
    by (cases r) auto
  define ctl where "ctl = [CHR 0x08, CHR 0x0C, CHR 0x0A, CHR 0x0D, CHR 0x09]"
  consider (simple) "c \<in> set (CHR 0x22 # CHR 0x5C # ctl)"
    | (u) "c \<notin> set (CHR 0x22 # CHR 0x5C # ctl)" "n < 32 \<or> c \<in> set ''<>&''"
    | (p) "c \<notin> set (CHR 0x22 # CHR 0x5C # ctl)" "\<not> (n < 32 \<or> c \<in> set ''<>&'')"
    by blast
  then show ?thesis
  proof cases
    case simple
    then show ?thesis by (auto simp: ctl_def escape_ascii_def simple_escape_def cons)
  next
    case u
    have e: "escape_ascii c = [CHR 0x5C, CHR ''u'', CHR ''0'', CHR ''0'', hex_digit (n div 16), hex_digit (n mod 16)]"
      using u by (auto simp: ctl_def escape_ascii_def n_def Let_def)
    have "unicode_escape (CHR ''0'' # CHR ''0'' # hex_digit (n div 16) # hex_digit (n mod 16) # t) = Some ([c], t)"
      using assms by (simp add: unicode_escape_def hex4_byte n_def EncodeRune_def)
    then show ?thesis by (simp add: e cons)
  next
    case p
    then have "escape_ascii c = [c]" by (auto simp: ctl_def escape_ascii_def n_def Let_def)
    with p assms show ?thesis by (simp add: n_def)
  qed
qed

lemma p_string_print:
  "ascii s \<Longrightarrow> length s < m \<Longrightarrow> length s \<le> n \<Longrightarrow> p_string m (print_chars n s @ CHR 0x22 # rest) = Some (s, rest)"
proof (induction s arbitrary: m n)
  case Nil
  then obtain m' where "m = Suc m'" by (cases m) auto
  then show ?case by (cases n) auto
next
  case (Cons c s)
  obtain m' n' where mn: "m = Suc m'" "n = Suc n'" using Cons.prems by (cases m; cases n) auto
  have "(of_char c :: nat) < 128" using Cons.prems by (simp add: ascii_def)
  moreover have "p_string m' (print_chars n' s @ CHR 0x22 # rest) = Some (s, rest)"
    using Cons.prems by (intro Cons.IH) (auto simp: ascii_def mn)
  ultimately show ?case by (simp add: mn p_string_escape del: p_string.simps)
qed

text \<open>What may follow a value: nothing, or a character no number continues with.\<close>

definition delimited :: "string \<Rightarrow> bool" where
  "delimited rest \<longleftrightarrow> (\<forall>c r. rest = c # r \<longrightarrow> \<not> num_char c)"

lemma delimited_simps [simp]: "delimited []" "delimited (CHR '','' # r)" "delimited (CHR '']'' # r)" "delimited (CHR ''}'' # r)"
  by (simp_all add: delimited_def num_char_def is_digit_def)

lemma valid_number_hd: "valid_number s \<Longrightarrow> \<exists>c r. s = c # r \<and> (c = CHR ''-'' \<or> is_digit c)"
  by (cases s) (auto simp: valid_number_def digits1_def trim_prefix_def has_prefix_def Let_def split: if_splits)

lemma num_start:
  assumes "c = CHR ''-'' \<or> is_digit c"
  shows "\<not> is_ws c" "c \<noteq> CHR 0x22" "c \<noteq> CHR ''[''" "c \<noteq> CHR ''{''" "c \<noteq> CHR '']''" "c \<noteq> CHR ''t''" "c \<noteq> CHR ''f''" "c \<noteq> CHR ''n''"
  using assms by (auto simp: is_digit_def is_ws_def)

lemma p_literal_number:
  assumes "valid_number (c # s)" "list_all num_char (c # s)" "delimited rest"
  shows "p_literal c (s @ rest) = Some (JNum (c # s), rest)"
proof -
  have c: "c = CHR ''-'' \<or> is_digit c" using valid_number_hd [OF assms(1)] by auto
  have "takeWhile num_char (c # s @ rest) = c # s" "dropWhile num_char (c # s @ rest) = rest"
    using assms(2,3) by (cases rest; auto simp: delimited_def list_all_iff takeWhile_append dropWhile_append)+
  then show ?thesis using assms(1) num_start [OF c]
    by (simp only: p_literal_def Let_def has_prefix_def) simp
qed

text \<open>The first character of a printed value.\<close>

lemma print_start:
  assumes "printable j"
  obtains c r where "print_json j = c # r" "\<not> is_ws c" "c \<noteq> CHR '']''"
proof (cases j)
  case (JBool b)
  then show ?thesis using that by (cases b) (auto simp: is_ws_def)
next
  case (JNum s)
  with assms have "valid_number s" by simp
  then obtain c r where c: "s = c # r" "c = CHR ''-'' \<or> is_digit c" using valid_number_hd by blast
  show ?thesis by (rule that [OF _ num_start(1,5) [OF c(2)]]) (simp add: JNum c(1))
qed (auto intro: that simp: print_string_def is_ws_def)

lemma skip_ws_stop [simp]: "\<not> is_ws c \<Longrightarrow> skip_ws (c # s) = c # s"
  by (simp add: skip_ws_def)

lemma not_ws [simp]: "\<not> is_ws (CHR 0x22)" "\<not> is_ws (CHR ''['')" "\<not> is_ws (CHR ''{'')" "\<not> is_ws (CHR '']'')"
    "\<not> is_ws (CHR ''}'')" "\<not> is_ws (CHR '','')" "\<not> is_ws (CHR '':'')"
    "\<not> is_ws (CHR ''n'')" "\<not> is_ws (CHR ''t'')" "\<not> is_ws (CHR ''f'')"
  by (simp_all add: is_ws_def)

lemma p_string_printed:
  "ascii s \<Longrightarrow> p_string (Suc (length (print_chars (length s) s @ CHR 0x22 # rest)))
     (print_chars (length s) s @ CHR 0x22 # rest) = Some (s, rest)"
proof (rule p_string_print)
  have esc: "1 \<le> length (escape_ascii c)" for c by (simp add: escape_ascii_def Let_def)
  have "ascii s \<Longrightarrow> length s \<le> length (print_chars (length s) s)"
  proof (induction s)
    case (Cons c s)
    then show ?case using esc [of c] by (simp add: ascii_def)
  qed simp
  then show "ascii s \<Longrightarrow> length s < Suc (length (print_chars (length s) s @ CHR 0x22 # rest))" by simp
qed simp_all

lemma p_print:
  "printable j \<Longrightarrow> delimited rest \<Longrightarrow> 2 * length (print_json j) \<le> n \<Longrightarrow>
     p_value n (print_json j @ rest) = Some (j, rest)"
  "list_all printable js \<Longrightarrow> js \<noteq> [] \<Longrightarrow> 2 * length (print_elems js) + 1 \<le> n \<Longrightarrow>
     p_elems n (print_elems js @ CHR '']'' # rest) = Some (js, rest)"
  "list_all (\<lambda>p. ascii (fst p) \<and> printable (snd p)) kvs \<Longrightarrow> kvs \<noteq> [] \<Longrightarrow> 2 * length (print_members kvs) + 1 \<le> n \<Longrightarrow>
     p_members n (print_members kvs @ CHR ''}'' # rest) = Some (kvs, rest)"
proof (induction j and js and kvs arbitrary: n rest and n rest and n rest
    rule: print_json_print_elems_print_members.induct)
  case 1
  then show ?case by (cases n) (simp_all add: p_literal_def Let_def has_prefix_def)
next
  case (2 b)
  then show ?case by (cases n; cases b) (simp_all add: p_literal_def Let_def has_prefix_def)
next
  case (3 s)
  obtain c r where s: "s = c # r" "c = CHR ''-'' \<or> is_digit c"
    using valid_number_hd [of s] "3.prems"(1) unfolding printable.simps by blast
  then obtain m where n: "n = Suc m" using 3 by (cases n) auto
  from 3 s have "p_literal c (r @ rest) = Some (JNum s, rest)" by (simp add: p_literal_number)
  with s(1) n num_start [OF s(2)] show ?case by simp
next
  case (4 s)
  then obtain m where n: "n = Suc m" by (cases n) (auto simp: print_string_def)
  with 4 show ?case
    using p_string_printed [of s rest] by (simp add: print_string_def del: p_string.simps)
next
  case (5 js)
  then obtain m where n: "n = Suc m" by (cases n) auto
  show ?case
  proof (cases "js = []")
    case True
    then show ?thesis by (simp add: n)
  next
    case False
    then obtain j js' where js: "js = j # js'" by (cases js) auto
    with 5 obtain c r where c: "print_json j = c # r" "\<not> is_ws c" "c \<noteq> CHR '']''"
      by (auto elim: print_start)
    have "p_elems m (print_elems js @ CHR '']'' # rest) = Some (js, rest)"
      using 5 False n by (intro "5.IH") auto
    with js c show ?thesis by (simp add: n)
  qed
next
  case (6 kvs)
  then obtain m where n: "n = Suc m" by (cases n) auto
  show ?case
  proof (cases "kvs = []")
    case True
    then show ?thesis by (simp add: n)
  next
    case False
    then obtain k v kvs' where k: "kvs = (k, v) # kvs'" by (cases kvs) auto
    have "p_members m (print_members kvs @ CHR ''}'' # rest) = Some (kvs, rest)"
      using 6 False n by (intro "6.IH") auto
    with k show ?thesis by (simp add: n print_string_def)
  qed
next
  case (8 j js)
  then obtain m where n: "n = Suc m" by (cases n) auto
  have v: "p_value m (print_json j @ r) = Some (j, r)" if "delimited r" for r
    using 8 that n by (intro "8.IH"(1)) auto
  show ?case
  proof (cases "js = []")
    case True
    then show ?thesis by (simp add: n v)
  next
    case False
    have "p_elems m (print_elems js @ CHR '']'' # rest) = Some (js, rest)"
      using 8 False n by (intro "8.IH"(2)) auto
    with False show ?thesis by (simp add: n v)
  qed
next
  case (10 k v kvs)
  then obtain m where n: "n = Suc m" by (cases n) auto
  have v: "p_value m (print_json v @ r) = Some (v, r)" if "delimited r" for r
    using 10 that n by (intro "10.IH"(1)) (auto simp: print_string_def)
  have k: "p_string (Suc (length (print_chars (length k) k @ CHR 0x22 # r)))
     (print_chars (length k) k @ CHR 0x22 # r) = Some (k, r)" for r
    using 10 by (intro p_string_printed) simp
  show ?case
  proof (cases "kvs = []")
    case True
    then show ?thesis using k [of "CHR '':'' # print_json v @ CHR ''}'' # rest"]
      by (simp add: n v print_string_def del: p_string.simps)
  next
    case False
    have "p_members m (print_members kvs @ CHR ''}'' # rest) = Some (kvs, rest)"
      using 10 False n by (intro "10.IH"(2)) (auto simp: print_string_def)
    with False show ?thesis using k [of "CHR '':'' # print_json v @ CHR '','' # print_members kvs @ CHR ''}'' # rest"]
      by (simp add: n v print_string_def del: p_string.simps)
  qed
qed simp_all

lemma parse_print: "printable j \<Longrightarrow> parse_json (print_json j) = Inr j"
  using p_print(1) [of j "[]" "2 * length (print_json j) + 2"] by (simp add: parse_json_def skip_ws_def)

end
