(* ===== verification/Go_Map.thy ===== *)
theory Go_Map
  imports Prelude
begin

text \<open>
  Go maps that the code ranges over, as association lists with one entry per key. A lookup is
  \<open>map_of\<close>; ranging over the keys takes them in an order the runtime chooses, which is an
  argument of the code that does it.
\<close>

type_synonym ('k, 'v) gomap = "('k \<times> 'v) list"

definition map_put :: "'k \<Rightarrow> 'v \<Rightarrow> ('k, 'v) gomap \<Rightarrow> ('k, 'v) gomap" where
  "map_put k v m = (k, v) # filter (\<lambda>p. fst p \<noteq> k) m"

definition map_delete :: "'k \<Rightarrow> ('k, 'v) gomap \<Rightarrow> ('k, 'v) gomap" where
  "map_delete k m = filter (\<lambda>p. fst p \<noteq> k) m"

definition map_get :: "('k, 'v) gomap \<Rightarrow> 'k \<Rightarrow> 'v \<Rightarrow> 'v" where
  "map_get m k zero = (case map_of m k of None \<Rightarrow> zero | Some v \<Rightarrow> v)"

abbreviation map_keys :: "('k, 'v) gomap \<Rightarrow> 'k list" where
  "map_keys m \<equiv> map fst m"

lemma map_get_Some [simp]: "map_of m k = Some v \<Longrightarrow> map_get m k zero = v"
  and map_get_None [simp]: "map_of m k = None \<Longrightarrow> map_get m k zero = zero"
  by (simp_all add: map_get_def)

lemma map_put_keys: "distinct (map fst m) \<Longrightarrow> distinct (map fst (map_put k v m))"
  and map_delete_keys: "distinct (map fst m) \<Longrightarrow> distinct (map fst (map_delete k m))"
  by (auto simp: map_put_def map_delete_def distinct_map_filter_fst)

lemma map_of_put [simp]: "map_of (map_put k v m) = (map_of m)(k \<mapsto> v)"
  by (rule ext) (simp add: map_put_def map_of_filter_fst)

lemma map_of_delete [simp]: "map_of (map_delete k m) = (map_of m)(k := None)"
  by (rule ext) (simp add: map_delete_def map_of_filter_fst)

lemma keys_put [simp]: "fst ` set (map_put k v m) = insert k (fst ` set m)"
  and keys_delete [simp]: "fst ` set (map_delete k m) = fst ` set m - {k}"
  by (auto simp: map_put_def map_delete_def image_iff)

lemma map_put_Nil [simp]: "map_put k v [] = [(k, v)]"
  by (simp add: map_put_def)

lemma map_of_key: "k \<in> fst ` set m \<longleftrightarrow> (\<exists>v. map_of m k = Some v)"
  by (metis dom_map_of_conv_image_fst domD domI)

text \<open>A set of keys, Go's \<open>map[k]interface{}\<close> whose values are never read.\<close>

definition key_put :: "'k \<Rightarrow> 'k list \<Rightarrow> 'k list" where
  "key_put k ks = (if k \<in> set ks then ks else ks @ [k])"

lemma set_key_put [simp]: "set (key_put k ks) = insert k (set ks)"
  and distinct_key_put: "distinct ks \<Longrightarrow> distinct (key_put k ks)"
  by (auto simp: key_put_def)

end
