(* ===== verification/Schema.thy ===== *)
theory Schema
  imports Sql_Table Json Go_Map
begin

text \<open>
  The data of the program: blocks as scraped from a node (\<open>src/indexer/types/types.go\<close>),
  the rows of the database tables (\<open>src/types/table.go\<close>), the database, the in-memory
  state that outlives a transaction, and the environment of third-party functions.
  A \<open>time.Time\<close> is its number of nanoseconds, \<open>json.RawMessage\<close> its text.
\<close>

section \<open>Scraped blocks\<close>

record attribute =
  akey :: string
  aval :: string

record event =
  etype :: string
  eattrs :: "attribute list"

record ExecTxResult =
  tr_Code :: int
  tr_Data :: "byte list"
  tr_Log :: string
  tr_Info :: string
  tr_GasWanted :: int
  tr_GasUsed :: int
  tr_Events :: "event list"
  tr_Codespace :: string

record ScrapedBlock =
  sb_ChainId :: string
  sb_Height :: int
  sb_Timestamp :: int
  sb_Hash :: string
  sb_Proposer :: string
  sb_Txs :: "string list"
  sb_TxResults :: "ExecTxResult list"
  sb_PreBlock :: "event list"
  sb_BeginBlock :: "event list"
  sb_EndBlock :: "event list"

record ParsedEvent =
  pe_TxHash :: string
  pe_Event :: event
  pe_AttrMap :: "string \<rightharpoonup> string"

record RestTx =
  rt_Body :: string
  rt_AuthInfo :: string
  rt_Signatures :: "string list"

record EvmLog =
  el_Address :: string
  el_Topics :: "string list"
  el_Data :: string
  el_BlockNumber :: string
  el_TxHash :: string
  el_TxIndex :: string
  el_BlockHash :: string
  el_LogIndex :: string
  el_Removed :: bool

record EvmTx =
  et_BlockHash :: string
  et_BlockNumber :: string
  et_ContractAddress :: "string option"
  et_CumulativeGasUsed :: string
  et_EffectiveGasPrice :: string
  et_From :: string
  et_GasUsed :: string
  et_Logs :: "EvmLog list"
  et_LogsBloom :: string
  et_Status :: string
  et_To :: string
  et_TxHash :: string
  et_TxIndex :: string
  et_Type :: string

text \<open>The transaction as the API serves it (\<open>types.Tx\<close>); its logs are the SDK's, as text.\<close>

record TxResponse =
  txr_TxHash :: string
  txr_Height :: int
  txr_Codespace :: string
  txr_Code :: int
  txr_Data :: string
  txr_RawLog :: string
  txr_Logs :: string
  txr_Info :: string
  txr_GasWanted :: int
  txr_GasUsed :: int
  txr_Tx :: string
  txr_Timestamp :: int
  txr_Events :: string

text \<open>
  The protobuf messages of the SDK the code reads: a raw transaction, and its signer infos
  and fee. A message field that may be unset (a Go pointer) is an \<open>option\<close>; a public key is
  its still packed \<open>Any\<close>.
\<close>

record coin =
  coin_Denom :: string
  coin_Amount :: int

record TxRaw =
  raw_BodyBytes :: "byte list"
  raw_AuthInfoBytes :: "byte list"
  raw_Signatures :: "byte list list"

record SignerInfo =
  si_PublicKey :: "byte list option"

record AuthInfo =
  ai_SignerInfos :: "SignerInfo list"
  ai_Fee :: "coin list option"

text \<open>\<open>strings.Split(s, ",")\<close> and \<open>strings.Join(ss, ",")\<close>.\<close>

fun split_comma :: "string \<Rightarrow> string list" where
  "split_comma [] = [[]]"
| "split_comma (c # cs) =
     (if c = CHR '','' then [] # split_comma cs
      else (case split_comma cs of [] \<Rightarrow> [[c]] | w # ws \<Rightarrow> (c # w) # ws))"

fun join_comma :: "string list \<Rightarrow> string" where
  "join_comma [] = []"
| "join_comma [s] = s"
| "join_comma (s # t # ss) = s @ CHR '','' # join_comma (t # ss)"


section \<open>Rows\<close>

record CollectedSeqInfo =
  si_Name :: string
  si_Sequence :: int

record CollectedBlock =
  blk_ChainId :: string
  blk_Height :: int
  blk_Hash :: "byte list"
  blk_Timestamp :: int
  blk_BlockTime :: int
  blk_Proposer :: string
  blk_GasUsed :: int
  blk_GasWanted :: int
  blk_TxCount :: int
  blk_TotalFee :: string

record CollectedTx =
  tx_Hash :: "byte list"
  tx_Height :: int
  tx_Sequence :: int
  tx_SignerId :: int
  tx_Data :: string

record CollectedTxAccount =
  ta_AccountId :: int
  ta_Sequence :: int
  ta_Signer :: bool

record CollectedTxNft =
  tn_NftId :: int
  tn_Sequence :: int

record CollectedTxMsgType =
  tm_MsgTypeId :: int
  tm_Sequence :: int

record CollectedTxTypeTag =
  tt_TypeTagId :: int
  tt_Sequence :: int

record CollectedEvmTxAccount =
  eta_AccountId :: int
  eta_Sequence :: int
  eta_Signer :: bool

record CollectedEvmInternalTxAccount =
  eia_AccountId :: int
  eia_Sequence :: int

record CollectedEvmTx =
  etx_Hash :: "byte list"
  etx_Height :: int
  etx_Sequence :: int
  etx_SignerId :: int
  etx_Data :: string

record CollectedNftCollection =
  nc_Addr :: "byte list"
  nc_Height :: int
  nc_Timestamp :: int
  nc_Name :: string
  nc_OriginName :: string
  nc_CreatorId :: int
  nc_NftCount :: int

record CollectedNft =
  nft_CollectionAddr :: "byte list"
  nft_TokenId :: string
  nft_Addr :: "byte list"
  nft_Height :: int
  nft_Timestamp :: int
  nft_OwnerId :: int
  nft_Uri :: string

record CollectedFAStore =
  fa_StoreAddr :: "byte list"
  fa_Owner :: "byte list"

record CollectedEvmInternalTx =
  ei_Height :: int
  ei_HashId :: int
  ei_Index :: int
  ei_ParentIndex :: int
  ei_Sequence :: int
  ei_Type :: string
  ei_FromId :: int
  ei_ToId :: int
  ei_Input :: "byte list"
  ei_Output :: "byte list"
  ei_Value :: "byte list"
  ei_Gas :: "byte list"
  ei_GasUsed :: "byte list"

record CollectedRichList =
  rl_Id :: int
  rl_Denom :: string
  rl_Amount :: int

record CollectedRichListStatus =
  rls_Height :: int

record CollectedEvmRetCleanupStatus =
  LastCleanedHeight :: int
  CorrectedRecords :: int

record CollectedTxAccountCleanupStatus =
  LastCleanedSequence :: int
  DeletedRecords :: int
  InsertedRecords :: int

text \<open>
  The dictionary tables give every value an id: a row is the id and the value, both unique.
\<close>

type_synonym 'k dict_row = "int \<times> 'k"
type_synonym CollectedAccountDict = "byte list dict_row"
type_synonym CollectedMsgTypeDict = "string dict_row"
type_synonym CollectedTypeTagDict = "string dict_row"
type_synonym CollectedEvmTxHashDict = "byte list dict_row"
type_synonym CollectedNftDict = "(byte list \<times> string) dict_row"

text \<open>Primary keys, as the \<open>primaryKey\<close> tags of the row types declare them.\<close>

definition block_key :: "CollectedBlock \<Rightarrow> string \<times> int" where
  "block_key r = (blk_ChainId r, blk_Height r)"

definition tx_key :: "CollectedTx \<Rightarrow> byte list \<times> int" where
  "tx_key r = (tx_Hash r, tx_Height r)"

definition ta_key :: "CollectedTxAccount \<Rightarrow> int \<times> int" where
  "ta_key r = (ta_AccountId r, ta_Sequence r)"

definition tm_key :: "CollectedTxMsgType \<Rightarrow> int \<times> int" where
  "tm_key r = (tm_MsgTypeId r, tm_Sequence r)"

definition tt_key :: "CollectedTxTypeTag \<Rightarrow> int \<times> int" where
  "tt_key r = (tt_TypeTagId r, tt_Sequence r)"

definition eta_key :: "CollectedEvmTxAccount \<Rightarrow> int \<times> int" where
  "eta_key r = (eta_AccountId r, eta_Sequence r)"

definition eia_key :: "CollectedEvmInternalTxAccount \<Rightarrow> int \<times> int" where
  "eia_key r = (eia_AccountId r, eia_Sequence r)"

definition etx_key :: "CollectedEvmTx \<Rightarrow> byte list \<times> int" where
  "etx_key r = (etx_Hash r, etx_Height r)"

definition ei_key :: "CollectedEvmInternalTx \<Rightarrow> int \<times> int \<times> int" where
  "ei_key r = (ei_Height r, ei_HashId r, ei_Index r)"

definition rl_key :: "CollectedRichList \<Rightarrow> int \<times> string" where
  "rl_key r = (rl_Id r, rl_Denom r)"

interpretation tx_tbl: conflict_store "row_at tx_key" tx_key "insert_row tx_key" "unique_key tx_key"
  by unfold_locales (simp_all add: row_at_insert_row)

interpretation ta_tbl: conflict_store "row_at ta_key" ta_key "insert_row ta_key" "unique_key ta_key"
  by unfold_locales (simp_all add: row_at_insert_row)

interpretation block_tbl: conflict_store "row_at block_key" block_key "insert_row block_key" "unique_key block_key"
  by unfold_locales (simp_all add: row_at_insert_row)

interpretation ei_tbl: conflict_store "row_at ei_key" ei_key "insert_row ei_key" "unique_key ei_key"
  by unfold_locales (simp_all add: row_at_insert_row)


section \<open>Table names\<close>

datatype table =
    UpgradeHistory | SeqInfo | Block | Tx | TxAccount | TxNft | TxMsgType | TxTypeTag
  | EvmTxAccount | EvmInternalTxAccount | EvmTxTable | EvmInternalTx | NftCollection | Nft
  | FAStore | AccountDict | NftDict | MsgTypeDict | TypeTagDict | EvmTxHashDict
  | RichListStatus | RichList | EvmRetCleanupStatus | TxAccountCleanupStatus

fun TableName :: "table \<Rightarrow> string" where
  "TableName UpgradeHistory = ''upgrade_history''"
| "TableName SeqInfo = ''seq_info''"
| "TableName Block = ''block''"
| "TableName Tx = ''tx''"
| "TableName TxAccount = ''tx_accounts''"
| "TableName TxNft = ''tx_nfts''"
| "TableName TxMsgType = ''tx_msg_types''"
| "TableName TxTypeTag = ''tx_type_tags''"
| "TableName EvmTxAccount = ''evm_tx_accounts''"
| "TableName EvmInternalTxAccount = ''evm_internal_tx_accounts''"
| "TableName EvmTxTable = ''evm_tx''"
| "TableName EvmInternalTx = ''evm_internal_tx''"
| "TableName NftCollection = ''nft_collection''"
| "TableName Nft = ''nft''"
| "TableName FAStore = ''fa_store''"
| "TableName AccountDict = ''account_dict''"
| "TableName NftDict = ''nft_dict''"
| "TableName MsgTypeDict = ''msg_type_dict''"
| "TableName TypeTagDict = ''type_tag_dict''"
| "TableName EvmTxHashDict = ''evm_tx_hash_dict''"
| "TableName RichListStatus = ''rich_list_status''"
| "TableName RichList = ''rich_list''"
| "TableName EvmRetCleanupStatus = ''evm_ret_cleanup_status''"
| "TableName TxAccountCleanupStatus = ''tx_account_cleanup_status''"


section \<open>The database and the process state\<close>

record db =
  t_seq_info :: "CollectedSeqInfo list"
  t_block :: "CollectedBlock list"
  t_tx :: "CollectedTx list"
  t_tx_accounts :: "CollectedTxAccount list"
  t_tx_nfts :: "CollectedTxNft list"
  t_tx_msg_types :: "CollectedTxMsgType list"
  t_tx_type_tags :: "CollectedTxTypeTag list"
  t_evm_tx :: "CollectedEvmTx list"
  t_evm_tx_accounts :: "CollectedEvmTxAccount list"
  t_evm_internal_tx :: "CollectedEvmInternalTx list"
  t_evm_internal_tx_accounts :: "CollectedEvmInternalTxAccount list"
  t_nft_collection :: "CollectedNftCollection list"
  t_nft :: "CollectedNft list"
  t_fa_store :: "CollectedFAStore list"
  t_account_dict :: "CollectedAccountDict list"
  t_nft_dict :: "CollectedNftDict list"
  t_msg_type_dict :: "CollectedMsgTypeDict list"
  t_type_tag_dict :: "CollectedTypeTagDict list"
  t_evm_tx_hash_dict :: "CollectedEvmTxHashDict list"
  t_rich_list :: "CollectedRichList list"
  t_rich_list_status :: "CollectedRichListStatus list"
  t_evm_ret_status :: "CollectedEvmRetCleanupStatus list"
  t_ta_status :: "CollectedTxAccountCleanupStatus list"

text \<open>
  An LRU cache is its entries in recency order. The replacement policy is the library's:
  the \<open>evict\<close> functions of the environment.
\<close>

type_synonym ('k, 'v) lru = "('k \<times> 'v) list"

record CacheData =
  cd_RestTxs :: "RestTx list"
  cd_EvmTxs :: "EvmTx list"

text \<open>What the NFT submodules prepare for a block: resources of Move tokens, collections of Wasm
  contracts, names and token URIs of EVM contracts.\<close>

record CollectionInfo =
  ci_Name :: string
  ci_Creator :: string

record EvmNftData =
  en_ColNames :: "string \<rightharpoonup> string"
  en_TokenUris :: "string \<rightharpoonup> (string \<rightharpoonup> string)"

text \<open>
  \<open>w_db\<close> is the database; the id sequences behind the \<open>bigserial\<close> columns are not
  rolled back with a transaction, and neither are the caches of the process.
  \<open>w_faults\<close> is the schedule of the environment: the outcome of the next database
  statements and context checks, \<open>Some f\<close> for one that fails with the fault \<open>f\<close>: the
  context was cancelled or timed out, Postgres reported an error code, or the connection
  failed. Theorems quantify over every schedule.
\<close>

datatype fault = Cancelled | TimedOut | PgCode string | ConnFailed string

fun fault_err :: "fault \<Rightarrow> err" where
  "fault_err Cancelled = Canceled"
| "fault_err TimedOut = DeadlineExceeded"
| "fault_err (PgCode c) = PgError c"
| "fault_err (ConnFailed m) = Err m"

lemma fault_not_missing [simp]: "\<not> errors_is (fault_err f) RecordNotFound"
  by (cases f) (simp_all add: errors_is_def)

record world =
  w_db :: db
  serial_account :: int
  serial_nft :: int
  serial_msg_type :: int
  serial_type_tag :: int
  serial_evm_tx_hash :: int
  accountCache :: "(string, int) lru"
  nftCache :: "(string \<times> string, int) lru"
  msgTypeCache :: "(string, int) lru"
  typeTagCache :: "(string, int) lru"
  evmTxHashCache :: "(string, int) lru"
  faStoreCache :: "(string, string) lru"
  txCache :: "int \<rightharpoonup> CacheData"
  moveNftCache :: "int \<rightharpoonup> (string \<rightharpoonup> string)"
  wasmNftCache :: "int \<rightharpoonup> (string, CollectionInfo) gomap"
  evmNftCache :: "int \<rightharpoonup> EvmNftData"
  nftBlacklist :: "(string, unit) lru"
  w_faults :: "fault option list"

text \<open>
  The environment: functions of third-party code and choices of the runtime. \<open>backfill n ids\<close>
  is the list of \<open>n\<close> ids the ORM writes back into the \<open>n\<close> structs of a \<open>Create\<close> whose
  \<open>RETURNING\<close> clause gave \<open>ids\<close>; \<open>map_order\<close> is the order a \<open>range\<close> over a Go map takes.
  \<open>tmhash_Sum\<close> is CometBFT's hash; \<open>reject_unknown_*\<close> and \<open>unmarshal_*\<close> are the SDK's
  protobuf decoders, \<open>unpack_pubkey\<close> unpacks a packed public key into its address,
  \<open>cb_marshal_*\<close> are CometBFT's JSON encoders, \<open>parse_abci_logs\<close> the SDK's log parser
  and \<open>unmarshal_log\<close> the decoder of minievm's log type, as its address and topics.
  \<open>bytea_param\<close> is what Postgres reads a text argument as that is compared with a \<open>bytea\<close>
  column; \<open>unmarshal_tx_events\<close> decodes the events of a stored transaction.
\<close>

record env =
  from_bech32 :: "string \<Rightarrow> byte list option"
  to_bech32 :: "byte list \<Rightarrow> string"
  evict_ids :: "(string, int) lru \<Rightarrow> (string, int) lru"
  evict_nfts :: "(string \<times> string, int) lru \<Rightarrow> (string \<times> string, int) lru"
  evict_strs :: "(string, string) lru \<Rightarrow> (string, string) lru"
  backfill :: "nat \<Rightarrow> int list \<Rightarrow> int list"
  map_order :: "string list \<Rightarrow> string list"
  id_order :: "int list \<Rightarrow> int list"
  tmhash_Sum :: "byte list \<Rightarrow> byte list"
  reject_unknown_TxRaw :: "byte list \<Rightarrow> err option"
  unmarshal_TxRaw :: "byte list \<Rightarrow> err + TxRaw"
  reject_unknown_AuthInfo :: "byte list \<Rightarrow> err option"
  unmarshal_AuthInfo :: "byte list \<Rightarrow> err + AuthInfo"
  unpack_pubkey :: "byte list \<Rightarrow> err + byte list"
  coins_Add :: "coin list \<Rightarrow> coin list \<Rightarrow> coin list"
  cb_marshal_coins :: "coin list \<Rightarrow> err + string"
  cb_marshal_RestTx :: "RestTx \<Rightarrow> err + string"
  cb_marshal_events :: "event list \<Rightarrow> err + string"
  cb_marshal_Tx :: "TxResponse \<Rightarrow> err + string"
  parse_abci_logs :: "string \<Rightarrow> string"
  unmarshal_log :: "string \<Rightarrow> err + string \<times> string list"
  EventTypeEVM :: string
  AttributeKeyLog :: string
  EventTypeCall :: string
  AttributeKeyRet :: string
  bytea_param :: "string \<Rightarrow> byte list"
  unmarshal_tx_events :: "string \<Rightarrow> err + event list"


section \<open>Configuration\<close>

text \<open>The settings of \<open>src/config/config.go\<close> the indexer reads.\<close>

datatype VMType = MoveVM | WasmVM | EVM

record config =
  cfg_ChainId :: string
  cfg_VmType :: VMType
  cfg_DBBatchSize :: int
  cfg_StartHeight :: int
  cfg_StartHeightSet :: bool
  cfg_MaxConcurrentRequests :: int
  cfg_InternalTxEnabled :: bool
  cfg_InternalTxBatchSize :: int
  cfg_InternalTxQueueSize :: int
  cfg_EvmRetCleanupEnabled :: bool
  cfg_TxAccountCleanupEnabled :: bool


section \<open>Statements and transactions\<close>

text \<open>One statement: the environment lets it run, or makes it fail without effect.\<close>

definition stmt :: "(world, 'a) act \<Rightarrow> (world, 'a) act" where
  "stmt f = (\<lambda>w. case w_faults w of
       [] \<Rightarrow> f w
     | None # fs \<Rightarrow> f (w\<lparr>w_faults := fs\<rparr>)
     | Some e # fs \<Rightarrow> (Inl (fault_err e), w\<lparr>w_faults := fs\<rparr>))"

definition query :: "(db \<Rightarrow> 'a) \<Rightarrow> (world, 'a) act" where
  "query q = stmt (gets (\<lambda>w. q (w_db w)))"

definition exec :: "(db \<Rightarrow> db) \<Rightarrow> (world, unit) act" where
  "exec f = stmt (modify (\<lambda>w. w\<lparr>w_db := f (w_db w)\<rparr>))"

text \<open>\<open>First\<close>: the first row, or \<open>gorm.ErrRecordNotFound\<close>.\<close>

definition first_row :: "(db \<Rightarrow> 'r list) \<Rightarrow> (world, 'r) act" where
  "first_row q = stmt (\<lambda>w. case q (w_db w) of [] \<Rightarrow> (Inl RecordNotFound, w) | r # _ \<Rightarrow> (Inr r, w))"

definition ctx_check :: "(world, unit) act" where
  "ctx_check = stmt (ret ())"

text \<open>
  \<open>db.Transaction(f)\<close>: commit when \<open>f\<close> returns nil and the commit itself goes through,
  otherwise the database is as before; the process state keeps every change.
\<close>

definition transaction :: "(world, 'a) act \<Rightarrow> (world, 'a) act" where
  "transaction f = (\<lambda>w. case bnd f (\<lambda>x. bnd ctx_check (\<lambda>_. ret x)) w of
       (Inl e, w') \<Rightarrow> (Inl e, w'\<lparr>w_db := w_db w\<rparr>)
     | (Inr x, w') \<Rightarrow> (Inr x, w'))"

lemma stmt_cases:
  obtains e fs where "w_faults w = Some e # fs" "stmt f w = (Inl (fault_err e), w\<lparr>w_faults := fs\<rparr>)"
  | fs where "stmt f w = f (w\<lparr>w_faults := fs\<rparr>)"
proof (cases "w_faults w")
  case Nil
  then have "stmt f w = f (w\<lparr>w_faults := w_faults w\<rparr>)" by (cases w) (simp add: stmt_def)
  then show ?thesis by (rule that(2))
next
  case (Cons x fs)
  then show ?thesis using that by (cases x) (auto simp: stmt_def)
qed

lemma stmt_no_fault [simp]: "w_faults w = [] \<Longrightarrow> stmt f w = f w"
  by (simp add: stmt_def)

text \<open>A predicate that ignores the schedule survives a failing statement.\<close>

definition fault_free :: "(world \<Rightarrow> bool) \<Rightarrow> bool" where
  "fault_free P \<longleftrightarrow> (\<forall>w fs. P (w\<lparr>w_faults := fs\<rparr>) = P w)"

lemma fault_freeD: "fault_free P \<Longrightarrow> P (w\<lparr>w_faults := fs\<rparr>) = P w"
  by (simp add: fault_free_def)

lemma hoare_stmt [wp]:
  assumes "hoare P f Q R" "fault_free P" "\<And>w e. P w \<Longrightarrow> R e w"
    and "\<And>e. fault_free (R e)"
  shows "hoare P (stmt f) Q R"
proof (rule hoareI)
  fix w x t assume w: "P w" "stmt f w = (Inr x, t)"
  have "P (w\<lparr>w_faults := fs\<rparr>)" for fs using w(1) assms(2) by (simp add: fault_freeD)
  then show "Q x t"
    using w assms(1) by (cases rule: stmt_cases [of w f]) (auto dest: hoareD)
next
  fix w e t assume w: "P w" "stmt f w = (Inl e, t)"
  have "P (w\<lparr>w_faults := fs\<rparr>)" for fs using w(1) assms(2) by (simp add: fault_freeD)
  then show "R e t"
  proof (cases rule: stmt_cases [of w f])
    case (1 e' fs)
    with w have "fault_err e' = e" "t = w\<lparr>w_faults := fs\<rparr>" by auto
    moreover have "R e (w\<lparr>w_faults := fs\<rparr>)"
      using assms(3) [OF w(1), of e] fault_freeD [OF assms(4)] by blast
    ultimately show ?thesis by simp
  next
    case (2 fs)
    with w(2) have "f (w\<lparr>w_faults := fs\<rparr>) = (Inl e, t)" by simp
    then show ?thesis by (rule hoareD_err [OF assms(1) \<open>P (w\<lparr>w_faults := fs\<rparr>)\<close>])
  qed
qed

lemma keeps_stmt [keeps_intros]: "fault_free P \<Longrightarrow> keeps P f \<Longrightarrow> keeps P (stmt f)"
  unfolding keeps_def by (rule hoare_stmt) (auto simp: fault_free_def)

lemma keeps_query [keeps_intros]: "fault_free P \<Longrightarrow> keeps P (query q)"
  and keeps_ctx_check [keeps_intros]: "fault_free P \<Longrightarrow> keeps P ctx_check"
  by (auto simp: query_def ctx_check_def intro!: keeps_intros)

lemma keeps_exec [keeps_intros]:
  "fault_free P \<Longrightarrow> (\<And>w. P w \<Longrightarrow> P (w\<lparr>w_db := f (w_db w)\<rparr>)) \<Longrightarrow> keeps P (exec f)"
  by (auto simp: exec_def intro!: keeps_intros)

lemma keeps_first_row [keeps_intros]: "fault_free P \<Longrightarrow> keeps P (first_row q)"
  unfolding first_row_def by (rule keeps_stmt, assumption, rule keepsI) (auto split: list.splits)

text \<open>Atomicity: a transaction that fails leaves the database as it found it.\<close>

lemma transaction_atomic: "transaction f w = (Inl e, w') \<Longrightarrow> w_db w' = w_db w"
  by (auto simp: transaction_def split: prod.splits sum.splits)

lemma hoare_transaction:
  assumes "\<And>d. hoare (\<lambda>w. P w \<and> w_db w = d) f Q (\<lambda>e w. R e (w\<lparr>w_db := d\<rparr>))"
    and "\<And>x. fault_free (Q x)"
    and "\<And>w x d e. Q x w \<Longrightarrow> R e (w\<lparr>w_db := d\<rparr>)"
    and "\<And>e. fault_free (R e)"
  shows "hoare P (transaction f) Q R"
proof -
  have "hoare (\<lambda>w. P w \<and> w_db w = d) (bnd f (\<lambda>x. bnd ctx_check (\<lambda>_. ret x))) Q
          (\<lambda>e w. R e (w\<lparr>w_db := d\<rparr>))" for d
  proof (rule hoare_bnd [OF assms(1)])
    fix x
    show "hoare (Q x) (bnd ctx_check (\<lambda>_. ret x)) Q (\<lambda>e w. R e (w\<lparr>w_db := d\<rparr>))"
      unfolding ctx_check_def hoare_def using assms(2-4)
      by (auto simp: bnd_def stmt_def fault_free_def split: list.splits option.splits)
  qed
  then show ?thesis
    unfolding transaction_def hoare_def
    by (fastforce split: prod.splits sum.splits)
qed

end
