(* ===== verification/Dict_Cache.thy ===== *)
theory Dict_Cache
  imports Schema
begin

text \<open>
  The dictionaries that give accounts, NFTs, message types, type tags and EVM transaction
  hashes their ids: \<open>src/util/cache/cache.go\<close>, over the LRU cache of
  \<open>src/cache/cache.go\<close>. The Go file writes the same steps once per dictionary: look the
  requests up in the cache, read the missing ones from the table, create the rows that
  do not exist, fill the cache. Here the steps are written once over a descriptor
  \<open>dict\<close> of the dictionary, and each Go function is the instance for its own.
\<close>

section \<open>The LRU cache\<close>

definition lru_touch :: "'k \<Rightarrow> ('k, 'v) lru \<Rightarrow> ('k, 'v) lru" where
  "lru_touch k c = (case map_of c k of None \<Rightarrow> c | Some v \<Rightarrow> (k, v) # filter (\<lambda>p. fst p \<noteq> k) c)"

definition lru_Get :: "('k, 'v) lru \<Rightarrow> 'k \<Rightarrow> 'v option \<times> ('k, 'v) lru" where
  "lru_Get c k = (map_of c k, lru_touch k c)"

definition lru_Set :: "(('k, 'v) lru \<Rightarrow> ('k, 'v) lru) \<Rightarrow> ('k, 'v) lru \<Rightarrow> 'k \<Rightarrow> 'v \<Rightarrow> ('k, 'v) lru" where
  "lru_Set evict c k v = evict ((k, v) # filter (\<lambda>p. fst p \<noteq> k) c)"

text \<open>What the code relies on of the replacement policy: it only removes entries.\<close>

definition evicts :: "(('k, 'v) lru \<Rightarrow> ('k, 'v) lru) \<Rightarrow> bool" where
  "evicts ev \<longleftrightarrow> (\<forall>c. set (ev c) \<subseteq> set c)"

lemma set_lru_touch [simp]: "set (lru_touch k c) \<subseteq> set c"
  by (auto simp: lru_touch_def split: option.splits dest: map_of_SomeD)

lemma set_lru_Set: "evicts ev \<Longrightarrow> set (lru_Set ev c k v) \<subseteq> insert (k, v) (set c)"
  unfolding lru_Set_def evicts_def by fastforce

lemma map_of_lru_touch [simp]: "map_of (lru_touch k c) j = map_of c j"
  by (auto simp: lru_touch_def map_of_filter_fst split: option.splits)


section \<open>Descriptors\<close>

text \<open>
  \<open>d_key\<close> is the key of a request in the result map, \<open>d_ckey\<close> the key it is cached under,
  \<open>d_val\<close> the value it is stored as, \<open>d_rkey\<close> the cache key of a stored value, and
  \<open>d_ok\<close> holds of the values a table may store.
\<close>

record ('q, 'c, 'k) dict =
  d_cache :: "world \<Rightarrow> ('c, int) lru"
  d_put_cache :: "('c, int) lru \<Rightarrow> world \<Rightarrow> world"
  d_rows :: "world \<Rightarrow> 'k dict_row list"
  d_put_rows :: "'k dict_row list \<Rightarrow> world \<Rightarrow> world"
  d_serial :: "world \<Rightarrow> int"
  d_put_serial :: "int \<Rightarrow> world \<Rightarrow> world"
  d_evict :: "('c, int) lru \<Rightarrow> ('c, int) lru"
  d_key :: "'q \<Rightarrow> 'c"
  d_ckey :: "'q \<Rightarrow> err + 'c"
  d_val :: "'q \<Rightarrow> err + 'k"
  d_rkey :: "'k \<Rightarrow> 'c"
  d_ok :: "'k \<Rightarrow> bool"

definition normalizeAccountToBech32 :: "env \<Rightarrow> string \<Rightarrow> err + string" where
  "normalizeAccountToBech32 E account =
     rbind (AccAddressFromString (from_bech32 E) account) (\<lambda>accBytes. Inr (to_bech32 E accBytes))"

definition account_dict :: "env \<Rightarrow> (string, string, byte list) dict" where
  "account_dict E =
     \<lparr>d_cache = accountCache, d_put_cache = (\<lambda>c w. w\<lparr>accountCache := c\<rparr>),
      d_rows = (\<lambda>w. t_account_dict (w_db w)),
      d_put_rows = (\<lambda>t w. w\<lparr>w_db := (w_db w)\<lparr>t_account_dict := t\<rparr>\<rparr>),
      d_serial = serial_account, d_put_serial = (\<lambda>n w. w\<lparr>serial_account := n\<rparr>),
      d_evict = evict_ids E,
      d_key = (\<lambda>a. a), d_ckey = normalizeAccountToBech32 E,
      d_val = AccAddressFromString (from_bech32 E), d_rkey = to_bech32 E,
      d_ok = (\<lambda>b. b \<noteq> [])\<rparr>"

definition msg_type_dict :: "env \<Rightarrow> (string, string, string) dict" where
  "msg_type_dict E =
     \<lparr>d_cache = msgTypeCache, d_put_cache = (\<lambda>c w. w\<lparr>msgTypeCache := c\<rparr>),
      d_rows = (\<lambda>w. t_msg_type_dict (w_db w)),
      d_put_rows = (\<lambda>t w. w\<lparr>w_db := (w_db w)\<lparr>t_msg_type_dict := t\<rparr>\<rparr>),
      d_serial = serial_msg_type, d_put_serial = (\<lambda>n w. w\<lparr>serial_msg_type := n\<rparr>),
      d_evict = evict_ids E,
      d_key = (\<lambda>m. m), d_ckey = Inr, d_val = Inr, d_rkey = (\<lambda>m. m), d_ok = (\<lambda>_. True)\<rparr>"

definition type_tag_dict :: "env \<Rightarrow> (string, string, string) dict" where
  "type_tag_dict E =
     \<lparr>d_cache = typeTagCache, d_put_cache = (\<lambda>c w. w\<lparr>typeTagCache := c\<rparr>),
      d_rows = (\<lambda>w. t_type_tag_dict (w_db w)),
      d_put_rows = (\<lambda>t w. w\<lparr>w_db := (w_db w)\<lparr>t_type_tag_dict := t\<rparr>\<rparr>),
      d_serial = serial_type_tag, d_put_serial = (\<lambda>n w. w\<lparr>serial_type_tag := n\<rparr>),
      d_evict = evict_ids E,
      d_key = (\<lambda>m. m), d_ckey = Inr, d_val = Inr, d_rkey = (\<lambda>m. m), d_ok = (\<lambda>_. True)\<rparr>"

definition evm_tx_hash_dict :: "env \<Rightarrow> (byte list, string, byte list) dict" where
  "evm_tx_hash_dict E =
     \<lparr>d_cache = evmTxHashCache, d_put_cache = (\<lambda>c w. w\<lparr>evmTxHashCache := c\<rparr>),
      d_rows = (\<lambda>w. t_evm_tx_hash_dict (w_db w)),
      d_put_rows = (\<lambda>t w. w\<lparr>w_db := (w_db w)\<lparr>t_evm_tx_hash_dict := t\<rparr>\<rparr>),
      d_serial = serial_evm_tx_hash, d_put_serial = (\<lambda>n w. w\<lparr>serial_evm_tx_hash := n\<rparr>),
      d_evict = evict_ids E,
      d_key = BytesToHex, d_ckey = (\<lambda>h. Inr (BytesToHex h)), d_val = Inr,
      d_rkey = BytesToHex, d_ok = (\<lambda>_. True)\<rparr>"

text \<open>An NFT key is its collection address, as a hex string, and its token id.\<close>

type_synonym NftKey = "string \<times> string"

definition nft_dict :: "env \<Rightarrow> (NftKey, NftKey, byte list \<times> string) dict" where
  "nft_dict E =
     \<lparr>d_cache = nftCache, d_put_cache = (\<lambda>c w. w\<lparr>nftCache := c\<rparr>),
      d_rows = (\<lambda>w. t_nft_dict (w_db w)),
      d_put_rows = (\<lambda>t w. w\<lparr>w_db := (w_db w)\<lparr>t_nft_dict := t\<rparr>\<rparr>),
      d_serial = serial_nft, d_put_serial = (\<lambda>n w. w\<lparr>serial_nft := n\<rparr>),
      d_evict = evict_nfts E,
      d_key = (\<lambda>k. k), d_ckey = Inr,
      d_val = (\<lambda>(addr, tok). rbind (AccAddressFromString (from_bech32 E) addr) (\<lambda>b. Inr (b, tok))),
      d_rkey = (\<lambda>(b, tok). (BytesToHexWithPrefix b, tok)), d_ok = (\<lambda>_. True)\<rparr>"


section \<open>The steps\<close>

definition cache_Get :: "('q, 'c, 'k) dict \<Rightarrow> 'c \<Rightarrow> (world, int option) act" where
  "cache_Get D k = (\<lambda>w. let (r, c) = lru_Get (d_cache D w) k in (Inr r, d_put_cache D c w))"

definition cache_Set :: "('q, 'c, 'k) dict \<Rightarrow> 'c \<Rightarrow> int \<Rightarrow> (world, unit) act" where
  "cache_Set D k i = modify (\<lambda>w. d_put_cache D (lru_Set (d_evict D) (d_cache D w) k i) w)"

definition check_cache :: "('q, 'c, 'k) dict \<Rightarrow> 'q list \<Rightarrow> (world, ('c \<rightharpoonup> int) \<times> 'q list) act" where
  "check_cache D reqs = foreach
     (\<lambda>q (idMap, uncached).
        case d_ckey D q of
          Inl e \<Rightarrow> ret (idMap, uncached @ [q])
        | Inr k \<Rightarrow> bnd (cache_Get D k) (\<lambda>r.
            case r of
              Some i \<Rightarrow> ret (idMap(d_key D q \<mapsto> i), uncached)
            | None \<Rightarrow> ret (idMap, uncached @ [q])))
     reqs (Map.empty, [])"

definition fetch_rows :: "('q, 'c, 'k) dict \<Rightarrow> 'q list \<Rightarrow> (world, 'c \<rightharpoonup> int) act" where
  "fetch_rows D uncached =
     bnd (lift_res (map_res (d_val D) uncached)) (\<lambda>vals.
     bnd (stmt (gets (\<lambda>w. filter (\<lambda>r. snd r \<in> set vals) (d_rows D w)))) (\<lambda>entries.
     ret (fold (\<lambda>r m. m(d_rkey D (snd r) \<mapsto> fst r)) entries Map.empty)))"

text \<open>
  \<open>INSERT ... ON CONFLICT DO NOTHING RETURNING id\<close>: every offered row draws an id from the
  sequence, a value already stored is skipped.
\<close>

fun dict_insert :: "'k list \<Rightarrow> 'k dict_row list \<Rightarrow> int \<Rightarrow> int list \<times> 'k dict_row list \<times> int" where
  "dict_insert [] t n = ([], t, n)"
| "dict_insert (v # vs) t n =
     (if v \<in> snd ` set t then dict_insert vs t (n + 1)
      else let (ids, t', n') = dict_insert vs (t @ [(n + 1, v)]) (n + 1) in ((n + 1) # ids, t', n'))"

definition dict_Create :: "env \<Rightarrow> ('q, 'c, 'k) dict \<Rightarrow> 'k list \<Rightarrow> (world, int list) act" where
  "dict_Create E D vals = stmt (\<lambda>w.
     let (ids, t, n) = dict_insert vals (d_rows D w) (d_serial D w)
     in (Inr (backfill E (length vals) ids), d_put_serial D n (d_put_rows D t w)))"

definition create_entries ::
  "env \<Rightarrow> ('q, 'c, 'k) dict \<Rightarrow> 'q list \<Rightarrow> ('c \<rightharpoonup> int) \<Rightarrow> (world, 'c \<rightharpoonup> int) act" where
  "create_entries E D uncached m =
     bnd (lift_res (map_res (d_val D) (filter (\<lambda>q. m (d_key D q) = None) uncached))) (\<lambda>vals.
       if vals = [] then ret m
       else bnd (dict_Create E D vals) (\<lambda>ids.
         ret (fold (\<lambda>(v, i) m. m(d_rkey D v \<mapsto> i)) (zip vals ids) m)))"

definition update_cache ::
  "('q, 'c, 'k) dict \<Rightarrow> 'q list \<Rightarrow> ('c \<rightharpoonup> int) \<Rightarrow> ('c \<rightharpoonup> int) \<Rightarrow> (world, 'c \<rightharpoonup> int) act" where
  "update_cache D uncached m idMap = foreach
     (\<lambda>q idMap.
        case d_ckey D q of
          Inl e \<Rightarrow> ret idMap
        | Inr k \<Rightarrow> (case m k of
            None \<Rightarrow> ret idMap
          | Some i \<Rightarrow> bnd (cache_Set D k i) (\<lambda>_. ret (idMap(d_key D q \<mapsto> i)))))
     uncached idMap"

definition get_or_create ::
  "env \<Rightarrow> ('q, 'c, 'k) dict \<Rightarrow> 'q list \<Rightarrow> bool \<Rightarrow> (world, 'c \<rightharpoonup> int) act" where
  "get_or_create E D reqs createNew =
     bnd (check_cache D reqs) (\<lambda>(idMap, uncached).
       if uncached = [] then ret idMap
       else bnd (fetch_rows D uncached) (\<lambda>m.
         bnd (if createNew then create_entries E D uncached m else ret m) (\<lambda>m'.
           update_cache D uncached m' idMap)))"


section \<open>The functions of cache.go\<close>

definition checkAccountCache :: "env \<Rightarrow> string list \<Rightarrow> (world, (string \<rightharpoonup> int) \<times> string list) act" where
  "checkAccountCache E = check_cache (account_dict E)"

definition fetchAccountsFromDB :: "env \<Rightarrow> string list \<Rightarrow> (world, string \<rightharpoonup> int) act" where
  "fetchAccountsFromDB E = fetch_rows (account_dict E)"

definition createNewAccountEntries :: "env \<Rightarrow> string list \<Rightarrow> (string \<rightharpoonup> int) \<Rightarrow> (world, string \<rightharpoonup> int) act" where
  "createNewAccountEntries E = create_entries E (account_dict E)"

definition updateAccountCacheAndResult :: "env \<Rightarrow> string list \<Rightarrow> (string \<rightharpoonup> int) \<Rightarrow> (string \<rightharpoonup> int) \<Rightarrow> (world, string \<rightharpoonup> int) act" where
  "updateAccountCacheAndResult E = update_cache (account_dict E)"

definition GetOrCreateAccountIds :: "env \<Rightarrow> string list \<Rightarrow> bool \<Rightarrow> (world, string \<rightharpoonup> int) act" where
  "GetOrCreateAccountIds E accounts createNew =
     bnd (checkAccountCache E (dedup accounts)) (\<lambda>(idMap, uncached).
       if uncached = [] then ret idMap
       else bnd (fetchAccountsFromDB E uncached) (\<lambda>accountIdMap.
         bnd (if createNew then createNewAccountEntries E uncached accountIdMap else ret accountIdMap)
           (\<lambda>accountIdMap'. updateAccountCacheAndResult E uncached accountIdMap' idMap)))"

definition checkNftCache :: "env \<Rightarrow> NftKey list \<Rightarrow> (world, (NftKey \<rightharpoonup> int) \<times> NftKey list) act" where
  "checkNftCache E = check_cache (nft_dict E)"

definition fetchNftsFromDB :: "env \<Rightarrow> NftKey list \<Rightarrow> (world, NftKey \<rightharpoonup> int) act" where
  "fetchNftsFromDB E = fetch_rows (nft_dict E)"

definition createNewNftEntries :: "env \<Rightarrow> NftKey list \<Rightarrow> (NftKey \<rightharpoonup> int) \<Rightarrow> (world, NftKey \<rightharpoonup> int) act" where
  "createNewNftEntries E = create_entries E (nft_dict E)"

definition updateNftCacheAndResult :: "env \<Rightarrow> NftKey list \<Rightarrow> (NftKey \<rightharpoonup> int) \<Rightarrow> (NftKey \<rightharpoonup> int) \<Rightarrow> (world, NftKey \<rightharpoonup> int) act" where
  "updateNftCacheAndResult E = update_cache (nft_dict E)"

definition GetOrCreateNftIds :: "env \<Rightarrow> NftKey list \<Rightarrow> bool \<Rightarrow> (world, NftKey \<rightharpoonup> int) act" where
  "GetOrCreateNftIds E keys createNew =
     bnd (checkNftCache E keys) (\<lambda>(idMap, uncached).
       if uncached = [] then ret idMap
       else bnd (fetchNftsFromDB E uncached) (\<lambda>nftIdMap.
         bnd (if createNew then createNewNftEntries E uncached nftIdMap else ret nftIdMap)
           (\<lambda>nftIdMap'. updateNftCacheAndResult E uncached nftIdMap' idMap)))"

definition GetOrCreateMsgTypeIds :: "env \<Rightarrow> string list \<Rightarrow> bool \<Rightarrow> (world, string \<rightharpoonup> int) act" where
  "GetOrCreateMsgTypeIds E msgTypes createNew = get_or_create E (msg_type_dict E) msgTypes createNew"

definition GetOrCreateTypeTagIds :: "env \<Rightarrow> string list \<Rightarrow> bool \<Rightarrow> (world, string \<rightharpoonup> int) act" where
  "GetOrCreateTypeTagIds E typeTags createNew = get_or_create E (type_tag_dict E) typeTags createNew"

definition GetOrCreateEvmTxHashIds :: "env \<Rightarrow> byte list list \<Rightarrow> bool \<Rightarrow> (world, string \<rightharpoonup> int) act" where
  "GetOrCreateEvmTxHashIds E hashes createNew = get_or_create E (evm_tx_hash_dict E) hashes createNew"

definition GetAccountCache :: "env \<Rightarrow> string \<Rightarrow> (world, int option) act" where
  "GetAccountCache E account =
     (case normalizeAccountToBech32 E account of
        Inl e \<Rightarrow> ret None
      | Inr key \<Rightarrow> cache_Get (account_dict E) key)"

lemma GetOrCreateAccountIds_eq:
  "GetOrCreateAccountIds E accounts createNew = get_or_create E (account_dict E) (dedup accounts) createNew"
  unfolding GetOrCreateAccountIds_def get_or_create_def checkAccountCache_def
    fetchAccountsFromDB_def createNewAccountEntries_def updateAccountCacheAndResult_def
  by (rule refl)

lemma GetOrCreateNftIds_eq:
  "GetOrCreateNftIds E keys createNew = get_or_create E (nft_dict E) keys createNew"
  unfolding GetOrCreateNftIds_def get_or_create_def checkNftCache_def
    fetchNftsFromDB_def createNewNftEntries_def updateNftCacheAndResult_def
  by (rule refl)


section \<open>The contract of a dictionary\<close>

text \<open>
  The table gives every value one id and every id one value, ids are positive and were
  drawn from the sequence, and every cached id is the id of a row.
\<close>

definition dict_inv :: "('q, 'c, 'k) dict \<Rightarrow> world \<Rightarrow> bool" where
  "dict_inv D w \<longleftrightarrow>
     distinct (map fst (d_rows D w)) \<and> distinct (map snd (d_rows D w)) \<and> 0 \<le> d_serial D w \<and>
     (\<forall>r \<in> set (d_rows D w). 0 < fst r \<and> fst r \<le> d_serial D w \<and> d_ok D (snd r)) \<and>
     (\<forall>p \<in> set (d_cache D w). \<exists>v. (snd p, v) \<in> set (d_rows D w) \<and> d_rkey D v = fst p)"

text \<open>A well-formed request is written the way the dictionary writes its keys.\<close>

definition wf_req :: "('q, 'c, 'k) dict \<Rightarrow> 'q \<Rightarrow> bool" where
  "wf_req D q \<longleftrightarrow> (\<exists>v. d_val D q = Inr v \<and> d_ckey D q = Inr (d_rkey D v) \<and>
     d_key D q = d_rkey D v \<and> d_ok D v)"

definition backfill_ok :: "env \<Rightarrow> bool" where
  "backfill_ok E \<longleftrightarrow> (\<forall>ids. backfill E (length ids) ids = ids)"

text \<open>A map from row keys to ids, and a result map for requests, that agree with the table.\<close>

definition row_map :: "('q, 'c, 'k) dict \<Rightarrow> 'k dict_row list \<Rightarrow> ('c \<rightharpoonup> int) \<Rightarrow> bool" where
  "row_map D t m \<longleftrightarrow> (\<forall>k i. m k = Some i \<longrightarrow> (\<exists>v. (i, v) \<in> set t \<and> d_rkey D v = k))"

definition sound :: "('q, 'c, 'k) dict \<Rightarrow> 'k dict_row list \<Rightarrow> 'q list \<Rightarrow> ('c \<rightharpoonup> int) \<Rightarrow> bool" where
  "sound D t reqs m \<longleftrightarrow> (\<forall>k i. m k = Some i \<longrightarrow>
     (\<exists>q \<in> set reqs. d_key D q = k \<and> (\<exists>v. d_ckey D q = Inr (d_rkey D v) \<and> (i, v) \<in> set t)))"

lemma sound_empty [simp]: "sound D t reqs Map.empty"
  by (simp add: sound_def)

lemma sound_mono: "sound D t reqs m \<Longrightarrow> set t \<subseteq> set u \<Longrightarrow> set reqs \<subseteq> set reqs' \<Longrightarrow> sound D u reqs' m"
  unfolding sound_def by (meson subsetD)

lemma sound_upd:
  "sound D t reqs m \<Longrightarrow> q \<in> set reqs \<Longrightarrow> d_ckey D q = Inr (d_rkey D v) \<Longrightarrow> (i, v) \<in> set t \<Longrightarrow>
   sound D t reqs (m(d_key D q \<mapsto> i))"
  by (auto simp: sound_def)

lemma row_map_upd: "row_map D t m \<Longrightarrow> (i, v) \<in> set t \<Longrightarrow> row_map D t (m(d_rkey D v \<mapsto> i))"
  by (auto simp: row_map_def)

lemma row_map_mono: "row_map D t m \<Longrightarrow> set t \<subseteq> set u \<Longrightarrow> row_map D u m"
  unfolding row_map_def by blast

lemma fold_row_map:
  "row_map D t m \<Longrightarrow> set es \<subseteq> set t \<Longrightarrow> row_map D t (fold (\<lambda>r m. m(d_rkey D (snd r) \<mapsto> fst r)) es m)"
  by (induction es arbitrary: m) (auto simp: row_map_upd)

lemma dom_fold_row_map:
  "dom (fold (\<lambda>r m. m(d_rkey D (snd r) \<mapsto> fst r)) es m) = dom m \<union> (\<lambda>r. d_rkey D (snd r)) ` set es"
  by (induction es arbitrary: m) auto

text \<open>The next \<open>k\<close> ids of a sequence that stands at \<open>n\<close>.\<close>

fun ids_from :: "int \<Rightarrow> nat \<Rightarrow> int list" where
  "ids_from n 0 = []"
| "ids_from n (Suc k) = (n + 1) # ids_from (n + 1) k"

lemma length_ids_from [simp]: "length (ids_from n k) = k"
  by (induction k arbitrary: n) auto

lemma set_ids_from: "set (ids_from n k) = {n + 1..n + int k}"
  by (induction k arbitrary: n) auto

lemma distinct_ids_from [simp]: "distinct (ids_from n k)"
  by (induction k arbitrary: n) (auto simp: set_ids_from)

text \<open>Inserting distinct new values appends them with the next ids of the sequence.\<close>

lemma dict_insert_fresh:
  "distinct vs \<Longrightarrow> set vs \<inter> snd ` set t = {} \<Longrightarrow>
   dict_insert vs t n =
     (ids_from n (length vs), t @ zip (ids_from n (length vs)) vs, n + int (length vs))"
proof (induction vs arbitrary: t n)
  case (Cons v vs)
  have "dict_insert vs (t @ [(n + 1, v)]) (n + 1) =
      (ids_from (n + 1) (length vs), (t @ [(n + 1, v)]) @ zip (ids_from (n + 1) (length vs)) vs,
       n + 1 + int (length vs))"
    using Cons.prems by (intro Cons.IH) auto
  with Cons.prems show ?case by simp
qed simp


section \<open>What every dictionary guarantees\<close>

text \<open>
  The interface: a descriptor whose three parts of the state are independent and untouched
  by the schedule, and whose result keys tell requests apart.
\<close>

locale dict_store =
  fixes D :: "('q, 'c, 'k) dict"
  assumes cache_put [simp]: "d_cache D (d_put_cache D c w) = c"
      "d_rows D (d_put_cache D c w) = d_rows D w" "d_serial D (d_put_cache D c w) = d_serial D w"
    and rows_put [simp]: "d_cache D (d_put_rows D t w) = d_cache D w"
      "d_rows D (d_put_rows D t w) = t" "d_serial D (d_put_rows D t w) = d_serial D w"
    and serial_put [simp]: "d_cache D (d_put_serial D n w) = d_cache D w"
      "d_rows D (d_put_serial D n w) = d_rows D w" "d_serial D (d_put_serial D n w) = n"
    and faults_put [simp]: "d_cache D (w\<lparr>w_faults := fs\<rparr>) = d_cache D w"
      "d_rows D (w\<lparr>w_faults := fs\<rparr>) = d_rows D w" "d_serial D (w\<lparr>w_faults := fs\<rparr>) = d_serial D w"
    and key_inj: "inj (d_key D)"
begin

abbreviation st :: "'k dict_row list \<Rightarrow> world \<Rightarrow> bool" where
  "st t w \<equiv> dict_inv D w \<and> d_rows D w = t"

lemma fault_free_st [simp]: "fault_free (\<lambda>w. st t w \<and> C)"
  by (simp add: fault_free_def dict_inv_def)

lemma inv_put_cache:
  "dict_inv D w \<Longrightarrow> \<forall>p \<in> set c. \<exists>v. (snd p, v) \<in> set (d_rows D w) \<and> d_rkey D v = fst p \<Longrightarrow>
   dict_inv D (d_put_cache D c w)"
  by (simp add: dict_inv_def)

lemma cache_entry:
  "dict_inv D w \<Longrightarrow> (k, i) \<in> set (d_cache D w) \<Longrightarrow> \<exists>v. (i, v) \<in> set (d_rows D w) \<and> d_rkey D v = k"
  unfolding dict_inv_def by force

lemma cache_Get_spec:
  "hoare (st t) (cache_Get D k)
     (\<lambda>r w. st t w \<and> (\<forall>i. r = Some i \<longrightarrow> (\<exists>v. (i, v) \<in> set t \<and> d_rkey D v = k))) R"
proof (rule hoareI)
  fix w r w' assume w: "st t w" and run: "cache_Get D k w = (Inr r, w')"
  from run have r: "r = map_of (d_cache D w) k" and w': "w' = d_put_cache D (lru_touch k (d_cache D w)) w"
    by (auto simp: cache_Get_def lru_Get_def)
  have "dict_inv D w'"
    unfolding w' using w cache_entry [of w] set_lru_touch [of k "d_cache D w"]
    by (intro inv_put_cache) (auto simp: subset_iff)
  moreover have "\<exists>v. (i, v) \<in> set t \<and> d_rkey D v = k" if "r = Some i" for i
    using that w cache_entry [of w k i] by (auto simp: r dest: map_of_SomeD)
  ultimately show "st t w' \<and> (\<forall>i. r = Some i \<longrightarrow> (\<exists>v. (i, v) \<in> set t \<and> d_rkey D v = k))"
    using w by (simp add: w')
qed (auto simp: cache_Get_def lru_Get_def)

lemma cache_Set_spec:
  assumes "evicts (d_evict D)" "(i, v) \<in> set t" "d_rkey D v = k"
  shows "hoare (st t) (cache_Set D k i) (\<lambda>_. st t) R"
proof -
  have "dict_inv D (d_put_cache D (lru_Set (d_evict D) (d_cache D w) k i) w)" if "st t w" for w
  proof (rule inv_put_cache)
    show "dict_inv D w" using that by simp
    show "\<forall>p \<in> set (lru_Set (d_evict D) (d_cache D w) k i).
        \<exists>v. (snd p, v) \<in> set (d_rows D w) \<and> d_rkey D v = fst p"
      using set_lru_Set [OF assms(1), of "d_cache D w" k i] that assms(2,3) cache_entry [of w]
      by (fastforce simp: subset_iff)
  qed
  then show ?thesis by (auto simp: hoare_def cache_Set_def)
qed

text \<open>What the cache lookup has found after the requests \<open>ys\<close>.\<close>

definition checked :: "'k dict_row list \<Rightarrow> 'q list \<Rightarrow> ('c \<rightharpoonup> int) \<times> 'q list \<Rightarrow> bool" where
  "checked t ys a \<longleftrightarrow> sound D t ys (fst a) \<and> set (snd a) \<subseteq> set ys \<and>
     (\<forall>q \<in> set ys. q \<in> set (snd a) \<or> fst a (d_key D q) \<noteq> None) \<and> (distinct ys \<longrightarrow> distinct (snd a))"

lemma checked_miss: "checked t ys (m, unc) \<Longrightarrow> checked t (ys @ [q]) (m, unc @ [q])"
  by (auto simp: checked_def elim: sound_mono)

lemma checked_hit:
  "checked t ys (m, unc) \<Longrightarrow> d_ckey D q = Inr (d_rkey D v) \<Longrightarrow> (i, v) \<in> set t \<Longrightarrow>
   checked t (ys @ [q]) (m(d_key D q \<mapsto> i), unc)"
  unfolding checked_def by (auto intro!: sound_upd elim: sound_mono)

lemma check_cache_spec:
  "hoare (st t) (check_cache D reqs) (\<lambda>a w. st t w \<and> checked t reqs a) R"
proof -
  define f where "f = (\<lambda>q (idMap, uncached). case d_ckey D q of
      Inl e \<Rightarrow> ret (idMap, uncached @ [q])
    | Inr k \<Rightarrow> bnd (cache_Get D k) (\<lambda>r. case r of
          Some i \<Rightarrow> ret (idMap(d_key D q \<mapsto> i), uncached) | None \<Rightarrow> ret (idMap, uncached @ [q])))"
  have "hoare (\<lambda>w. st t w \<and> checked t ys a) (f q a) (\<lambda>b w. st t w \<and> checked t (ys @ [q]) b) R"
    for ys q a
  proof (rule hoare_assume, cases a)
    fix m unc assume chk: "checked t ys a" and a: "a = (m, unc)"
    show "hoare (st t) (f q a) (\<lambda>b w. st t w \<and> checked t (ys @ [q]) b) R"
    proof (cases "d_ckey D q")
      case (Inl e)
      with chk a show ?thesis by (auto simp: f_def hoare_def checked_miss)
    next
      case (Inr k)
      have "hoare (\<lambda>w. st t w \<and> (\<forall>i. r = Some i \<longrightarrow> (\<exists>v. (i, v) \<in> set t \<and> d_rkey D v = k)))
          (case r of Some i \<Rightarrow> ret (m(d_key D q \<mapsto> i), unc) | None \<Rightarrow> ret (m, unc @ [q]))
          (\<lambda>b w. st t w \<and> checked t (ys @ [q]) b) R" for r
        using chk Inr unfolding a by (cases r) (auto simp: hoare_def checked_miss intro: checked_hit)
      then show ?thesis using Inr unfolding a f_def by (auto intro: hoare_bnd [OF cache_Get_spec])
    qed
  qed
  from hoare_foreach [where I = "\<lambda>ys a w. st t w \<and> checked t ys a" and xs = reqs
      and a = "(Map.empty, [])", OF this]
  have "hoare (\<lambda>w. st t w \<and> checked t [] (Map.empty, [])) (check_cache D reqs)
      (\<lambda>a w. st t w \<and> checked t reqs a) R"
    by (simp add: check_cache_def f_def)
  then show ?thesis by (rule hoare_pre) (simp add: checked_def)
qed

text \<open>The rows read for the requests \<open>unc\<close>: right, and complete for them.\<close>

definition fetched :: "'k dict_row list \<Rightarrow> 'q list \<Rightarrow> ('c \<rightharpoonup> int) \<Rightarrow> bool" where
  "fetched t unc m \<longleftrightarrow> row_map D t m \<and>
     (\<forall>q \<in> set unc. \<forall>v i. d_val D q = Inr v \<and> (i, v) \<in> set t \<longrightarrow> m (d_rkey D v) \<noteq> None)"

lemma fetch_rows_spec:
  "hoare (st t) (fetch_rows D unc) (\<lambda>m w. st t w \<and> fetched t unc m) (\<lambda>e. st t)"
proof (cases "map_res (d_val D) unc")
  case (Inl e)
  then show ?thesis by (simp add: fetch_rows_def hoare_def bnd_def)
next
  case (Inr vals)
  define es where "es = filter (\<lambda>r. snd r \<in> set vals) t"
  have all: "list_all2 (\<lambda>q v. d_val D q = Inr v) unc vals" using Inr by (simp add: map_res_Inr)
  have complete: "fold (\<lambda>r m. m(d_rkey D (snd r) \<mapsto> fst r)) es Map.empty (d_rkey D v) \<noteq> None"
    if "q \<in> set unc" "d_val D q = Inr v" "(i, v) \<in> set t" for q v i
  proof -
    have "v \<in> set vals" using all that(1,2) by (force simp: list_all2_conv_all_nth in_set_conv_nth)
    then have "(i, v) \<in> set es" using that(3) by (simp add: es_def)
    then have "d_rkey D v \<in> dom (fold (\<lambda>r m. m(d_rkey D (snd r) \<mapsto> fst r)) es Map.empty)"
      unfolding dom_fold_row_map by force
    then show ?thesis by blast
  qed
  have "row_map D t (fold (\<lambda>r m. m(d_rkey D (snd r) \<mapsto> fst r)) es Map.empty)"
    by (rule fold_row_map) (auto simp: row_map_def es_def)
  with complete have fetched: "fetched t unc (fold (\<lambda>r m. m(d_rkey D (snd r) \<mapsto> fst r)) es Map.empty)"
    unfolding fetched_def by blast
  have "hoare (st t) (stmt (gets (\<lambda>w. filter (\<lambda>r. snd r \<in> set vals) (d_rows D w))))
      (\<lambda>r w. st t w \<and> r = es) (\<lambda>e. st t)"
    by (rule hoare_stmt) (auto simp: hoare_def es_def fault_free_def dict_inv_def)
  then have "hoare (st t)
      (bnd (stmt (gets (\<lambda>w. filter (\<lambda>r. snd r \<in> set vals) (d_rows D w))))
        (\<lambda>entries. ret (fold (\<lambda>r m. m(d_rkey D (snd r) \<mapsto> fst r)) entries Map.empty)))
      (\<lambda>m w. st t w \<and> fetched t unc m) (\<lambda>e. st t)"
    by (rule hoare_bnd) (auto simp: hoare_def fetched)
  with Inr show ?thesis by (simp add: fetch_rows_def hoare_def bnd_def)
qed

lemma wf_values:
  assumes "\<forall>q \<in> set unc. wf_req D q"
  obtains g where "\<And>q. q \<in> set unc \<Longrightarrow> d_val D q = Inr (g q)"
    "\<And>q. q \<in> set unc \<Longrightarrow> d_ckey D q = Inr (d_rkey D (g q))"
    "\<And>q. q \<in> set unc \<Longrightarrow> d_key D q = d_rkey D (g q)"
    "\<And>q. q \<in> set unc \<Longrightarrow> d_ok D (g q)"
proof -
  have "\<forall>q \<in> set unc. \<exists>v. d_val D q = Inr v \<and> d_ckey D q = Inr (d_rkey D v) \<and>
      d_key D q = d_rkey D v \<and> d_ok D v"
    using assms by (simp add: wf_req_def)
  then obtain g where "\<forall>q \<in> set unc. d_val D q = Inr (g q) \<and> d_ckey D q = Inr (d_rkey D (g q)) \<and>
      d_key D q = d_rkey D (g q) \<and> d_ok D (g q)"
    by (rule bchoice [THEN exE])
  then show ?thesis using that by blast
qed

lemma inv_insert:
  assumes inv: "dict_inv D w" and new: "distinct vals" "set vals \<inter> snd ` set (d_rows D w) = {}"
    "\<forall>v \<in> set vals. d_ok D v"
  defines "n \<equiv> d_serial D w"
  shows "dict_inv D (d_put_serial D (n + int (length vals))
    (d_put_rows D (d_rows D w @ zip (ids_from n (length vals)) vals) w))"
proof -
  have "fst ` set (d_rows D w) \<inter> set (ids_from n (length vals)) = {}"
    using inv by (force simp: dict_inv_def set_ids_from n_def)
  moreover have "map fst (zip (ids_from n (length vals)) vals) = ids_from n (length vals)"
    "map snd (zip (ids_from n (length vals)) vals) = vals" by simp_all
  moreover have "0 < fst r \<and> fst r \<le> n + int (length vals) \<and> d_ok D (snd r)"
    if "r \<in> set (zip (ids_from n (length vals)) vals)" for r
  proof -
    have "fst r \<in> set (ids_from n (length vals))" "snd r \<in> set vals"
      using that set_zip_leftD [of "fst r" "snd r"] set_zip_rightD [of "fst r" "snd r"] by simp_all
    moreover have "0 \<le> n" using inv by (simp add: dict_inv_def n_def)
    ultimately show ?thesis using new(3) by (auto simp: set_ids_from)
  qed
  ultimately show ?thesis
    using inv new unfolding dict_inv_def
    by (auto simp: n_def [symmetric] Int_commute)
qed

lemma fold_zip_map:
  "fold (\<lambda>(v, i) m. m(d_rkey D v \<mapsto> i)) (zip vs ids) m =
   fold (\<lambda>r m. m(d_rkey D (snd r) \<mapsto> fst r)) (zip ids vs) m"
  by (induction vs ids arbitrary: m rule: list_induct2') auto

lemma dict_Create_spec:
  assumes bf: "backfill_ok E" and new: "distinct vals" "set vals \<inter> snd ` set t = {}"
    "\<forall>v \<in> set vals. d_ok D v"
  shows "hoare (st t) (dict_Create E D vals)
    (\<lambda>ids w. dict_inv D w \<and> d_rows D w = t @ zip ids vals \<and> length ids = length vals) (\<lambda>e. st t)"
  unfolding dict_Create_def
proof (rule hoare_stmt, rule hoareI)
  fix w ids w' assume w: "st t w"
    and run: "(let (ids, t, n) = dict_insert vals (d_rows D w) (d_serial D w)
      in (Inr (backfill E (length vals) ids), d_put_serial D n (d_put_rows D t w))) = (Inr ids, w')"
  let ?ids = "ids_from (d_serial D w) (length vals)"
  have "dict_insert vals (d_rows D w) (d_serial D w) =
      (?ids, t @ zip ?ids vals, d_serial D w + int (length vals))"
    using dict_insert_fresh [OF new(1), of t] new(2) w by simp
  moreover have "backfill E (length vals) ?ids = ?ids"
    using bf unfolding backfill_ok_def by (metis length_ids_from)
  ultimately have ids: "ids = ?ids"
    and w': "w' = d_put_serial D (d_serial D w + int (length vals)) (d_put_rows D (t @ zip ?ids vals) w)"
    using run by auto
  have "dict_inv D w'"
    using inv_insert [of w vals] w new by (simp add: w')
  then show "dict_inv D w' \<and> d_rows D w' = t @ zip ids vals \<and> length ids = length vals"
    by (simp add: w' ids)
qed (auto simp: Let_def fault_free_def dict_inv_def split: prod.splits)

lemma created_map:
  assumes rm: "row_map D t m" and len: "length ids = length vals"
  defines "m' \<equiv> fold (\<lambda>(v, i) m. m(d_rkey D v \<mapsto> i)) (zip vals ids) m"
  shows "row_map D (t @ zip ids vals) m'" and "dom m' = dom m \<union> d_rkey D ` set vals"
proof -
  show "row_map D (t @ zip ids vals) m'"
    unfolding m'_def fold_zip_map by (rule fold_row_map) (auto intro: row_map_mono [OF rm])
  have "snd ` set (zip ids vals) = set vals" using len by (metis map_snd_zip set_map)
  then show "dom m' = dom m \<union> d_rkey D ` set vals"
    unfolding m'_def fold_zip_map dom_fold_row_map by (metis image_image)
qed

text \<open>The requests without a row: their values are new to the table and distinct.\<close>

lemma new_values:
  assumes wf: "\<forall>q \<in> set unc. wf_req D q" and dist: "distinct unc" and m: "fetched t unc m"
  defines "new \<equiv> filter (\<lambda>q. m (d_key D q) = None) unc"
  obtains vals where "map_res (d_val D) new = Inr vals" "distinct vals" "set vals \<inter> snd ` set t = {}"
    "\<forall>v \<in> set vals. d_ok D v" "d_rkey D ` set vals = d_key D ` set new" "vals = [] \<longleftrightarrow> new = []"
proof -
  obtain g where g: "\<And>q. q \<in> set unc \<Longrightarrow> d_val D q = Inr (g q)"
    "\<And>q. q \<in> set unc \<Longrightarrow> d_key D q = d_rkey D (g q)"
    "\<And>q. q \<in> set unc \<Longrightarrow> d_ok D (g q)"
    using wf by (rule wf_values) blast
  have "inj_on g (set new)"
  proof (rule inj_onI)
    fix p q assume "p \<in> set new" "q \<in> set new" "g p = g q"
    then have "d_key D p = d_key D q" using g(2) by (simp add: new_def)
    with key_inj show "p = q" by (rule injD)
  qed
  then have "distinct (map g new)" using dist by (simp add: distinct_map new_def)
  moreover have "set (map g new) \<inter> snd ` set t = {}"
    using m g(1,2) by (force simp: new_def fetched_def)
  moreover have "map_res (d_val D) new = Inr (map g new)"
    by (rule map_res_total) (simp add: new_def g(1))
  moreover have "d_rkey D ` set (map g new) = d_key D ` set new"
    using g(2) by (force simp: new_def)
  ultimately show ?thesis using that [of "map g new"] g(3) by (simp add: new_def)
qed

lemma create_entries_spec:
  assumes bf: "backfill_ok E" and wf: "\<forall>q \<in> set unc. wf_req D q" and dist: "distinct unc"
    and m: "fetched t unc m"
  shows "hoare (st t) (create_entries E D unc m)
    (\<lambda>m' w. dict_inv D w \<and> (\<exists>u. d_rows D w = t @ u) \<and> row_map D (d_rows D w) m' \<and>
       (\<forall>q \<in> set unc. m' (d_key D q) \<noteq> None)) (\<lambda>e. st t)"
    (is "hoare _ _ ?Q _")
proof -
  define new where "new = filter (\<lambda>q. m (d_key D q) = None) unc"
  obtain vals where vals: "map_res (d_val D) new = Inr vals" "distinct vals" "set vals \<inter> snd ` set t = {}"
    "\<forall>v \<in> set vals. d_ok D v" "d_rkey D ` set vals = d_key D ` set new" "vals = [] \<longleftrightarrow> new = []"
    unfolding new_def by (rule new_values [OF wf dist m])
  have rm: "row_map D t m" using m by (simp add: fetched_def)
  have run: "create_entries E D unc m = (if vals = [] then ret m else bnd (dict_Create E D vals)
      (\<lambda>ids. ret (fold (\<lambda>(v, i) m. m(d_rkey D v \<mapsto> i)) (zip vals ids) m)))"
    using vals(1) unfolding create_entries_def new_def by (simp add: bnd_def lift_res_def)
  show ?thesis
  proof (cases "vals = []")
    case True
    then have "\<forall>q \<in> set unc. m (d_key D q) \<noteq> None"
      using vals(6) by (force simp: new_def filter_empty_conv)
    with True rm show ?thesis by (auto simp: run hoare_def)
  next
    case False
    have "?Q (fold (\<lambda>(v, i) m. m(d_rkey D v \<mapsto> i)) (zip vals ids) m) w"
      if w: "dict_inv D w \<and> d_rows D w = t @ zip ids vals \<and> length ids = length vals" for ids w
    proof -
      have "d_key D q \<in> dom m \<union> d_rkey D ` set vals" if "q \<in> set unc" for q
        using that vals(5) by (cases "m (d_key D q)") (auto simp: new_def)
      then show ?thesis
        using w created_map [OF rm, of ids vals] by (simp add: domIff set_eq_iff)
    qed
    then have "hoare (st t) (bnd (dict_Create E D vals)
        (\<lambda>ids. ret (fold (\<lambda>(v, i) m. m(d_rkey D v \<mapsto> i)) (zip vals ids) m))) ?Q (\<lambda>e. st t)"
      by (intro hoare_bnd [OF dict_Create_spec [OF bf vals(2-4)]]) (auto simp: hoare_def)
    with False show ?thesis by (simp add: run)
  qed
qed

text \<open>What the result map holds after the cache update for the requests \<open>ys\<close>.\<close>

lemma update_cache_spec:
  assumes ev: "evicts (d_evict D)" and rm: "row_map D t m" and sub: "set unc \<subseteq> set reqs"
    and snd0: "sound D t reqs idMap"
  shows "hoare (st t) (update_cache D unc m idMap)
    (\<lambda>r w. st t w \<and> sound D t reqs r \<and> dom idMap \<subseteq> dom r \<and>
       (\<forall>q \<in> set unc. \<forall>k. d_ckey D q = Inr k \<and> m k \<noteq> None \<longrightarrow> r (d_key D q) \<noteq> None)) R"
proof -
  define f where "f = (\<lambda>q idMap. case d_ckey D q of
      Inl e \<Rightarrow> ret idMap
    | Inr k \<Rightarrow> (case m k of
        None \<Rightarrow> ret idMap
      | Some i \<Rightarrow> bnd (cache_Set D k i) (\<lambda>_. ret (idMap(d_key D q \<mapsto> i)))))"
  define C where "C = (\<lambda>ys r. sound D t reqs r \<and> dom idMap \<subseteq> dom r \<and>
       (\<forall>q \<in> set ys. \<forall>k. d_ckey D q = Inr k \<and> m k \<noteq> None \<longrightarrow> r (d_key D q) \<noteq> None))"
  have "hoare (\<lambda>w. st t w \<and> C ys r) (f q r) (\<lambda>r' w. st t w \<and> C (ys @ [q]) r') R"
    if q: "q \<in> set reqs" for ys q r
  proof (rule hoare_assume)
    assume r: "C ys r"
    show "hoare (st t) (f q r) (\<lambda>r' w. st t w \<and> C (ys @ [q]) r') R"
    proof (cases "\<exists>k i. d_ckey D q = Inr k \<and> m k = Some i")
      case False
      then have "f q r = ret r" by (auto simp: f_def split: sum.splits option.splits)
      with False r show ?thesis by (auto simp: hoare_def C_def)
    next
      case True
      then obtain k i where k: "d_ckey D q = Inr k" "m k = Some i" by blast
      with rm obtain v where v: "(i, v) \<in> set t" "d_rkey D v = k" by (auto simp: row_map_def)
      then have "C (ys @ [q]) (r(d_key D q \<mapsto> i))"
        using r q k by (auto simp: C_def intro!: sound_upd)
      then have "hoare (st t) (bnd (cache_Set D k i) (\<lambda>_. ret (r(d_key D q \<mapsto> i))))
          (\<lambda>r' w. st t w \<and> C (ys @ [q]) r') R"
        by (intro hoare_bnd [OF cache_Set_spec [OF ev v]]) (auto simp: hoare_def)
      then show ?thesis using k by (simp add: f_def)
    qed
  qed
  then have "hoare (\<lambda>w. st t w \<and> C [] idMap) (foreach f unc idMap) (\<lambda>r w. st t w \<and> C unc r) R"
    using sub by (intro hoare_foreach [where I = "\<lambda>ys r w. st t w \<and> C ys r"]) auto
  then have "hoare (st t) (foreach f unc idMap) (\<lambda>r w. st t w \<and> C unc r) R"
    by (rule hoare_pre) (simp add: C_def snd0)
  then show ?thesis
    unfolding update_cache_def f_def [symmetric] by (simp add: C_def)
qed

lemma finish_spec:
  assumes ev: "evicts (d_evict D)" and chk: "checked t reqs (idMap, unc)"
    and u: "set t \<subseteq> set u" "row_map D u m"
    and need: "\<forall>q \<in> set unc. need q \<longrightarrow> (\<exists>k. d_ckey D q = Inr k \<and> m k \<noteq> None)"
  shows "hoare (st u) (update_cache D unc m idMap)
    (\<lambda>r w. st u w \<and> sound D u reqs r \<and> (\<forall>q \<in> set reqs. need q \<longrightarrow> r (d_key D q) \<noteq> None)) R"
proof (rule hoare_weaken [OF update_cache_spec [OF ev u(2), of unc reqs]])
  show "set unc \<subseteq> set reqs" using chk by (simp add: checked_def)
  show "sound D u reqs idMap" using chk u(1) by (auto simp: checked_def elim: sound_mono)
  fix r w
  assume r: "st u w \<and> sound D u reqs r \<and> dom idMap \<subseteq> dom r \<and>
    (\<forall>q \<in> set unc. \<forall>k. d_ckey D q = Inr k \<and> m k \<noteq> None \<longrightarrow> r (d_key D q) \<noteq> None)"
  have "r (d_key D q) \<noteq> None" if q: "q \<in> set reqs" "need q" for q
  proof (cases "q \<in> set unc")
    case True
    with need q(2) r show ?thesis by blast
  next
    case False
    with chk q(1) have "d_key D q \<in> dom idMap" by (auto simp: checked_def)
    with r show ?thesis by blast
  qed
  with r show "st u w \<and> sound D u reqs r \<and> (\<forall>q \<in> set reqs. need q \<longrightarrow> r (d_key D q) \<noteq> None)"
    by blast
qed

text \<open>
  The contract. Every id returned is the id of the value asked for, and a failing call
  leaves the table as it was. Without \<open>createNew\<close> the table is not touched and a
  well-formed request whose value has a row is found; with it rows are only added, and
  every well-formed request has an id in the result.
\<close>

definition has_row :: "'k dict_row list \<Rightarrow> 'q \<Rightarrow> bool" where
  "has_row t q \<longleftrightarrow> (\<exists>i v. d_val D q = Inr v \<and> d_ckey D q = Inr (d_rkey D v) \<and> (i, v) \<in> set t)"

lemma rest_False:
  assumes ev: "evicts (d_evict D)" and chk: "checked t reqs (idMap, unc)"
  shows "hoare (st t)
    (if unc = [] then ret idMap
     else bnd (fetch_rows D unc) (\<lambda>m. bnd (if False then create_entries E D unc m else ret m)
       (\<lambda>m'. update_cache D unc m' idMap)))
    (\<lambda>m w. st t w \<and> sound D t reqs m \<and> (\<forall>q \<in> set reqs. has_row t q \<longrightarrow> m (d_key D q) \<noteq> None))
    (\<lambda>e. st t)" (is "hoare _ _ ?Q ?R")
proof (cases "unc = []")
  case True
  with chk show ?thesis by (auto simp: hoare_def checked_def)
next
  case False
  have "hoare (\<lambda>w. st t w \<and> fetched t unc m)
      (bnd (if False then create_entries E D unc m else ret m) (\<lambda>m'. update_cache D unc m' idMap)) ?Q ?R" for m
  proof (rule hoare_assume)
    assume m: "fetched t unc m"
    then have "\<forall>q \<in> set unc. has_row t q \<longrightarrow> (\<exists>k. d_ckey D q = Inr k \<and> m k \<noteq> None)"
      by (force simp: fetched_def has_row_def)
    with m have "hoare (st t) (update_cache D unc m idMap) ?Q ?R"
      using finish_spec [OF ev chk, of t m "has_row t"] by (simp add: fetched_def)
    then show "hoare (st t) (bnd (if False then create_entries E D unc m else ret m)
        (\<lambda>m'. update_cache D unc m' idMap)) ?Q ?R"
      by (simp add: hoare_def bnd_def)
  qed
  with False show ?thesis by (auto intro: hoare_bnd [OF fetch_rows_spec])
qed

lemma rest_True:
  assumes ev: "evicts (d_evict D)" and bf: "backfill_ok E" and wf: "\<forall>q \<in> set reqs. wf_req D q"
    and chk: "checked t reqs (idMap, unc)" and dist: "distinct reqs"
  shows "hoare (st t)
    (if unc = [] then ret idMap
     else bnd (fetch_rows D unc) (\<lambda>m. bnd (if True then create_entries E D unc m else ret m)
       (\<lambda>m'. update_cache D unc m' idMap)))
    (\<lambda>m w. dict_inv D w \<and> (\<exists>u. d_rows D w = t @ u) \<and> sound D (d_rows D w) reqs m \<and>
       (\<forall>q \<in> set reqs. m (d_key D q) \<noteq> None))
    (\<lambda>e w. dict_inv D w \<and> (\<exists>u. d_rows D w = t @ u))" (is "hoare _ _ ?Q ?R")
proof (cases "unc = []")
  case True
  with chk show ?thesis by (auto simp: hoare_def checked_def)
next
  case False
  have unc: "distinct unc" "set unc \<subseteq> set reqs" using chk dist by (simp_all add: checked_def)
  have upd: "hoare (\<lambda>w. dict_inv D w \<and> (\<exists>u. d_rows D w = t @ u) \<and> row_map D (d_rows D w) m' \<and>
       (\<forall>q \<in> set unc. m' (d_key D q) \<noteq> None)) (update_cache D unc m' idMap) ?Q ?R" for m'
  proof -
    have "hoare (\<lambda>w. st (t @ u) w \<and> (row_map D (t @ u) m' \<and> (\<forall>q \<in> set unc. m' (d_key D q) \<noteq> None)))
        (update_cache D unc m' idMap) ?Q ?R" for u
    proof (rule hoare_assume)
      assume m': "row_map D (t @ u) m' \<and> (\<forall>q \<in> set unc. m' (d_key D q) \<noteq> None)"
      then have "\<forall>q \<in> set unc. \<exists>k. d_ckey D q = Inr k \<and> m' k \<noteq> None"
        using wf unc(2) unfolding wf_req_def by (metis subsetD)
      then show "hoare (st (t @ u)) (update_cache D unc m' idMap) ?Q ?R"
        using m' by (intro hoare_weaken [OF finish_spec [OF ev chk, of "t @ u" m' "\<lambda>_. True"]]) auto
    qed
    from hoare_ex [of "\<lambda>u w. st (t @ u) w \<and> (row_map D (t @ u) m' \<and> (\<forall>q \<in> set unc. m' (d_key D q) \<noteq> None))",
        OF this]
    show ?thesis by (rule hoare_pre) auto
  qed
  have "hoare (\<lambda>w. st t w \<and> fetched t unc m)
      (bnd (if True then create_entries E D unc m else ret m) (\<lambda>m'. update_cache D unc m' idMap)) ?Q ?R" for m
  proof (rule hoare_assume)
    assume m: "fetched t unc m"
    have "\<forall>q \<in> set unc. wf_req D q" using wf unc(2) by blast
    from create_entries_spec [OF bf this unc(1) m]
    have "hoare (st t) (create_entries E D unc m) (\<lambda>m' w. dict_inv D w \<and> (\<exists>u. d_rows D w = t @ u) \<and>
        row_map D (d_rows D w) m' \<and> (\<forall>q \<in> set unc. m' (d_key D q) \<noteq> None)) ?R"
      by (rule hoare_weaken) auto
    then show "hoare (st t) (bnd (if True then create_entries E D unc m else ret m)
        (\<lambda>m'. update_cache D unc m' idMap)) ?Q ?R"
      unfolding if_True by (rule hoare_bnd [OF _ upd])
  qed
  then have "hoare (st t) (bnd (fetch_rows D unc) (\<lambda>m. bnd (if True then create_entries E D unc m else ret m)
       (\<lambda>m'. update_cache D unc m' idMap))) ?Q ?R"
    by (rule hoare_bnd [OF hoare_weaken [OF fetch_rows_spec [of t unc]], rotated 3]) auto
  with False show ?thesis by simp
qed

lemma get_or_create_False:
  assumes ev: "evicts (d_evict D)"
  shows "hoare (st t) (get_or_create E D reqs False)
    (\<lambda>m w. st t w \<and> sound D t reqs m \<and> (\<forall>q \<in> set reqs. has_row t q \<longrightarrow> m (d_key D q) \<noteq> None))
    (\<lambda>e. st t)"
  unfolding get_or_create_def
  by (rule hoare_bnd [OF check_cache_spec], rule hoare_assume, simp only: split_beta)
     (rule rest_False [OF ev], simp)

lemma get_or_create_True:
  assumes "evicts (d_evict D)" "backfill_ok E" "\<forall>q \<in> set reqs. wf_req D q" "distinct reqs"
  shows "hoare (st t) (get_or_create E D reqs True)
    (\<lambda>m w. dict_inv D w \<and> (\<exists>u. d_rows D w = t @ u) \<and> sound D (d_rows D w) reqs m \<and>
       (\<forall>q \<in> set reqs. m (d_key D q) \<noteq> None))
    (\<lambda>e w. dict_inv D w \<and> (\<exists>u. d_rows D w = t @ u))"
  unfolding get_or_create_def
  by (rule hoare_bnd [OF check_cache_spec], rule hoare_assume, simp only: split_beta)
     (rule rest_True [OF assms(1-3) _ assms(4)], simp)

end


section \<open>The five dictionaries\<close>

interpretation acc: dict_store "account_dict E" for E
  by unfold_locales (simp_all add: account_dict_def)

interpretation msgt: dict_store "msg_type_dict E" for E
  by unfold_locales (simp_all add: msg_type_dict_def)

interpretation ttag: dict_store "type_tag_dict E" for E
  by unfold_locales (simp_all add: type_tag_dict_def)

lemma inj_BytesToHex: "inj BytesToHex"
  by (rule injI) (metis BytesToHex_def hex_decode_encode sum.inject(2))

interpretation hash: dict_store "evm_tx_hash_dict E" for E
  by unfold_locales (simp_all add: evm_tx_hash_dict_def inj_BytesToHex)

interpretation nftd: dict_store "nft_dict E" for E
  by unfold_locales (simp_all add: nft_dict_def)

text \<open>
  The hypotheses on third-party code: the SDK's bech32 codec round-trips on non-empty
  addresses and never writes a string that starts with \<open>0x\<close>; the ORM fills in the ids of
  a batch that was inserted entirely; the LRU library only evicts; ranging over a map
  visits every key once.
\<close>

definition bech32_ok :: "env \<Rightarrow> bool" where
  "bech32_ok E \<longleftrightarrow>
     (\<forall>b. b \<noteq> [] \<longrightarrow> from_bech32 E (to_bech32 E b) = Some b \<and> \<not> has_prefix (to_bech32 E b) ''0x'') \<and>
     (\<forall>s b. from_bech32 E s = Some b \<longrightarrow> b \<noteq> [])"

definition env_ok :: "env \<Rightarrow> bool" where
  "env_ok E \<longleftrightarrow> bech32_ok E \<and> backfill_ok E \<and>
     evicts (evict_ids E) \<and> evicts (evict_nfts E) \<and> evicts (evict_strs E) \<and>
     (\<forall>xs. distinct xs \<longrightarrow> mset (map_order E xs) = mset xs) \<and>
     (\<forall>xs. distinct xs \<longrightarrow> mset (id_order E xs) = mset xs)"

lemma env_okD:
  assumes "env_ok E"
  shows "bech32_ok E" "backfill_ok E" "evicts (evict_ids E)" "evicts (evict_nfts E)" "evicts (evict_strs E)"
  using assms by (simp_all add: env_ok_def)

lemma set_map_order: "env_ok E \<Longrightarrow> distinct xs \<Longrightarrow> set (map_order E xs) = set xs"
  and distinct_map_order: "env_ok E \<Longrightarrow> distinct xs \<Longrightarrow> distinct (map_order E xs)"
  and set_id_order: "env_ok E \<Longrightarrow> distinct ys \<Longrightarrow> set (id_order E ys) = set ys"
  and distinct_id_order: "env_ok E \<Longrightarrow> distinct ys \<Longrightarrow> distinct (id_order E ys)"
  by (metis env_ok_def mset_eq_setD mset_eq_imp_distinct_iff)+

text \<open>A canonical account is one the SDK wrote.\<close>

definition canonical :: "env \<Rightarrow> string \<Rightarrow> bool" where
  "canonical E a \<longleftrightarrow> (\<exists>b. b \<noteq> [] \<and> a = to_bech32 E b)"

lemma AccAddress_bech32:
  "bech32_ok E \<Longrightarrow> b \<noteq> [] \<Longrightarrow> AccAddressFromString (from_bech32 E) (to_bech32 E b) = Inr b"
  by (simp add: bech32_ok_def AccAddressFromString_def)

lemma wf_account: "bech32_ok E \<Longrightarrow> canonical E a \<Longrightarrow> wf_req (account_dict E) a"
  by (auto simp: wf_req_def canonical_def account_dict_def normalizeAccountToBech32_def AccAddress_bech32)

lemma wf_msg_type [simp]: "wf_req (msg_type_dict E) m"
  and wf_type_tag [simp]: "wf_req (type_tag_dict E) m"
  and wf_evm_hash [simp]: "wf_req (evm_tx_hash_dict E) h"
  by (simp_all add: wf_req_def msg_type_dict_def type_tag_dict_def evm_tx_hash_dict_def)

lemma AccAddress_nonempty:
  assumes "bech32_ok E" "AccAddressFromString (from_bech32 E) a = Inr b"
  shows "b \<noteq> []"
proof (cases "if \<not> has_prefix a ''0x'' then from_bech32 E a else None")
  case None
  define h where "h = to_lower (trim_left (trim_prefix a ''0x'') (CHR ''0''))"
  from assms(2) None have "hex_decode (pad_address h) = Inr b" "length h \<le> 64"
    by (auto simp: AccAddressFromString_def pad_address_def h_def Let_def split: if_splits)
  then show ?thesis using hex_decode_length [of "pad_address h" b] length_pad [of h] by auto
next
  case (Some c)
  with assms show ?thesis
    by (auto simp: AccAddressFromString_def bech32_ok_def split: if_splits)
qed


section \<open>Accounts\<close>

lemma account_rows [simp]: "d_rows (account_dict E) w = t_account_dict (w_db w)"
  and account_key [simp]: "d_key (account_dict E) a = a"
  and account_ckey [simp]: "d_ckey (account_dict E) = normalizeAccountToBech32 E"
  and account_rkey [simp]: "d_rkey (account_dict E) = to_bech32 E"
  and account_ok [simp]: "d_ok (account_dict E) = (\<lambda>b. b \<noteq> [])"
  and account_evict [simp]: "d_evict (account_dict E) = evict_ids E"
  by (simp_all add: account_dict_def)

lemma GetOrCreateAccountIds_create:
  assumes E: "env_ok E" and inv: "dict_inv (account_dict E) w"
    and can: "\<forall>a \<in> set accounts. canonical E a"
    and run: "GetOrCreateAccountIds E accounts True w = (Inr m, w')"
  shows "dict_inv (account_dict E) w'"
    and "\<exists>u. t_account_dict (w_db w') = t_account_dict (w_db w) @ u"
    and "\<forall>a \<in> set accounts. \<exists>b i. b \<noteq> [] \<and> a = to_bech32 E b \<and> m a = Some i \<and>
           (i, b) \<in> set (t_account_dict (w_db w'))"
    and "dom m \<subseteq> set accounts"
proof -
  note e = env_okD [OF E]
  have wf: "\<forall>a \<in> set (dedup accounts). wf_req (account_dict E) a"
    using can e(1) by (simp add: wf_account)
  from acc.get_or_create_True [OF _ e(2) wf distinct_dedup, of "t_account_dict (w_db w)"] e(3)
  have post: "dict_inv (account_dict E) w' \<and> (\<exists>u. t_account_dict (w_db w') = t_account_dict (w_db w) @ u) \<and>
      sound (account_dict E) (t_account_dict (w_db w')) (dedup accounts) m \<and>
      (\<forall>a \<in> set (dedup accounts). m a \<noteq> None)"
    using inv run [unfolded GetOrCreateAccountIds_eq] by (auto dest!: hoareD)
  then show "dict_inv (account_dict E) w'" "\<exists>u. t_account_dict (w_db w') = t_account_dict (w_db w) @ u"
    by blast+
  show "dom m \<subseteq> set accounts" using post by (auto simp: sound_def)
  show "\<forall>a \<in> set accounts. \<exists>b i. b \<noteq> [] \<and> a = to_bech32 E b \<and> m a = Some i \<and>
      (i, b) \<in> set (t_account_dict (w_db w'))"
  proof
    fix a assume a: "a \<in> set accounts"
    then obtain b where b: "b \<noteq> []" "a = to_bech32 E b" using can by (auto simp: canonical_def)
    obtain i where i: "m a = Some i" using post a by auto
    have snd: "sound (account_dict E) (t_account_dict (w_db w')) (dedup accounts) m" using post by blast
    from snd i obtain v where v: "normalizeAccountToBech32 E a = Inr (to_bech32 E v)"
        "(i, v) \<in> set (t_account_dict (w_db w'))"
      unfolding sound_def account_ckey account_rkey account_key by blast
    have "\<forall>r \<in> set (t_account_dict (w_db w')). snd r \<noteq> []"
      using post unfolding dict_inv_def account_rows account_ok by blast
    with v(2) have "v \<noteq> []" by force
    have "to_bech32 E v = to_bech32 E b"
      using v(1) b e(1) by (simp add: normalizeAccountToBech32_def AccAddress_bech32)
    then have "v = b" using e(1) \<open>v \<noteq> []\<close> b(1) unfolding bech32_ok_def by (metis option.inject)
    with b i v(2) show "\<exists>b i. b \<noteq> [] \<and> a = to_bech32 E b \<and> m a = Some i \<and>
        (i, b) \<in> set (t_account_dict (w_db w'))" by blast
  qed
qed


section \<open>What a dictionary call leaves alone\<close>

text \<open>\<open>P\<close> does not look at the dictionary \<open>D\<close>: not at its cache, its table or its counter.\<close>

definition ignores :: "('q, 'c, 'k) dict \<Rightarrow> (world \<Rightarrow> bool) \<Rightarrow> bool" where
  "ignores D P \<longleftrightarrow> fault_free P \<and>
     (\<forall>c w. P w \<longrightarrow> P (d_put_cache D c w)) \<and> (\<forall>t n w. P w \<longrightarrow> P (d_put_serial D n (d_put_rows D t w)))"

lemma keeps_cache_Get: "ignores D P \<Longrightarrow> keeps P (cache_Get D k)"
  by (rule keepsI) (auto simp: cache_Get_def ignores_def split: prod.splits)

lemma keeps_check_cache: "ignores D P \<Longrightarrow> keeps P (check_cache D reqs)"
  unfolding check_cache_def by (intro keeps_intros keeps_cache_Get)

lemma keeps_fetch_rows: "ignores D P \<Longrightarrow> keeps P (fetch_rows D reqs)"
  unfolding fetch_rows_def by (intro keeps_intros) (auto simp: ignores_def)

lemma keeps_dict_Create: "ignores D P \<Longrightarrow> keeps P (dict_Create E D vals)"
  unfolding dict_Create_def
  by (rule keeps_stmt, simp add: ignores_def, rule keepsI) (auto simp: ignores_def split: prod.splits)

lemma keeps_create_entries: "ignores D P \<Longrightarrow> keeps P (create_entries E D unc m)"
  unfolding create_entries_def by (intro keeps_intros keeps_dict_Create)

lemma keeps_update_cache: "ignores D P \<Longrightarrow> keeps P (update_cache D unc m idMap)"
  unfolding update_cache_def cache_Set_def by (intro keeps_intros) (auto simp: ignores_def)

lemma keeps_get_or_create: "ignores D P \<Longrightarrow> keeps P (get_or_create E D reqs createNew)"
  unfolding get_or_create_def
  by (intro keeps_intros keeps_check_cache keeps_fetch_rows keeps_create_entries keeps_update_cache)

text \<open>Two databases that differ in the dictionary tables only.\<close>

definition without_dicts :: "db \<Rightarrow> db" where
  "without_dicts d = d\<lparr>t_account_dict := [], t_nft_dict := [], t_msg_type_dict := [], t_type_tag_dict := [],
     t_evm_tx_hash_dict := []\<rparr>"

definition same_data :: "db \<Rightarrow> db \<Rightarrow> bool" where
  "same_data d d' \<longleftrightarrow> without_dicts d = without_dicts d'"

lemma same_data_trans: "same_data c d \<Longrightarrow> same_data d e \<Longrightarrow> same_data c e"
  by (simp add: same_data_def)

lemma without_dicts_sel:
  "t_seq_info (without_dicts d) = t_seq_info d"
  "t_block (without_dicts d) = t_block d"
  "t_tx (without_dicts d) = t_tx d"
  "t_tx_accounts (without_dicts d) = t_tx_accounts d"
  "t_tx_nfts (without_dicts d) = t_tx_nfts d"
  "t_tx_msg_types (without_dicts d) = t_tx_msg_types d"
  "t_tx_type_tags (without_dicts d) = t_tx_type_tags d"
  "t_evm_tx (without_dicts d) = t_evm_tx d"
  "t_evm_tx_accounts (without_dicts d) = t_evm_tx_accounts d"
  "t_evm_internal_tx (without_dicts d) = t_evm_internal_tx d"
  "t_evm_internal_tx_accounts (without_dicts d) = t_evm_internal_tx_accounts d"
  "t_fa_store (without_dicts d) = t_fa_store d"
  "t_nft (without_dicts d) = t_nft d"
  "t_nft_collection (without_dicts d) = t_nft_collection d"
  "t_rich_list (without_dicts d) = t_rich_list d"
  "t_rich_list_status (without_dicts d) = t_rich_list_status d"
  "t_evm_ret_status (without_dicts d) = t_evm_ret_status d"
  "t_ta_status (without_dicts d) = t_ta_status d"
  by (simp_all add: without_dicts_def)

lemma same_dataD:
  assumes "same_data d d'"
  shows "t_seq_info d' = t_seq_info d"
    "t_block d' = t_block d"
    "t_tx d' = t_tx d"
    "t_tx_accounts d' = t_tx_accounts d"
    "t_tx_nfts d' = t_tx_nfts d"
    "t_tx_msg_types d' = t_tx_msg_types d"
    "t_tx_type_tags d' = t_tx_type_tags d"
    "t_evm_tx d' = t_evm_tx d"
    "t_evm_tx_accounts d' = t_evm_tx_accounts d"
    "t_evm_internal_tx d' = t_evm_internal_tx d"
    "t_evm_internal_tx_accounts d' = t_evm_internal_tx_accounts d"
    "t_fa_store d' = t_fa_store d"
    "t_nft d' = t_nft d"
    "t_nft_collection d' = t_nft_collection d"
    "t_rich_list d' = t_rich_list d"
    "t_rich_list_status d' = t_rich_list_status d"
    "t_evm_ret_status d' = t_evm_ret_status d"
    "t_ta_status d' = t_ta_status d"
  using assms unfolding same_data_def by (metis without_dicts_sel)+

lemma same_data_refl [simp]: "same_data d d"
  by (simp add: same_data_def)

lemma ignores_same_data [simp]:
  "ignores (account_dict E) (\<lambda>w. same_data d (w_db w))"
  "ignores (msg_type_dict E) (\<lambda>w. same_data d (w_db w))"
  "ignores (type_tag_dict E) (\<lambda>w. same_data d (w_db w))"
  "ignores (evm_tx_hash_dict E) (\<lambda>w. same_data d (w_db w))"
  "ignores (nft_dict E) (\<lambda>w. same_data d (w_db w))"
  by (simp_all add: ignores_def fault_free_def same_data_def without_dicts_def account_dict_def
      msg_type_dict_def type_tag_dict_def evm_tx_hash_dict_def nft_dict_def)

text \<open>The dictionaries are independent of each other.\<close>

lemma ignores_dict_inv [simp]:
  "ignores (msg_type_dict E) (dict_inv (account_dict E'))"
  "ignores (type_tag_dict E) (dict_inv (account_dict E'))"
  "ignores (evm_tx_hash_dict E) (dict_inv (account_dict E'))"
  "ignores (account_dict E) (dict_inv (msg_type_dict E'))"
  "ignores (type_tag_dict E) (dict_inv (msg_type_dict E'))"
  "ignores (account_dict E) (dict_inv (type_tag_dict E'))"
  "ignores (msg_type_dict E) (dict_inv (type_tag_dict E'))"
  "ignores (account_dict E) (dict_inv (evm_tx_hash_dict E'))"
  by (simp_all add: ignores_def fault_free_def dict_inv_def account_dict_def msg_type_dict_def
      type_tag_dict_def evm_tx_hash_dict_def)

end
