(* ===== verification/Db_Ops.thy ===== *)
theory Db_Ops
  imports Schema
begin

text \<open>
  The database operations every collector shares: inserting a slice in batches
  (\<open>CreateInBatches\<close> with \<open>orm.DoNothingWhenConflict\<close>), reading and storing the sequence
  counters (\<open>src/indexer/util/util.go\<close>), and Hoare rules that say which part of the state
  they leave alone.
\<close>

section \<open>Inserting in batches\<close>

text \<open>
  The ORM cuts a slice into pieces of the batch size and issues one statement per piece.
  The configuration rejects a batch size below one.
\<close>

function chunks :: "nat \<Rightarrow> 'r list \<Rightarrow> 'r list list" where
  "chunks n xs = (if n = 0 \<or> xs = [] then [] else take n xs # chunks n (drop n xs))"
  by pat_completeness auto
termination by (relation "measure (\<lambda>(n, xs). length xs)") auto

declare chunks.simps [simp del]

lemma chunks_Nil [simp]: "chunks n [] = []"
  by (simp add: chunks.simps)

lemma concat_chunks [simp]: "0 < n \<Longrightarrow> concat (chunks n xs) = xs"
proof (induction n xs rule: chunks.induct)
  case (1 n xs)
  then show ?case by (cases "xs = []") (simp_all add: chunks.simps [of n xs])
qed

lemma chunk_size: "c \<in> set (chunks n xs) \<Longrightarrow> c \<noteq> [] \<and> length c \<le> n"
proof (induction n xs rule: chunks.induct)
  case (1 n xs)
  then show ?case by (cases "n = 0 \<or> xs = []") (auto simp: chunks.simps [of n xs])
qed

definition CreateInBatches :: "config \<Rightarrow> ('r list \<Rightarrow> db \<Rightarrow> db) \<Rightarrow> 'r list \<Rightarrow> (world, unit) act" where
  "CreateInBatches cfg ins rows = foreach (\<lambda>chunk _. exec (ins chunk)) (chunks (nat (cfg_DBBatchSize cfg)) rows) ()"

definition valid_config :: "config \<Rightarrow> bool" where
  "valid_config cfg \<longleftrightarrow> 1 \<le> cfg_DBBatchSize cfg"


section \<open>Which part of the state an operation leaves alone\<close>

text \<open>Only the database and the schedule moved on.\<close>

definition only_db :: "world \<Rightarrow> world \<Rightarrow> bool" where
  "only_db w w' \<longleftrightarrow> w'\<lparr>w_db := w_db w, w_faults := w_faults w\<rparr> = w"

lemma only_db_refl [simp]: "only_db w w"
  by (simp add: only_db_def)

lemma only_dbD:
  assumes "only_db w w'"
  shows "serial_account w' = serial_account w"
    "serial_nft w' = serial_nft w"
    "serial_msg_type w' = serial_msg_type w"
    "serial_type_tag w' = serial_type_tag w"
    "serial_evm_tx_hash w' = serial_evm_tx_hash w"
    "accountCache w' = accountCache w"
    "nftCache w' = nftCache w"
    "msgTypeCache w' = msgTypeCache w"
    "typeTagCache w' = typeTagCache w"
    "evmTxHashCache w' = evmTxHashCache w"
    "faStoreCache w' = faStoreCache w"
    "txCache w' = txCache w"
    "moveNftCache w' = moveNftCache w"
    "wasmNftCache w' = wasmNftCache w"
    "evmNftCache w' = evmNftCache w"
    "nftBlacklist w' = nftBlacklist w"
proof -
  note e = assms [unfolded only_db_def]
  show "serial_account w' = serial_account w" using arg_cong [OF e, of serial_account] by simp
  show "serial_nft w' = serial_nft w" using arg_cong [OF e, of serial_nft] by simp
  show "serial_msg_type w' = serial_msg_type w" using arg_cong [OF e, of serial_msg_type] by simp
  show "serial_type_tag w' = serial_type_tag w" using arg_cong [OF e, of serial_type_tag] by simp
  show "serial_evm_tx_hash w' = serial_evm_tx_hash w" using arg_cong [OF e, of serial_evm_tx_hash] by simp
  show "accountCache w' = accountCache w" using arg_cong [OF e, of accountCache] by simp
  show "nftCache w' = nftCache w" using arg_cong [OF e, of nftCache] by simp
  show "msgTypeCache w' = msgTypeCache w" using arg_cong [OF e, of msgTypeCache] by simp
  show "typeTagCache w' = typeTagCache w" using arg_cong [OF e, of typeTagCache] by simp
  show "evmTxHashCache w' = evmTxHashCache w" using arg_cong [OF e, of evmTxHashCache] by simp
  show "faStoreCache w' = faStoreCache w" using arg_cong [OF e, of faStoreCache] by simp
  show "txCache w' = txCache w" using arg_cong [OF e, of txCache] by simp
  show "moveNftCache w' = moveNftCache w" using arg_cong [OF e, of moveNftCache] by simp
  show "wasmNftCache w' = wasmNftCache w" using arg_cong [OF e, of wasmNftCache] by simp
  show "evmNftCache w' = evmNftCache w" using arg_cong [OF e, of evmNftCache] by simp
  show "nftBlacklist w' = nftBlacklist w" using arg_cong [OF e, of nftBlacklist] by simp
qed

lemma fault_free_only_db [simp]: "fault_free (only_db w)"
  and fault_free_db [simp]: "fault_free (\<lambda>w. Q (w_db w))"
  by (simp_all add: fault_free_def only_db_def)

lemma only_db_put [simp]: "only_db w (w'\<lparr>w_db := d\<rparr>) = only_db w w'"
  by (simp add: only_db_def)

lemma keeps_only_db_exec [keeps_intros]: "keeps (only_db w) (exec f)"
  by (rule keeps_exec) simp_all

lemma keeps_batches:
  assumes "fault_free P" "\<And>w rs. P w \<Longrightarrow> P (w\<lparr>w_db := ins rs (w_db w)\<rparr>)"
  shows "keeps P (CreateInBatches cfg ins rows)"
  unfolding CreateInBatches_def using assms by (intro keeps_foreach keeps_exec) auto

lemma hoare_exec: "hoare (\<lambda>w. w_db w = d) (exec f) (\<lambda>_ w. w_db w = f d) (\<lambda>_ w. w_db w = d)"
  unfolding exec_def by (rule hoare_stmt) (auto simp: hoare_def fault_free_def)

lemma hoare_query: "hoare (\<lambda>w. w_db w = d) (query q) (\<lambda>x w. w_db w = d \<and> x = q d) (\<lambda>_ w. w_db w = d)"
  unfolding query_def by (rule hoare_stmt) (auto simp: hoare_def fault_free_def)

lemma hoare_first_row:
  "hoare (\<lambda>w. w_db w = d) (first_row q) (\<lambda>r w. w_db w = d \<and> (\<exists>rs. q d = r # rs))
     (\<lambda>e w. w_db w = d \<and> (errors_is e RecordNotFound \<longrightarrow> q d = []))"
  unfolding first_row_def
proof (rule hoareI)
  fix w r w' assume w: "w_db w = d"
    and run: "stmt (\<lambda>w. case q (w_db w) of [] \<Rightarrow> (Inl RecordNotFound, w) | r # _ \<Rightarrow> (Inr r, w)) w = (Inr r, w')"
  from run w show "w_db w' = d \<and> (\<exists>rs. q d = r # rs)"
    by (cases rule: stmt_cases [of w "\<lambda>w. case q (w_db w) of [] \<Rightarrow> (Inl RecordNotFound, w) | r # _ \<Rightarrow> (Inr r, w)"])
       (auto split: list.splits)
next
  fix w e w' assume w: "w_db w = d"
    and run: "stmt (\<lambda>w. case q (w_db w) of [] \<Rightarrow> (Inl RecordNotFound, w) | r # _ \<Rightarrow> (Inr r, w)) w = (Inl e, w')"
  from run w show "w_db w' = d \<and> (errors_is e RecordNotFound \<longrightarrow> q d = [])"
    by (cases rule: stmt_cases [of w "\<lambda>w. case q (w_db w) of [] \<Rightarrow> (Inl RecordNotFound, w) | r # _ \<Rightarrow> (Inr r, w)"])
       (auto split: list.splits)
qed

lemma transaction_Inr:
  assumes "transaction f w = (Inr x, w')"
  shows "\<exists>u. f w = (Inr x, u) \<and> w_db w' = w_db u \<and> only_db u w'"
proof -
  from assms have "bnd f (\<lambda>x. bnd ctx_check (\<lambda>_. ret x)) w = (Inr x, w')"
    by (auto simp: transaction_def split: prod.splits sum.splits)
  then obtain u y where u: "f w = (Inr y, u)" "bnd ctx_check (\<lambda>_. ret y) u = (Inr x, w')"
    by (auto simp: bnd_eq_Inr)
  then have x: "y = x" and c: "ctx_check u = (Inr (), w')" by (auto simp: bnd_eq_Inr)
  have "w_db w' = w_db u \<and> only_db u w'"
    using c by (cases rule: stmt_cases [of u "ret ()"]) (auto simp: ctx_check_def only_db_def)
  with u(1) x show ?thesis by blast
qed

text \<open>A batched insert that succeeds has inserted the whole slice.\<close>

definition additive :: "('r list \<Rightarrow> db \<Rightarrow> db) \<Rightarrow> bool" where
  "additive ins \<longleftrightarrow> (\<forall>d. ins [] d = d) \<and> (\<forall>xs ys d. ins (xs @ ys) d = ins ys (ins xs d))"

lemma hoare_batches:
  assumes "valid_config cfg" "additive ins"
  shows "hoare (\<lambda>w. w_db w = d) (CreateInBatches cfg ins rows) (\<lambda>_ w. w_db w = ins rows d) (\<lambda>_ _. True)"
proof -
  have n: "0 < nat (cfg_DBBatchSize cfg)" using assms(1) by (simp add: valid_config_def)
  have "hoare (\<lambda>w. w_db w = ins (concat ys) d) (exec (ins x)) (\<lambda>_ w. w_db w = ins (concat (ys @ [x])) d) (\<lambda>_ _. True)" for ys x
    by (rule hoare_weaken [OF hoare_exec [of "ins (concat ys) d" "ins x"]])
       (use assms(2) in \<open>auto simp: additive_def\<close>)
  then have "hoare (\<lambda>w. w_db w = ins (concat []) d)
      (CreateInBatches cfg ins rows) (\<lambda>_ w. w_db w = ins (concat (chunks (nat (cfg_DBBatchSize cfg)) rows)) d) (\<lambda>_ _. True)"
    unfolding CreateInBatches_def
    by (rule hoare_foreach [where I = "\<lambda>ys _ w. w_db w = ins (concat ys) d"])
  then show ?thesis using n assms(2) by (simp add: additive_def)
qed


section \<open>Sequence counters\<close>

definition GetSeqInfo :: "string \<Rightarrow> (world, CollectedSeqInfo) act" where
  "GetSeqInfo name = (\<lambda>w.
     case first_row (\<lambda>d. filter (\<lambda>r. si_Name r = name) (t_seq_info d)) w of
       (Inr r, w') \<Rightarrow> (Inr r, w')
     | (Inl e, w') \<Rightarrow>
         (if errors_is e RecordNotFound then (Inr \<lparr>si_Name = name, si_Sequence = 0\<rparr>, w')
          else (Inl e, w')))"

definition put_seq :: "CollectedSeqInfo \<Rightarrow> db \<Rightarrow> db" where
  "put_seq s d = d\<lparr>t_seq_info := upsert_row si_Name s (t_seq_info d)\<rparr>"

text \<open>The value of a counter: 0 when it was never stored.\<close>

definition seq_value :: "db \<Rightarrow> string \<Rightarrow> int" where
  "seq_value d name = (case row_at si_Name (t_seq_info d) name of Some r \<Rightarrow> si_Sequence r | None \<Rightarrow> 0)"

lemma filter_hd_row_at: "row_at key t k = (case filter (\<lambda>r. key r = k) t of [] \<Rightarrow> None | r # _ \<Rightarrow> Some r)"
  by (induction t) auto

lemma hoare_GetSeqInfo:
  "hoare (\<lambda>w. w_db w = d) (GetSeqInfo name)
     (\<lambda>s w. w_db w = d \<and> s = \<lparr>si_Name = name, si_Sequence = seq_value d name\<rparr>) (\<lambda>_ w. w_db w = d)"
proof -
  let ?q = "\<lambda>d. filter (\<lambda>r. si_Name r = name) (t_seq_info d)"
  have found: "si_Name r = name \<and> seq_value d name = si_Sequence r" if "?q d = r # rs" for r rs
  proof -
    have "r \<in> set (?q d)" unfolding that by simp
    then have "si_Name r = name" by simp
    then show ?thesis using that by (simp add: seq_value_def filter_hd_row_at)
  qed
  have none: "seq_value d name = 0" if "?q d = []"
    using that by (simp add: seq_value_def filter_hd_row_at)
  show ?thesis
  proof (rule hoareI)
    fix w s w' assume w: "w_db w = d" and run: "GetSeqInfo name w = (Inr s, w')"
    show "w_db w' = d \<and> s = \<lparr>si_Name = name, si_Sequence = seq_value d name\<rparr>"
    proof (cases "first_row ?q w")
      case (Pair r u)
      show ?thesis
      proof (cases r)
        case (Inl e)
        with Pair have f: "first_row ?q w = (Inl e, u)" by simp
        from hoareD_err [OF hoare_first_row w f] run f none show ?thesis
          by (auto simp: GetSeqInfo_def split: if_splits)
      next
        case (Inr x)
        with Pair have f: "first_row ?q w = (Inr x, u)" by simp
        with run have "s = x" "w' = u" by (auto simp: GetSeqInfo_def)
        with hoareD [OF hoare_first_row w f] found show ?thesis by force
      qed
    qed
  next
    fix w e w' assume w: "w_db w = d" and run: "GetSeqInfo name w = (Inl e, w')"
    show "w_db w' = d"
    proof (cases "first_row ?q w")
      case (Pair r u)
      show ?thesis
      proof (cases r)
        case (Inl e')
        with Pair have f: "first_row ?q w = (Inl e', u)" by simp
        with run have "w' = u" by (auto simp: GetSeqInfo_def split: if_splits)
        with hoareD_err [OF hoare_first_row w f] show ?thesis by blast
      next
        case (Inr x)
        with Pair run show ?thesis by (simp add: GetSeqInfo_def)
      qed
    qed
  qed
qed

lemma keeps_GetSeqInfo [keeps_intros]: "fault_free P \<Longrightarrow> keeps P (GetSeqInfo name)"
proof (rule keepsI)
  fix w r w' assume "fault_free P" "P w" "GetSeqInfo name w = (r, w')"
  moreover have "keeps P (first_row (\<lambda>d. filter (\<lambda>r. si_Name r = name) (t_seq_info d)))"
    using \<open>fault_free P\<close> by (rule keeps_first_row)
  ultimately show "P w'"
    by (auto simp: GetSeqInfo_def dest: keepsD split: prod.splits sum.splits if_splits)
qed

lemma seq_value_put_seq [simp]:
  "seq_value (put_seq s d) name = (if name = si_Name s then si_Sequence s else seq_value d name)"
  by (simp add: seq_value_def put_seq_def row_at_upsert)

lemma put_seq_other [simp]:
  "t_block (put_seq s d) = t_block d" "t_tx (put_seq s d) = t_tx d" "t_tx_accounts (put_seq s d) = t_tx_accounts d"
  "t_tx_msg_types (put_seq s d) = t_tx_msg_types d" "t_tx_type_tags (put_seq s d) = t_tx_type_tags d"
  "t_evm_tx (put_seq s d) = t_evm_tx d" "t_evm_tx_accounts (put_seq s d) = t_evm_tx_accounts d"
  "t_evm_internal_tx (put_seq s d) = t_evm_internal_tx d" "t_fa_store (put_seq s d) = t_fa_store d"
  "t_account_dict (put_seq s d) = t_account_dict d" "t_nft_dict (put_seq s d) = t_nft_dict d"
  "t_msg_type_dict (put_seq s d) = t_msg_type_dict d" "t_type_tag_dict (put_seq s d) = t_type_tag_dict d"
  "t_evm_tx_hash_dict (put_seq s d) = t_evm_tx_hash_dict d"
  "t_evm_internal_tx_accounts (put_seq s d) = t_evm_internal_tx_accounts d"
  by (simp_all add: put_seq_def)

end
