(* ===== verification/Dict_Ids.thy ===== *)
theory Dict_Ids
  imports Dict_Cache Db_Ops
begin

text \<open>
  The contract of the dictionaries in the form the collectors use it: after a successful
  call with \<open>createNew\<close> the result map is defined on exactly the requests, and its ids are
  those of the rows that store the requested values.
\<close>

section \<open>Ids of values\<close>

locale dict_ids = dict_store D for D :: "('q, 'c, 'k) dict" +
  assumes rkey_inj: "inj_on (d_rkey D) {v. d_ok D v}"
begin

lemma sound_id:
  assumes "sound D t reqs m" "\<forall>r \<in> set t. d_ok D (snd r)" "wf_req D q" "m (d_key D q) = Some i"
  shows "\<exists>v. d_val D q = Inr v \<and> (i, v) \<in> set t"
proof -
  from assms(1,4) obtain q' v where q': "d_key D q' = d_key D q" "d_ckey D q' = Inr (d_rkey D v)" "(i, v) \<in> set t"
    unfolding sound_def by blast
  have "q' = q" using q'(1) key_inj by (rule injD [rotated])
  moreover obtain u where u: "d_val D q = Inr u" "d_ckey D q = Inr (d_rkey D u)" "d_ok D u"
    using assms(3) unfolding wf_req_def by blast
  moreover have "d_ok D v" using assms(2) q'(3) by force
  ultimately have "u = v" using q'(2) rkey_inj by (auto dest: inj_onD)
  with u q'(3) show ?thesis by blast
qed

lemma ids_create:
  assumes "evicts (d_evict D)" "backfill_ok E" "\<forall>q \<in> set reqs. wf_req D q" "distinct reqs"
  shows "hoare (\<lambda>w. dict_inv D w \<and> set t \<subseteq> set (d_rows D w)) (get_or_create E D reqs True)
    (\<lambda>m w. (dict_inv D w \<and> set t \<subseteq> set (d_rows D w)) \<and> dom m = d_key D ` set reqs \<and>
       (\<forall>q \<in> set reqs. \<exists>i v. m (d_key D q) = Some i \<and> d_val D q = Inr v \<and> (i, v) \<in> set (d_rows D w)))
    (\<lambda>e w. dict_inv D w \<and> set t \<subseteq> set (d_rows D w))"
proof (rule hoareI)
  fix w m w' assume w: "dict_inv D w \<and> set t \<subseteq> set (d_rows D w)"
    and run: "get_or_create E D reqs True w = (Inr m, w')"
  from w have st: "dict_inv D w \<and> d_rows D w = d_rows D w" by simp
  note post = hoareD [OF get_or_create_True [OF assms] st run]
  have ok: "\<forall>r \<in> set (d_rows D w'). d_ok D (snd r)" using post unfolding dict_inv_def by blast
  have "\<exists>i v. m (d_key D q) = Some i \<and> d_val D q = Inr v \<and> (i, v) \<in> set (d_rows D w')"
    if q: "q \<in> set reqs" for q
  proof -
    obtain i where i: "m (d_key D q) = Some i" using post q by blast
    have "sound D (d_rows D w') reqs m" "wf_req D q" using post assms(3) q by blast+
    from sound_id [OF this(1) ok this(2) i] i show ?thesis by blast
  qed
  moreover have "dom m = d_key D ` set reqs"
    using post unfolding sound_def by (auto simp: dom_def)
  ultimately show "(dict_inv D w' \<and> set t \<subseteq> set (d_rows D w')) \<and> dom m = d_key D ` set reqs \<and>
     (\<forall>q \<in> set reqs. \<exists>i v. m (d_key D q) = Some i \<and> d_val D q = Inr v \<and> (i, v) \<in> set (d_rows D w'))"
    using post w by auto
next
  fix w e w' assume w: "dict_inv D w \<and> set t \<subseteq> set (d_rows D w)"
    and run: "get_or_create E D reqs True w = (Inl e, w')"
  from w have st: "dict_inv D w \<and> d_rows D w = d_rows D w" by simp
  from hoareD_err [OF get_or_create_True [OF assms] st run] w
  show "dict_inv D w' \<and> set t \<subseteq> set (d_rows D w')" by auto
qed

end

interpretation msgt_ids: dict_ids "msg_type_dict E" for E
  by unfold_locales (simp add: msg_type_dict_def)

interpretation ttag_ids: dict_ids "type_tag_dict E" for E
  by unfold_locales (simp add: type_tag_dict_def)

interpretation hash_ids: dict_ids "evm_tx_hash_dict E" for E
  by unfold_locales (simp add: evm_tx_hash_dict_def inj_BytesToHex inj_on_subset)

lemma inj_on_bech32: "bech32_ok E \<Longrightarrow> inj_on (to_bech32 E) {b. b \<noteq> []}"
  unfolding inj_on_def bech32_ok_def by (metis mem_Collect_eq option.inject)

lemma account_dict_ids: "bech32_ok E \<Longrightarrow> dict_ids (account_dict E)"
  by (simp add: dict_ids_def dict_ids_axioms_def acc.dict_store_axioms inj_on_bech32)


section \<open>The collectors' contracts\<close>

lemma dict_fields [simp]:
  "d_rows (msg_type_dict E) w = t_msg_type_dict (w_db w)" "d_key (msg_type_dict E) = (\<lambda>m. m)"
  "d_val (msg_type_dict E) m = Inr m" "d_evict (msg_type_dict E) = evict_ids E"
  "d_rows (type_tag_dict E) w = t_type_tag_dict (w_db w)" "d_key (type_tag_dict E) = (\<lambda>m. m)"
  "d_val (type_tag_dict E) m = Inr m" "d_evict (type_tag_dict E) = evict_ids E"
  "d_rows (evm_tx_hash_dict E) w = t_evm_tx_hash_dict (w_db w)" "d_key (evm_tx_hash_dict E) = BytesToHex"
  "d_val (evm_tx_hash_dict E) h = Inr h" "d_evict (evm_tx_hash_dict E) = evict_ids E"
  by (simp_all add: msg_type_dict_def type_tag_dict_def evm_tx_hash_dict_def)

lemma account_val [simp]: "d_val (account_dict E) = AccAddressFromString (from_bech32 E)"
  by (simp add: account_dict_def)

definition has_account :: "env \<Rightarrow> world \<Rightarrow> string \<Rightarrow> int \<Rightarrow> bool" where
  "has_account E w a i \<longleftrightarrow> (\<exists>b. b \<noteq> [] \<and> a = to_bech32 E b \<and> (i, b) \<in> set (t_account_dict (w_db w)))"

lemma account_ids:
  assumes E: "env_ok E" and can: "\<forall>a \<in> set accounts. canonical E a"
  shows "hoare (\<lambda>w. dict_inv (account_dict E) w \<and> set t \<subseteq> set (t_account_dict (w_db w)))
    (GetOrCreateAccountIds E accounts True)
    (\<lambda>m w. (dict_inv (account_dict E) w \<and> set t \<subseteq> set (t_account_dict (w_db w))) \<and> dom m = set accounts \<and>
       (\<forall>a \<in> set accounts. \<exists>i. m a = Some i \<and> has_account E w a i))
    (\<lambda>e w. dict_inv (account_dict E) w \<and> set t \<subseteq> set (t_account_dict (w_db w)))"
proof -
  note e = env_okD [OF E]
  have wf: "\<forall>a \<in> set (dedup accounts). wf_req (account_dict E) a"
    using can e(1) by (simp add: wf_account)
  have ev: "evicts (d_evict (account_dict E))" using e(3) by simp
  have val: "\<exists>b. b \<noteq> [] \<and> a = to_bech32 E b \<and> (i, b) \<in> set T"
    if "a \<in> set accounts" "AccAddressFromString (from_bech32 E) a = Inr v" "(i, v) \<in> set T" for a i v T
  proof -
    obtain b where b: "b \<noteq> []" "a = to_bech32 E b" using can \<open>a \<in> set accounts\<close> by (auto simp: canonical_def)
    with that(2) e(1) have "v = b" by (simp add: AccAddress_bech32)
    with b that(3) show ?thesis by blast
  qed
  show ?thesis
    unfolding GetOrCreateAccountIds_eq
  proof (rule hoare_weaken [OF dict_ids.ids_create [OF account_dict_ids [OF e(1)] ev e(2) wf distinct_dedup, of t]])
    fix m w
    assume m: "(dict_inv (account_dict E) w \<and> set t \<subseteq> set (d_rows (account_dict E) w)) \<and>
      dom m = d_key (account_dict E) ` set (dedup accounts) \<and>
      (\<forall>q \<in> set (dedup accounts). \<exists>i v. m (d_key (account_dict E) q) = Some i \<and>
         d_val (account_dict E) q = Inr v \<and> (i, v) \<in> set (d_rows (account_dict E) w))"
    have "\<exists>i. m a = Some i \<and> has_account E w a i" if "a \<in> set accounts" for a
    proof -
      from m have "\<forall>q \<in> set accounts. \<exists>i v. m q = Some i \<and> AccAddressFromString (from_bech32 E) q = Inr v \<and>
          (i, v) \<in> set (t_account_dict (w_db w))"
        unfolding account_key account_val account_rows set_dedup by (rule conjunct2 [OF conjunct2])
      with that obtain i v where iv: "m a = Some i" "AccAddressFromString (from_bech32 E) a = Inr v"
        "(i, v) \<in> set (t_account_dict (w_db w))" by blast
      from val [OF that iv(2,3)] iv(1) show ?thesis unfolding has_account_def by blast
    qed
    then have "\<forall>a \<in> set accounts. \<exists>i. m a = Some i \<and> has_account E w a i" by blast
    moreover have "dom m = set accounts" using m by simp
    moreover have "dict_inv (account_dict E) w \<and> set t \<subseteq> set (t_account_dict (w_db w))" using m by simp
    ultimately show "(dict_inv (account_dict E) w \<and> set t \<subseteq> set (t_account_dict (w_db w))) \<and> dom m = set accounts \<and>
       (\<forall>a \<in> set accounts. \<exists>i. m a = Some i \<and> has_account E w a i)"
      by (intro conjI) simp_all
  qed simp_all
qed

lemma msg_type_ids:
  assumes E: "env_ok E" and d: "distinct ms"
  shows "hoare (\<lambda>w. dict_inv (msg_type_dict E) w \<and> set t \<subseteq> set (t_msg_type_dict (w_db w)))
    (GetOrCreateMsgTypeIds E ms True)
    (\<lambda>m w. (dict_inv (msg_type_dict E) w \<and> set t \<subseteq> set (t_msg_type_dict (w_db w))) \<and> dom m = set ms \<and>
       (\<forall>q \<in> set ms. \<exists>i. m q = Some i \<and> (i, q) \<in> set (t_msg_type_dict (w_db w))))
    (\<lambda>e w. dict_inv (msg_type_dict E) w \<and> set t \<subseteq> set (t_msg_type_dict (w_db w)))"
proof -
  have ev: "evicts (d_evict (msg_type_dict E))" and wf: "\<forall>q \<in> set ms. wf_req (msg_type_dict E) q"
    using env_okD [OF E] by simp_all
  show ?thesis
    unfolding GetOrCreateMsgTypeIds_def
    by (rule hoare_weaken [OF msgt_ids.ids_create [OF ev env_okD(2) [OF E] wf d, of t]])
      (simp_all only: dict_fields sum.inject ex_simps simp_thms image_ident, blast+)
qed

lemma type_tag_ids:
  assumes E: "env_ok E" and d: "distinct ms"
  shows "hoare (\<lambda>w. dict_inv (type_tag_dict E) w \<and> set t \<subseteq> set (t_type_tag_dict (w_db w)))
    (GetOrCreateTypeTagIds E ms True)
    (\<lambda>m w. (dict_inv (type_tag_dict E) w \<and> set t \<subseteq> set (t_type_tag_dict (w_db w))) \<and> dom m = set ms \<and>
       (\<forall>q \<in> set ms. \<exists>i. m q = Some i \<and> (i, q) \<in> set (t_type_tag_dict (w_db w))))
    (\<lambda>e w. dict_inv (type_tag_dict E) w \<and> set t \<subseteq> set (t_type_tag_dict (w_db w)))"
proof -
  have ev: "evicts (d_evict (type_tag_dict E))" and wf: "\<forall>q \<in> set ms. wf_req (type_tag_dict E) q"
    using env_okD [OF E] by simp_all
  show ?thesis
    unfolding GetOrCreateTypeTagIds_def
    by (rule hoare_weaken [OF ttag_ids.ids_create [OF ev env_okD(2) [OF E] wf d, of t]])
      (simp_all only: dict_fields sum.inject ex_simps simp_thms image_ident, blast+)
qed

lemma evm_hash_ids:
  assumes E: "env_ok E" and d: "distinct hs"
  shows "hoare (\<lambda>w. dict_inv (evm_tx_hash_dict E) w \<and> set t \<subseteq> set (t_evm_tx_hash_dict (w_db w)))
    (GetOrCreateEvmTxHashIds E hs True)
    (\<lambda>m w. (dict_inv (evm_tx_hash_dict E) w \<and> set t \<subseteq> set (t_evm_tx_hash_dict (w_db w))) \<and> dom m = BytesToHex ` set hs \<and>
       (\<forall>q \<in> set hs. \<exists>i. m (BytesToHex q) = Some i \<and> (i, q) \<in> set (t_evm_tx_hash_dict (w_db w))))
    (\<lambda>e w. dict_inv (evm_tx_hash_dict E) w \<and> set t \<subseteq> set (t_evm_tx_hash_dict (w_db w)))"
proof -
  have ev: "evicts (d_evict (evm_tx_hash_dict E))" and wf: "\<forall>q \<in> set hs. wf_req (evm_tx_hash_dict E) q"
    using env_okD [OF E] by simp_all
  show ?thesis
    unfolding GetOrCreateEvmTxHashIds_def
    by (rule hoare_weaken [OF hash_ids.ids_create [OF ev env_okD(2) [OF E] wf d, of t]])
      (simp_all only: dict_fields sum.inject ex_simps simp_thms image_ident, blast+)
qed

end
