(* ===== verification/Events.thy ===== *)
theory Events
  imports Dict_Ids
begin

text \<open>
  The events of a scraped block: \<open>src/indexer/util/event.go\<close>. A transaction's events come
  with the hash of the transaction, in upper-case hexadecimal.
\<close>

section \<open>Extraction\<close>

definition parseEvent :: "event \<Rightarrow> string \<Rightarrow> ParsedEvent" where
  "parseEvent e txHash =
     \<lparr>pe_TxHash = txHash, pe_Event = e,
      pe_AttrMap = fold (\<lambda>a m. m(akey a \<mapsto> aval a)) (eattrs e) Map.empty\<rparr>"

definition parseEvents :: "event list \<Rightarrow> string \<Rightarrow> string \<Rightarrow> ParsedEvent list" where
  "parseEvents events txHash eventType = map (\<lambda>e. parseEvent e txHash) (filter (\<lambda>e. etype e = eventType) events)"

text \<open>\<open>fmt.Sprintf("%X", tmhash.Sum(txByte))\<close>\<close>

definition tx_hash :: "env \<Rightarrow> byte list \<Rightarrow> string" where
  "tx_hash E txByte = hex_upper (tmhash_Sum E txByte)"

text \<open>\<open>block.TxResults[txIndex]\<close> panics when a block has fewer results than transactions.\<close>

definition tx_result :: "ScrapedBlock \<Rightarrow> nat \<Rightarrow> err + ExecTxResult" where
  "tx_result b i = (if i < length (sb_TxResults b) then Inr (sb_TxResults b ! i) else Inl (Panic ''index out of range''))"

definition extract_tx :: "env \<Rightarrow> ScrapedBlock \<Rightarrow> string \<Rightarrow> nat \<times> string \<Rightarrow> ParsedEvent list \<Rightarrow> err + ParsedEvent list" where
  "extract_tx E block eventType = (\<lambda>(txIndex, txRaw) events.
     rbind (DecodeString txRaw) (\<lambda>txByte.
     rbind (tx_result block txIndex) (\<lambda>txRes.
     Inr (events @ parseEvents (tr_Events txRes) (tx_hash E txByte) eventType))))"

definition ExtractEvents :: "env \<Rightarrow> ScrapedBlock \<Rightarrow> string \<Rightarrow> err + ParsedEvent list" where
  "ExtractEvents E block eventType =
     rbind (rfold (extract_tx E block eventType) (enumerate 0 (sb_Txs block))
       (parseEvents (sb_PreBlock block) [] eventType @ parseEvents (sb_BeginBlock block) [] eventType))
     (\<lambda>events. Inr (events @ parseEvents (sb_EndBlock block) [] eventType))"


section \<open>What is extracted\<close>

text \<open>An attribute map holds the last value of every key.\<close>

lemma AttrMap_last: "pe_AttrMap (parseEvent e h) k = map_of (rev (map (\<lambda>a. (akey a, aval a)) (eattrs e))) k"
proof -
  have "fold (\<lambda>a m. m(akey a \<mapsto> aval a)) as m k =
      (case map_of (rev (map (\<lambda>a. (akey a, aval a)) as)) k of None \<Rightarrow> m k | Some v \<Rightarrow> Some v)" for as and m
    by (induction as arbitrary: m) (auto simp: map_add_def split: option.splits)
  from this [of "eattrs e" Map.empty] show ?thesis by (simp add: parseEvent_def split: option.splits)
qed

text \<open>The events of the transactions, each with the hash of its transaction.\<close>

definition tx_events :: "env \<Rightarrow> ScrapedBlock \<Rightarrow> string \<Rightarrow> nat \<Rightarrow> ParsedEvent list" where
  "tx_events E block eventType i =
     (case DecodeString (sb_Txs block ! i) of
        Inr txByte \<Rightarrow> parseEvents (tr_Events (sb_TxResults block ! i)) (tx_hash E txByte) eventType
      | Inl e \<Rightarrow> [])"

lemma extract_loop:
  assumes "rfold (extract_tx E block eventType) (enumerate n raws) acc = Inr events" "raws = drop n (sb_Txs block)"
  shows "events = acc @ concat (map (tx_events E block eventType) [n..<n + length raws]) \<and>
    (n + length raws \<le> length (sb_TxResults block) \<or> raws = [])"
  using assms
proof (induction raws arbitrary: n acc)
  case (Cons raw raws)
  have n: "sb_Txs block ! n = raw" "raws = drop (Suc n) (sb_Txs block)"
    using Cons.prems(2) nth_via_drop [of n "sb_Txs block" raw raws] by (simp, metis drop_Suc list.sel(3) tl_drop)
  from Cons.prems(1) obtain b r where b: "DecodeString raw = Inr b" "tx_result block n = Inr r"
    and rest: "rfold (extract_tx E block eventType) (enumerate (Suc n) raws)
       (acc @ parseEvents (tr_Events r) (tx_hash E b) eventType) = Inr events"
    by (auto simp: rbind_eq_Inr extract_tx_def)
  have r: "r = sb_TxResults block ! n" "n < length (sb_TxResults block)"
    using b(2) by (auto simp: tx_result_def split: if_splits)
  then have "tx_events E block eventType n = parseEvents (tr_Events r) (tx_hash E b) eventType"
    using b(1) n(1) by (simp add: tx_events_def)
  with Cons.IH [OF rest n(2)] r(2) show ?case by (auto simp: upt_conv_Cons simp del: upt_Suc)
qed simp

lemma ExtractEvents_Inr:
  assumes "ExtractEvents E block eventType = Inr events"
  shows "events = parseEvents (sb_PreBlock block) [] eventType @ parseEvents (sb_BeginBlock block) [] eventType @
      concat (map (tx_events E block eventType) [0..<length (sb_Txs block)]) @ parseEvents (sb_EndBlock block) [] eventType"
    and "length (sb_Txs block) \<le> length (sb_TxResults block) \<or> sb_Txs block = []"
  using assms unfolding ExtractEvents_def by (auto simp: rbind_eq_Inr dest!: extract_loop)

lemma parseEvents_type: "p \<in> set (parseEvents es h t) \<Longrightarrow> etype (pe_Event p) = t"
  by (auto simp: parseEvents_def parseEvent_def)

lemma ExtractEvents_type: "ExtractEvents E block t = Inr events \<Longrightarrow> p \<in> set events \<Longrightarrow> etype (pe_Event p) = t"
  by (auto dest!: ExtractEvents_Inr(1) dest: parseEvents_type simp: tx_events_def split: sum.splits)

end
