(* ===== verification/Tx_Address.thy ===== *)
theory Tx_Address
  imports Events
begin

text \<open>
  The accounts a transaction touches: \<open>src/indexer/collector/tx/address.go\<close>. Addresses are
  searched in the events with three regular expressions, read out of EVM logs, and, for
  fungible-asset events of a Move chain, looked up as the owner of the store the event names.
\<close>

section \<open>The regular expressions\<close>

definition hex_char :: "char \<Rightarrow> bool" where
  "hex_char c \<longleftrightarrow> hex_val c \<noteq> None"

definition lower_alnum :: "char \<Rightarrow> bool" where
  "lower_alnum c \<longleftrightarrow> is_digit c \<or> (97 \<le> (of_char c :: nat) \<and> (of_char c :: nat) \<le> 122)"

definition findAllBech32Address :: "string \<Rightarrow> string list" where
  "findAllBech32Address attr = (let t = drop 5 attr in
     if has_prefix attr ''init1'' \<and> (length t = 38 \<or> length t = 58) \<and> list_all lower_alnum t then [attr] else [])"

definition findAllHexAddress :: "string \<Rightarrow> string list" where
  "findAllHexAddress attr = (let t = drop 2 attr in
     if has_prefix attr ''0x'' \<and> 1 \<le> length t \<and> length t \<le> 64 \<and> list_all hex_char t then [attr] else [])"

function findAllMoveHexAddress :: "string \<Rightarrow> string list" where
  "findAllMoveHexAddress attr =
     (if attr = [] then []
      else let h = take 64 (takeWhile hex_char (drop 2 attr)) in
        if has_prefix attr ''0x'' \<and> h \<noteq> [] then (''0x'' @ h) # findAllMoveHexAddress (drop (2 + length h) attr)
        else findAllMoveHexAddress (tl attr))"
  by pat_completeness auto
termination by (relation "measure length") auto

declare findAllMoveHexAddress.simps [simp del]


section \<open>Addresses of one attribute\<close>

definition topic_prefix :: string where
  "topic_prefix = CHR ''0'' # CHR ''x'' # replicate 24 (CHR ''0'')"

definition log_addresses :: "string \<Rightarrow> string list \<Rightarrow> string list" where
  "log_addresses address topics = address # filter (\<lambda>t. has_prefix t topic_prefix) (tl topics)"

definition dec_FAEvent :: "json \<Rightarrow> string \<Rightarrow> err + string" where
  "dec_FAEvent = dec_struct (dec_field ''store_addr'' dec_string)"

text \<open>The \<open>switch\<close> on an attribute: the addresses it holds and the store it names, if any.\<close>

definition grep_attribute :: "env \<Rightarrow> event \<Rightarrow> nat \<Rightarrow> attribute \<Rightarrow> err + string list \<times> string list" where
  "grep_attribute E e idx attr =
     (if etype e = ''move'' \<and> akey attr = ''data'' then
        (if idx = 0 then Inl (Panic ''index out of range [-1]'')
         else
           let prevAttr = eattrs e ! (idx - 1); addrs = findAllMoveHexAddress (aval attr) in
           if akey prevAttr = ''type_tag'' \<and> has_prefix (aval prevAttr) ''0x1::fungible_asset'' then
             rbind (Unmarshal dec_FAEvent (aval attr) []) (\<lambda>storeAddr.
             Inr (addrs, if storeAddr \<noteq> [] then [storeAddr] else []))
           else Inr (addrs, []))
      else if etype e = EventTypeEVM E \<and> akey attr = AttributeKeyLog E then
        rbind (unmarshal_log E (aval attr)) (\<lambda>(address, topics). Inr (log_addresses address topics, []))
      else if etype e = EventTypeCall E \<and> akey attr = AttributeKeyRet E then Inr ([], [])
      else Inr (concat (map (\<lambda>attrVal. findAllBech32Address attrVal @ findAllHexAddress attrVal)
             (split_comma (aval attr))), []))"

text \<open>Addresses that do not parse are skipped.\<close>

definition acc_strings :: "env \<Rightarrow> string list \<Rightarrow> string list" where
  "acc_strings E addrs = concat (map (\<lambda>addr. case AccAddressFromString (from_bech32 E) addr of
       Inr accAddr \<Rightarrow> [to_bech32 E accAddr] | Inl e \<Rightarrow> []) addrs)"

definition grep_events :: "env \<Rightarrow> event list \<Rightarrow> err + string list \<times> string list" where
  "grep_events E events = rfold (\<lambda>e.
     rfold (\<lambda>(idx, attr) (grepped, stores).
       rbind (grep_attribute E e idx attr) (\<lambda>(addrs, st).
       Inr (grepped @ acc_strings E addrs, stores @ st)))
     (enumerate 0 (eattrs e))) events ([], [])"


lemma in_parsed [simp]: "x \<in> set (case r of Inr b \<Rightarrow> [f b] | Inl e \<Rightarrow> []) \<longleftrightarrow> (\<exists>b. r = Inr b \<and> x = f b)"
  by (cases r) auto

lemma in_acc_strings: "x \<in> set (acc_strings E as) \<longleftrightarrow>
    (\<exists>a \<in> set as. \<exists>b. AccAddressFromString (from_bech32 E) a = Inr b \<and> x = to_bech32 E b)"
  by (simp add: acc_strings_def) metis


section \<open>Owners of fungible-asset stores\<close>

definition fa_cache_Get :: "string \<Rightarrow> (world, string option) act" where
  "fa_cache_Get s = (\<lambda>w. let (r, c) = lru_Get (faStoreCache w) s in (Inr r, w\<lparr>faStoreCache := c\<rparr>))"

definition fa_cache_Set :: "env \<Rightarrow> string \<Rightarrow> string \<Rightarrow> (world, unit) act" where
  "fa_cache_Set E s ownr = modify (\<lambda>w. w\<lparr>faStoreCache := lru_Set (evict_strs E) (faStoreCache w) s ownr\<rparr>)"

definition cached_owners :: "string list \<Rightarrow> (world, string list \<times> string list) act" where
  "cached_owners stores = foreach (\<lambda>storeAddr (owners, storeAddrs).
     bnd (fa_cache_Get storeAddr) (\<lambda>r. case r of
       Some ownr \<Rightarrow> ret (owners @ [ownr], storeAddrs)
     | None \<Rightarrow> ret (owners, storeAddrs @ [storeAddr]))) stores ([], [])"

definition stored_owners :: "env \<Rightarrow> string list \<Rightarrow> string list \<Rightarrow> (world, string list) act" where
  "stored_owners E storeAddrs owners =
     bnd (query (\<lambda>d. filter (\<lambda>r. fa_StoreAddr r \<in> bytea_param E ` set storeAddrs) (t_fa_store d))) (\<lambda>faStores.
     foreach (\<lambda>faStore owners.
       bnd (fa_cache_Set E (BytesToHexWithPrefix (fa_StoreAddr faStore)) (BytesToHexWithPrefix (fa_Owner faStore))) (\<lambda>_.
       ret (owners @ [BytesToHexWithPrefix (fa_Owner faStore)]))) faStores owners)"

definition to_accounts :: "env \<Rightarrow> string list \<Rightarrow> string list \<Rightarrow> err + string list" where
  "to_accounts E = rfold (\<lambda>addr grepped.
     rbind (AccAddressFromString (from_bech32 E) addr) (\<lambda>accAddr. Inr (grepped @ [to_bech32 E accAddr])))"

definition GrepAddressesFromTx :: "env \<Rightarrow> event list \<Rightarrow> (world, string list) act" where
  "GrepAddressesFromTx E events =
     bnd (lift_res (grep_events E events)) (\<lambda>(grepped, stores).
       if stores = [] then ret grepped
       else bnd (cached_owners (map_order E (dedup stores))) (\<lambda>(owners, storeAddrs).
         bnd (if storeAddrs = [] then ret owners else stored_owners E storeAddrs owners) (\<lambda>owners.
         lift_res (to_accounts E owners grepped))))"

definition evm_addresses :: "EvmTx \<Rightarrow> string list" where
  "evm_addresses evmTx =
     (if et_From evmTx \<noteq> [] then [et_From evmTx] else []) @
     (if et_To evmTx \<noteq> [] then [et_To evmTx] else []) @
     (case et_ContractAddress evmTx of Some c \<Rightarrow> if c \<noteq> [] then [c] else [] | None \<Rightarrow> []) @
     concat (map (\<lambda>l. log_addresses (el_Address l) (el_Topics l)) (et_Logs evmTx))"

definition grepAddressesFromEvmTx :: "env \<Rightarrow> EvmTx \<Rightarrow> err + string list" where
  "grepAddressesFromEvmTx E evmTx = to_accounts E (evm_addresses evmTx) []"


section \<open>Every address found is canonical\<close>

lemma canonical_acc: "bech32_ok E \<Longrightarrow> AccAddressFromString (from_bech32 E) a = Inr b \<Longrightarrow> canonical E (to_bech32 E b)"
  using AccAddress_nonempty unfolding canonical_def by blast

lemma canonical_acc_strings: "bech32_ok E \<Longrightarrow> a \<in> set (acc_strings E addrs) \<Longrightarrow> canonical E a"
  by (auto simp: acc_strings_def canonical_acc split: sum.splits)

lemma rfold_inv:
  assumes "rfold f xs a = Inr b" "Q a" "\<And>x c d. x \<in> set xs \<Longrightarrow> Q c \<Longrightarrow> f x c = Inr d \<Longrightarrow> Q d"
  shows "Q b"
  using assms
proof (induction xs arbitrary: a)
  case (Cons x xs)
  then obtain c where "f x a = Inr c" "rfold f xs c = Inr b" by (auto simp: rbind_eq_Inr)
  with Cons show ?case by (metis list.set_intros)
qed simp

lemma grep_events_canonical:
  assumes "bech32_ok E" "grep_events E events = Inr r"
  shows "\<forall>a \<in> set (fst r). canonical E a"
  using assms(2) unfolding grep_events_def
proof (rule rfold_inv)
  fix e c d assume c: "\<forall>a \<in> set (fst c). canonical E a"
    and run: "rfold (\<lambda>(idx, attr) (grepped, stores). rbind (grep_attribute E e idx attr) (\<lambda>(addrs, st).
       Inr (grepped @ acc_strings E addrs, stores @ st))) (enumerate 0 (eattrs e)) c = Inr d"
  from run show "\<forall>a \<in> set (fst d). canonical E a"
    by (rule rfold_inv) (use c canonical_acc_strings [OF assms(1)] in \<open>auto simp: rbind_eq_Inr split: prod.splits\<close>)
qed simp

lemma to_accounts_Inr:
  "to_accounts E addrs g = Inr r \<longleftrightarrow>
     (\<exists>bs. list_all2 (\<lambda>a b. AccAddressFromString (from_bech32 E) a = Inr b) addrs bs \<and> r = g @ map (to_bech32 E) bs)"
proof (induction addrs arbitrary: g)
  case (Cons a addrs)
  have "to_accounts E (a # addrs) g = Inr r \<longleftrightarrow>
      (\<exists>b. AccAddressFromString (from_bech32 E) a = Inr b \<and> to_accounts E addrs (g @ [to_bech32 E b]) = Inr r)"
    by (auto simp: to_accounts_def rbind_eq_Inr)
  then show ?case by (simp add: Cons list_all2_Cons1) (metis (no_types, lifting) list.simps(9))
qed (auto simp: to_accounts_def)

lemma to_accounts_canonical:
  assumes "bech32_ok E" "to_accounts E addrs g = Inr r" "\<forall>a \<in> set g. canonical E a"
  shows "\<forall>a \<in> set r. canonical E a"
proof -
  obtain bs where bs: "list_all2 (\<lambda>a b. AccAddressFromString (from_bech32 E) a = Inr b) addrs bs"
    "r = g @ map (to_bech32 E) bs" using assms(2) by (auto simp: to_accounts_Inr)
  have "canonical E (to_bech32 E b)" if "b \<in> set bs" for b
    using bs(1) that assms(1) by (auto simp: list_all2_conv_all_nth in_set_conv_nth intro!: canonical_acc)
  with bs(2) assms(3) show ?thesis by auto
qed

lemma GrepAddressesFromTx_canonical:
  assumes "bech32_ok E" "GrepAddressesFromTx E events w = (Inr g, w')" "a \<in> set g"
  shows "canonical E a"
proof -
  from assms(2) obtain r where r: "grep_events E events = Inr r"
    and rest: "snd r = [] \<and> g = fst r \<or> (\<exists>owners. to_accounts E owners (fst r) = Inr g)"
    by (auto simp: GrepAddressesFromTx_def bnd_eq_Inr split: prod.splits if_splits) blast+
  have can: "\<forall>a \<in> set (fst r). canonical E a" by (rule grep_events_canonical [OF assms(1) r])
  from rest show ?thesis
    using can to_accounts_canonical [OF assms(1) _ can] assms(3) by blast
qed

lemma grepAddressesFromEvmTx_canonical:
  "bech32_ok E \<Longrightarrow> grepAddressesFromEvmTx E t = Inr g \<Longrightarrow> a \<in> set g \<Longrightarrow> canonical E a"
  unfolding grepAddressesFromEvmTx_def using to_accounts_canonical by fastforce


section \<open>What the search reads and writes\<close>

lemma keeps_fa_cache:
  assumes "\<And>w c. P w \<Longrightarrow> P (w\<lparr>faStoreCache := c\<rparr>)"
  shows "keeps P (fa_cache_Get s)" and "keeps P (fa_cache_Set E s v)"
  using assms by (auto simp: fa_cache_Get_def fa_cache_Set_def intro!: keepsI split: prod.splits)

lemma keeps_GrepAddressesFromTx:
  assumes "fault_free P" "\<And>w c. P w \<Longrightarrow> P (w\<lparr>faStoreCache := c\<rparr>)"
  shows "keeps P (GrepAddressesFromTx E events)"
proof -
  note f = keeps_fa_cache [of P, OF assms(2)]
  have "keeps P (cached_owners stores)" for stores
    unfolding cached_owners_def by (intro keeps_intros f)
  moreover have "keeps P (stored_owners E stores owners)" for stores owners
    unfolding stored_owners_def by (intro keeps_intros f assms(1))
  ultimately show ?thesis
    unfolding GrepAddressesFromTx_def by (intro keeps_intros)
qed


section \<open>What is found\<close>

text \<open>The results of the search over all events, when it does not stop: in event order.\<close>

definition attribute_hits :: "env \<Rightarrow> event \<Rightarrow> nat \<times> attribute \<Rightarrow> string list \<times> string list" where
  "attribute_hits E e = (\<lambda>(idx, attr). case grep_attribute E e idx attr of Inr r \<Rightarrow> r | Inl _ \<Rightarrow> ([], []))"

definition event_hits :: "env \<Rightarrow> event \<Rightarrow> (string list \<times> string list) list" where
  "event_hits E e = map (attribute_hits E e) (enumerate 0 (eattrs e))"

lemma grep_attributes_Inr:
  assumes "rfold (\<lambda>(idx, attr) (grepped, stores). rbind (grep_attribute E e idx attr) (\<lambda>(addrs, st).
       Inr (grepped @ acc_strings E addrs, stores @ st))) xs (g, s) = Inr r"
  shows "r = (g @ concat (map (acc_strings E \<circ> fst \<circ> attribute_hits E e) xs),
              s @ concat (map (snd \<circ> attribute_hits E e) xs))"
  using assms
proof (induction xs arbitrary: g s)
  case (Cons x xs)
  obtain i a where x: "x = (i, a)" by (cases x)
  with Cons.prems obtain addrs st where h: "grep_attribute E e i a = Inr (addrs, st)"
    and rest: "rfold (\<lambda>(idx, attr) (grepped, stores). rbind (grep_attribute E e idx attr) (\<lambda>(addrs, st).
       Inr (grepped @ acc_strings E addrs, stores @ st))) xs (g @ acc_strings E addrs, s @ st) = Inr r"
    by (auto simp: rbind_eq_Inr)
  from Cons.IH [OF rest] x h show ?case by (simp add: attribute_hits_def)
qed simp

lemma grep_events_Inr:
  assumes "grep_events E events = Inr r"
  shows "fst r = concat (map (\<lambda>e. concat (map (acc_strings E \<circ> fst) (event_hits E e))) events)"
    and "snd r = concat (map (\<lambda>e. concat (map snd (event_hits E e))) events)"
proof -
  have "fst r = g @ concat (map (\<lambda>e. concat (map (acc_strings E \<circ> fst) (event_hits E e))) events) \<and>
      snd r = s @ concat (map (\<lambda>e. concat (map snd (event_hits E e))) events)"
    if "rfold (\<lambda>e. rfold (\<lambda>(idx, attr) (grepped, stores). rbind (grep_attribute E e idx attr) (\<lambda>(addrs, st).
       Inr (grepped @ acc_strings E addrs, stores @ st))) (enumerate 0 (eattrs e))) events (g, s) = Inr r" for g s
    using that
  proof (induction events arbitrary: g s)
    case (Cons e es)
    then obtain c where c: "rfold (\<lambda>(idx, attr) (grepped, stores). rbind (grep_attribute E e idx attr) (\<lambda>(addrs, st).
       Inr (grepped @ acc_strings E addrs, stores @ st))) (enumerate 0 (eattrs e)) (g, s) = Inr c"
      and rest: "rfold (\<lambda>e. rfold (\<lambda>(idx, attr) (grepped, stores). rbind (grep_attribute E e idx attr) (\<lambda>(addrs, st).
       Inr (grepped @ acc_strings E addrs, stores @ st))) (enumerate 0 (eattrs e))) es c = Inr r"
      by (auto simp: rbind_eq_Inr)
    from grep_attributes_Inr [OF c] Cons.IH [of "fst c" "snd c"] rest show ?case
      by (simp add: event_hits_def comp_def)
  qed auto
  from this [of "[]" "[]"] assms show "fst r = concat (map (\<lambda>e. concat (map (acc_strings E \<circ> fst) (event_hits E e))) events)"
    "snd r = concat (map (\<lambda>e. concat (map snd (event_hits E e))) events)"
    unfolding grep_events_def by simp_all
qed

end
