(* ===== verification/Tx_Collector.thy ===== *)
theory Tx_Collector
  imports Tx_Address
begin

text \<open>
  The transaction submodule: \<open>src/indexer/collector/tx/\<close> (\<open>prepare.go\<close>, \<open>collect.go\<close>,
  \<open>fa.go\<close>, \<open>util.go\<close>). \<open>prepare\<close> fetches what the node's REST and JSON-RPC interfaces say
  of a block, \<open>collect\<close> turns the block and the fetched data into rows: a transaction per
  raw transaction with the next number of the sequence, and its edges to accounts, message
  types and type tags.
\<close>

section \<open>Helpers: util.go\<close>

definition dec_RestTxBody :: "json \<Rightarrow> string list \<Rightarrow> err + string list" where
  "dec_RestTxBody = dec_struct (dec_field ''messages''
     (dec_list (dec_struct (dec_field ''@type'' dec_string)) []))"

definition grepMsgTypesFromRestTx :: "env \<Rightarrow> RestTx \<Rightarrow> err + string list" where
  "grepMsgTypesFromRestTx E t =
     rbind (Unmarshal dec_RestTxBody (rt_Body t) []) (\<lambda>msgTypes.
     Inr (map_order E (dedup (map (\<lambda>m. trim_prefix m ''/'') msgTypes))))"

definition grepTypeTagsFromEvents :: "env \<Rightarrow> config \<Rightarrow> event list \<Rightarrow> string list" where
  "grepTypeTagsFromEvents E cfg events =
     (if cfg_VmType cfg \<noteq> MoveVM then []
      else map_order E (dedup (map aval (filter (\<lambda>attr. akey attr = ''type_tag'' \<and> aval attr \<noteq> [])
        (concat (map eattrs (filter (\<lambda>e. etype e = ''move'') events)))))))"

text \<open>\<open>strings.ReplaceAll(s, old, new)\<close> for a non-empty \<open>old\<close>.\<close>

function replace_all :: "string \<Rightarrow> string \<Rightarrow> string \<Rightarrow> string" where
  "replace_all old new s =
     (if s = [] \<or> old = [] then s
      else if has_prefix s old then new @ replace_all old new (drop (length old) s)
      else hd s # replace_all old new (tl s))"
  by pat_completeness auto
termination by (relation "measure (\<lambda>(old, new, s). length s)") auto

declare replace_all.simps [simp del]

definition nul :: string where
  "nul = [CHR 0x00]"

definition nul_escape :: string where
  "nul_escape = CHR 0x5C # ''u0000''"

definition sanitizeJSONBytes :: "string \<Rightarrow> string" where
  "sanitizeJSONBytes data =
     replace_all nul_escape (CHR 0x5C # ''uFFFD'') (replace_all nul [CHR 0xEF, CHR 0xBF, CHR 0xBD] data)"


section \<open>Fungible-asset stores: fa.go\<close>

definition dec_PrimaryStoreCreatedEvent :: "json \<Rightarrow> string \<times> string \<times> string \<Rightarrow> err + string \<times> string \<times> string" where
  "dec_PrimaryStoreCreatedEvent = dec_struct (\<lambda>kvs a.
     rbind (dec_field ''owner_addr'' dec_string kvs (fst a)) (\<lambda>ownr.
     rbind (dec_field ''store_addr'' dec_string kvs (fst (snd a))) (\<lambda>store.
     rbind (dec_field ''metadata_addr'' dec_string kvs (snd (snd a))) (\<lambda>meta.
     Inr (ownr, store, meta)))))"

definition fa_store_of :: "ParsedEvent \<Rightarrow> CollectedFAStore list \<Rightarrow> err + CollectedFAStore list" where
  "fa_store_of p stores =
     (if pe_AttrMap p ''type_tag'' \<noteq> Some ''0x1::primary_fungible_store::PrimaryStoreCreatedEvent'' then Inr stores
      else (case pe_AttrMap p ''data'' of
          None \<Rightarrow> Inr stores
        | Some data \<Rightarrow>
            rbind (Unmarshal dec_PrimaryStoreCreatedEvent data ([], [], [])) (\<lambda>(ownr, store, meta).
            rbind (HexToBytes store) (\<lambda>storeAddrBytes.
            rbind (HexToBytes ownr) (\<lambda>ownerAddrBytes.
            Inr (stores @ [\<lparr>fa_StoreAddr = storeAddrBytes, fa_Owner = ownerAddrBytes\<rparr>]))))))"

definition ins_fa :: "CollectedFAStore list \<Rightarrow> db \<Rightarrow> db" where
  "ins_fa rs d = d\<lparr>t_fa_store := insert_rows fa_StoreAddr rs (t_fa_store d)\<rparr>"

definition collectFA :: "env \<Rightarrow> config \<Rightarrow> ScrapedBlock \<Rightarrow> (world, unit) act" where
  "collectFA E cfg block =
     (if cfg_VmType cfg \<noteq> MoveVM then ret ()
      else bnd (lift_res (ExtractEvents E block ''move'')) (\<lambda>events.
        bnd (lift_res (rfold fa_store_of events [])) (\<lambda>stores.
        CreateInBatches cfg ins_fa stores)))"


section \<open>Prepare: prepare.go\<close>

text \<open>
  The two queries run concurrently; their outcomes are the arguments. The first error wins;
  when both fail it is the one that came first, the argument \<open>restFirst\<close>.
\<close>

definition prepare_tx :: "int \<Rightarrow> err + RestTx list \<Rightarrow> err + EvmTx list \<Rightarrow> bool \<Rightarrow> (world, unit) act" where
  "prepare_tx height restRes evmRes restFirst =
     (case (restRes, evmRes) of
        (Inr restTxs, Inr evmTxs) \<Rightarrow>
          modify (\<lambda>w. w\<lparr>txCache := (txCache w)(height \<mapsto> \<lparr>cd_RestTxs = restTxs, cd_EvmTxs = evmTxs\<rparr>)\<rparr>)
      | (Inl e, Inr _) \<Rightarrow> throw e
      | (Inr _, Inl e) \<Rightarrow> throw e
      | (Inl e1, Inl e2) \<Rightarrow> throw (if restFirst then e1 else e2))"


section \<open>Collect: collect.go\<close>

text \<open>What the loop over the transactions accumulates.\<close>

record tx_acc =
  acc_Seq :: int
  acc_txs :: "CollectedTx list"
  acc_accounts :: "CollectedTxAccount list"
  acc_msgs :: "CollectedTxMsgType list"
  acc_tags :: "CollectedTxTypeTag list"

definition rest_tx_map :: "RestTx list \<Rightarrow> (string \<rightharpoonup> RestTx)" where
  "rest_tx_map restTxs = fold (\<lambda>restTx m.
     let sigKey = join_comma (rt_Signatures restTx) in
     if sigKey \<noteq> [] then m(sigKey \<mapsto> restTx) else m) restTxs Map.empty"

definition reject :: "err option \<Rightarrow> err + unit" where
  "reject r = (case r of None \<Rightarrow> Inr () | Some e \<Rightarrow> Inl e)"

definition decode_raw :: "env \<Rightarrow> byte list \<Rightarrow> err + TxRaw" where
  "decode_raw E txByte = rbind (reject (reject_unknown_TxRaw E txByte)) (\<lambda>_. unmarshal_TxRaw E txByte)"

definition decode_auth :: "env \<Rightarrow> byte list \<Rightarrow> err + AuthInfo" where
  "decode_auth E bytes = rbind (reject (reject_unknown_AuthInfo E bytes)) (\<lambda>_. unmarshal_AuthInfo E bytes)"

text \<open>
  The signer of a transaction: the address of its first public key. The SDK's \<open>UnpackAny\<close>
  leaves the key nil when the field is unset, and \<open>pk.Address()\<close> then panics.
\<close>

definition signer_of :: "env \<Rightarrow> string \<Rightarrow> AuthInfo \<Rightarrow> err + string" where
  "signer_of E txHash authInfo = (case ai_SignerInfos authInfo of
      [] \<Rightarrow> Inl (Err (''no signer info for txhash '' @ txHash))
    | info # _ \<Rightarrow> (case si_PublicKey info of
        None \<Rightarrow> Inl (Panic ''nil pointer dereference'')
      | Some any \<Rightarrow> rbind (unpack_pubkey E any) (\<lambda>addr. Inr (to_bech32 E addr))))"

definition ids_of :: "(string \<rightharpoonup> int) \<Rightarrow> string list \<Rightarrow> int list" where
  "ids_of m ks = concat (map (\<lambda>k. case m k of Some i \<Rightarrow> [i] | None \<Rightarrow> []) ks)"

definition tx_json :: "env \<Rightarrow> ScrapedBlock \<Rightarrow> string \<Rightarrow> RestTx \<Rightarrow> ExecTxResult \<Rightarrow> err + string" where
  "tx_json E block txHash restTx res =
     rbind (cb_marshal_RestTx E restTx) (\<lambda>txJSON.
     rbind (cb_marshal_events E (tr_Events res)) (\<lambda>events.
     rbind (cb_marshal_Tx E \<lparr>txr_TxHash = txHash, txr_Height = sb_Height block,
         txr_Codespace = tr_Codespace res, txr_Code = tr_Code res, txr_Data = to_upper (hex_encode (tr_Data res)),
         txr_RawLog = tr_Log res, txr_Logs = parse_abci_logs E (tr_Log res), txr_Info = tr_Info res,
         txr_GasWanted = tr_GasWanted res, txr_GasUsed = tr_GasUsed res, txr_Tx = sanitizeJSONBytes txJSON,
         txr_Timestamp = sb_Timestamp block, txr_Events = sanitizeJSONBytes events\<rparr>) (\<lambda>txResJSON.
     Inr (sanitizeJSONBytes txResJSON))))"

definition rest_tx_for :: "(string \<rightharpoonup> RestTx) \<Rightarrow> TxRaw \<Rightarrow> string \<Rightarrow> err + RestTx" where
  "rest_tx_for restTxMap raw txHash = (case restTxMap (join_comma (map EncodeToString (raw_Signatures raw))) of
      None \<Rightarrow> Inl (Err (''no rest tx for txhash '' @ txHash))
    | Some restTx \<Rightarrow> Inr restTx)"

definition collect_one :: "env \<Rightarrow> config \<Rightarrow> ScrapedBlock \<Rightarrow> (string \<rightharpoonup> RestTx) \<Rightarrow> nat \<times> string \<Rightarrow> tx_acc \<Rightarrow> (world, tx_acc) act" where
  "collect_one E cfg block restTxMap = (\<lambda>(txIndex, txRaw) acc.
     bnd (lift_res (DecodeString txRaw)) (\<lambda>txByte.
     let txHash = tx_hash E txByte in
     bnd (lift_res (decode_raw E txByte)) (\<lambda>raw.
     bnd (lift_res (rest_tx_for restTxMap raw txHash)) (\<lambda>restTx.
     bnd (lift_res (grepMsgTypesFromRestTx E restTx)) (\<lambda>msgTypes.
     bnd (GetOrCreateMsgTypeIds E msgTypes True) (\<lambda>msgTypeIdMap.
     bnd (lift_res (tx_result block txIndex)) (\<lambda>res.
     let typeTags = grepTypeTagsFromEvents E cfg (tr_Events res) in
     bnd (GetOrCreateTypeTagIds E typeTags True) (\<lambda>typeTagIdMap.
     bnd (GrepAddressesFromTx E (tr_Events res)) (\<lambda>addrs.
     bnd (lift_res (decode_auth E (raw_AuthInfoBytes raw))) (\<lambda>authInfo.
     bnd (lift_res (signer_of E txHash authInfo)) (\<lambda>signer.
     let uniqueAccounts = map_order E (dedup (addrs @ [signer])) in
     bnd (GetOrCreateAccountIds E uniqueAccounts True) (\<lambda>accountIdMap.
     let signerId = (case accountIdMap signer of Some i \<Rightarrow> i | None \<Rightarrow> 0) in
     bnd (lift_res (tx_json E block txHash restTx res)) (\<lambda>txResJSON.
     bnd (lift_res (HexToBytes txHash)) (\<lambda>hashBytes.
     let currentSeq = acc_Seq acc + 1 in
     ret \<lparr>acc_Seq = currentSeq,
       acc_txs = acc_txs acc @ [\<lparr>tx_Hash = hashBytes, tx_Height = sb_Height block, tx_Sequence = currentSeq,
         tx_SignerId = signerId, tx_Data = txResJSON\<rparr>],
       acc_accounts = acc_accounts acc @ map (\<lambda>i. \<lparr>ta_AccountId = i, ta_Sequence = currentSeq, ta_Signer = (i = signerId)\<rparr>)
         (dedup (ids_of accountIdMap uniqueAccounts)),
       acc_msgs = acc_msgs acc @ map (\<lambda>i. \<lparr>tm_MsgTypeId = i, tm_Sequence = currentSeq\<rparr>) (dedup (ids_of msgTypeIdMap msgTypes)),
       acc_tags = acc_tags acc @ map (\<lambda>i. \<lparr>tt_TypeTagId = i, tt_Sequence = currentSeq\<rparr>)
         (dedup (ids_of typeTagIdMap typeTags))\<rparr>))))))))))))))"

definition ins_tx :: "CollectedTx list \<Rightarrow> db \<Rightarrow> db" where
  "ins_tx rs d = d\<lparr>t_tx := insert_rows tx_key rs (t_tx d)\<rparr>"

definition ins_ta :: "CollectedTxAccount list \<Rightarrow> db \<Rightarrow> db" where
  "ins_ta rs d = d\<lparr>t_tx_accounts := insert_rows ta_key rs (t_tx_accounts d)\<rparr>"

definition ins_tm :: "CollectedTxMsgType list \<Rightarrow> db \<Rightarrow> db" where
  "ins_tm rs d = d\<lparr>t_tx_msg_types := insert_rows tm_key rs (t_tx_msg_types d)\<rparr>"

definition ins_tt :: "CollectedTxTypeTag list \<Rightarrow> db \<Rightarrow> db" where
  "ins_tt rs d = d\<lparr>t_tx_type_tags := insert_rows tt_key rs (t_tx_type_tags d)\<rparr>"

definition insert_all :: "config \<Rightarrow> string \<Rightarrow> tx_acc \<Rightarrow> (world, unit) act" where
  "insert_all cfg name acc =
     bnd (CreateInBatches cfg ins_tx (acc_txs acc)) (\<lambda>_.
     bnd (CreateInBatches cfg ins_ta (acc_accounts acc)) (\<lambda>_.
     bnd (CreateInBatches cfg ins_tm (acc_msgs acc)) (\<lambda>_.
     bnd (CreateInBatches cfg ins_tt (acc_tags acc)) (\<lambda>_.
     exec (put_seq \<lparr>si_Name = name, si_Sequence = acc_Seq acc\<rparr>)))))"

text \<open>\<open>sub.cache[height]\<close> is read and deleted; the map is not part of the transaction.\<close>

definition take_prepared :: "int \<Rightarrow> (world, CacheData) act" where
  "take_prepared height = (\<lambda>w. let w' = w\<lparr>txCache := (txCache w)(height := None)\<rparr> in
     case txCache w height of None \<Rightarrow> (Inl (Err ''data is not prepared''), w') | Some c \<Rightarrow> (Inr c, w'))"

text \<open>\<open>json.Marshal\<close> of an EVM receipt: the fields in declaration order.\<close>

definition json_EvmLog :: "EvmLog \<Rightarrow> json" where
  "json_EvmLog l = JObj
     [(''address'', JStr (el_Address l)), (''topics'', JArr (map JStr (el_Topics l))), (''data'', JStr (el_Data l)),
      (''blockNumber'', JStr (el_BlockNumber l)), (''transactionHash'', JStr (el_TxHash l)),
      (''transactionIndex'', JStr (el_TxIndex l)), (''blockHash'', JStr (el_BlockHash l)),
      (''logIndex'', JStr (el_LogIndex l)), (''removed'', JBool (el_Removed l))]"

definition json_EvmTx :: "EvmTx \<Rightarrow> json" where
  "json_EvmTx t = JObj
     [(''blockHash'', JStr (et_BlockHash t)), (''blockNumber'', JStr (et_BlockNumber t)),
      (''contractAddress'', case et_ContractAddress t of None \<Rightarrow> JNull | Some c \<Rightarrow> JStr c),
      (''cumulativeGasUsed'', JStr (et_CumulativeGasUsed t)), (''effectiveGasPrice'', JStr (et_EffectiveGasPrice t)),
      (''from'', JStr (et_From t)), (''gasUsed'', JStr (et_GasUsed t)),
      (''logs'', JArr (map json_EvmLog (et_Logs t))), (''logsBloom'', JStr (et_LogsBloom t)),
      (''status'', JStr (et_Status t)), (''to'', JStr (et_To t)), (''transactionHash'', JStr (et_TxHash t)),
      (''transactionIndex'', JStr (et_TxIndex t)), (''type'', JStr (et_Type t))]"

record evm_acc =
  eacc_Seq :: int
  eacc_txs :: "CollectedEvmTx list"
  eacc_accounts :: "CollectedEvmTxAccount list"

definition collect_evm_one :: "env \<Rightarrow> ScrapedBlock \<Rightarrow> EvmTx \<Rightarrow> evm_acc \<Rightarrow> (world, evm_acc) act" where
  "collect_evm_one E block evmTx acc =
     (let txJSON = sanitizeJSONBytes (print_json (json_EvmTx evmTx)) in
     bnd (lift_res (grepAddressesFromEvmTx E evmTx)) (\<lambda>addrs.
     bnd (lift_res (rbind (AccAddressFromString (from_bech32 E) (et_From evmTx)) (\<lambda>signer. Inr (to_bech32 E signer)))) (\<lambda>signerStr.
     let uniqueAccounts = map_order E (dedup (addrs @ [signerStr])) in
     bnd (GetOrCreateAccountIds E uniqueAccounts True) (\<lambda>accountIdMap.
     let signerId = (case accountIdMap signerStr of Some i \<Rightarrow> i | None \<Rightarrow> 0) in
     bnd (lift_res (HexToBytes (et_TxHash evmTx))) (\<lambda>hashBytes.
     let currentSeq = eacc_Seq acc + 1 in
     ret \<lparr>eacc_Seq = currentSeq,
       eacc_txs = eacc_txs acc @ [\<lparr>etx_Hash = hashBytes, etx_Height = sb_Height block, etx_Sequence = currentSeq,
         etx_SignerId = signerId, etx_Data = txJSON\<rparr>],
       eacc_accounts = eacc_accounts acc @ map (\<lambda>i. \<lparr>eta_AccountId = i, eta_Sequence = currentSeq, eta_Signer = (i = signerId)\<rparr>)
         (dedup (ids_of accountIdMap uniqueAccounts))\<rparr>)))))"

definition ins_etx :: "CollectedEvmTx list \<Rightarrow> db \<Rightarrow> db" where
  "ins_etx rs d = d\<lparr>t_evm_tx := insert_rows etx_key rs (t_evm_tx d)\<rparr>"

definition ins_eta :: "CollectedEvmTxAccount list \<Rightarrow> db \<Rightarrow> db" where
  "ins_eta rs d = d\<lparr>t_evm_tx_accounts := insert_rows eta_key rs (t_evm_tx_accounts d)\<rparr>"

definition insert_evm :: "config \<Rightarrow> evm_acc \<Rightarrow> (world, unit) act" where
  "insert_evm cfg acc =
     bnd (CreateInBatches cfg ins_etx (eacc_txs acc)) (\<lambda>_.
     bnd (CreateInBatches cfg ins_eta (eacc_accounts acc)) (\<lambda>_.
     exec (put_seq \<lparr>si_Name = ''evm_tx'', si_Sequence = eacc_Seq acc\<rparr>)))"

definition collectEvm :: "env \<Rightarrow> config \<Rightarrow> ScrapedBlock \<Rightarrow> EvmTx list \<Rightarrow> (world, unit) act" where
  "collectEvm E cfg block evmTxs =
     (if cfg_VmType cfg \<noteq> EVM then ret ()
      else bnd (GetSeqInfo ''evm_tx'') (\<lambda>seqInfo.
        bnd (foreach (collect_evm_one E block) evmTxs
          \<lparr>eacc_Seq = si_Sequence seqInfo, eacc_txs = [], eacc_accounts = []\<rparr>) (\<lambda>acc.
        insert_evm cfg acc)))"

definition collect_tx :: "env \<Rightarrow> config \<Rightarrow> ScrapedBlock \<Rightarrow> (world, unit) act" where
  "collect_tx E cfg block =
     bnd (take_prepared (sb_Height block)) (\<lambda>cacheData.
     bnd (collectFA E cfg block) (\<lambda>_.
     bnd (GetSeqInfo ''tx'') (\<lambda>seqInfo.
     bnd (foreach (collect_one E cfg block (rest_tx_map (cd_RestTxs cacheData))) (enumerate 0 (sb_Txs block))
       \<lparr>acc_Seq = si_Sequence seqInfo, acc_txs = [], acc_accounts = [], acc_msgs = [], acc_tags = []\<rparr>) (\<lambda>acc.
     bnd (insert_all cfg ''tx'' acc) (\<lambda>_.
     collectEvm E cfg block (cd_EvmTxs cacheData))))))"

end
