(* ===== verification/Tx_Spec.thy ===== *)
theory Tx_Spec
  imports Tx_Collector
begin

text \<open>
  What \<open>collect\<close> of the transaction submodule stores: one row per raw transaction with
  consecutive numbers, and the edges that tie it to the accounts its events name, to its
  signer, its message types and its type tags.
\<close>

section \<open>Bookkeeping\<close>

lemma foreach_Inr:
  assumes "foreach f xs a w = (Inr b, w')" "I [] a w"
    and "\<And>ys x zs c u d v. xs = ys @ x # zs \<Longrightarrow> I ys c u \<Longrightarrow> f x c u = (Inr d, v) \<Longrightarrow> I (ys @ [x]) d v"
  shows "I xs b w'"
proof -
  have "hoare (I [] a) (foreach f xs a) (I xs) (\<lambda>_ _. True)"
    by (rule hoare_foreach, rule hoareI) (use assms(3) in auto)
  from hoareD [OF this assms(2,1)] show ?thesis .
qed

definition dict_invs :: "env \<Rightarrow> world \<Rightarrow> bool" where
  "dict_invs E w \<longleftrightarrow> dict_inv (account_dict E) w \<and> dict_inv (msg_type_dict E) w \<and> dict_inv (type_tag_dict E) w"

text \<open>The dictionaries only grow.\<close>

definition grows :: "world \<Rightarrow> world \<Rightarrow> bool" where
  "grows w w' \<longleftrightarrow> set (t_account_dict (w_db w)) \<subseteq> set (t_account_dict (w_db w')) \<and>
     set (t_msg_type_dict (w_db w)) \<subseteq> set (t_msg_type_dict (w_db w')) \<and>
     set (t_type_tag_dict (w_db w)) \<subseteq> set (t_type_tag_dict (w_db w'))"

lemma grows_refl [simp]: "grows w w"
  and grows_trans: "grows w u \<Longrightarrow> grows u v \<Longrightarrow> grows w v"
  by (auto simp: grows_def)

lemma has_account_mono: "grows w w' \<Longrightarrow> has_account E w a i \<Longrightarrow> has_account E w' a i"
  unfolding has_account_def grows_def by blast

definition codec_ok :: "env \<Rightarrow> bool" where
  "codec_ok E \<longleftrightarrow> (\<forall>k b. unpack_pubkey E k = Inr b \<longrightarrow> b \<noteq> [])"

text \<open>The state the collectors share: sound dictionaries, and the tables of \<open>d\<close>.\<close>

definition coll_inv :: "env \<Rightarrow> db \<Rightarrow> world \<Rightarrow> bool" where
  "coll_inv E d w \<longleftrightarrow> dict_invs E w \<and> same_data d (w_db w)"

lemma coll_inv_fault_free [simp]: "fault_free (coll_inv E d)"
  by (simp add: fault_free_def coll_inv_def dict_invs_def dict_inv_def account_dict_def msg_type_dict_def type_tag_dict_def)

lemma ignores_fault_free: "ignores D P \<Longrightarrow> fault_free P"
  by (simp add: ignores_def)

lemma keeps_msg_types:
  "ignores (msg_type_dict E) P \<Longrightarrow> keeps P (GetOrCreateMsgTypeIds E ms c)"
  unfolding GetOrCreateMsgTypeIds_def by (rule keeps_get_or_create)

lemma keeps_type_tags:
  "ignores (type_tag_dict E) P \<Longrightarrow> keeps P (GetOrCreateTypeTagIds E ms c)"
  unfolding GetOrCreateTypeTagIds_def by (rule keeps_get_or_create)

lemma keeps_accounts:
  "ignores (account_dict E) P \<Longrightarrow> keeps P (GetOrCreateAccountIds E as c)"
  unfolding GetOrCreateAccountIds_eq by (rule keeps_get_or_create)

lemma ignores_rows [simp]:
  "ignores (msg_type_dict E) (\<lambda>w. set t \<subseteq> set (t_account_dict (w_db w)))"
  "ignores (type_tag_dict E) (\<lambda>w. set t \<subseteq> set (t_account_dict (w_db w)))"
  "ignores (account_dict E) (\<lambda>w. set m \<subseteq> set (t_msg_type_dict (w_db w)))"
  "ignores (type_tag_dict E) (\<lambda>w. set m \<subseteq> set (t_msg_type_dict (w_db w)))"
  "ignores (account_dict E) (\<lambda>w. set m \<subseteq> set (t_type_tag_dict (w_db w)))"
  "ignores (msg_type_dict E) (\<lambda>w. set m \<subseteq> set (t_type_tag_dict (w_db w)))"
  by (simp_all add: ignores_def fault_free_def account_dict_def msg_type_dict_def type_tag_dict_def)

text \<open>Each dictionary call in one step: invariants, growth, and the ids it found.\<close>

lemma step_msg_types:
  assumes "env_ok E" "coll_inv E d w" "distinct ms" "GetOrCreateMsgTypeIds E ms True w = (Inr m, w')"
  shows "coll_inv E d w'" "grows w w'" "dom m = set ms"
    "\<forall>q \<in> set ms. \<exists>i. m q = Some i \<and> (i, q) \<in> set (t_msg_type_dict (w_db w'))"
proof -
  have k: "P w \<Longrightarrow> P w'" if "ignores (msg_type_dict E) P" for P
    using keepsD [OF keeps_msg_types [OF that] _ assms(4)] .
  have inv: "dict_inv (msg_type_dict E) w \<and> set (t_msg_type_dict (w_db w)) \<subseteq> set (t_msg_type_dict (w_db w))"
    using assms(2) by (simp add: coll_inv_def dict_invs_def)
  note post = hoareD [OF msg_type_ids [OF assms(1,3)] inv assms(4)]
  show "coll_inv E d w'"
    using assms(2) post k [of "\<lambda>w. same_data d (w_db w)"] k [of "dict_inv (account_dict E)"]
      k [of "dict_inv (type_tag_dict E)"]
    by (simp add: coll_inv_def dict_invs_def)
  show "grows w w'"
    using post k [of "\<lambda>w'. set (t_account_dict (w_db w)) \<subseteq> set (t_account_dict (w_db w'))"]
      k [of "\<lambda>w'. set (t_type_tag_dict (w_db w)) \<subseteq> set (t_type_tag_dict (w_db w'))"]
    by (simp add: grows_def)
  show "dom m = set ms" "\<forall>q \<in> set ms. \<exists>i. m q = Some i \<and> (i, q) \<in> set (t_msg_type_dict (w_db w'))"
    using post by blast+
qed

lemma step_type_tags:
  assumes "env_ok E" "coll_inv E d w" "distinct ms" "GetOrCreateTypeTagIds E ms True w = (Inr m, w')"
  shows "coll_inv E d w'" "grows w w'" "dom m = set ms"
    "\<forall>q \<in> set ms. \<exists>i. m q = Some i \<and> (i, q) \<in> set (t_type_tag_dict (w_db w'))"
proof -
  have k: "P w \<Longrightarrow> P w'" if "ignores (type_tag_dict E) P" for P
    using keepsD [OF keeps_type_tags [OF that] _ assms(4)] .
  have inv: "dict_inv (type_tag_dict E) w \<and> set (t_type_tag_dict (w_db w)) \<subseteq> set (t_type_tag_dict (w_db w))"
    using assms(2) by (simp add: coll_inv_def dict_invs_def)
  note post = hoareD [OF type_tag_ids [OF assms(1,3)] inv assms(4)]
  show "coll_inv E d w'"
    using assms(2) post k [of "\<lambda>w. same_data d (w_db w)"] k [of "dict_inv (account_dict E)"]
      k [of "dict_inv (msg_type_dict E)"]
    by (simp add: coll_inv_def dict_invs_def)
  show "grows w w'"
    using post k [of "\<lambda>w'. set (t_account_dict (w_db w)) \<subseteq> set (t_account_dict (w_db w'))"]
      k [of "\<lambda>w'. set (t_msg_type_dict (w_db w)) \<subseteq> set (t_msg_type_dict (w_db w'))"]
    by (simp add: grows_def)
  show "dom m = set ms" "\<forall>q \<in> set ms. \<exists>i. m q = Some i \<and> (i, q) \<in> set (t_type_tag_dict (w_db w'))"
    using post by blast+
qed

lemma step_accounts:
  assumes "env_ok E" "coll_inv E d w" "\<forall>a \<in> set as. canonical E a" "GetOrCreateAccountIds E as True w = (Inr m, w')"
  shows "coll_inv E d w'" "grows w w'" "dom m = set as"
    "\<forall>a \<in> set as. \<exists>i. m a = Some i \<and> has_account E w' a i"
proof -
  have k: "P w \<Longrightarrow> P w'" if "ignores (account_dict E) P" for P
    using keepsD [OF keeps_accounts [OF that] _ assms(4)] .
  have inv: "dict_inv (account_dict E) w \<and> set (t_account_dict (w_db w)) \<subseteq> set (t_account_dict (w_db w))"
    using assms(2) by (simp add: coll_inv_def dict_invs_def)
  note post = hoareD [OF account_ids [OF assms(1,3)] inv assms(4)]
  show "coll_inv E d w'"
    using assms(2) post k [of "\<lambda>w. same_data d (w_db w)"] k [of "dict_inv (type_tag_dict E)"]
      k [of "dict_inv (msg_type_dict E)"]
    by (simp add: coll_inv_def dict_invs_def)
  show "grows w w'"
    using post k [of "\<lambda>w'. set (t_type_tag_dict (w_db w)) \<subseteq> set (t_type_tag_dict (w_db w'))"]
      k [of "\<lambda>w'. set (t_msg_type_dict (w_db w)) \<subseteq> set (t_msg_type_dict (w_db w'))"]
    by (simp add: grows_def)
  show "dom m = set as" "\<forall>a \<in> set as. \<exists>i. m a = Some i \<and> has_account E w' a i"
    using post by blast+
qed

lemma step_grep:
  assumes "env_ok E" "coll_inv E d w" "GrepAddressesFromTx E events w = (Inr g, w')"
  shows "coll_inv E d w'" "grows w w'" "\<forall>a \<in> set g. canonical E a"
proof -
  have k: "P w \<Longrightarrow> P w'" if "fault_free P" "\<And>w c. P w \<Longrightarrow> P (w\<lparr>faStoreCache := c\<rparr>)" for P
    using keepsD [OF keeps_GrepAddressesFromTx [OF that] _ assms(3)] .
  show "coll_inv E d w'"
    by (rule k [of "coll_inv E d", OF _ _ assms(2)])
      (simp_all add: coll_inv_def dict_invs_def dict_inv_def account_dict_def msg_type_dict_def type_tag_dict_def)
  show "grows w w'"
    by (rule k [of "grows w"]) (simp_all add: grows_def fault_free_def)
  show "\<forall>a \<in> set g. canonical E a"
    using GrepAddressesFromTx_canonical [OF env_okD(1) [OF assms(1)] assms(3)] by blast
qed


section \<open>One transaction\<close>

text \<open>The rows of one transaction: its row and its edges.\<close>

type_synonym tx_entry = "CollectedTx \<times> CollectedTxAccount list \<times> CollectedTxMsgType list \<times> CollectedTxTypeTag list"

text \<open>\<open>S\<close> is exactly the set of the ids that relation \<open>has\<close> gives the elements of \<open>A\<close>.\<close>

definition ids_for :: "'a set \<Rightarrow> ('a \<Rightarrow> int \<Rightarrow> bool) \<Rightarrow> int set \<Rightarrow> bool" where
  "ids_for A has S \<longleftrightarrow> (\<forall>a \<in> A. \<exists>i \<in> S. has a i) \<and> (\<forall>i \<in> S. \<exists>a \<in> A. has a i)"

lemma ids_for_mono: "ids_for A has S \<Longrightarrow> (\<And>a i. has a i \<Longrightarrow> has' a i) \<Longrightarrow> ids_for A has' S"
  unfolding ids_for_def by meson

lemma ids_for_map:
  assumes "\<forall>q \<in> set ks. \<exists>i. m q = Some i \<and> has q i"
  shows "ids_for (set ks) has (set (ids_of m ks))"
proof -
  have "set (ids_of m ks) = {i. \<exists>q \<in> set ks. m q = Some i}"
    by (auto simp: ids_of_def split: option.splits)
  with assms show ?thesis unfolding ids_for_def by fastforce
qed

text \<open>The addresses a search over the events yields, in some state of the stores and caches.\<close>

definition finds :: "env \<Rightarrow> event list \<Rightarrow> string list \<Rightarrow> bool" where
  "finds E events addrs \<longleftrightarrow> (\<exists>w w'. GrepAddressesFromTx E events w = (Inr addrs, w'))"

text \<open>What the code reads out of a raw transaction and its result.\<close>

definition tx_view :: "env \<Rightarrow> config \<Rightarrow> ScrapedBlock \<Rightarrow> (string \<rightharpoonup> RestTx) \<Rightarrow> nat \<Rightarrow> string \<Rightarrow>
    byte list \<Rightarrow> string \<Rightarrow> string \<Rightarrow> string list \<Rightarrow> string list \<Rightarrow> string list \<Rightarrow> bool" where
  "tx_view E cfg block restTxMap txIndex txRaw hash data signer addrs msgTypes typeTags \<longleftrightarrow>
     (\<exists>txByte raw restTx res authInfo.
       DecodeString txRaw = Inr txByte \<and> decode_raw E txByte = Inr raw \<and>
       rest_tx_for restTxMap raw (tx_hash E txByte) = Inr restTx \<and>
       tx_result block txIndex = Inr res \<and>
       decode_auth E (raw_AuthInfoBytes raw) = Inr authInfo \<and>
       hash = tmhash_Sum E txByte \<and>
       tx_json E block (tx_hash E txByte) restTx res = Inr data \<and>
       signer_of E (tx_hash E txByte) authInfo = Inr signer \<and>
       finds E (tr_Events res) addrs \<and>
       grepMsgTypesFromRestTx E restTx = Inr msgTypes \<and>
       typeTags = grepTypeTagsFromEvents E cfg (tr_Events res))"

text \<open>The rows say that, with the ids of the dictionaries of \<open>w\<close>.\<close>

definition entry_rows :: "env \<Rightarrow> world \<Rightarrow> int \<Rightarrow> int \<Rightarrow> string \<Rightarrow> string list \<Rightarrow> string list \<Rightarrow> string list \<Rightarrow> tx_entry \<Rightarrow> bool" where
  "entry_rows E w height seq signer addrs msgTypes typeTags = (\<lambda>(ctx, accs, msgs, tags).
       tx_Height ctx = height \<and> tx_Sequence ctx = seq \<and>
       has_account E w signer (tx_SignerId ctx) \<and>
       distinct (map ta_AccountId accs) \<and> distinct (map tm_MsgTypeId msgs) \<and> distinct (map tt_TypeTagId tags) \<and>
       ids_for (insert signer (set addrs)) (has_account E w) (ta_AccountId ` set accs) \<and>
       ids_for (set msgTypes) (\<lambda>m i. (i, m) \<in> set (t_msg_type_dict (w_db w))) (tm_MsgTypeId ` set msgs) \<and>
       ids_for (set typeTags) (\<lambda>m i. (i, m) \<in> set (t_type_tag_dict (w_db w))) (tt_TypeTagId ` set tags) \<and>
       (\<forall>e \<in> set accs. ta_Sequence e = seq \<and> (ta_Signer e \<longleftrightarrow> ta_AccountId e = tx_SignerId ctx)) \<and>
       (\<forall>e \<in> set msgs. tm_Sequence e = seq) \<and> (\<forall>e \<in> set tags. tt_Sequence e = seq))"

definition entry_ok :: "env \<Rightarrow> config \<Rightarrow> ScrapedBlock \<Rightarrow> (string \<rightharpoonup> RestTx) \<Rightarrow> world \<Rightarrow> nat \<Rightarrow> string \<Rightarrow> int \<Rightarrow> tx_entry \<Rightarrow> bool" where
  "entry_ok E cfg block restTxMap w txIndex txRaw seq e \<longleftrightarrow> (\<exists>signer addrs msgTypes typeTags.
     tx_view E cfg block restTxMap txIndex txRaw (tx_Hash (fst e)) (tx_Data (fst e)) signer addrs msgTypes typeTags \<and>
     entry_rows E w (sb_Height block) seq signer addrs msgTypes typeTags e)"

lemma entry_rows_mono:
  assumes gr: "grows w w'" and e: "entry_rows E w h s signer addrs ms ts e"
  shows "entry_rows E w' h s signer addrs ms ts e"
proof -
  obtain ctx accs msgs tags where [simp]: "e = (ctx, accs, msgs, tags)" by (cases e)
  have 1: "ids_for A (has_account E w) S \<Longrightarrow> ids_for A (has_account E w') S" for A S
    by (erule ids_for_mono) (rule has_account_mono [OF gr])
  have 2: "ids_for A (\<lambda>m i. (i, m) \<in> set (t_msg_type_dict (w_db w))) S \<Longrightarrow>
      ids_for A (\<lambda>m i. (i, m) \<in> set (t_msg_type_dict (w_db w'))) S" for A S
    by (erule ids_for_mono) (use gr in \<open>auto simp: grows_def\<close>)
  have 3: "ids_for A (\<lambda>m i. (i, m) \<in> set (t_type_tag_dict (w_db w))) S \<Longrightarrow>
      ids_for A (\<lambda>m i. (i, m) \<in> set (t_type_tag_dict (w_db w'))) S" for A S
    by (erule ids_for_mono) (use gr in \<open>auto simp: grows_def\<close>)
  from e show ?thesis
    by (simp add: entry_rows_def 1 2 3 has_account_mono [OF gr])
qed

lemma entry_ok_mono: "grows w w' \<Longrightarrow> entry_ok E cfg block M w i r s e \<Longrightarrow> entry_ok E cfg block M w' i r s e"
  unfolding entry_ok_def using entry_rows_mono by blast

text \<open>The accumulator after the entries \<open>es\<close>.\<close>

definition acc_of :: "int \<Rightarrow> tx_entry list \<Rightarrow> tx_acc" where
  "acc_of s es = \<lparr>acc_Seq = s + int (length es), acc_txs = map fst es, acc_accounts = concat (map (fst \<circ> snd) es),
     acc_msgs = concat (map (fst \<circ> snd \<circ> snd) es), acc_tags = concat (map (snd \<circ> snd \<circ> snd) es)\<rparr>"

lemma grepMsgTypes_distinct: "env_ok E \<Longrightarrow> grepMsgTypesFromRestTx E t = Inr ms \<Longrightarrow> distinct ms"
  by (auto simp: grepMsgTypesFromRestTx_def rbind_eq_Inr distinct_map_order)

lemma grepTypeTags_distinct: "env_ok E \<Longrightarrow> distinct (grepTypeTagsFromEvents E cfg events)"
  by (simp add: grepTypeTagsFromEvents_def distinct_map_order)

lemma signer_canonical:
  assumes "env_ok E" "codec_ok E" "signer_of E h a = Inr s"
  shows "canonical E s"
  using assms unfolding signer_of_def canonical_def codec_ok_def
  by (auto simp: rbind_eq_Inr split: list.splits option.splits)

text \<open>The row and the edges the code appends, from the ids it looked up.\<close>

definition new_entry :: "int \<Rightarrow> int \<Rightarrow> byte list \<Rightarrow> string \<Rightarrow> int \<Rightarrow> int list \<Rightarrow> int list \<Rightarrow> int list \<Rightarrow> tx_entry" where
  "new_entry height seq hash data signerId as ms ts =
     (\<lparr>tx_Hash = hash, tx_Height = height, tx_Sequence = seq, tx_SignerId = signerId, tx_Data = data\<rparr>,
      map (\<lambda>i. \<lparr>ta_AccountId = i, ta_Sequence = seq, ta_Signer = (i = signerId)\<rparr>) (dedup as),
      map (\<lambda>i. \<lparr>tm_MsgTypeId = i, tm_Sequence = seq\<rparr>) (dedup ms),
      map (\<lambda>i. \<lparr>tt_TypeTagId = i, tt_Sequence = seq\<rparr>) (dedup ts))"

lemma new_entry_rows:
  assumes "has_account E w signer signerId"
    and "ids_for (insert signer (set addrs)) (has_account E w) (set as)"
    and "ids_for (set msgTypes) (\<lambda>m i. (i, m) \<in> set (t_msg_type_dict (w_db w))) (set ms)"
    and "ids_for (set typeTags) (\<lambda>m i. (i, m) \<in> set (t_type_tag_dict (w_db w))) (set ts)"
  shows "entry_rows E w height seq signer addrs msgTypes typeTags (new_entry height seq hash data signerId as ms ts)"
  using assms by (auto simp: entry_rows_def new_entry_def comp_def image_image)

lemma collect_one_runs:
  assumes "collect_one E cfg block M (i, r) acc w = (Inr acc', w')"
  obtains txByte raw restTx msgTypes mm w1 res tm w2 addrs w3 authInfo signer am txJSON hashBytes where
    "DecodeString r = Inr txByte" "decode_raw E txByte = Inr raw"
    "rest_tx_for M raw (tx_hash E txByte) = Inr restTx"
    "grepMsgTypesFromRestTx E restTx = Inr msgTypes"
    "GetOrCreateMsgTypeIds E msgTypes True w = (Inr mm, w1)"
    "tx_result block i = Inr res"
    "GetOrCreateTypeTagIds E (grepTypeTagsFromEvents E cfg (tr_Events res)) True w1 = (Inr tm, w2)"
    "GrepAddressesFromTx E (tr_Events res) w2 = (Inr addrs, w3)"
    "decode_auth E (raw_AuthInfoBytes raw) = Inr authInfo" "signer_of E (tx_hash E txByte) authInfo = Inr signer"
    "GetOrCreateAccountIds E (map_order E (dedup (addrs @ [signer]))) True w3 = (Inr am, w')"
    "tx_json E block (tx_hash E txByte) restTx res = Inr txJSON" "HexToBytes (tx_hash E txByte) = Inr hashBytes"
    "\<And>s es signerId. acc = acc_of s es \<Longrightarrow> am signer = Some signerId \<Longrightarrow>
       acc' = acc_of s (es @ [new_entry (sb_Height block) (s + int (length es) + 1) hashBytes txJSON signerId
         (ids_of am (map_order E (dedup (addrs @ [signer])))) (ids_of mm msgTypes)
         (ids_of tm (grepTypeTagsFromEvents E cfg (tr_Events res)))])"
proof -
  note run = assms [unfolded collect_one_def Let_def prod.case bnd_eq_Inr lift_run ret_run prod.inject sum.inject]
  show thesis
    using run
    apply (elim exE conjE)
    apply hypsubst
    apply (rule that)
                 apply (assumption | simp add: acc_of_def new_entry_def)+
    done
qed

lemma collect_one_step:
  assumes E: "env_ok E" "codec_ok E" and inv: "coll_inv E d w"
    and run: "collect_one E cfg block M (i, r) (acc_of s es) w = (Inr acc, w')"
  shows "coll_inv E d w' \<and> grows w w' \<and>
    (\<exists>e. acc = acc_of s (es @ [e]) \<and> entry_ok E cfg block M w' i r (s + int (length es) + 1) e)"
proof -
  obtain txByte raw restTx msgTypes mm w1 res tm w2 addrs w3 authInfo signer am txJSON hashBytes where
    dec: "DecodeString r = Inr txByte" "decode_raw E txByte = Inr raw"
      "rest_tx_for M raw (tx_hash E txByte) = Inr restTx" "grepMsgTypesFromRestTx E restTx = Inr msgTypes"
    and mm: "GetOrCreateMsgTypeIds E msgTypes True w = (Inr mm, w1)"
    and res: "tx_result block i = Inr res"
    and tm: "GetOrCreateTypeTagIds E (grepTypeTagsFromEvents E cfg (tr_Events res)) True w1 = (Inr tm, w2)"
    and ad: "GrepAddressesFromTx E (tr_Events res) w2 = (Inr addrs, w3)"
    and si: "decode_auth E (raw_AuthInfoBytes raw) = Inr authInfo" "signer_of E (tx_hash E txByte) authInfo = Inr signer"
    and am: "GetOrCreateAccountIds E (map_order E (dedup (addrs @ [signer]))) True w3 = (Inr am, w')"
    and js: "tx_json E block (tx_hash E txByte) restTx res = Inr txJSON" "HexToBytes (tx_hash E txByte) = Inr hashBytes"
    and acc: "\<And>s' es' signerId. acc_of s es = acc_of s' es' \<Longrightarrow> am signer = Some signerId \<Longrightarrow>
       acc = acc_of s' (es' @ [new_entry (sb_Height block) (s' + int (length es') + 1) hashBytes txJSON signerId
         (ids_of am (map_order E (dedup (addrs @ [signer])))) (ids_of mm msgTypes)
         (ids_of tm (grepTypeTagsFromEvents E cfg (tr_Events res)))])"
    by (rule collect_one_runs [OF run]) (rule that)
  note s1 = step_msg_types [OF E(1) inv grepMsgTypes_distinct [OF E(1) dec(4)] mm]
  note s2 = step_type_tags [OF E(1) s1(1) grepTypeTags_distinct [OF E(1)] tm]
  note s3 = step_grep [OF E(1) s2(1) ad]
  have uniq: "set (map_order E (dedup (addrs @ [signer]))) = insert signer (set addrs)"
    using set_map_order [OF E(1) distinct_dedup] by simp
  have can: "\<forall>a \<in> set (map_order E (dedup (addrs @ [signer]))). canonical E a"
    unfolding uniq using s3(3) signer_canonical [OF E si(2)] by blast
  note s4 = step_accounts [OF E(1) s3(1) can am]
  have gr: "grows w w'" "grows w1 w'" "grows w2 w'"
    using s1(2) s2(2) s3(2) s4(2) grows_trans by blast+
  obtain signerId where sid: "am signer = Some signerId" "has_account E w' signer signerId"
    using s4(4) unfolding uniq by blast
  let ?e = "new_entry (sb_Height block) (s + int (length es) + 1) hashBytes txJSON signerId
         (ids_of am (map_order E (dedup (addrs @ [signer])))) (ids_of mm msgTypes)
         (ids_of tm (grepTypeTagsFromEvents E cfg (tr_Events res)))"
  have hash: "hashBytes = tmhash_Sum E txByte" using js(2) by (simp add: tx_hash_def)
  have "ids_for (insert signer (set addrs)) (has_account E w') (set (ids_of am (map_order E (dedup (addrs @ [signer])))))"
    using ids_for_map [OF s4(4)] unfolding uniq .
  moreover have "ids_for (set msgTypes) (\<lambda>m i. (i, m) \<in> set (t_msg_type_dict (w_db w'))) (set (ids_of mm msgTypes))"
    by (rule ids_for_mono [OF ids_for_map [OF s1(4)]]) (use gr(2) in \<open>auto simp: grows_def\<close>)
  moreover have "ids_for (set (grepTypeTagsFromEvents E cfg (tr_Events res)))
      (\<lambda>m i. (i, m) \<in> set (t_type_tag_dict (w_db w'))) (set (ids_of tm (grepTypeTagsFromEvents E cfg (tr_Events res))))"
    by (rule ids_for_mono [OF ids_for_map [OF s2(4)]]) (use gr(3) in \<open>auto simp: grows_def\<close>)
  ultimately have rows: "entry_rows E w' (sb_Height block) (s + int (length es) + 1) signer addrs msgTypes
      (grepTypeTagsFromEvents E cfg (tr_Events res)) ?e"
    by (rule new_entry_rows [OF sid(2)])
  have "tx_view E cfg block M i r (tmhash_Sum E txByte) txJSON signer addrs msgTypes
      (grepTypeTagsFromEvents E cfg (tr_Events res))"
    unfolding tx_view_def finds_def using dec res si js(1) ad by blast
  with rows have "entry_ok E cfg block M w' i r (s + int (length es) + 1) ?e"
    unfolding entry_ok_def hash by (intro exI conjI) (simp_all add: new_entry_def)
  with acc [OF refl sid(1)] s4(1) gr(1) show ?thesis by blast
qed

end
