(* ===== verification/Tx_Collect_Proofs.thy ===== *)
theory Tx_Collect_Proofs
  imports Tx_Spec
begin

text \<open>
  From the single transaction to the block: the loops of \<open>collect\<close> and \<open>collectEvm\<close>, the
  batched inserts behind them, and the contract of \<open>collect_tx\<close>.
\<close>

section \<open>The loop over the transactions\<close>

lemma collect_loop:
  assumes E: "env_ok E" "codec_ok E" and inv: "coll_inv E d w"
    and run: "foreach (collect_one E cfg block M) (enumerate 0 raws) (acc_of s []) w = (Inr acc, w')"
  shows "coll_inv E d w' \<and> grows w w' \<and>
    (\<exists>es. acc = acc_of s es \<and> length es = length raws \<and>
       (\<forall>i < length raws. entry_ok E cfg block M w' i (raws ! i) (s + int i + 1) (es ! i)))"
proof -
  let ?I = "\<lambda>ys a u. coll_inv E d u \<and> grows w u \<and> (\<exists>es. a = acc_of s es \<and> length es = length ys \<and>
       (\<forall>i < length ys. entry_ok E cfg block M u i (raws ! i) (s + int i + 1) (es ! i)))"
  have "?I (enumerate 0 raws) acc w'"
  proof (rule foreach_Inr [OF run])
    show "?I [] (acc_of s []) w" using inv by simp
  next
    fix ys x zs c u a v
    assume xs: "enumerate 0 raws = ys @ x # zs" and I: "?I ys c u"
      and run: "collect_one E cfg block M x c u = (Inr a, v)"
    have x: "x = (length ys, raws ! length ys)"
    proof -
      have len: "length ys < length raws" using arg_cong [OF xs, of length] by simp
      have "x = enumerate 0 raws ! length ys" unfolding xs by simp
      then show ?thesis using len by (simp add: nth_enumerate_eq)
    qed
    from I obtain es where es: "c = acc_of s es" "length es = length ys"
      "\<forall>i < length ys. entry_ok E cfg block M u i (raws ! i) (s + int i + 1) (es ! i)" by blast
    from I have u: "coll_inv E d u" "grows w u" by blast+
    from collect_one_step [OF E u(1) run [unfolded x es(1)]] obtain e where
      e: "coll_inv E d v" "grows u v" "a = acc_of s (es @ [e])"
        "entry_ok E cfg block M v (length ys) (raws ! length ys) (s + int (length ys) + 1) e"
      using es(2) by auto
    have "entry_ok E cfg block M v i (raws ! i) (s + int i + 1) ((es @ [e]) ! i)" if "i < length (ys @ [x])" for i
    proof (cases "i < length ys")
      case True
      with es e(2) show ?thesis by (auto simp: nth_append intro: entry_ok_mono)
    next
      case False
      with that have "i = length ys" by simp
      with e(4) es(2) show ?thesis by (simp add: nth_append)
    qed
    with e es(2) u(2) grows_trans show "?I (ys @ [x]) a v" by (intro conjI exI [of _ "es @ [e]"]) auto
  qed
  then show ?thesis by simp
qed


section \<open>The inserts\<close>

lemma additive_ins [simp]: "additive ins_tx" "additive ins_ta" "additive ins_tm" "additive ins_tt"
    "additive ins_fa" "additive ins_etx" "additive ins_eta"
  by (simp_all add: additive_def ins_tx_def ins_ta_def ins_tm_def ins_tt_def ins_fa_def ins_etx_def ins_eta_def
      insert_rows_append)

lemma hoare_insert_all:
  assumes "valid_config cfg"
  shows "hoare (\<lambda>w. w_db w = d) (insert_all cfg name acc)
    (\<lambda>_ w. w_db w = put_seq \<lparr>si_Name = name, si_Sequence = acc_Seq acc\<rparr>
       (ins_tt (acc_tags acc) (ins_tm (acc_msgs acc) (ins_ta (acc_accounts acc) (ins_tx (acc_txs acc) d)))))
    (\<lambda>_ _. True)"
  unfolding insert_all_def
  by (rule hoare_bnd [OF hoare_batches [OF assms]], simp)+ (rule hoare_weaken [OF hoare_exec], simp_all)

lemma hoare_insert_evm:
  assumes "valid_config cfg"
  shows "hoare (\<lambda>w. w_db w = d) (insert_evm cfg acc)
    (\<lambda>_ w. w_db w = put_seq \<lparr>si_Name = ''evm_tx'', si_Sequence = eacc_Seq acc\<rparr>
       (ins_eta (eacc_accounts acc) (ins_etx (eacc_txs acc) d)))
    (\<lambda>_ _. True)"
  unfolding insert_evm_def
  by (rule hoare_bnd [OF hoare_batches [OF assms]], simp)+ (rule hoare_weaken [OF hoare_exec], simp_all)

lemma keeps_only_db_batches [keeps_intros]: "keeps (only_db w) (CreateInBatches cfg ins rows)"
  by (rule keeps_batches) simp_all

lemma keeps_only_db_inserts: "keeps (only_db w) (insert_all cfg name acc)" "keeps (only_db w) (insert_evm cfg eacc)"
  unfolding insert_all_def insert_evm_def by (intro keeps_intros)+

text \<open>Rows of other tables do not disturb the dictionaries.\<close>

definition same_dicts :: "db \<Rightarrow> db \<Rightarrow> bool" where
  "same_dicts d d' \<longleftrightarrow> t_account_dict d' = t_account_dict d \<and> t_msg_type_dict d' = t_msg_type_dict d \<and>
     t_type_tag_dict d' = t_type_tag_dict d"

lemma dict_invs_only_db: "only_db w w' \<Longrightarrow> same_dicts (w_db w) (w_db w') \<Longrightarrow> dict_invs E w \<Longrightarrow> dict_invs E w'"
proof -
  assume o: "only_db w w'" and s: "same_dicts (w_db w) (w_db w')" and i: "dict_invs E w"
  have "accountCache w' = accountCache w" "msgTypeCache w' = msgTypeCache w" "typeTagCache w' = typeTagCache w"
    "serial_account w' = serial_account w" "serial_msg_type w' = serial_msg_type w" "serial_type_tag w' = serial_type_tag w"
    by (simp_all add: only_dbD [OF o])
  with s i show ?thesis
    by (simp add: dict_invs_def dict_inv_def same_dicts_def account_dict_def msg_type_dict_def type_tag_dict_def)
qed

lemma grows_same_dicts: "same_dicts (w_db w) (w_db w') \<Longrightarrow> grows w w'"
  by (simp add: same_dicts_def grows_def)


section \<open>EVM receipts\<close>

type_synonym evm_entry = "CollectedEvmTx \<times> CollectedEvmTxAccount list"

definition evm_entry_ok :: "env \<Rightarrow> ScrapedBlock \<Rightarrow> world \<Rightarrow> EvmTx \<Rightarrow> int \<Rightarrow> evm_entry \<Rightarrow> bool" where
  "evm_entry_ok E block w evmTx seq = (\<lambda>(ctx, accs). \<exists>addrs signerBytes.
     grepAddressesFromEvmTx E evmTx = Inr addrs \<and>
     AccAddressFromString (from_bech32 E) (et_From evmTx) = Inr signerBytes \<and>
     HexToBytes (et_TxHash evmTx) = Inr (etx_Hash ctx) \<and>
     etx_Height ctx = sb_Height block \<and> etx_Sequence ctx = seq \<and>
     etx_Data ctx = sanitizeJSONBytes (print_json (json_EvmTx evmTx)) \<and>
     has_account E w (to_bech32 E signerBytes) (etx_SignerId ctx) \<and>
     distinct (map eta_AccountId accs) \<and>
     ids_for (insert (to_bech32 E signerBytes) (set addrs)) (has_account E w) (eta_AccountId ` set accs) \<and>
     (\<forall>e \<in> set accs. eta_Sequence e = seq \<and> (eta_Signer e \<longleftrightarrow> eta_AccountId e = etx_SignerId ctx)))"

definition evm_acc_of :: "int \<Rightarrow> evm_entry list \<Rightarrow> evm_acc" where
  "evm_acc_of s es = \<lparr>eacc_Seq = s + int (length es), eacc_txs = map fst es, eacc_accounts = concat (map snd es)\<rparr>"

lemma evm_entry_ok_mono: "grows w w' \<Longrightarrow> evm_entry_ok E block w t s e \<Longrightarrow> evm_entry_ok E block w' t s e"
proof -
  assume gr: "grows w w'" and e: "evm_entry_ok E block w t s e"
  obtain ctx accs where [simp]: "e = (ctx, accs)" by (cases e)
  have 1: "ids_for A (has_account E w) S \<Longrightarrow> ids_for A (has_account E w') S" for A S
    by (erule ids_for_mono) (rule has_account_mono [OF gr])
  from e obtain addrs b where "grepAddressesFromEvmTx E t = Inr addrs" "AccAddressFromString (from_bech32 E) (et_From t) = Inr b"
    and r: "HexToBytes (et_TxHash t) = Inr (etx_Hash ctx)" "etx_Height ctx = sb_Height block" "etx_Sequence ctx = s"
      "etx_Data ctx = sanitizeJSONBytes (print_json (json_EvmTx t))" "distinct (map eta_AccountId accs)"
      "\<forall>e \<in> set accs. eta_Sequence e = s \<and> (eta_Signer e \<longleftrightarrow> eta_AccountId e = etx_SignerId ctx)"
    and h: "has_account E w (to_bech32 E b) (etx_SignerId ctx)"
      "ids_for (insert (to_bech32 E b) (set addrs)) (has_account E w) (eta_AccountId ` set accs)"
    unfolding evm_entry_ok_def by auto
  then show ?thesis
    unfolding evm_entry_ok_def using 1 [OF h(2)] has_account_mono [OF gr h(1)] r by auto
qed

lemma collect_evm_one_step:
  assumes E: "env_ok E" and inv: "coll_inv E d w"
    and run: "collect_evm_one E block t (evm_acc_of s es) w = (Inr acc, w')"
  shows "coll_inv E d w' \<and> grows w w' \<and>
    (\<exists>e. acc = evm_acc_of s (es @ [e]) \<and> evm_entry_ok E block w' t (s + int (length es) + 1) e)"
proof -
  from run obtain addrs b am hashBytes where
    ad: "grepAddressesFromEvmTx E t = Inr addrs"
    and b: "AccAddressFromString (from_bech32 E) (et_From t) = Inr b"
    and am: "GetOrCreateAccountIds E (map_order E (dedup (addrs @ [to_bech32 E b]))) True w = (Inr am, w')"
    and hash: "HexToBytes (et_TxHash t) = Inr hashBytes"
    and acc: "acc = (let seq = eacc_Seq (evm_acc_of s es) + 1; sid = (case am (to_bech32 E b) of Some i \<Rightarrow> i | None \<Rightarrow> 0) in
      \<lparr>eacc_Seq = seq,
       eacc_txs = eacc_txs (evm_acc_of s es) @ [\<lparr>etx_Hash = hashBytes, etx_Height = sb_Height block, etx_Sequence = seq,
         etx_SignerId = sid, etx_Data = sanitizeJSONBytes (print_json (json_EvmTx t))\<rparr>],
       eacc_accounts = eacc_accounts (evm_acc_of s es) @ map (\<lambda>i. \<lparr>eta_AccountId = i, eta_Sequence = seq, eta_Signer = (i = sid)\<rparr>)
         (dedup (ids_of am (map_order E (dedup (addrs @ [to_bech32 E b])))))\<rparr>)"
    unfolding collect_evm_one_def Let_def by (auto simp: bnd_eq_Inr rbind_eq_Inr)
  have uniq: "set (map_order E (dedup (addrs @ [to_bech32 E b]))) = insert (to_bech32 E b) (set addrs)"
    using set_map_order [OF E distinct_dedup] by simp
  have can: "\<forall>a \<in> set (map_order E (dedup (addrs @ [to_bech32 E b]))). canonical E a"
    unfolding uniq using grepAddressesFromEvmTx_canonical [OF env_okD(1) [OF E] ad]
      canonical_acc [OF env_okD(1) [OF E] b] by blast
  note s4 = step_accounts [OF E inv can am]
  obtain sid where sid: "am (to_bech32 E b) = Some sid" "has_account E w' (to_bech32 E b) sid"
    using s4(4) unfolding uniq by blast
  let ?seq = "s + int (length es) + 1"
  let ?e = "(\<lparr>etx_Hash = hashBytes, etx_Height = sb_Height block, etx_Sequence = ?seq, etx_SignerId = sid,
         etx_Data = sanitizeJSONBytes (print_json (json_EvmTx t))\<rparr>,
       map (\<lambda>i. \<lparr>eta_AccountId = i, eta_Sequence = ?seq, eta_Signer = (i = sid)\<rparr>)
         (dedup (ids_of am (map_order E (dedup (addrs @ [to_bech32 E b]))))))"
  have "acc = evm_acc_of s (es @ [?e])" using sid(1) by (simp add: acc evm_acc_of_def Let_def)
  moreover have "ids_for (insert (to_bech32 E b) (set addrs)) (has_account E w')
      (set (ids_of am (map_order E (dedup (addrs @ [to_bech32 E b])))))"
    using ids_for_map [OF s4(4)] unfolding uniq .
  then have "evm_entry_ok E block w' t ?seq ?e"
    using ad b hash sid(2) by (simp add: evm_entry_ok_def comp_def image_image)
  ultimately show ?thesis using s4(1,2) by blast
qed

lemma collect_evm_loop:
  assumes E: "env_ok E" and inv: "coll_inv E d w"
    and run: "foreach (collect_evm_one E block) ts (evm_acc_of s []) w = (Inr acc, w')"
  shows "coll_inv E d w' \<and> grows w w' \<and>
    (\<exists>es. acc = evm_acc_of s es \<and> length es = length ts \<and>
       (\<forall>i < length ts. evm_entry_ok E block w' (ts ! i) (s + int i + 1) (es ! i)))"
proof -
  let ?I = "\<lambda>ys a u. coll_inv E d u \<and> grows w u \<and> (\<exists>es. a = evm_acc_of s es \<and> length es = length ys \<and>
       (\<forall>i < length ys. evm_entry_ok E block u (ts ! i) (s + int i + 1) (es ! i)))"
  show ?thesis
  proof (rule foreach_Inr [OF run, of ?I])
    show "?I [] (evm_acc_of s []) w" using inv by simp
  next
    fix ys x zs c u a v
    assume xs: "ts = ys @ x # zs" and I: "?I ys c u" and run: "collect_evm_one E block x c u = (Inr a, v)"
    from I obtain es where es: "c = evm_acc_of s es" "length es = length ys"
      "\<forall>i < length ys. evm_entry_ok E block u (ts ! i) (s + int i + 1) (es ! i)" by blast
    from I have u: "coll_inv E d u" "grows w u" by blast+
    from collect_evm_one_step [OF E u(1) run [unfolded es(1)]] obtain e where
      e: "coll_inv E d v" "grows u v" "a = evm_acc_of s (es @ [e])"
        "evm_entry_ok E block v (ts ! length ys) (s + int (length ys) + 1) e"
      using es(2) xs by auto
    have "evm_entry_ok E block v (ts ! i) (s + int i + 1) ((es @ [e]) ! i)" if "i < length (ys @ [x])" for i
    proof (cases "i < length ys")
      case True
      with es e(2) show ?thesis by (auto simp: nth_append intro: evm_entry_ok_mono)
    next
      case False
      with that have "i = length ys" by simp
      with e(4) es(2) show ?thesis by (simp add: nth_append)
    qed
    with e es(2) u(2) grows_trans show "?I (ys @ [x]) a v" by (intro conjI exI [of _ "es @ [e]"]) auto
  qed
qed

lemma without_dicts_ins:
  "without_dicts (put_seq s (ins_eta as (ins_etx ts d))) = put_seq s (ins_eta as (ins_etx ts (without_dicts d)))"
  by (simp add: without_dicts_def put_seq_def ins_eta_def ins_etx_def)

text \<open>What \<open>collectEvm\<close> adds to a database.\<close>

lemma collectEvm_spec:
  assumes E: "env_ok E" "valid_config cfg" and inv: "dict_invs E w"
    and run: "collectEvm E cfg block ts w = (Inr (), w')"
  shows "dict_invs E w'" and "grows w w'"
    and "cfg_VmType cfg \<noteq> EVM \<Longrightarrow> w' = w"
    and "cfg_VmType cfg = EVM \<Longrightarrow>
      (\<exists>es. length es = length ts \<and>
        (\<forall>i < length ts. evm_entry_ok E block w' (ts ! i) (seq_value (w_db w) ''evm_tx'' + int i + 1) (es ! i)) \<and>
        same_data (put_seq \<lparr>si_Name = ''evm_tx'', si_Sequence = seq_value (w_db w) ''evm_tx'' + int (length ts)\<rparr>
          (ins_eta (concat (map snd es)) (ins_etx (map fst es) (w_db w)))) (w_db w'))"
proof -
  let ?s = "seq_value (w_db w) ''evm_tx''"
  have A: "dict_invs E w' \<and> grows w w' \<and>
      (\<exists>es. length es = length ts \<and>
        (\<forall>i < length ts. evm_entry_ok E block w' (ts ! i) (?s + int i + 1) (es ! i)) \<and>
        same_data (put_seq \<lparr>si_Name = ''evm_tx'', si_Sequence = ?s + int (length ts)\<rparr>
          (ins_eta (concat (map snd es)) (ins_etx (map fst es) (w_db w)))) (w_db w'))" if vm: "cfg_VmType cfg = EVM"
  proof -
    from run vm obtain q w1 acc w2 where q: "GetSeqInfo ''evm_tx'' w = (Inr q, w1)"
      and lp: "foreach (collect_evm_one E block) ts \<lparr>eacc_Seq = si_Sequence q, eacc_txs = [], eacc_accounts = []\<rparr> w1 = (Inr acc, w2)"
      and ins: "insert_evm cfg acc w2 = (Inr (), w')"
      by (auto simp: collectEvm_def bnd_eq_Inr)
    have q1: "w_db w1 = w_db w" "si_Sequence q = ?s"
      using hoareD [OF hoare_GetSeqInfo [of "w_db w"] refl q] by simp_all
    have "coll_inv E (w_db w) w1"
    proof -
      have "coll_inv E (w_db w) w" using inv by (simp add: coll_inv_def)
      then show ?thesis by (rule keepsD [OF keeps_GetSeqInfo [OF coll_inv_fault_free] _ q])
    qed
    from collect_evm_loop [OF E(1) this, of block ts ?s acc w2] lp q1(2) obtain es where
      l: "coll_inv E (w_db w) w2" "grows w1 w2" "acc = evm_acc_of ?s es" "length es = length ts"
        "\<forall>i < length ts. evm_entry_ok E block w2 (ts ! i) (?s + int i + 1) (es ! i)"
      by (auto simp: evm_acc_of_def)
    have db: "w_db w' = put_seq \<lparr>si_Name = ''evm_tx'', si_Sequence = ?s + int (length ts)\<rparr>
          (ins_eta (concat (map snd es)) (ins_etx (map fst es) (w_db w2)))"
      using hoareD [OF hoare_insert_evm [OF E(2), of "w_db w2"] refl ins] l(3,4) by (simp add: evm_acc_of_def)
    have sd: "same_dicts (w_db w2) (w_db w')"
      by (simp add: db same_dicts_def put_seq_def ins_eta_def ins_etx_def)
    have "only_db w2 w'" by (rule keepsD [OF keeps_only_db_inserts(2) only_db_refl ins])
    moreover have "dict_invs E w2" using l(1) by (simp add: coll_inv_def)
    ultimately have "dict_invs E w'" by (rule dict_invs_only_db [OF _ sd])
    moreover have "grows w w1" using q1(1) by (simp add: grows_def)
    then have "grows w w'" by (rule grows_trans [OF grows_trans [OF _ l(2)] grows_same_dicts [OF sd]])
    moreover have "same_data (put_seq \<lparr>si_Name = ''evm_tx'', si_Sequence = ?s + int (length ts)\<rparr>
          (ins_eta (concat (map snd es)) (ins_etx (map fst es) (w_db w)))) (w_db w')"
    proof -
      have sd: "same_data (w_db w) (w_db w2)" using l(1) by (simp add: coll_inv_def)
      show ?thesis using sd unfolding db same_data_def without_dicts_ins by (rule arg_cong)
    qed
    ultimately show ?thesis
      using l(4,5) evm_entry_ok_mono [OF grows_same_dicts [OF sd]] by blast
  qed
  show B: "w' = w" if "cfg_VmType cfg \<noteq> EVM"
    using run that by (simp add: collectEvm_def)
  show "\<exists>es. length es = length ts \<and>
        (\<forall>i < length ts. evm_entry_ok E block w' (ts ! i) (?s + int i + 1) (es ! i)) \<and>
        same_data (put_seq \<lparr>si_Name = ''evm_tx'', si_Sequence = ?s + int (length ts)\<rparr>
          (ins_eta (concat (map snd es)) (ins_etx (map fst es) (w_db w)))) (w_db w')" if "cfg_VmType cfg = EVM"
    using A [OF that] by (elim conjE)
  show "dict_invs E w'"
  proof (cases "cfg_VmType cfg = EVM")
    case True
    show ?thesis using A [OF True] by (elim conjE)
  next
    case False
    show ?thesis unfolding B [OF False] by (rule inv)
  qed
  show "grows w w'"
  proof (cases "cfg_VmType cfg = EVM")
    case True
    show ?thesis using A [OF True] by (elim conjE)
  next
    case False
    show ?thesis unfolding B [OF False] by simp
  qed
qed


section \<open>The whole block\<close>

definition fa_rows :: "env \<Rightarrow> config \<Rightarrow> ScrapedBlock \<Rightarrow> err + CollectedFAStore list" where
  "fa_rows E cfg block = (if cfg_VmType cfg \<noteq> MoveVM then Inr []
     else rbind (ExtractEvents E block ''move'') (\<lambda>events. rfold fa_store_of events []))"

lemma collectFA_spec:
  assumes "valid_config cfg" "collectFA E cfg block w = (Inr (), w')"
  shows "\<exists>stores. fa_rows E cfg block = Inr stores \<and> w_db w' = ins_fa stores (w_db w)" and "only_db w w'"
proof -
  show "\<exists>stores. fa_rows E cfg block = Inr stores \<and> w_db w' = ins_fa stores (w_db w)"
  proof (cases "cfg_VmType cfg = MoveVM")
    case False
    with assms(2) show ?thesis by (auto simp: fa_rows_def collectFA_def ins_fa_def)
  next
    case True
    with assms(2) obtain events stores where "ExtractEvents E block ''move'' = Inr events"
      "rfold fa_store_of events [] = Inr stores" "CreateInBatches cfg ins_fa stores w = (Inr (), w')"
      by (auto simp: collectFA_def bnd_eq_Inr)
    with True hoareD [OF hoare_batches [OF assms(1) additive_ins(5)] refl] show ?thesis
      by (auto simp: fa_rows_def)
  qed
  have "keeps (only_db w) (collectFA E cfg block)"
    unfolding collectFA_def by (intro keeps_intros)
  from keepsD [OF this only_db_refl assms(2)] show "only_db w w'" .
qed

lemma ins_sel [simp]:
  "t_tx (ins_tx rs d) = insert_rows tx_key rs (t_tx d)" "t_tx_accounts (ins_tx rs d) = t_tx_accounts d"
  "t_tx_msg_types (ins_tx rs d) = t_tx_msg_types d" "t_tx_type_tags (ins_tx rs d) = t_tx_type_tags d"
  "t_block (ins_tx rs d) = t_block d" "t_fa_store (ins_tx rs d) = t_fa_store d" "t_seq_info (ins_tx rs d) = t_seq_info d"
  "t_tx (ins_ta as d) = t_tx d" "t_tx_accounts (ins_ta as d) = insert_rows ta_key as (t_tx_accounts d)"
  "t_tx_msg_types (ins_ta as d) = t_tx_msg_types d" "t_tx_type_tags (ins_ta as d) = t_tx_type_tags d"
  "t_block (ins_ta as d) = t_block d" "t_fa_store (ins_ta as d) = t_fa_store d" "t_seq_info (ins_ta as d) = t_seq_info d"
  "t_tx (ins_tm ms d) = t_tx d" "t_tx_accounts (ins_tm ms d) = t_tx_accounts d"
  "t_tx_msg_types (ins_tm ms d) = insert_rows tm_key ms (t_tx_msg_types d)" "t_tx_type_tags (ins_tm ms d) = t_tx_type_tags d"
  "t_block (ins_tm ms d) = t_block d" "t_fa_store (ins_tm ms d) = t_fa_store d" "t_seq_info (ins_tm ms d) = t_seq_info d"
  "t_tx (ins_tt ts d) = t_tx d" "t_tx_accounts (ins_tt ts d) = t_tx_accounts d"
  "t_tx_msg_types (ins_tt ts d) = t_tx_msg_types d" "t_tx_type_tags (ins_tt ts d) = insert_rows tt_key ts (t_tx_type_tags d)"
  "t_block (ins_tt ts d) = t_block d" "t_fa_store (ins_tt ts d) = t_fa_store d" "t_seq_info (ins_tt ts d) = t_seq_info d"
  "t_tx (ins_fa fs d) = t_tx d" "t_tx_accounts (ins_fa fs d) = t_tx_accounts d"
  "t_tx_msg_types (ins_fa fs d) = t_tx_msg_types d" "t_tx_type_tags (ins_fa fs d) = t_tx_type_tags d"
  "t_block (ins_fa fs d) = t_block d" "t_fa_store (ins_fa fs d) = insert_rows fa_StoreAddr fs (t_fa_store d)"
  "t_seq_info (ins_fa fs d) = t_seq_info d"
  "t_tx (ins_etx es d) = t_tx d" "t_tx_accounts (ins_etx es d) = t_tx_accounts d"
  "t_tx_msg_types (ins_etx es d) = t_tx_msg_types d" "t_tx_type_tags (ins_etx es d) = t_tx_type_tags d"
  "t_block (ins_etx es d) = t_block d" "t_fa_store (ins_etx es d) = t_fa_store d" "t_seq_info (ins_etx es d) = t_seq_info d"
  "t_tx (ins_eta xs d) = t_tx d" "t_tx_accounts (ins_eta xs d) = t_tx_accounts d"
  "t_tx_msg_types (ins_eta xs d) = t_tx_msg_types d" "t_tx_type_tags (ins_eta xs d) = t_tx_type_tags d"
  "t_block (ins_eta xs d) = t_block d" "t_fa_store (ins_eta xs d) = t_fa_store d" "t_seq_info (ins_eta xs d) = t_seq_info d"
  by (simp_all add: ins_tx_def ins_ta_def ins_tm_def ins_tt_def ins_fa_def ins_etx_def ins_eta_def)

lemma seq_value_cong: "t_seq_info d = t_seq_info d' \<Longrightarrow> seq_value d n = seq_value d' n"
  by (simp add: seq_value_def)

lemma seq_value_ins [simp]:
  "seq_value (ins_tx rs d) n = seq_value d n" "seq_value (ins_ta as d) n = seq_value d n"
  "seq_value (ins_tm ms d) n = seq_value d n" "seq_value (ins_tt ts d) n = seq_value d n"
  "seq_value (ins_fa fs d) n = seq_value d n" "seq_value (ins_etx es d) n = seq_value d n"
  "seq_value (ins_eta xs d) n = seq_value d n"
  by (simp_all add: seq_value_def)

lemma dict_invs_txCache [simp]: "dict_invs E (w\<lparr>txCache := c\<rparr>) = dict_invs E w"
  by (simp add: dict_invs_def dict_inv_def account_dict_def msg_type_dict_def type_tag_dict_def)

text \<open>The rows \<open>collect\<close> puts into the database for the block, given the entries of its transactions.\<close>

definition stored :: "ScrapedBlock \<Rightarrow> tx_entry list \<Rightarrow> CollectedFAStore list \<Rightarrow> db \<Rightarrow> db \<Rightarrow> bool" where
  "stored block es stores d d' \<longleftrightarrow>
     t_tx d' = insert_rows tx_key (map fst es) (t_tx d) \<and>
     t_tx_accounts d' = insert_rows ta_key (concat (map (fst \<circ> snd) es)) (t_tx_accounts d) \<and>
     t_tx_msg_types d' = insert_rows tm_key (concat (map (fst \<circ> snd \<circ> snd) es)) (t_tx_msg_types d) \<and>
     t_tx_type_tags d' = insert_rows tt_key (concat (map (snd \<circ> snd \<circ> snd) es)) (t_tx_type_tags d) \<and>
     t_fa_store d' = insert_rows fa_StoreAddr stores (t_fa_store d) \<and>
     t_block d' = t_block d \<and>
     seq_value d' ''tx'' = seq_value d ''tx'' + int (length es)"

lemma collect_tx_spec:
  assumes E: "env_ok E" "codec_ok E" "valid_config cfg" and inv: "dict_invs E w"
    and run: "collect_tx E cfg block w = (Inr (), w')"
  shows "\<exists>cd es stores. txCache w (sb_Height block) = Some cd \<and> fa_rows E cfg block = Inr stores \<and>
      length es = length (sb_Txs block) \<and>
      (\<forall>i < length es. entry_ok E cfg block (rest_tx_map (cd_RestTxs cd)) w' i (sb_Txs block ! i)
         (seq_value (w_db w) ''tx'' + int i + 1) (es ! i)) \<and>
      stored block es stores (w_db w) (w_db w')"
    and "dict_invs E w'" and "grows w w'"
proof -
  let ?s = "seq_value (w_db w) ''tx''"
  from run obtain cd w1 w2 q w3 acc w4 w5 where
    tk: "take_prepared (sb_Height block) w = (Inr cd, w1)"
    and fa: "collectFA E cfg block w1 = (Inr (), w2)"
    and q: "GetSeqInfo ''tx'' w2 = (Inr q, w3)"
    and lp: "foreach (collect_one E cfg block (rest_tx_map (cd_RestTxs cd))) (enumerate 0 (sb_Txs block))
       \<lparr>acc_Seq = si_Sequence q, acc_txs = [], acc_accounts = [], acc_msgs = [], acc_tags = []\<rparr> w3 = (Inr acc, w4)"
    and ins: "insert_all cfg ''tx'' acc w4 = (Inr (), w5)"
    and evm: "collectEvm E cfg block (cd_EvmTxs cd) w5 = (Inr (), w')"
    unfolding collect_tx_def bnd_eq_Inr by auto
  have w1: "w_db w1 = w_db w" "txCache w (sb_Height block) = Some cd" "dict_invs E w1"
    using tk inv by (auto simp: take_prepared_def Let_def split: option.splits)
  from collectFA_spec [OF E(3) fa] obtain stores where
    st: "fa_rows E cfg block = Inr stores" "w_db w2 = ins_fa stores (w_db w)" and o2: "only_db w1 w2"
    using w1(1) by auto
  have sd2: "same_dicts (w_db w1) (w_db w2)" by (simp add: st(2) w1(1) same_dicts_def ins_fa_def)
  have inv2: "coll_inv E (w_db w2) w2"
    using dict_invs_only_db [OF o2 sd2 w1(3)] by (simp add: coll_inv_def)
  have q3: "w_db w3 = w_db w2" "si_Sequence q = ?s"
    using hoareD [OF hoare_GetSeqInfo [of "w_db w2"] refl q] by (simp_all add: st(2))
  have inv3: "coll_inv E (w_db w2) w3" by (rule keepsD [OF keeps_GetSeqInfo [OF coll_inv_fault_free] inv2 q])
  have init: "\<lparr>acc_Seq = si_Sequence q, acc_txs = [], acc_accounts = [], acc_msgs = [], acc_tags = []\<rparr> = acc_of ?s []"
    by (simp add: acc_of_def q3(2))
  from collect_loop [OF E(1,2) inv3 lp [unfolded init]] obtain es where
    l: "coll_inv E (w_db w2) w4" "grows w3 w4" "acc = acc_of ?s es" "length es = length (sb_Txs block)"
      "\<forall>i < length (sb_Txs block). entry_ok E cfg block (rest_tx_map (cd_RestTxs cd)) w4 i (sb_Txs block ! i) (?s + int i + 1) (es ! i)"
    by blast
  have db5: "w_db w5 = put_seq \<lparr>si_Name = ''tx'', si_Sequence = ?s + int (length es)\<rparr>
      (ins_tt (concat (map (snd \<circ> snd \<circ> snd) es)) (ins_tm (concat (map (fst \<circ> snd \<circ> snd) es))
      (ins_ta (concat (map (fst \<circ> snd) es)) (ins_tx (map fst es) (w_db w4)))))"
    using hoareD [OF hoare_insert_all [OF E(3), of "w_db w4"] refl ins] by (simp add: l(3) acc_of_def)
  have sd5: "same_dicts (w_db w4) (w_db w5)"
    by (simp add: db5 same_dicts_def put_seq_def ins_tt_def ins_tm_def ins_ta_def ins_tx_def)
  have o5: "only_db w4 w5" by (rule keepsD [OF keeps_only_db_inserts(1) only_db_refl ins])
  have inv5: "dict_invs E w5"
    by (rule dict_invs_only_db [OF o5 sd5]) (use l(1) in \<open>simp add: coll_inv_def\<close>)
  note ev = collectEvm_spec [OF E(1,3) inv5 evm]
  have gr4: "grows w4 w'" by (rule grows_trans [OF grows_same_dicts [OF sd5] ev(2)])
  show "dict_invs E w'" by (rule ev(1))
  have "grows w w3" unfolding grows_def q3(1) using sd2 w1(1) by (simp add: same_dicts_def)
  then show "grows w w'" by (rule grows_trans [OF grows_trans [OF _ l(2)] gr4])
  have sd4: "same_data (ins_fa stores (w_db w)) (w_db w4)" using l(1) by (simp add: coll_inv_def st(2))
  note d4 = same_dataD [OF sd4, simplified]
  have d5: "stored block es stores (w_db w) (w_db w5)"
    unfolding stored_def using d4 seq_value_cong [OF d4(1)] by (simp add: db5)
  have d': "stored block es stores (w_db w) (w_db w')"
  proof (cases "cfg_VmType cfg = EVM")
    case False
    with ev(3) d5 show ?thesis by simp
  next
    case True
    from ev(4) [OF True] obtain fs where
      "same_data (put_seq \<lparr>si_Name = ''evm_tx'', si_Sequence = seq_value (w_db w5) ''evm_tx'' + int (length (cd_EvmTxs cd))\<rparr>
          (ins_eta (concat (map snd fs)) (ins_etx (map fst fs) (w_db w5)))) (w_db w')" (is "same_data ?d _")
      by blast
    note e = same_dataD [OF this]
    have "seq_value (w_db w') ''tx'' = seq_value ?d ''tx''" using e(1) by (rule seq_value_cong)
    also have "\<dots> = seq_value (w_db w5) ''tx''" by simp
    finally show ?thesis using d5 e unfolding stored_def by simp
  qed
  have "\<forall>i < length es. entry_ok E cfg block (rest_tx_map (cd_RestTxs cd)) w' i (sb_Txs block ! i) (?s + int i + 1) (es ! i)"
    using l(4,5) entry_ok_mono [OF gr4] by simp
  with w1(2) st(1) l(4) d' show "\<exists>cd es stores. txCache w (sb_Height block) = Some cd \<and> fa_rows E cfg block = Inr stores \<and>
      length es = length (sb_Txs block) \<and>
      (\<forall>i < length es. entry_ok E cfg block (rest_tx_map (cd_RestTxs cd)) w' i (sb_Txs block ! i)
         (?s + int i + 1) (es ! i)) \<and>
      stored block es stores (w_db w) (w_db w')"
    by blast
qed

end
