(* ===== verification/Block_Collector.thy ===== *)
theory Block_Collector
  imports Tx_Collect_Proofs
begin

text \<open>
  The block submodule: \<open>src/indexer/collector/block/\<close> (\<open>util.go\<close>, \<open>collect.go\<close>). It turns a
  scraped block into its row: the time since the previous block, the fees and the gas.
\<close>

section \<open>util.go\<close>

definition GetBlock :: "string \<Rightarrow> int \<Rightarrow> (world, CollectedBlock) act" where
  "GetBlock chainId height =
     first_row (\<lambda>d. filter (\<lambda>r. blk_ChainId r = chainId \<and> blk_Height r = height) (t_block d))"

text \<open>\<open>authInfo.Fee.Amount\<close> dereferences the fee, which a transaction may leave unset.\<close>

definition fee_amount :: "AuthInfo \<Rightarrow> err + coin list" where
  "fee_amount a = (case ai_Fee a of None \<Rightarrow> Inl (Panic ''nil pointer dereference'') | Some coins \<Rightarrow> Inr coins)"

definition getTotalFee :: "env \<Rightarrow> string list \<Rightarrow> err + string" where
  "getTotalFee E txs =
     rbind (rfold (\<lambda>txRaw feeCoins.
       rbind (DecodeString txRaw) (\<lambda>txByte.
       rbind (decode_raw E txByte) (\<lambda>raw.
       rbind (decode_auth E (raw_AuthInfoBytes raw)) (\<lambda>authInfo.
       rbind (fee_amount authInfo) (\<lambda>amount.
       Inr (coins_Add E feeCoins amount)))))) txs [])
     (cb_marshal_coins E)"


section \<open>collect.go\<close>

text \<open>\<open>d.Milliseconds()\<close> of a duration in nanoseconds: division towards zero.\<close>

definition Milliseconds :: "int \<Rightarrow> int" where
  "Milliseconds d = (if 0 \<le> d then d div 1000000 else - (- d div 1000000))"

text \<open>The previous block must be stored, unless the indexer started above it.\<close>

definition first_block :: "config \<Rightarrow> int \<Rightarrow> bool" where
  "first_block cfg height \<longleftrightarrow>
     height \<le> 1 \<or> (cfg_StartHeightSet cfg \<and> height - 1 < cfg_StartHeight cfg)"

definition block_time :: "config \<Rightarrow> ScrapedBlock \<Rightarrow> (world, int) act" where
  "block_time cfg block =
     (if first_block cfg (sb_Height block) then ret 0
      else bnd (GetBlock (sb_ChainId block) (sb_Height block - 1)) (\<lambda>prevBlock.
        ret (Milliseconds (sb_Timestamp block - blk_Timestamp prevBlock))))"

definition gas_sums :: "ScrapedBlock \<Rightarrow> err + int \<times> int" where
  "gas_sums block = rfold (\<lambda>txIndex (used, wanted).
       rbind (tx_result block txIndex) (\<lambda>res.
       Inr (wrap64 (used + tr_GasUsed res), wrap64 (wanted + tr_GasWanted res))))
     [0..<length (sb_Txs block)] (0, 0)"

definition collect_block :: "env \<Rightarrow> config \<Rightarrow> ScrapedBlock \<Rightarrow> (world, unit) act" where
  "collect_block E cfg block =
     bnd (lift_res (HexToBytes (sb_Hash block))) (\<lambda>hashBytes.
     bnd (block_time cfg block) (\<lambda>blockTime.
     bnd (lift_res (getTotalFee E (sb_Txs block))) (\<lambda>totalFee.
     bnd (lift_res (gas_sums block)) (\<lambda>(gasUsed, gasWanted).
     exec (\<lambda>d. d\<lparr>t_block := insert_row block_key
       \<lparr>blk_ChainId = sb_ChainId block, blk_Height = sb_Height block, blk_Hash = hashBytes,
        blk_Timestamp = sb_Timestamp block, blk_BlockTime = blockTime, blk_Proposer = sb_Proposer block,
        blk_GasUsed = gasUsed, blk_GasWanted = gasWanted, blk_TxCount = int (length (sb_Txs block)),
        blk_TotalFee = totalFee\<rparr> (t_block d)\<rparr>)))))"


section \<open>The gas of a block\<close>

text \<open>The sums wrap as 64-bit integers, so they are the exact sums wrapped once.\<close>

lemma gas_loop:
  assumes "rfold (\<lambda>txIndex (used, wanted). rbind (tx_result block txIndex) (\<lambda>res.
       Inr (wrap64 (used + tr_GasUsed res), wrap64 (wanted + tr_GasWanted res)))) is (u, v) = Inr (gu, gw)"
    and "int64_range u" "int64_range v"
  shows "gu = wrap64 (u + sum_list (map (\<lambda>i. tr_GasUsed (sb_TxResults block ! i)) is)) \<and>
    gw = wrap64 (v + sum_list (map (\<lambda>i. tr_GasWanted (sb_TxResults block ! i)) is)) \<and>
    (\<forall>i \<in> set is. i < length (sb_TxResults block))"
  using assms
proof (induction "is" arbitrary: u v)
  case (Cons i js)
  from Cons.prems(1) obtain r where r: "tx_result block i = Inr r"
    and rest: "rfold (\<lambda>txIndex (used, wanted). rbind (tx_result block txIndex) (\<lambda>res.
       Inr (wrap64 (used + tr_GasUsed res), wrap64 (wanted + tr_GasWanted res)))) js
       (wrap64 (u + tr_GasUsed r), wrap64 (v + tr_GasWanted r)) = Inr (gu, gw)"
    by (auto simp: rbind_eq_Inr)
  have "r = sb_TxResults block ! i" "i < length (sb_TxResults block)"
    using r by (auto simp: tx_result_def split: if_splits)
  with Cons.IH [OF rest wrap64_range wrap64_range] show ?case
    by (simp add: wrap64_add add.assoc)
qed simp

lemma gas_sums_Inr:
  assumes "gas_sums block = Inr (gu, gw)"
  shows "gu = wrap64 (sum_list (map (\<lambda>i. tr_GasUsed (sb_TxResults block ! i)) [0..<length (sb_Txs block)]))"
    and "gw = wrap64 (sum_list (map (\<lambda>i. tr_GasWanted (sb_TxResults block ! i)) [0..<length (sb_Txs block)]))"
  using gas_loop [of block "[0..<length (sb_Txs block)]" 0 0 gu gw] assms
  by (simp_all add: gas_sums_def int64_range_def)


section \<open>The row\<close>

text \<open>What a stored block row says of a scraped block and of the block before it.\<close>

definition block_row :: "env \<Rightarrow> config \<Rightarrow> ScrapedBlock \<Rightarrow> db \<Rightarrow> CollectedBlock \<Rightarrow> bool" where
  "block_row E cfg block d r \<longleftrightarrow>
     blk_ChainId r = sb_ChainId block \<and> blk_Height r = sb_Height block \<and>
     HexToBytes (sb_Hash block) = Inr (blk_Hash r) \<and> blk_Timestamp r = sb_Timestamp block \<and>
     blk_Proposer r = sb_Proposer block \<and> blk_TxCount r = int (length (sb_Txs block)) \<and>
     getTotalFee E (sb_Txs block) = Inr (blk_TotalFee r) \<and>
     gas_sums block = Inr (blk_GasUsed r, blk_GasWanted r) \<and>
     (if first_block cfg (sb_Height block) then blk_BlockTime r = 0
      else \<exists>p \<in> set (t_block d). blk_ChainId p = sb_ChainId block \<and> blk_Height p = sb_Height block - 1 \<and>
        blk_BlockTime r = Milliseconds (sb_Timestamp block - blk_Timestamp p))"

lemma hoare_GetBlock:
  "hoare (\<lambda>w. w_db w = d) (GetBlock c h)
     (\<lambda>r w. w_db w = d \<and> r \<in> set (t_block d) \<and> blk_ChainId r = c \<and> blk_Height r = h)
     (\<lambda>e w. w_db w = d \<and> (errors_is e RecordNotFound \<longrightarrow> (c, h) \<notin> block_key ` set (t_block d)))"
  unfolding GetBlock_def
proof (rule hoare_weaken [OF hoare_first_row])
  fix r w
  assume "w_db w = d \<and> (\<exists>rs. filter (\<lambda>r. blk_ChainId r = c \<and> blk_Height r = h) (t_block d) = r # rs)"
  then obtain rs where d: "w_db w = d" "filter (\<lambda>r. blk_ChainId r = c \<and> blk_Height r = h) (t_block d) = r # rs" by blast
  have "r \<in> set (filter (\<lambda>r. blk_ChainId r = c \<and> blk_Height r = h) (t_block d))" unfolding d(2) by simp
  with d(1) show "w_db w = d \<and> r \<in> set (t_block d) \<and> blk_ChainId r = c \<and> blk_Height r = h" by simp
qed (auto simp: filter_empty_conv block_key_def)

lemma keeps_GetBlock [keeps_intros]: "fault_free P \<Longrightarrow> keeps P (GetBlock c h)"
  unfolding GetBlock_def by (rule keeps_first_row)

lemma keeps_only_db_block: "keeps (only_db w) (collect_block E cfg block)"
  unfolding collect_block_def block_time_def by (intro keeps_intros fault_free_only_db)

lemma collect_block_spec:
  assumes "collect_block E cfg block w = (Inr (), w')"
  shows "\<exists>r. block_row E cfg block (w_db w) r \<and>
    w_db w' = (w_db w)\<lparr>t_block := insert_row block_key r (t_block (w_db w))\<rparr>"
proof -
  from assms obtain hb bt w1 fee gu gw where
    h: "HexToBytes (sb_Hash block) = Inr hb" and bt: "block_time cfg block w = (Inr bt, w1)"
    and fee: "getTotalFee E (sb_Txs block) = Inr fee" and gas: "gas_sums block = Inr (gu, gw)"
    and ex: "exec (\<lambda>d. d\<lparr>t_block := insert_row block_key
       \<lparr>blk_ChainId = sb_ChainId block, blk_Height = sb_Height block, blk_Hash = hb,
        blk_Timestamp = sb_Timestamp block, blk_BlockTime = bt, blk_Proposer = sb_Proposer block,
        blk_GasUsed = gu, blk_GasWanted = gw, blk_TxCount = int (length (sb_Txs block)),
        blk_TotalFee = fee\<rparr> (t_block d)\<rparr>) w1 = (Inr (), w')"
    unfolding collect_block_def bnd_eq_Inr by auto
  let ?r = "\<lparr>blk_ChainId = sb_ChainId block, blk_Height = sb_Height block, blk_Hash = hb,
        blk_Timestamp = sb_Timestamp block, blk_BlockTime = bt, blk_Proposer = sb_Proposer block,
        blk_GasUsed = gu, blk_GasWanted = gw, blk_TxCount = int (length (sb_Txs block)), blk_TotalFee = fee\<rparr>"
  have time: "w_db w1 = w_db w \<and> (if first_block cfg (sb_Height block) then bt = 0
      else \<exists>p \<in> set (t_block (w_db w)). blk_ChainId p = sb_ChainId block \<and> blk_Height p = sb_Height block - 1 \<and>
        bt = Milliseconds (sb_Timestamp block - blk_Timestamp p))"
  proof (cases "first_block cfg (sb_Height block)")
    case True
    with bt show ?thesis by (simp add: block_time_def)
  next
    case False
    with bt obtain p where p: "GetBlock (sb_ChainId block) (sb_Height block - 1) w = (Inr p, w1)"
      "bt = Milliseconds (sb_Timestamp block - blk_Timestamp p)"
      by (auto simp: block_time_def bnd_eq_Inr)
    with False hoareD [OF hoare_GetBlock refl p(1)] show ?thesis by auto
  qed
  have "block_row E cfg block (w_db w) ?r"
    using h fee gas time by (simp add: block_row_def)
  moreover have "w_db w' = (w_db w)\<lparr>t_block := insert_row block_key ?r (t_block (w_db w))\<rparr>"
    using hoareD [OF hoare_exec refl ex] time by simp
  ultimately show ?thesis by blast
qed

end
