(* ===== verification/Collector.thy ===== *)
theory Collector
  imports Block_Collector
begin

text \<open>
  The collector: \<open>src/indexer/collector/collector.go\<close>. A block is collected in one database
  transaction that runs the submodules in order (block, transactions, NFTs), unless the block
  is stored already. The NFT submodule of the chain's VM is an argument, a submodule like the
  other two.
\<close>

section \<open>The submodule interface\<close>

text \<open>
  What the collector relies on of a submodule's \<open>Collect\<close>: when it succeeds, in an
  environment and a configuration it may run in, the dictionaries stay sound; and in every
  environment nothing is removed from the block table, and only a row with the key of the
  block is added to it.
\<close>

type_synonym collect_fn = "env \<Rightarrow> config \<Rightarrow> ScrapedBlock \<Rightarrow> (world, unit) act"

definition ready :: "env \<Rightarrow> config \<Rightarrow> bool" where
  "ready E cfg \<longleftrightarrow> env_ok E \<and> codec_ok E \<and> valid_config cfg"

definition only_block :: "ScrapedBlock \<Rightarrow> db \<Rightarrow> db \<Rightarrow> bool" where
  "only_block block d d' \<longleftrightarrow> set (t_block d) \<subseteq> set (t_block d') \<and>
     (\<forall>r \<in> set (t_block d'). r \<in> set (t_block d) \<or> block_key r = (sb_ChainId block, sb_Height block)) \<and>
     (unique_key block_key (t_block d) \<longrightarrow> unique_key block_key (t_block d'))"

locale block_submodule =
  fixes collect :: collect_fn
  assumes collect_only: "collect E cfg b w = (Inr (), w') \<Longrightarrow> only_block b (w_db w) (w_db w')"

locale submodule = block_submodule +
  assumes collect_dicts: "ready E cfg \<Longrightarrow> dict_invs E w \<Longrightarrow> collect E cfg b w = (Inr (), w') \<Longrightarrow> dict_invs E w'"

lemma only_block_refl [simp]: "only_block b d d"
  by (simp add: only_block_def)

lemma only_block_trans: "only_block b c d \<Longrightarrow> only_block b d e \<Longrightarrow> only_block b c e"
  unfolding only_block_def by blast

interpretation block_sub: submodule collect_block
proof
  fix E cfg w b w'
  assume run: "collect_block E cfg b w = (Inr (), w')"
  from collect_block_spec [OF run] obtain r where
    r: "block_row E cfg b (w_db w) r" "w_db w' = (w_db w)\<lparr>t_block := insert_row block_key r (t_block (w_db w))\<rparr>"
    by blast
  have "only_db w w'" by (rule keepsD [OF keeps_only_db_block only_db_refl run])
  then show "dict_invs E w \<Longrightarrow> dict_invs E w'"
    by (rule dict_invs_only_db) (simp_all add: r(2) same_dicts_def)
  have "block_key r = (sb_ChainId b, sb_Height b)" using r(1) by (simp add: block_row_def block_key_def)
  then show "only_block b (w_db w) (w_db w')"
    by (auto simp: only_block_def r(2) insert_row_def unique_key_def)
qed

text \<open>The transaction submodule does not write the block table.\<close>

lemma ignores_block [simp]:
  "ignores (account_dict E) (\<lambda>w. t_block (w_db w) = B)" "ignores (msg_type_dict E) (\<lambda>w. t_block (w_db w) = B)"
  "ignores (type_tag_dict E) (\<lambda>w. t_block (w_db w) = B)"
  by (simp_all add: ignores_def fault_free_def account_dict_def msg_type_dict_def type_tag_dict_def)

lemma keeps_block_collect_one:
  "keeps (\<lambda>w. t_block (w_db w) = B) (collect_one E cfg block M x acc)"
  unfolding collect_one_def Let_def
  by (cases x, simp only: prod.case)
    (intro keeps_intros keeps_msg_types keeps_type_tags keeps_accounts keeps_GrepAddressesFromTx; simp add: fault_free_def)

lemma keeps_block_collect_evm_one:
  "keeps (\<lambda>w. t_block (w_db w) = B) (collect_evm_one E block t acc)"
  unfolding collect_evm_one_def Let_def by (intro keeps_intros keeps_accounts) simp_all

lemma keeps_block_batches:
  assumes "\<And>rs d. t_block (ins rs d) = t_block d"
  shows "keeps (\<lambda>w. t_block (w_db w) = B) (CreateInBatches cfg ins rows)"
  by (rule keeps_batches) (simp_all add: fault_free_def assms)

lemma keeps_block_tx: "keeps (\<lambda>w. t_block (w_db w) = B) (collect_tx E cfg block)"
proof -
  have ff: "fault_free (\<lambda>w. t_block (w_db w) = B)" by (simp add: fault_free_def)
  have "keeps (\<lambda>w. t_block (w_db w) = B) (collectFA E cfg block)"
    unfolding collectFA_def by (intro keeps_intros keeps_block_batches) simp
  moreover have "keeps (\<lambda>w. t_block (w_db w) = B) (insert_all cfg ''tx'' acc)" for acc
    unfolding insert_all_def by (intro keeps_intros keeps_block_batches ff) simp_all
  moreover have "keeps (\<lambda>w. t_block (w_db w) = B) (collectEvm E cfg block ts)" for ts
    unfolding collectEvm_def insert_evm_def
    by (intro keeps_intros keeps_block_batches keeps_block_collect_evm_one ff) simp_all
  moreover have "keeps (\<lambda>w. t_block (w_db w) = B) (take_prepared h)" for h
    by (rule keepsI) (auto simp: take_prepared_def Let_def split: option.splits)
  ultimately show ?thesis
    unfolding collect_tx_def by (intro keeps_intros keeps_block_collect_one ff)
qed

interpretation tx_sub: submodule collect_tx
proof
  fix E cfg w b w'
  assume run: "collect_tx E cfg b w = (Inr (), w')"
  show "dict_invs E w'" if rd: "ready E cfg" and inv: "dict_invs E w"
    by (rule collect_tx_spec(2) [OF _ _ _ inv run]) (use rd in \<open>simp_all add: ready_def\<close>)
  have "t_block (w_db w') = t_block (w_db w)"
    using keepsD [OF keeps_block_tx [of "t_block (w_db w)"] refl run] .
  then show "only_block b (w_db w) (w_db w')" by (simp add: only_block_def)
qed

text \<open>Submodules run one after the other are a submodule.\<close>

locale two_submodules = fst_sub: submodule f + snd_sub: submodule g for f g :: collect_fn
begin

definition both :: collect_fn where
  "both E cfg b = bnd (f E cfg b) (\<lambda>_. g E cfg b)"

end

sublocale two_submodules \<subseteq> both_sub: submodule both
proof
  fix E cfg w b w'
  assume run: "both E cfg b w = (Inr (), w')"
  from run obtain u where u: "f E cfg b w = (Inr (), u)" "g E cfg b u = (Inr (), w')"
    by (auto simp: both_def bnd_eq_Inr)
  show "dict_invs E w'" if "ready E cfg" "dict_invs E w"
    using fst_sub.collect_dicts [OF that u(1)] snd_sub.collect_dicts [OF that(1) _ u(2)] by blast
  show "only_block b (w_db w) (w_db w')"
    by (rule only_block_trans [OF fst_sub.collect_only [OF u(1)] snd_sub.collect_only [OF u(2)]])
qed

interpretation block_then_tx: two_submodules collect_block collect_tx
  by unfold_locales


section \<open>Prepare\<close>

text \<open>
  The submodules prepare concurrently. The block submodule and the NFT submodules' part for
  Move and Wasm have nothing to fetch or fetch into their own cache; the first error is
  returned, and a success of the transaction submodule stays in its cache.
\<close>

definition Prepare :: "(world, unit) act \<Rightarrow> (world, unit) act \<Rightarrow> bool \<Rightarrow> (world, unit) act" where
  "Prepare prepTx prepNft txFirst = (\<lambda>w.
     let (r1, w1) = (if txFirst then prepTx w else prepNft w);
         (r2, w2) = (if txFirst then prepNft w1 else prepTx w1)
     in (case r1 of Inl e \<Rightarrow> (Inl e, w2) | Inr _ \<Rightarrow> (r2, w2)))"


section \<open>Collect\<close>

definition collect_body :: "collect_fn \<Rightarrow> collect_fn" where
  "collect_body nft E cfg sb = (\<lambda>w.
     case GetBlock (sb_ChainId sb) (sb_Height sb) w of
       (Inr _, w') \<Rightarrow> (Inr (), w')
     | (Inl e, w') \<Rightarrow>
         (if \<not> errors_is e RecordNotFound then (Inl (Wrapped ''failed to get block'' e), w')
          else bnd (collect_block E cfg sb) (\<lambda>_. bnd (collect_tx E cfg sb) (\<lambda>_. nft E cfg sb)) w'))"

text \<open>A serialization failure (code 40001) counts as \<open>already indexed\<close>.\<close>

definition Collect :: "collect_fn \<Rightarrow> collect_fn" where
  "Collect nft E cfg sb = (\<lambda>w.
     case transaction (collect_body nft E cfg sb) w of
       (Inr _, w') \<Rightarrow> (Inr (), w')
     | (Inl e, w') \<Rightarrow> if root_cause e = PgError ''40001'' then (Inr (), w') else (Inl e, w'))"


section \<open>What a collect does to the block table\<close>

lemma Collect_cases:
  assumes "Collect nft E cfg sb w = (Inr (), w')"
  obtains (unchanged) "w_db w' = w_db w"
  | (collected) w1 w2 where "(sb_ChainId sb, sb_Height sb) \<notin> block_key ` set (t_block (w_db w))"
      "w_db w1 = w_db w" "only_db w w1"
      "bnd (collect_block E cfg sb) (\<lambda>_. bnd (collect_tx E cfg sb) (\<lambda>_. nft E cfg sb)) w1 = (Inr (), w2)"
      "w_db w' = w_db w2" "only_db w2 w'"
proof (cases "transaction (collect_body nft E cfg sb) w")
  case (Pair r u)
  show thesis
  proof (cases r)
    case (Inl e)
    with Pair have t: "transaction (collect_body nft E cfg sb) w = (Inl e, u)" by simp
    with assms have "w' = u" by (auto simp: Collect_def split: if_splits)
    with transaction_atomic [OF t] show thesis by (intro unchanged) simp
  next
    case (Inr x)
    with Pair have t: "transaction (collect_body nft E cfg sb) w = (Inr (), u)" by simp
    with assms have w': "w' = u" by (simp add: Collect_def)
    from transaction_Inr [OF t] obtain v where v: "collect_body nft E cfg sb w = (Inr (), v)"
      "w_db u = w_db v" "only_db v u" by blast
    show thesis
    proof (cases "GetBlock (sb_ChainId sb) (sb_Height sb) w")
      case (Pair r1 w1)
      show thesis
      proof (cases r1)
        case (Inl e)
        with Pair have g: "GetBlock (sb_ChainId sb) (sb_Height sb) w = (Inl e, w1)" by simp
        with v(1) have nf: "errors_is e RecordNotFound"
          and b: "bnd (collect_block E cfg sb) (\<lambda>_. bnd (collect_tx E cfg sb) (\<lambda>_. nft E cfg sb)) w1 = (Inr (), v)"
          by (auto simp: collect_body_def split: if_splits)
        have o: "only_db w w1" by (rule keepsD [OF keeps_GetBlock [OF fault_free_only_db] only_db_refl g])
        from hoareD_err [OF hoare_GetBlock refl g] nf b o v(2,3) w' show thesis
          by (intro collected [of w1 v]) auto
      next
        case (Inr blk)
        with Pair have g: "GetBlock (sb_ChainId sb) (sb_Height sb) w = (Inr blk, w1)" by simp
        with v(1) have "w1 = v" by (simp add: collect_body_def)
        with hoareD [OF hoare_GetBlock refl g] v(2) w' show thesis by (intro unchanged) simp
      qed
    qed
  qed
qed

text \<open>An error leaves the database alone.\<close>

lemma Collect_error: "Collect nft E cfg sb w = (Inl e, w') \<Longrightarrow> w_db w' = w_db w"
  by (auto simp: Collect_def dest: transaction_atomic split: prod.splits sum.splits if_splits)

text \<open>A stored block is not collected again, whatever the environment does.\<close>

lemma Collect_stored:
  assumes "(sb_ChainId sb, sb_Height sb) \<in> block_key ` set (t_block (w_db w))" "Collect nft E cfg sb w = (r, w')"
  shows "w_db w' = w_db w"
proof (cases r)
  case (Inl e)
  with assms(2) show ?thesis by (auto dest: Collect_error)
next
  case (Inr x)
  with assms(2) have "Collect nft E cfg sb w = (Inr (), w')" by simp
  then show ?thesis by (cases rule: Collect_cases) (use assms(1) in auto)
qed


section \<open>The chain of blocks\<close>

text \<open>
  Every stored block but the first has its predecessor stored, and its block time is the
  time that passed since.
\<close>

definition linked :: "config \<Rightarrow> db \<Rightarrow> bool" where
  "linked cfg d \<longleftrightarrow> (\<forall>r \<in> set (t_block d). first_block cfg (blk_Height r) \<or>
     (\<exists>p \<in> set (t_block d). blk_ChainId p = blk_ChainId r \<and> blk_Height p = blk_Height r - 1 \<and>
        blk_BlockTime r = Milliseconds (blk_Timestamp r - blk_Timestamp p)))"

definition chain_ok :: "config \<Rightarrow> db \<Rightarrow> bool" where
  "chain_ok cfg d \<longleftrightarrow> unique_key block_key (t_block d) \<and> linked cfg d"

lemma only_block_present:
  assumes "only_block b d d'" "unique_key block_key (t_block d)" "(sb_ChainId b, sb_Height b) \<in> block_key ` set (t_block d)"
  shows "set (t_block d') = set (t_block d)"
proof -
  have "unique_key block_key (t_block d')" "set (t_block d) \<subseteq> set (t_block d')" using assms(1,2) by (auto simp: only_block_def)
  moreover obtain r0 where "r0 \<in> set (t_block d)" "block_key r0 = (sb_ChainId b, sb_Height b)" using assms(3) by force
  moreover have "r \<in> set (t_block d) \<or> block_key r = (sb_ChainId b, sb_Height b)" if "r \<in> set (t_block d')" for r
    using that assms(1) by (auto simp: only_block_def)
  ultimately show ?thesis
    unfolding unique_key_def by (metis distinct_map inj_onD subsetD subset_antisym subsetI)
qed

lemma linked_insert:
  assumes "linked cfg d" "block_row E cfg b d r" "t_block d' = t_block d @ [r]"
  shows "linked cfg d'"
proof -
  have "first_block cfg (blk_Height r) \<or> (\<exists>p \<in> set (t_block d). blk_ChainId p = blk_ChainId r \<and> blk_Height p = blk_Height r - 1 \<and>
        blk_BlockTime r = Milliseconds (blk_Timestamp r - blk_Timestamp p))"
    using assms(2) by (auto simp: block_row_def split: if_splits)
  with assms(1) show ?thesis unfolding linked_def assms(3) by fastforce
qed

context block_submodule
begin

text \<open>The block table after a collect with this NFT submodule: as before, or with the block's row.\<close>

lemma Collect_table:
  assumes run: "Collect collect E cfg b w = (Inr (), w')" and u: "unique_key block_key (t_block (w_db w))"
  shows "w_db w' = w_db w \<or>
    (\<exists>r. block_row E cfg b (w_db w) r \<and> (sb_ChainId b, sb_Height b) \<notin> block_key ` set (t_block (w_db w)) \<and>
       set (t_block (w_db w')) = insert r (set (t_block (w_db w))) \<and> unique_key block_key (t_block (w_db w')))"
  using run
proof (cases rule: Collect_cases)
  case (collected w1 w2)
  from collected(4) obtain u1 u2 where s: "collect_block E cfg b w1 = (Inr (), u1)" "collect_tx E cfg b u1 = (Inr (), u2)"
    "collect E cfg b u2 = (Inr (), w2)" by (auto simp: bnd_eq_Inr)
  from collect_block_spec [OF s(1)] obtain r where r: "block_row E cfg b (w_db w) r"
    "w_db u1 = (w_db w)\<lparr>t_block := insert_row block_key r (t_block (w_db w))\<rparr>"
    unfolding collected(2) by blast
  have key: "block_key r = (sb_ChainId b, sb_Height b)" using r(1) by (simp add: block_row_def block_key_def)
  have t1: "t_block (w_db u1) = t_block (w_db w) @ [r]" using r(2) key collected(1) by (simp add: insert_row_def)
  have u1: "unique_key block_key (t_block (w_db u1))" using u r(2) by simp
  have o: "only_block b (w_db u1) (w_db w2)"
    by (rule only_block_trans [OF tx_sub.collect_only [OF s(2)] collect_only [OF s(3)]])
  have "(sb_ChainId b, sb_Height b) \<in> block_key ` set (t_block (w_db u1))" using key by (simp add: t1)
  from only_block_present [OF o u1 this] have "set (t_block (w_db w')) = insert r (set (t_block (w_db w)))"
    by (simp add: t1 collected(5))
  moreover have "unique_key block_key (t_block (w_db w'))" using o u1 by (simp add: only_block_def collected(5))
  ultimately show ?thesis using r(1) collected(1) by blast
qed simp

lemma linked_set: "set (t_block d) = set (t_block d') \<Longrightarrow> linked cfg d = linked cfg d'"
  by (simp add: linked_def)

lemma keeps_chain_ok: "keeps (\<lambda>w. chain_ok cfg (w_db w)) (Collect collect E cfg b)"
proof (rule keepsI)
  fix w r w' assume ok: "chain_ok cfg (w_db w)" and run: "Collect collect E cfg b w = (r, w')"
  show "chain_ok cfg (w_db w')"
  proof (cases r)
    case (Inl e)
    with ok run show ?thesis by (auto dest: Collect_error)
  next
    case (Inr x)
    with run have run': "Collect collect E cfg b w = (Inr (), w')" by simp
    from ok have "unique_key block_key (t_block (w_db w))" by (simp add: chain_ok_def)
    from Collect_table [OF run' this] consider "w_db w' = w_db w"
      | r where "block_row E cfg b (w_db w) r" "set (t_block (w_db w')) = insert r (set (t_block (w_db w)))"
          "unique_key block_key (t_block (w_db w'))"
      by blast
    then show ?thesis
    proof cases
      case 1
      with ok show ?thesis by simp
    next
      case 2
      define d where "d = (w_db w)\<lparr>t_block := t_block (w_db w) @ [r]\<rparr>"
      have "linked cfg d" by (rule linked_insert [OF _ 2(1)]) (use ok in \<open>simp_all add: chain_ok_def d_def\<close>)
      then have "linked cfg (w_db w')" by (subst linked_set [of _ d]) (use 2(2) in \<open>simp_all add: d_def\<close>)
      with 2(3) show ?thesis by (simp add: chain_ok_def)
    qed
  qed
qed

text \<open>Collecting a list of blocks, whatever order and repetitions it has.\<close>

lemma keeps_chain_ok_all: "keeps (\<lambda>w. chain_ok cfg (w_db w)) (foreach (\<lambda>b _. Collect collect E cfg b) bs ())"
  by (intro keeps_foreach keeps_chain_ok)

end

end
