(* ===== verification/Pipeline.thy ===== *)
theory Pipeline
  imports Collector
begin

text \<open>
  The indexer: \<open>src/indexer/indexer.go\<close>. Three loops share a state: the scraper sends blocks
  into a channel, \<open>prepare\<close> starts a goroutine per block that fetches what the collector
  needs and then puts the block into a map, \<open>collect\<close> takes the block with the next height
  out of the map and collects it. The loops are a step relation; a step is what happens
  between two points where another goroutine can run.
\<close>

definition MaxInflightBlocks :: int where
  "MaxInflightBlocks = 100"

definition MinInflightBlocks :: int where
  "MinInflightBlocks = 50"

definition MinChainHeightToStart :: int where
  "MinChainHeightToStart = 10"


section \<open>The start\<close>

definition computeStartHeight :: "int \<Rightarrow> int \<Rightarrow> bool \<Rightarrow> int \<Rightarrow> int" where
  "computeStartHeight dbNext chainHead startSet startVal =
     (if \<not> startSet then dbNext else max dbNext (min chainHead (max 0 startVal)))"

text \<open>\<open>wait\<close> polls the chain; its answers are the argument, the result how many it took.\<close>

fun wait_for_chain :: "(err + int) list \<Rightarrow> nat option" where
  "wait_for_chain [] = None"
| "wait_for_chain (Inl e # rs) = map_option Suc (wait_for_chain rs)"
| "wait_for_chain (Inr chainHeight # rs) =
     (if chainHeight > MinChainHeightToStart then Some 1 else map_option Suc (wait_for_chain rs))"

text \<open>The height \<open>Run\<close> starts at: after the last stored block of the chain, 0 when there is none.\<close>

definition last_height :: "string \<Rightarrow> db \<Rightarrow> int" where
  "last_height chain d = (case map blk_Height (filter (\<lambda>r. blk_ChainId r = chain) (t_block d)) of
      [] \<Rightarrow> 0 | h # hs \<Rightarrow> fold max hs h)"

definition start_height :: "config \<Rightarrow> db \<Rightarrow> int \<Rightarrow> int" where
  "start_height cfg d chainHeight =
     computeStartHeight (last_height (cfg_ChainId cfg) d + 1) chainHeight (cfg_StartHeightSet cfg) (cfg_StartHeight cfg)"


section \<open>The shared state\<close>

record indexer =
  i_height :: int
  blockChan :: "ScrapedBlock list"
  controlChan :: "string list"
  blockMap :: "(int \<times> ScrapedBlock) list"
  i_paused :: bool
  prepareCount :: int
  preparing :: "ScrapedBlock list"
  collecting :: "ScrapedBlock option"
  cancelled :: bool
  crashed :: bool
  i_world :: world
  collected :: "ScrapedBlock list"
  signals :: "string list"
  received :: "int list"
  dropped :: "int list"

text \<open>
  \<open>preparing\<close> are the goroutines of \<open>prepare\<close>, \<open>collecting\<close> the block \<open>collect\<close> holds,
  \<open>crashed\<close> that a goroutine has panicked. The last four fields are the history: the blocks
  collected, the signals sent, the heights the scraper sent, and those whose preparation was
  cancelled.
  Go's map from heights to blocks is an association list with one entry per height.
\<close>

definition init_indexer :: "int \<Rightarrow> world \<Rightarrow> indexer" where
  "init_indexer height w = \<lparr>i_height = height, blockChan = [], controlChan = [], blockMap = [], i_paused = False,
     prepareCount = 0, preparing = [], collecting = None, cancelled = False, crashed = False, i_world = w,
     collected = [], signals = [], received = [], dropped = []\<rparr>"


section \<open>The critical section of the collect loop\<close>

definition inflightCount :: "indexer \<Rightarrow> int" where
  "inflightCount s = int (length (blockMap s)) + prepareCount s"

definition send_signal :: "string \<Rightarrow> bool \<Rightarrow> indexer \<Rightarrow> indexer option" where
  "send_signal sig p s = (if 1 \<le> length (controlChan s) then None
     else Some (s\<lparr>controlChan := controlChan s @ [sig], i_paused := p, signals := signals s @ [sig]\<rparr>))"

text \<open>\<open>None\<close>: the goroutine blocks on the control channel, with the mutex held.\<close>

definition control_switch :: "indexer \<Rightarrow> indexer option" where
  "control_switch s =
     (if inflightCount s > MaxInflightBlocks \<and> \<not> i_paused s then send_signal ''pause'' True s
      else if inflightCount s < MinInflightBlocks \<and> i_paused s then send_signal ''start'' False s
      else Some s)"

definition take_block :: "indexer \<Rightarrow> indexer" where
  "take_block s = s\<lparr>collecting := map_of (blockMap s) (i_height s), blockMap := map_delete (i_height s) (blockMap s)\<rparr>"

definition collect_section :: "indexer \<Rightarrow> indexer option" where
  "collect_section s = map_option take_block (control_switch s)"


section \<open>Steps\<close>

text \<open>
  \<open>prep\<close> is what preparing a block can do, \<open>coll\<close> is the collector. A retry of a preparation
  that timed out is a step that leaves the goroutine where it is.
\<close>

type_synonym prep_rel = "ScrapedBlock \<Rightarrow> world \<Rightarrow> err + unit \<Rightarrow> world \<Rightarrow> bool"
type_synonym coll_fn = "ScrapedBlock \<Rightarrow> (world, unit) act"

inductive step :: "prep_rel \<Rightarrow> coll_fn \<Rightarrow> indexer \<Rightarrow> indexer \<Rightarrow> bool" for prep coll where
  scraped: "\<lbrakk>\<not> crashed s; int (length (blockChan s)) < MaxInflightBlocks\<rbrakk> \<Longrightarrow>
    step prep coll s (s\<lparr>blockChan := blockChan s @ [b], received := received s @ [sb_Height b]\<rparr>)"
| prepare_skip: "\<lbrakk>\<not> crashed s; blockChan s = b # bs; sb_Height b < i_height s\<rbrakk> \<Longrightarrow>
    step prep coll s (s\<lparr>blockChan := bs\<rparr>)"
| prepare_start: "\<lbrakk>\<not> crashed s; blockChan s = b # bs; \<not> sb_Height b < i_height s\<rbrakk> \<Longrightarrow>
    step prep coll s (s\<lparr>blockChan := bs, prepareCount := prepareCount s + 1, preparing := b # preparing s\<rparr>)"
| prepare_done: "\<lbrakk>\<not> crashed s; b \<in> set (preparing s); prep b (i_world s) (Inr ()) w'\<rbrakk> \<Longrightarrow>
    step prep coll s (s\<lparr>i_world := w', blockMap := map_put (sb_Height b) b (blockMap s),
      prepareCount := prepareCount s - 1, preparing := remove1 b (preparing s)\<rparr>)"
| prepare_retry: "\<lbrakk>\<not> crashed s; b \<in> set (preparing s); prep b (i_world s) (Inl e) w'; errors_is e DeadlineExceeded\<rbrakk> \<Longrightarrow>
    step prep coll s (s\<lparr>i_world := w'\<rparr>)"
| prepare_cancelled: "\<lbrakk>\<not> crashed s; b \<in> set (preparing s); prep b (i_world s) (Inl e) w'; errors_is e Canceled\<rbrakk> \<Longrightarrow>
    step prep coll s (s\<lparr>i_world := w', prepareCount := prepareCount s - 1, preparing := remove1 b (preparing s),
      dropped := dropped s @ [sb_Height b]\<rparr>)"
| prepare_stopped: "\<lbrakk>\<not> crashed s; b \<in> set (preparing s); cancelled s\<rbrakk> \<Longrightarrow>
    step prep coll s (s\<lparr>prepareCount := prepareCount s - 1, preparing := remove1 b (preparing s),
      dropped := dropped s @ [sb_Height b]\<rparr>)"
| prepare_panic: "\<lbrakk>\<not> crashed s; b \<in> set (preparing s); prep b (i_world s) (Inl e) w';
      \<not> errors_is e Canceled; \<not> errors_is e DeadlineExceeded\<rbrakk> \<Longrightarrow>
    step prep coll s (s\<lparr>i_world := w', crashed := True\<rparr>)"
| collect_take: "\<lbrakk>\<not> crashed s; \<not> cancelled s; collecting s = None; collect_section s = Some s'\<rbrakk> \<Longrightarrow>
    step prep coll s s'"
| collect_done: "\<lbrakk>\<not> crashed s; collecting s = Some b; coll b (i_world s) = (Inr (), w')\<rbrakk> \<Longrightarrow>
    step prep coll s (s\<lparr>i_world := w', collecting := None, i_height := i_height s + 1, collected := collected s @ [b]\<rparr>)"
| collect_panic: "\<lbrakk>\<not> crashed s; collecting s = Some b; coll b (i_world s) = (Inl e, w')\<rbrakk> \<Longrightarrow>
    step prep coll s (s\<lparr>i_world := w', crashed := True\<rparr>)"
| control_read: "\<lbrakk>\<not> crashed s; controlChan s = sig # cs\<rbrakk> \<Longrightarrow> step prep coll s (s\<lparr>controlChan := cs\<rparr>)"
| cancel: "\<not> crashed s \<Longrightarrow> step prep coll s (s\<lparr>cancelled := True\<rparr>)"

inductive reachable :: "prep_rel \<Rightarrow> coll_fn \<Rightarrow> indexer \<Rightarrow> indexer \<Rightarrow> bool" for prep coll s0 where
  start: "reachable prep coll s0 s0"
| more: "reachable prep coll s0 s \<Longrightarrow> step prep coll s s' \<Longrightarrow> reachable prep coll s0 s'"

inductive_cases stepE: "step prep coll s s'"

text \<open>After a panic nothing runs; while a block is collected the collect loop takes no other.\<close>

lemma crashed_final: "step prep coll s s' \<Longrightarrow> \<not> crashed s"
  by (auto elim: stepE)

lemma control_switch_Some:
  "control_switch s = Some t \<longleftrightarrow>
     t = s \<and> \<not> (inflightCount s > MaxInflightBlocks \<and> \<not> i_paused s) \<and> \<not> (inflightCount s < MinInflightBlocks \<and> i_paused s) \<or>
     inflightCount s > MaxInflightBlocks \<and> \<not> i_paused s \<and> controlChan s = [] \<and>
       t = s\<lparr>controlChan := [''pause''], i_paused := True, signals := signals s @ [''pause'']\<rparr> \<or>
     inflightCount s < MinInflightBlocks \<and> i_paused s \<and> controlChan s = [] \<and>
       t = s\<lparr>controlChan := [''start''], i_paused := False, signals := signals s @ [''start'']\<rparr>"
  by (cases "controlChan s") (auto simp: control_switch_def send_signal_def)


section \<open>Invariants\<close>

text \<open>The signals sent alternate, and \<open>paused\<close> is what the last one said.\<close>

fun alternating :: "bool \<Rightarrow> string list \<Rightarrow> bool" where
  "alternating p [] \<longleftrightarrow> True"
| "alternating p (x # xs) \<longleftrightarrow> x = (if p then ''start'' else ''pause'') \<and> alternating (\<not> p) xs"

fun paused_after :: "bool \<Rightarrow> string list \<Rightarrow> bool" where
  "paused_after p [] = p"
| "paused_after p (x # xs) = paused_after (\<not> p) xs"

lemma alternating_snoc: "alternating p (xs @ [x]) \<longleftrightarrow>
    alternating p xs \<and> x = (if paused_after p xs then ''start'' else ''pause'')"
  and paused_after_snoc: "paused_after p (xs @ [x]) \<longleftrightarrow> \<not> paused_after p xs"
  by (induction xs arbitrary: p) auto

definition indexer_inv :: "int \<Rightarrow> indexer \<Rightarrow> bool" where
  "indexer_inv h0 s \<longleftrightarrow>
     prepareCount s = int (length (preparing s)) \<and>
     int (length (blockChan s)) \<le> MaxInflightBlocks \<and> length (controlChan s) \<le> 1 \<and>
     distinct (map fst (blockMap s)) \<and> (\<forall>(h, b) \<in> set (blockMap s). sb_Height b = h) \<and>
     (\<forall>b. collecting s = Some b \<longrightarrow> sb_Height b = i_height s) \<and>
     i_height s = h0 + int (length (collected s)) \<and>
     (\<forall>k < length (collected s). sb_Height (collected s ! k) = h0 + int k) \<and>
     alternating False (signals s) \<and> i_paused s = paused_after False (signals s)"

lemma inv_init: "indexer_inv h0 (init_indexer h0 w)"
  by (simp add: indexer_inv_def init_indexer_def MaxInflightBlocks_def)

lemma inv_take:
  assumes "indexer_inv h0 s" "collecting s = None" "collect_section s = Some s'"
  shows "indexer_inv h0 s'"
proof -
  from assms(3) obtain t where t: "control_switch s = Some t" "s' = take_block t"
    by (auto simp: collect_section_def)
  have "indexer_inv h0 t"
    using t(1) assms(1) unfolding control_switch_Some
    by (auto simp: indexer_inv_def alternating_snoc paused_after_snoc)
  moreover have "sb_Height b = i_height t" if "map_of (blockMap t) (i_height t) = Some b" for b
    using calculation map_of_SomeD [OF that] by (auto simp: indexer_inv_def)
  ultimately show ?thesis
    by (auto simp: t(2) indexer_inv_def take_block_def map_delete_keys) (auto simp: map_delete_def)
qed

lemma length_remove1_int: "b \<in> set xs \<Longrightarrow> int (length (remove1 b xs)) = int (length xs) - 1"
  using length_pos_if_in_set [of b xs] by (simp add: length_remove1 of_nat_diff Suc_leI)

lemma inv_step: "step prep coll s s' \<Longrightarrow> indexer_inv h0 s \<Longrightarrow> indexer_inv h0 s'"
proof (induction rule: step.induct)
  case (collect_take s s')
  then show ?case by (auto intro: inv_take)
next
  case (prepare_done s b w')
  then show ?case
    by (auto simp: indexer_inv_def map_put_keys length_remove1_int)
      (auto simp: map_put_def)
next
  case (collect_done s b w')
  then show ?case
    by (auto simp: indexer_inv_def nth_append less_Suc_eq)
qed (auto simp: indexer_inv_def length_remove1_int)

lemma reachable_inv:
  "reachable prep coll (init_indexer h0 w) s \<Longrightarrow> indexer_inv h0 s"
  by (induction rule: reachable.induct) (auto intro: inv_init inv_step)


section \<open>No block is lost\<close>

text \<open>Where a block of height \<open>h\<close> can be.\<close>

definition held :: "indexer \<Rightarrow> int \<Rightarrow> bool" where
  "held s h \<longleftrightarrow> h \<in> sb_Height ` set (blockChan s) \<or> h \<in> sb_Height ` set (preparing s) \<or>
     h \<in> fst ` set (blockMap s) \<or> (\<exists>b. collecting s = Some b \<and> sb_Height b = h)"

definition no_loss :: "indexer \<Rightarrow> bool" where
  "no_loss s \<longleftrightarrow> (\<forall>h \<in> set (received s). h < i_height s \<or> h \<in> set (dropped s) \<or> held s h)"

lemma no_loss_take:
  assumes "indexer_inv h0 s" "collecting s = None" "collect_section s = Some s'" "no_loss s"
  shows "no_loss s'"
proof -
  from assms(3) obtain t where t: "control_switch s = Some t" "s' = take_block t"
    by (auto simp: collect_section_def)
  have eq: "blockChan t = blockChan s" "preparing t = preparing s" "blockMap t = blockMap s" "collecting t = None"
    "i_height t = i_height s" "received t = received s" "dropped t = dropped s"
    using t(1) assms(2) unfolding control_switch_Some by auto
  have eq': "blockChan s' = blockChan s" "preparing s' = preparing s" "i_height s' = i_height s"
    "received s' = received s" "dropped s' = dropped s"
    using eq t(2) by (simp_all add: take_block_def)
  have A: "h \<in> fst ` set (blockMap s') \<or> (\<exists>b. collecting s' = Some b \<and> sb_Height b = h)" if h: "h \<in> fst ` set (blockMap s)" for h
  proof (cases "h = i_height s")
    case True
    then obtain b where b: "map_of (blockMap s) h = Some b" using h by (metis map_of_eq_None_iff not_Some_eq)
    then have "sb_Height b = h" using assms(1) by (auto simp: indexer_inv_def dest: map_of_SomeD)
    with b True eq t(2) show ?thesis by (simp add: take_block_def)
  next
    case False
    with h eq t(2) show ?thesis by (auto simp: take_block_def map_delete_def)
  qed
  show ?thesis
    unfolding no_loss_def
  proof
    fix h assume "h \<in> set (received s')"
    then have "h < i_height s \<or> h \<in> set (dropped s) \<or> held s h" using assms(4) by (simp add: no_loss_def eq')
    then show "h < i_height s' \<or> h \<in> set (dropped s') \<or> held s' h"
      unfolding held_def eq' assms(2) using A [of h] by (elim disjE) auto
  qed
qed

lemma held_simps:
  "held (s\<lparr>i_world := w\<rparr>) = held s" "held (s\<lparr>crashed := c\<rparr>) = held s" "held (s\<lparr>cancelled := c\<rparr>) = held s"
  "held (s\<lparr>controlChan := cs\<rparr>) = held s" "held (s\<lparr>i_world := w, crashed := c\<rparr>) = held s"
  by (auto simp: held_def)

lemma no_loss_step: "step prep coll s s' \<Longrightarrow> indexer_inv h0 s \<Longrightarrow> no_loss s \<Longrightarrow> no_loss s'"
proof (induction rule: step.induct)
  case (collect_take s s')
  then show ?case by (auto intro: no_loss_take)
next
  case (scraped s b)
  then show ?case by (auto simp: no_loss_def held_def)
next
  case (prepare_skip s b bs)
  then show ?case by (fastforce simp: no_loss_def held_def)
next
  case (prepare_start s b bs)
  then show ?case by (fastforce simp: no_loss_def held_def)
next
  case (prepare_done s b w')
  show ?case
    unfolding no_loss_def
  proof
    fix h assume "h \<in> set (received (s\<lparr>i_world := w', blockMap := map_put (sb_Height b) b (blockMap s),
      prepareCount := prepareCount s - 1, preparing := remove1 b (preparing s)\<rparr>))"
    then have "h < i_height s \<or> h \<in> set (dropped s) \<or> held s h"
      using prepare_done.prems(2) by (simp add: no_loss_def)
    then show "h < i_height (s\<lparr>i_world := w', blockMap := map_put (sb_Height b) b (blockMap s),
      prepareCount := prepareCount s - 1, preparing := remove1 b (preparing s)\<rparr>) \<or>
      h \<in> set (dropped (s\<lparr>i_world := w', blockMap := map_put (sb_Height b) b (blockMap s),
      prepareCount := prepareCount s - 1, preparing := remove1 b (preparing s)\<rparr>)) \<or>
      held (s\<lparr>i_world := w', blockMap := map_put (sb_Height b) b (blockMap s),
      prepareCount := prepareCount s - 1, preparing := remove1 b (preparing s)\<rparr>) h"
      unfolding held_def using in_remove1 [of _ "preparing s" b] by (fastforce simp: map_put_def image_iff)
  qed
next
  case (prepare_cancelled s b e w')
  then show ?case
    using in_remove1 [of _ "preparing s" b] by (fastforce simp: no_loss_def held_def image_iff)
next
  case (prepare_stopped s b)
  then show ?case
    using in_remove1 [of _ "preparing s" b] by (fastforce simp: no_loss_def held_def image_iff)
next
  case (collect_done s b w')
  then show ?case by (fastforce simp: no_loss_def held_def indexer_inv_def)
qed (simp_all add: no_loss_def held_simps)

lemma reachable_no_loss: "reachable prep coll (init_indexer h0 w) s \<Longrightarrow> no_loss s"
proof (induction rule: reachable.induct)
  case start
  show ?case by (simp add: no_loss_def init_indexer_def)
next
  case (more s s')
  then show ?case by (blast intro: no_loss_step reachable_inv)
qed


section \<open>The database\<close>

text \<open>Preparing does not write the database; what holds of it is what the collector keeps.\<close>

definition prep_pure :: "prep_rel \<Rightarrow> bool" where
  "prep_pure prep \<longleftrightarrow> (\<forall>b w r w'. prep b w r w' \<longrightarrow> w_db w' = w_db w)"

lemma step_db:
  assumes "step prep coll s s'" "prep_pure prep"
    and "\<And>b. keeps (\<lambda>w. P (w_db w)) (coll b)" "P (w_db (i_world s))"
  shows "P (w_db (i_world s'))"
  using assms(1)
proof cases
  case collect_take
  then show ?thesis
    using assms(4) by (auto simp: collect_section_def control_switch_Some take_block_def)
next
  case (collect_done b w')
  with keepsD [OF assms(3) assms(4)] show ?thesis by simp
next
  case (collect_panic b e w')
  with keepsD [OF assms(3) assms(4)] show ?thesis by simp
qed (use assms(2,4) in \<open>auto simp: prep_pure_def\<close>)

lemma reachable_db:
  assumes "reachable prep coll s0 s" "prep_pure prep"
    and "\<And>b. keeps (\<lambda>w. P (w_db w)) (coll b)" "P (w_db (i_world s0))"
  shows "P (w_db (i_world s))"
  using assms(1)
proof (induction rule: reachable.induct)
  case start
  show ?case by (rule assms(4))
next
  case (more s s')
  from more(2) assms(2,3) more(3) show ?case by (rule step_db)
qed


section \<open>Stale entries\<close>

text \<open>Only the entry of the current height is ever deleted, and the height only grows.\<close>

lemma stale_step:
  assumes "step prep coll s s'" "h < i_height s" "h \<in> fst ` set (blockMap s)"
  shows "h < i_height s' \<and> h \<in> fst ` set (blockMap s')"
  using assms(1)
proof cases
  case collect_take
  with assms(2,3) show ?thesis
    by (auto simp: collect_section_def control_switch_Some take_block_def map_delete_def image_iff)
next
  case (prepare_done b w')
  with assms(2,3) show ?thesis by (auto simp: map_put_def image_iff)
qed (use assms(2,3) in auto)

end
