(* ===== verification/Decimal.thy ===== *)
theory Decimal
  imports Json
begin

text \<open>
  Numerals as \<open>strconv\<close> and \<open>math/big\<close> read and write them: the value of a run of decimal
  digits, \<open>Itoa\<close>, \<open>Atoi\<close> with its sign and its 64-bit range, and \<open>SetString\<close> in base 16.
\<close>

section \<open>Reading\<close>

definition digit_val :: "char \<Rightarrow> int" where
  "digit_val c = of_char c - 48"

definition atoi :: "string \<Rightarrow> int" where
  "atoi ds = foldl (\<lambda>n c. 10 * n + digit_val c) 0 ds"

text \<open>The sign of a numeral and the rest of it.\<close>

definition split_sign :: "string \<Rightarrow> bool \<times> string" where
  "split_sign s = (case s of
      [] \<Rightarrow> (False, [])
    | c # r \<Rightarrow> if c = CHR ''-'' then (True, r) else if c = CHR ''+'' then (False, r) else (False, s))"

definition Atoi :: "string \<Rightarrow> err + int" where
  "Atoi s = (let (neg, ds) = split_sign s; n = (if neg then - atoi ds else atoi ds) in
     if ds = [] \<or> \<not> list_all is_digit ds then Inl (DecodeErr ''invalid syntax'')
     else if \<not> int64_range n then Inl (DecodeErr ''value out of range'')
     else Inr n)"

definition big_hex :: "string \<Rightarrow> int option" where
  "big_hex s = (let (neg, ds) = split_sign s; n = foldl (\<lambda>n c. 16 * n + (case hex_val c of None \<Rightarrow> 0 | Some v \<Rightarrow> int v)) 0 ds in
     if ds = [] \<or> \<not> list_all (\<lambda>c. hex_val c \<noteq> None) ds then None
     else Some (if neg then - n else n))"


section \<open>Writing\<close>

definition digit_char :: "nat \<Rightarrow> char" where
  "digit_char n = char_of (48 + n)"

fun nat_digits :: "nat \<Rightarrow> string" where
  "nat_digits n = (if n < 10 then [digit_char n] else nat_digits (n div 10) @ [digit_char (n mod 10)])"

declare nat_digits.simps [simp del]

definition Itoa :: "int \<Rightarrow> string" where
  "Itoa n = (if n < 0 then CHR ''-'' # nat_digits (nat (- n)) else nat_digits (nat n))"


section \<open>Round trip\<close>

lemma of_digit_char: "n < 10 \<Longrightarrow> (of_char (digit_char n) :: nat) = 48 + n"
  by (simp add: digit_char_def)

lemma is_digit_char [simp]: "n < 10 \<Longrightarrow> is_digit (digit_char n)"
  by (simp add: is_digit_def of_digit_char)

lemma digit_val_char [simp]: "n < 10 \<Longrightarrow> digit_val (digit_char n) = int n"
  using of_nat_of_char [of "digit_char n", where 'a = int] by (simp add: digit_val_def of_digit_char)

lemma atoi_snoc: "atoi (ds @ [c]) = 10 * atoi ds + digit_val c"
  by (simp add: atoi_def)

lemma nat_digits_props: "nat_digits n \<noteq> [] \<and> list_all is_digit (nat_digits n) \<and> atoi (nat_digits n) = int n"
proof (induction n rule: nat_digits.induct)
  case (1 n)
  show ?case
  proof (cases "n < 10")
    case True
    then show ?thesis by (simp add: nat_digits.simps [of n] atoi_def)
  next
    case False
    with 1 have ih: "nat_digits (n div 10) \<noteq> []" "list_all is_digit (nat_digits (n div 10))"
      "atoi (nat_digits (n div 10)) = int (n div 10)" by auto
    have "int n = 10 * int (n div 10) + int (n mod 10)" by (simp add: zdiv_int zmod_int)
    with ih False show ?thesis by (simp add: nat_digits.simps [of n] atoi_snoc)
  qed
qed

lemma nat_digits_hd: "\<exists>c r. nat_digits n = c # r \<and> is_digit c"
  using nat_digits_props [of n] by (cases "nat_digits n") auto

lemma split_sign_digits: "split_sign (nat_digits n) = (False, nat_digits n)"
proof -
  obtain c r where c: "nat_digits n = c # r" "is_digit c" using nat_digits_hd by blast
  then have "c \<noteq> CHR ''-''" "c \<noteq> CHR ''+''" by (auto simp: is_digit_def)
  with c show ?thesis by (simp add: split_sign_def)
qed

lemma Atoi_Itoa: "int64_range n \<Longrightarrow> Atoi (Itoa n) = Inr n"
  using nat_digits_props [of "nat n"] nat_digits_props [of "nat (- n)"]
  by (auto simp: Atoi_def Itoa_def Let_def split_sign_digits split_sign_def [of "CHR ''-'' # nat_digits (nat (- n))"])

lemma Itoa_inj: "Itoa m = Itoa n \<Longrightarrow> m = n"
proof -
  have "(if fst (split_sign (Itoa k)) then - atoi (snd (split_sign (Itoa k))) else atoi (snd (split_sign (Itoa k)))) = k" for k
    using nat_digits_props [of "nat k"] nat_digits_props [of "nat (- k)"]
    by (auto simp: Itoa_def split_sign_digits split_sign_def [of "CHR ''-'' # nat_digits (nat (- k))"])
  then show "Itoa m = Itoa n \<Longrightarrow> m = n" by metis
qed

end
