(* ===== verification/Scraper.thy ===== *)
theory Scraper
  imports Schema Decimal
begin

text \<open>
  The scraper: \<open>src/indexer/scraper/\<close>. What a node answers becomes a scraped block
  (\<open>scrape.go\<close>); \<open>fastSync\<close> scrapes increasing heights with many goroutines until one
  of them runs into the head of the chain, \<open>slowSync\<close> then scrapes batches of five
  (\<open>sync.go\<close>).
\<close>

section \<open>Block times\<close>

text \<open>
  \<open>time.Parse\<close> with the layout \<open>2006-01-02T15:04:05.999999999Z\<close>: an hour may have one
  digit, the fraction may be missing or start with a comma, and digits after the ninth are cut.
\<close>

definition fixed_num :: "nat \<Rightarrow> string \<Rightarrow> (int \<times> string) option" where
  "fixed_num k s = (if length s < k \<or> \<not> list_all is_digit (take k s) then None else Some (atoi (take k s), drop k s))"

definition get_hour :: "string \<Rightarrow> (int \<times> string) option" where
  "get_hour s = (case fixed_num 2 s of Some r \<Rightarrow> Some r | None \<Rightarrow> fixed_num 1 s)"

definition expect :: "char \<Rightarrow> string \<Rightarrow> string option" where
  "expect c s = (case s of [] \<Rightarrow> None | d # r \<Rightarrow> if d = c then Some r else None)"

definition get_fraction :: "string \<Rightarrow> int \<times> string" where
  "get_fraction s = (case s of
      c # d # r \<Rightarrow>
        (if (c = CHR ''.'' \<or> c = CHR '','') \<and> is_digit d then
           (let ds = takeWhile is_digit (d # r); k = min 9 (length ds) in
             (atoi (take k ds) * 10 ^ (9 - k), dropWhile is_digit (d # r)))
         else (0, s))
    | _ \<Rightarrow> (0, s))"

definition leap :: "int \<Rightarrow> bool" where
  "leap y \<longleftrightarrow> y mod 4 = 0 \<and> (y mod 100 \<noteq> 0 \<or> y mod 400 = 0)"

definition days_in :: "int \<Rightarrow> int \<Rightarrow> int" where
  "days_in m y = (if m = 2 then (if leap y then 29 else 28) else if m \<in> {4, 6, 9, 11} then 30 else 31)"

text \<open>Days from 1970-01-01 to a day of the Gregorian calendar.\<close>

definition unix_days :: "int \<Rightarrow> int \<Rightarrow> int \<Rightarrow> int" where
  "unix_days year m d = (let y = (if m \<le> 2 then year - 1 else year); era = y div 400; yoe = y - era * 400;
     doy = (153 * (if m > 2 then m - 3 else m + 9) + 2) div 5 + d - 1;
     doe = yoe * 365 + yoe div 4 - yoe div 100 + doy
   in era * 146097 + doe - 719468)"

definition opt_bind :: "'a option \<Rightarrow> ('a \<Rightarrow> 'b option) \<Rightarrow> 'b option" where
  "opt_bind x f = (case x of None \<Rightarrow> None | Some a \<Rightarrow> f a)"

definition parse_time :: "string \<Rightarrow> err + int" where
  "parse_time s =
     (case opt_bind (fixed_num 4 s) (\<lambda>(year, s).
           opt_bind (expect (CHR ''-'') s) (\<lambda>s. opt_bind (fixed_num 2 s) (\<lambda>(month, s).
           opt_bind (expect (CHR ''-'') s) (\<lambda>s. opt_bind (fixed_num 2 s) (\<lambda>(day, s).
           opt_bind (expect (CHR ''T'') s) (\<lambda>s. opt_bind (get_hour s) (\<lambda>(hour, s).
           opt_bind (expect (CHR '':'') s) (\<lambda>s. opt_bind (fixed_num 2 s) (\<lambda>(minute, s).
           opt_bind (expect (CHR '':'') s) (\<lambda>s. opt_bind (fixed_num 2 s) (\<lambda>(sec, s).
           (let (nsec, s) = get_fraction s in
            if s = ''Z'' \<and> 1 \<le> month \<and> month \<le> 12 \<and> hour < 24 \<and> minute < 60 \<and> sec < 60 \<and>
               1 \<le> day \<and> day \<le> days_in month year
            then Some (((unix_days year month day * 86400 +
                   hour * 3600 + minute * 60 + sec) * 1000000000 + nsec))
            else None)))))))))))) of
        None \<Rightarrow> Inl (DecodeErr ''parsing time'')
      | Some t \<Rightarrow> Inr t)"


section \<open>scrape.go\<close>

record GetBlockResponse =
  gb_Hash :: string
  gb_ChainId :: string
  gb_Time :: string
  gb_ProposerAddress :: string
  gb_Txs :: "string list"

record GetBlockResultsResponse =
  gr_FinalizeBlockEvents :: "event list"
  gr_TxsResults :: "ExecTxResult list"

text \<open>Where an event of the block belongs: its last attribute, \<open>mode\<close>, says so.\<close>

datatype phase = PreBlockPhase | BeginBlockPhase | EndBlockPhase

definition event_phase :: "event \<Rightarrow> phase option" where
  "event_phase e =
     (if eattrs e = [] then None
      else if akey (last (eattrs e)) \<noteq> ''mode'' then Some PreBlockPhase
      else if aval (last (eattrs e)) = ''BeginBlock'' then Some BeginBlockPhase
      else if aval (last (eattrs e)) = ''EndBlock'' then Some EndBlockPhase
      else None)"

definition phase_step :: "event \<Rightarrow> event list \<times> event list \<times> event list \<Rightarrow> event list \<times> event list \<times> event list" where
  "phase_step e = (\<lambda>(pre, begin_evs, end_evs). case event_phase e of
      None \<Rightarrow> (pre, begin_evs, end_evs)
    | Some PreBlockPhase \<Rightarrow> (pre @ [e], begin_evs, end_evs)
    | Some BeginBlockPhase \<Rightarrow> (pre, begin_evs @ [e], end_evs)
    | Some EndBlockPhase \<Rightarrow> (pre, begin_evs, end_evs @ [e]))"

text \<open>\<open>val_address\<close> is the SDK's \<open>ValAddressFromHex\<close> with the printer of such an address.\<close>

definition parseScrapedBlock ::
  "(string \<Rightarrow> err + string) \<Rightarrow> GetBlockResponse \<Rightarrow> GetBlockResultsResponse \<Rightarrow> int \<Rightarrow> err + ScrapedBlock" where
  "parseScrapedBlock val_address block blockResults height =
     rbind (parse_time (gb_Time block)) (\<lambda>timestamp.
     rbind (val_address (gb_ProposerAddress block)) (\<lambda>proposer.
     let (preEvents, beginEvents, endEvents) = fold phase_step (gr_FinalizeBlockEvents blockResults) ([], [], []) in
     Inr \<lparr>sb_ChainId = gb_ChainId block, sb_Height = height, sb_Timestamp = timestamp, sb_Hash = gb_Hash block,
       sb_Proposer = proposer, sb_Txs = gb_Txs block, sb_TxResults = gr_TxsResults blockResults,
       sb_PreBlock = preEvents, sb_BeginBlock = beginEvents, sb_EndBlock = endEvents\<rparr>))"

definition reachedLatestHeight :: "string \<Rightarrow> bool" where
  "reachedLatestHeight errString \<longleftrightarrow> has_prefix errString ''current height'' \<or> has_prefix errString ''could not find''"

lemma phase_fold:
  "fold phase_step es (p, b, e) =
     (p @ filter (\<lambda>x. event_phase x = Some PreBlockPhase) es,
      b @ filter (\<lambda>x. event_phase x = Some BeginBlockPhase) es,
      e @ filter (\<lambda>x. event_phase x = Some EndBlockPhase) es)"
  by (induction es arbitrary: p b e) (auto simp: phase_step_def split: option.splits phase.splits)

lemma parseScrapedBlock_Inr:
  assumes "parseScrapedBlock va blk res h = Inr b"
  shows "sb_Height b = h" "sb_Txs b = gb_Txs blk" "sb_TxResults b = gr_TxsResults res"
    "parse_time (gb_Time blk) = Inr (sb_Timestamp b)"
    "sb_PreBlock b = filter (\<lambda>x. event_phase x = Some PreBlockPhase) (gr_FinalizeBlockEvents res)"
    "sb_BeginBlock b = filter (\<lambda>x. event_phase x = Some BeginBlockPhase) (gr_FinalizeBlockEvents res)"
    "sb_EndBlock b = filter (\<lambda>x. event_phase x = Some EndBlockPhase) (gr_FinalizeBlockEvents res)"
  using assms by (auto simp: parseScrapedBlock_def rbind_eq_Inr phase_fold)


section \<open>Fast sync\<close>

datatype sync_status = Running | Paused | Stopped

text \<open>Where the main loop of \<open>fastSync\<close> is: at its top, about to spawn, or leaving.\<close>

datatype main_pc = AtTop | Spawning | Leaving | Returned int

record fast_sync =
  f_height :: int
  syncedHeight :: int
  status :: sync_status
  pause_pending :: bool
  main :: main_pc
  scraping :: "int list"
  updating :: "int list"
  f_cancelled :: bool
  chain_head :: int
  sent :: "int list"

text \<open>
  \<open>scraping\<close> are the goroutines that ask the node, \<open>updating\<close> those that have sent their
  block and not yet raised \<open>syncedHeight\<close>. \<open>chain_head\<close> is the height the node has
  reached, \<open>sent\<close> the heights delivered. \<open>pause_pending\<close>: the reader of the control
  channel has loaded \<open>running\<close> and is about to store \<open>paused\<close>.
\<close>

definition init_fast :: "int \<Rightarrow> int \<Rightarrow> fast_sync" where
  "init_fast height head = \<lparr>f_height = height, syncedHeight = height - 1, status = Running, pause_pending = False,
     main = AtTop, scraping = [], updating = [], f_cancelled = False, chain_head = head, sent = []\<rparr>"

definition max_conc :: "config \<Rightarrow> int" where
  "max_conc cfg = max 1 (cfg_MaxConcurrentRequests cfg)"

definition raise_synced :: "int \<Rightarrow> fast_sync \<Rightarrow> fast_sync" where
  "raise_synced h s = s\<lparr>updating := remove1 h (updating s), syncedHeight := max (syncedHeight s) h\<rparr>"

inductive fstep :: "config \<Rightarrow> fast_sync \<Rightarrow> fast_sync \<Rightarrow> bool" for cfg where
  look: "main s = AtTop \<Longrightarrow> \<not> f_cancelled s \<Longrightarrow>
    fstep cfg s (s\<lparr>main := (case status s of Stopped \<Rightarrow> Leaving | Paused \<Rightarrow> AtTop | Running \<Rightarrow> Spawning)\<rparr>)"
| look_cancelled: "main s = AtTop \<Longrightarrow> f_cancelled s \<Longrightarrow> fstep cfg s (s\<lparr>main := Leaving\<rparr>)"
| spawn: "main s = Spawning \<Longrightarrow> int (length (scraping s) + length (updating s)) < max_conc cfg \<Longrightarrow>
    fstep cfg s (s\<lparr>main := AtTop, scraping := f_height s # scraping s, f_height := f_height s + 1\<rparr>)"
| spawn_cancelled: "main s = Spawning \<Longrightarrow> f_cancelled s \<Longrightarrow> fstep cfg s (s\<lparr>main := Leaving\<rparr>)"
| scraped: "h \<in> set (scraping s) \<Longrightarrow> h \<le> chain_head s \<Longrightarrow>
    fstep cfg s (s\<lparr>scraping := remove1 h (scraping s), updating := h # updating s, sent := sent s @ [h]\<rparr>)"
| update: "h \<in> set (updating s) \<Longrightarrow> fstep cfg s (raise_synced h s)"
| latest: "h \<in> set (scraping s) \<Longrightarrow> chain_head s < h \<Longrightarrow>
    fstep cfg s (s\<lparr>scraping := remove1 h (scraping s), status := Stopped\<rparr>)"
| retry: "h \<in> set (scraping s) \<Longrightarrow> fstep cfg s s"
| stop_goroutine: "h \<in> set (scraping s) \<Longrightarrow> f_cancelled s \<Longrightarrow> fstep cfg s (s\<lparr>scraping := remove1 h (scraping s)\<rparr>)"
| pause_load: "status s = Running \<Longrightarrow> fstep cfg s (s\<lparr>pause_pending := True\<rparr>)"
| pause_store: "pause_pending s \<Longrightarrow> fstep cfg s (s\<lparr>pause_pending := False, status := Paused\<rparr>)"
| start_signal: "status s = Paused \<Longrightarrow> fstep cfg s (s\<lparr>status := Running\<rparr>)"
| finish: "main s = Leaving \<Longrightarrow> scraping s = [] \<Longrightarrow> updating s = [] \<Longrightarrow>
    fstep cfg s (s\<lparr>main := Returned (syncedHeight s)\<rparr>)"
| cancel: "fstep cfg s (s\<lparr>f_cancelled := True\<rparr>)"

text \<open>The chain grows while the scraper runs.\<close>

inductive fgrow :: "fast_sync \<Rightarrow> fast_sync \<Rightarrow> bool" where
  grow: "chain_head s \<le> n \<Longrightarrow> fgrow s (s\<lparr>chain_head := n\<rparr>)"

inductive freach :: "config \<Rightarrow> bool \<Rightarrow> fast_sync \<Rightarrow> fast_sync \<Rightarrow> bool" for cfg growing s0 where
  start: "freach cfg growing s0 s0"
| more: "freach cfg growing s0 s \<Longrightarrow> fstep cfg s t \<Longrightarrow> freach cfg growing s0 t"
| grows: "freach cfg growing s0 s \<Longrightarrow> growing \<Longrightarrow> fgrow s t \<Longrightarrow> freach cfg growing s0 t"

inductive_cases fgrowE: "fgrow s t"

text \<open>While the head of the chain stands still, nothing below what was synced is missing.\<close>

definition covered :: "int \<Rightarrow> int \<Rightarrow> fast_sync \<Rightarrow> bool" where
  "covered h0 head s \<longleftrightarrow> f_cancelled s \<or>
     (\<forall>h. h0 \<le> h \<and> h < f_height s \<and> h \<le> head \<longrightarrow> h \<in> set (scraping s) \<or> h \<in> set (sent s))"

definition in_range :: "int \<Rightarrow> int \<Rightarrow> fast_sync \<Rightarrow> bool" where
  "in_range h0 head s \<longleftrightarrow> chain_head s = head \<and> h0 \<le> f_height s \<and>
     (\<forall>h \<in> set (sent s). h0 \<le> h \<and> h < f_height s \<and> h \<le> head)"

definition sync_ok :: "int \<Rightarrow> fast_sync \<Rightarrow> bool" where
  "sync_ok h0 s \<longleftrightarrow> set (updating s) \<subseteq> set (sent s) \<and> (syncedHeight s = h0 - 1 \<or> syncedHeight s \<in> set (sent s)) \<and>
     (\<forall>h \<in> set (sent s). h \<le> syncedHeight s \<or> h \<in> set (updating s)) \<and>
     (\<forall>n. main s = Returned n \<longrightarrow> n = syncedHeight s \<and> scraping s = [] \<and> updating s = [])"

definition fast_inv :: "int \<Rightarrow> int \<Rightarrow> fast_sync \<Rightarrow> bool" where
  "fast_inv h0 head s \<longleftrightarrow> covered h0 head s \<and> in_range h0 head s \<and>
     (\<forall>h \<in> set (scraping s). h0 \<le> h \<and> h < f_height s) \<and> sync_ok h0 s"

lemmas fast_inv_defs = fast_inv_def covered_def in_range_def sync_ok_def

lemma fast_inv_init: "fast_inv h0 head (init_fast h0 head)"
  by (simp add: fast_inv_defs init_fast_def)

lemma remove1_cases: "set xs \<subseteq> insert h (set (remove1 h xs))" "set (remove1 h xs) \<subseteq> set xs"
  by (auto dest: in_remove1 [of _ xs h]) (rule subsetD [OF set_remove1_subset])

lemma sync_update:
  assumes "sync_ok h0 s" "h \<in> set (updating s)"
  shows "sync_ok h0 (raise_synced h s)"
proof -
  have "h \<in> set (sent s)" using assms by (auto simp: sync_ok_def)
  moreover have "k \<le> max (syncedHeight s) h \<or> k \<in> set (remove1 h (updating s))" if "k \<in> set (sent s)" for k
    using that assms in_remove1 [of k "updating s" h] by (auto simp: sync_ok_def max_def)
  moreover have "main s \<noteq> Returned n" for n using assms by (auto simp: sync_ok_def)
  ultimately show ?thesis
    using assms(1) remove1_cases(2) [of h "updating s"]
    by (auto simp: sync_ok_def raise_synced_def max_def subset_iff)
qed

lemma busy: "sync_ok h0 s \<Longrightarrow> h \<in> set (scraping s) \<Longrightarrow> main s \<noteq> Returned n"
  unfolding sync_ok_def by (metis empty_iff list.set(1))

text \<open>A goroutine leaves: its height is delivered, or above the head, or the sync is cancelled.\<close>

lemma covered_leave:
  assumes "covered h0 head s" "scraping t = remove1 h (scraping s)" "set (sent s) \<subseteq> set (sent t)"
    and "f_height t = f_height s" "f_cancelled t = f_cancelled s"
    and "h \<in> set (sent t) \<or> head < h \<or> f_cancelled s"
  shows "covered h0 head t"
proof (cases "f_cancelled t")
  case False
  have "k \<in> set (scraping t) \<or> k \<in> set (sent t)" if k: "h0 \<le> k" "k < f_height t" "k \<le> head" for k
  proof (cases "k = h")
    case True with k False assms(5,6) show ?thesis by auto
  next
    case neq: False
    have "k \<in> set (scraping s) \<or> k \<in> set (sent s)" using assms(1,4,5) False k by (simp add: covered_def)
    then show ?thesis using assms(3) in_remove1 [of k "scraping s" h] neq unfolding assms(2) by blast
  qed
  then show ?thesis unfolding covered_def by blast
qed (simp add: covered_def)

lemma fast_inv_step: "fstep cfg s t \<Longrightarrow> fast_inv h0 head s \<Longrightarrow> fast_inv h0 head t"
proof (induction rule: fstep.induct)
  case (look s)
  then show ?case by (auto simp: fast_inv_defs split: sync_status.splits)
next
  case (spawn s)
  then show ?case by (auto simp: fast_inv_defs zless_add1_eq)
next
  case (scraped h s)
  let ?t = "s\<lparr>scraping := remove1 h (scraping s), updating := h # updating s, sent := sent s @ [h]\<rparr>"
  have inv: "covered h0 head s" "in_range h0 head s" "\<forall>h \<in> set (scraping s). h0 \<le> h \<and> h < f_height s" "sync_ok h0 s"
    using scraped(3) unfolding fast_inv_def by blast+
  have "covered h0 head ?t" by (rule covered_leave [OF inv(1)]) auto
  moreover have "in_range h0 head ?t" using inv(2,3) scraped(1,2) by (simp add: in_range_def ball_Un)
  moreover have "\<forall>h \<in> set (scraping ?t). h0 \<le> h \<and> h < f_height ?t"
    using inv(3) remove1_cases(2) [where xs = "scraping s" and h = h] by auto
  moreover have "sync_ok h0 ?t" using inv(4) busy [OF inv(4) scraped(1)] by (simp add: sync_ok_def) blast
  ultimately show ?case unfolding fast_inv_def by blast
next
  case (update h s)
  then have "sync_ok h0 (raise_synced h s)" by (simp add: fast_inv_def sync_update)
  with update show ?case by (auto simp: fast_inv_def covered_def in_range_def raise_synced_def)
next
  case (latest h s)
  let ?t = "s\<lparr>scraping := remove1 h (scraping s), status := Stopped\<rparr>"
  have inv: "covered h0 head s" "in_range h0 head s" "\<forall>h \<in> set (scraping s). h0 \<le> h \<and> h < f_height s" "sync_ok h0 s"
    using latest(3) unfolding fast_inv_def by blast+
  have "covered h0 head ?t" by (rule covered_leave [OF inv(1)]) (use inv(2) latest(2) in \<open>auto simp: in_range_def\<close>)
  moreover have "in_range h0 head ?t" using inv(2) by (simp add: in_range_def)
  moreover have "\<forall>h \<in> set (scraping ?t). h0 \<le> h \<and> h < f_height ?t"
    using inv(3) remove1_cases(2) [where xs = "scraping s" and h = h] by auto
  moreover have "sync_ok h0 ?t" using inv(4) busy [OF inv(4) latest(1)] by (simp add: sync_ok_def)
  ultimately show ?case unfolding fast_inv_def by blast
next
  case (stop_goroutine h s)
  let ?t = "s\<lparr>scraping := remove1 h (scraping s)\<rparr>"
  have inv: "covered h0 head s" "in_range h0 head s" "\<forall>h \<in> set (scraping s). h0 \<le> h \<and> h < f_height s" "sync_ok h0 s"
    using stop_goroutine(3) unfolding fast_inv_def by blast+
  have "covered h0 head ?t" by (rule covered_leave [OF inv(1)]) (use stop_goroutine(2) in auto)
  moreover have "in_range h0 head ?t" using inv(2) by (simp add: in_range_def)
  moreover have "\<forall>h \<in> set (scraping ?t). h0 \<le> h \<and> h < f_height ?t"
    using inv(3) remove1_cases(2) [where xs = "scraping s" and h = h] by auto
  moreover have "sync_ok h0 ?t" using inv(4) busy [OF inv(4) stop_goroutine(1)] by (simp add: sync_ok_def)
  ultimately show ?case unfolding fast_inv_def by blast
qed (auto simp: fast_inv_defs)

lemma freach_fast_inv: "freach cfg False (init_fast h0 head) s \<Longrightarrow> fast_inv h0 head s"
  by (induction rule: freach.induct) (auto intro: fast_inv_init fast_inv_step)


text \<open>
  \<open>C_RETURN\<close>: what \<open>fastSync\<close> has delivered when it returns, on a chain whose head stood still.
\<close>

lemma fast_sync_complete:
  assumes "freach cfg False (init_fast h0 head) s" "main s = Returned n" "\<not> f_cancelled s"
  shows "\<forall>h. h0 \<le> h \<and> h \<le> n \<longrightarrow> h \<in> set (sent s)"
proof (intro allI impI)
  fix h assume h: "h0 \<le> h \<and> h \<le> n"
  have inv: "covered h0 head s" "in_range h0 head s" "sync_ok h0 s"
    using freach_fast_inv [OF assms(1)] unfolding fast_inv_def by blast+
  have n: "n = syncedHeight s" "scraping s = []" using inv(3) assms(2) unfolding sync_ok_def by blast+
  have "n < f_height s \<and> n \<le> head"
    using inv(2,3) h unfolding in_range_def sync_ok_def n(1) by force
  then show "h \<in> set (sent s)" using inv(1) assms(3) h n(2) by (auto simp: covered_def)
qed

section \<open>Slow sync\<close>

definition BatchScrapSize :: int where
  "BatchScrapSize = 5"

text \<open>
  One batch asks for \<open>BatchScrapSize\<close> heights at once. \<open>results\<close> is in the order the goroutines
  finished; a result is its height and the error, if any.
\<close>

type_synonym scrap_result = "int \<times> err option"

definition batch_heights :: "int \<Rightarrow> int list" where
  "batch_heights height = map (\<lambda>i. height + int i) [0..<nat BatchScrapSize]"

fun error_height :: "scrap_result list \<Rightarrow> int" where
  "error_height [] = - 1"
| "error_height ((h, None) # rs) = error_height rs"
| "error_height ((h, Some e) # rs) = h"

definition slow_next :: "int \<Rightarrow> scrap_result list \<Rightarrow> int" where
  "slow_next height results =
     (let errorHeight = error_height (sort_key fst results)
      in if errorHeight = - 1 then height + BatchScrapSize else errorHeight)"

definition ok_heights :: "scrap_result list \<Rightarrow> int list" where
  "ok_heights results = map fst (filter (\<lambda>r. snd r = None) results)"

record slow_sync =
  s_height :: int
  s_sent :: "int list"
  s_cancelled :: bool

text \<open>A block that was scraped is delivered, or dropped because the context is done by then.\<close>

inductive slow_step :: "slow_sync \<Rightarrow> slow_sync \<Rightarrow> bool" where
  batch: "\<not> s_cancelled s \<Longrightarrow> mset (map fst results) = mset (batch_heights (s_height s)) \<Longrightarrow>
    set delivered \<subseteq> set (ok_heights results) \<Longrightarrow> c \<or> set (ok_heights results) \<subseteq> set delivered \<Longrightarrow>
    slow_step s (s\<lparr>s_height := slow_next (s_height s) results, s_sent := s_sent s @ delivered, s_cancelled := c\<rparr>)"
| cancel: "slow_step s (s\<lparr>s_cancelled := True\<rparr>)"

inductive slow_reach :: "int \<Rightarrow> slow_sync \<Rightarrow> bool" for h0 where
  start: "slow_reach h0 \<lparr>s_height = h0, s_sent = [], s_cancelled = False\<rparr>"
| more: "slow_reach h0 s \<Longrightarrow> slow_step s t \<Longrightarrow> slow_reach h0 t"

inductive_simps slow_step_cancelled: "slow_step (s\<lparr>s_cancelled := True\<rparr>) t"

text \<open>The next height is the lowest one that failed, or the one after the batch.\<close>

lemma error_height_cases:
  "(error_height rs = - 1 \<and> (\<forall>r \<in> set rs. snd r = None)) \<or>
   (\<exists>e. (error_height rs, Some e) \<in> set rs)" if "\<forall>r \<in> set rs. 0 \<le> fst r"
  using that by (induction rs rule: error_height.induct) auto

lemma error_height_least:
  "sorted (map fst rs) \<Longrightarrow> (h, Some e) \<in> set rs \<Longrightarrow> error_height rs \<le> h"
  by (induction rs rule: error_height.induct) auto

lemma error_height_witness:
  "(\<exists>h e. (h, Some e) \<in> set rs) \<Longrightarrow> \<exists>e. (error_height rs, Some e) \<in> set rs"
  by (induction rs rule: error_height.induct) auto

lemma error_height_none: "\<forall>r \<in> set rs. snd r = None \<Longrightarrow> error_height rs = - 1"
  by (induction rs rule: error_height.induct) auto

lemma batch_member: "h \<in> set (batch_heights n) \<longleftrightarrow> n \<le> h \<and> h < n + BatchScrapSize"
proof
  assume h: "n \<le> h \<and> h < n + BatchScrapSize"
  then have "h = n + int (nat (h - n))" "nat (h - n) \<in> set [0..<nat BatchScrapSize]"
    by (auto simp: BatchScrapSize_def)
  then show "h \<in> set (batch_heights n)" unfolding batch_heights_def set_map by (rule image_eqI)
qed (auto simp: batch_heights_def BatchScrapSize_def)

lemma slow_next_spec:
  assumes "mset (map fst results) = mset (batch_heights n)" "0 \<le> n"
  shows "n \<le> slow_next n results" "slow_next n results \<le> n + BatchScrapSize"
    and "\<forall>h. n \<le> h \<and> h < slow_next n results \<longrightarrow> h \<in> set (ok_heights results)"
    and "slow_next n results < n + BatchScrapSize \<longrightarrow> (\<exists>e. (slow_next n results, Some e) \<in> set results)"
proof -
  let ?rs = "sort_key fst results"
  have keys: "fst ` set results = set (batch_heights n)"
    using arg_cong [OF assms(1), of set_mset] by simp
  have range: "n \<le> fst r \<and> fst r < n + BatchScrapSize" if "r \<in> set results" for r
    using that keys batch_member by (metis imageI)
  have here: "\<exists>o'. (h, o') \<in> set results" if "n \<le> h" "h < n + BatchScrapSize" for h
    using that keys batch_member [of h n] by (metis imageE prod.collapse)
  have srt: "sorted (map fst ?rs)" by simp
  have all: "n \<le> slow_next n results \<and> slow_next n results \<le> n + BatchScrapSize \<and>
    (\<forall>h. n \<le> h \<and> h < slow_next n results \<longrightarrow> h \<in> set (ok_heights results)) \<and>
    (slow_next n results < n + BatchScrapSize \<longrightarrow> (\<exists>e. (slow_next n results, Some e) \<in> set results))"
  proof (cases "\<exists>h e. (h, Some e) \<in> set results")
    case True
    then obtain e where e: "(error_height ?rs, Some e) \<in> set results"
      using error_height_witness [of ?rs] by auto
    then have nx: "slow_next n results = error_height ?rs"
      using range [OF e] assms(2) by (auto simp: slow_next_def Let_def)
    have "(h, None) \<in> set results" if h: "n \<le> h" "h < error_height ?rs" for h
    proof -
      have "h < n + BatchScrapSize" using h range [OF e] by simp
      then obtain o' where o': "(h, o') \<in> set results" using here h by blast
      then show ?thesis using error_height_least [OF srt, of h] h by (cases o') force+
    qed
    then show ?thesis using e range [OF e] unfolding nx ok_heights_def by force
  next
    case False
    then have "\<forall>r \<in> set results. snd r = None" by (metis option.exhaust prod.collapse)
    then have "slow_next n results = n + BatchScrapSize" "ok_heights results = map fst results"
      by (simp_all add: slow_next_def error_height_none ok_heights_def)
    then show ?thesis using keys batch_member by (auto simp: BatchScrapSize_def)
  qed
  then show "n \<le> slow_next n results" "slow_next n results \<le> n + BatchScrapSize"
    and "\<forall>h. n \<le> h \<and> h < slow_next n results \<longrightarrow> h \<in> set (ok_heights results)"
    and "slow_next n results < n + BatchScrapSize \<longrightarrow> (\<exists>e. (slow_next n results, Some e) \<in> set results)"
    by blast+
qed

definition slow_inv :: "int \<Rightarrow> slow_sync \<Rightarrow> bool" where
  "slow_inv h0 s \<longleftrightarrow> h0 \<le> s_height s \<and> (\<forall>h \<in> set (s_sent s). h0 \<le> h \<and> h < s_height s + BatchScrapSize) \<and>
     (s_cancelled s \<or> (\<forall>h. h0 \<le> h \<and> h < s_height s \<longrightarrow> h \<in> set (s_sent s)))"

lemma slow_inv_step:
  assumes "slow_step s t" "slow_inv h0 s" "0 \<le> h0"
  shows "slow_inv h0 t"
  using assms(1)
proof cases
  case (batch results delivered c)
  have n: "0 \<le> s_height s" "h0 \<le> s_height s" using assms(2,3) by (simp_all add: slow_inv_def)
  note spec = slow_next_spec [OF batch(3) n(1)]
  have ok: "s_height s \<le> h \<and> h < s_height s + BatchScrapSize" if "h \<in> set (ok_heights results)" for h
  proof -
    have "h \<in> set (map fst results)" using that by (auto simp: ok_heights_def)
    then have "h \<in> set (batch_heights (s_height s))" using mset_eq_setD [OF batch(3)] by simp
    then show ?thesis by (simp add: batch_member)
  qed
  have sent: "h0 \<le> h \<and> h < slow_next (s_height s) results + BatchScrapSize" if "h \<in> set (s_sent s @ delivered)" for h
    using that assms(2) batch(4) ok [of h] n(2) spec(1) by (fastforce simp: slow_inv_def)
  have "h \<in> set (s_sent s @ delivered)" if "\<not> c" "h0 \<le> h" "h < slow_next (s_height s) results" for h
  proof (cases "h < s_height s")
    case True
    then show ?thesis using assms(2) batch(2) that(2) by (simp add: slow_inv_def)
  next
    case False
    then have "h \<in> set (ok_heights results)" using spec(3) that(3) by simp
    then show ?thesis using batch(5) that(1) by auto
  qed
  then show ?thesis using sent spec(1) n(2) unfolding slow_inv_def batch(1) by auto
next
  case cancel
  then show ?thesis using assms(2) by (simp add: slow_inv_def)
qed

lemma slow_reach_inv: "slow_reach h0 s \<Longrightarrow> 0 \<le> h0 \<Longrightarrow> slow_inv h0 s"
proof (induction rule: slow_reach.induct)
  case start
  then show ?case by (simp add: slow_inv_def BatchScrapSize_def)
next
  case (more s t)
  show ?case by (rule slow_inv_step [OF more.hyps(2) more.IH [OF more.prems] more.prems])
qed

section \<open>The whole run\<close>

text \<open>\<open>Run\<close>: fast sync until it returns, then slow sync from the next height.\<close>

definition delivered_by_run :: "config \<Rightarrow> bool \<Rightarrow> int \<Rightarrow> int \<Rightarrow> slow_sync \<Rightarrow> int set \<Rightarrow> bool" where
  "delivered_by_run cfg growing h0 head s hs \<longleftrightarrow>
     (\<exists>f n. freach cfg growing (init_fast h0 head) f \<and> main f = Returned n \<and> \<not> f_cancelled f \<and>
            slow_reach (n + 1) s \<and> hs = set (sent f) \<union> set (s_sent s))"

lemma fast_returns_from:
  assumes "freach cfg False (init_fast h0 head) s" "main s = Returned n"
  shows "h0 - 1 \<le> n"
  using freach_fast_inv [OF assms(1)] assms(2) unfolding fast_inv_def sync_ok_def in_range_def by fastforce

text \<open>
  When the head moves between two answers, a goroutine may see its height refused and a higher
  one then succeed: \<open>syncedHeight\<close> skips the refused height and slow sync starts above it.
\<close>

definition gap_run :: "fast_sync list" where
  "gap_run =
    (let s0 = init_fast 1 0;
         s1 = s0\<lparr>main := Spawning\<rparr>;
         s2 = s1\<lparr>main := AtTop, scraping := [1], f_height := 2\<rparr>;
         s3 = s2\<lparr>main := Spawning\<rparr>;
         s4 = s3\<lparr>main := AtTop, scraping := [2, 1], f_height := 3\<rparr>;
         s5 = s4\<lparr>scraping := [2], status := Stopped\<rparr>;
         s6 = s5\<lparr>chain_head := 2\<rparr>;
         s7 = s6\<lparr>scraping := [], updating := [2], sent := [2]\<rparr>;
         s8 = s7\<lparr>updating := [], syncedHeight := 2\<rparr>;
         s9 = s8\<lparr>main := Leaving\<rparr>;
         s10 = s9\<lparr>main := Returned 2\<rparr>
     in [s0, s1, s2, s3, s4, s5, s6, s7, s8, s9, s10])"

lemma slow_sent_above: "slow_reach h0 s \<Longrightarrow> 0 \<le> h0 \<Longrightarrow> h \<in> set (s_sent s) \<Longrightarrow> h0 \<le> h"
  using slow_reach_inv unfolding slow_inv_def by blast

lemma gap_reached:
  assumes "2 \<le> max_conc cfg"
  shows "\<exists>f. freach cfg True (init_fast 1 0) f \<and> main f = Returned 2 \<and> \<not> f_cancelled f \<and> sent f = [2]"
proof -
  let ?s = "\<lambda>i. gap_run ! i"
  note run = gap_run_def init_fast_def Let_def raise_synced_def nth_Cons_numeral
  note more = freach.more [of cfg True "init_fast 1 0"]
  have r0: "freach cfg True (init_fast 1 0) (?s 0)" using freach.start [of cfg True] by (simp add: run)
  have r1: "freach cfg True (init_fast 1 0) (?s 1)" by (rule more [OF r0]) (use fstep.look [of "?s 0" cfg] in \<open>simp add: run\<close>)
  have r2: "freach cfg True (init_fast 1 0) (?s 2)"
    by (rule more [OF r1]) (use fstep.spawn [of "?s 1" cfg] assms in \<open>simp add: run\<close>)
  have r3: "freach cfg True (init_fast 1 0) (?s 3)" by (rule more [OF r2]) (use fstep.look [of "?s 2" cfg] in \<open>simp add: run\<close>)
  have r4: "freach cfg True (init_fast 1 0) (?s 4)"
    by (rule more [OF r3]) (use fstep.spawn [of "?s 3" cfg] assms in \<open>simp add: run\<close>)
  have r5: "freach cfg True (init_fast 1 0) (?s 5)" by (rule more [OF r4]) (use fstep.latest [of 1 "?s 4" cfg] in \<open>simp add: run\<close>)
  have r6: "freach cfg True (init_fast 1 0) (?s 6)"
    by (rule freach.grows [OF r5]) (use fgrow.grow [of "?s 5" 2] in \<open>simp_all add: run\<close>)
  have r7: "freach cfg True (init_fast 1 0) (?s 7)" by (rule more [OF r6]) (use fstep.scraped [of 2 "?s 6" cfg] in \<open>simp add: run\<close>)
  have r8: "freach cfg True (init_fast 1 0) (?s 8)" by (rule more [OF r7]) (use fstep.update [of 2 "?s 7" cfg] in \<open>simp add: run\<close>)
  have r9: "freach cfg True (init_fast 1 0) (?s 9)" by (rule more [OF r8]) (use fstep.look [of "?s 8" cfg] in \<open>simp add: run\<close>)
  have r10: "freach cfg True (init_fast 1 0) (?s 10)" by (rule more [OF r9]) (use fstep.finish [of "?s 9" cfg] in \<open>simp add: run\<close>)
  have "main (?s 10) = Returned 2 \<and> \<not> f_cancelled (?s 10) \<and> sent (?s 10) = [2]" by (simp add: run)
  with r10 show ?thesis by blast
qed

end
