(* ===== verification/Demo.thy ===== *)
theory Demo
  imports Pipeline Scraper
begin

text \<open>
  One concrete environment, configuration, database and block on which the hypotheses of the
  theorems hold: the witnesses evaluate the model there. The third-party codecs are replaced
  by simple ones with the documented behaviour (the address codec writes a prefix and the
  hexadecimal digits, and reads them back).
\<close>

definition demo_from_bech32 :: "string \<Rightarrow> byte list option" where
  "demo_from_bech32 s = (if has_prefix s ''init1'' then
      (case hex_decode (drop 5 s) of Inr b \<Rightarrow> if b = [] then None else Some b | Inl _ \<Rightarrow> None) else None)"

definition demo_result :: ExecTxResult where
  "demo_result = \<lparr>tr_Code = 0, tr_Data = [], tr_Log = [], tr_Info = [], tr_GasWanted = 2, tr_GasUsed = 1,
     tr_Events = [\<lparr>etype = ''m'', eattrs = [\<lparr>akey = ''a'', aval = ''0x1''\<rparr>]\<rparr>], tr_Codespace = []\<rparr>"

definition demo_env :: env where
  "demo_env = \<lparr>from_bech32 = demo_from_bech32, to_bech32 = (\<lambda>b. ''init1'' @ hex_encode b),
     evict_ids = (\<lambda>c. take 3 c), evict_nfts = (\<lambda>c. take 3 c), evict_strs = (\<lambda>c. take 3 c),
     backfill = (\<lambda>n ids. take n ids), map_order = (\<lambda>xs. xs), id_order = (\<lambda>xs. rev xs),
     tmhash_Sum = (\<lambda>b. b), reject_unknown_TxRaw = (\<lambda>_. None),
     unmarshal_TxRaw = (\<lambda>b. Inr \<lparr>raw_BodyBytes = [], raw_AuthInfoBytes = b, raw_Signatures = [b]\<rparr>),
     reject_unknown_AuthInfo = (\<lambda>_. None),
     unmarshal_AuthInfo = (\<lambda>b. Inr \<lparr>ai_SignerInfos = [\<lparr>si_PublicKey = (if b = [0] then None else Some b)\<rparr>], ai_Fee = Some []\<rparr>),
     unpack_pubkey = (\<lambda>k. if k = [] then Inl (Err ''no key'') else Inr k),
     coins_Add = (\<lambda>a b. a @ b), cb_marshal_coins = (\<lambda>_. Inr ''[]''), cb_marshal_RestTx = (\<lambda>t. Inr (rt_Body t)),
     cb_marshal_events = (\<lambda>_. Inr ''[]''), cb_marshal_Tx = (\<lambda>t. Inr (txr_Tx t)),
     parse_abci_logs = (\<lambda>s. s), unmarshal_log = (\<lambda>_. Inr ([], [])),
     EventTypeEVM = ''evm'', AttributeKeyLog = ''log'', EventTypeCall = ''call'', AttributeKeyRet = ''ret'',
     bytea_param = map (\<lambda>c. of_nat (of_char c)),
     unmarshal_tx_events = (\<lambda>s. if s = [] then Inl (Err ''unexpected end of JSON input'') else Inr (tr_Events demo_result))\<rparr>"

definition demo_cfg :: config where
  "demo_cfg = \<lparr>cfg_ChainId = ''c'', cfg_VmType = MoveVM, cfg_DBBatchSize = 1, cfg_StartHeight = 0,
     cfg_StartHeightSet = False, cfg_MaxConcurrentRequests = 2, cfg_InternalTxEnabled = True,
     cfg_InternalTxBatchSize = 2, cfg_InternalTxQueueSize = 2, cfg_EvmRetCleanupEnabled = True,
     cfg_TxAccountCleanupEnabled = True\<rparr>"

definition empty_db :: db where
  "empty_db = \<lparr>t_seq_info = [], t_block = [], t_tx = [], t_tx_accounts = [], t_tx_nfts = [], t_tx_msg_types = [],
     t_tx_type_tags = [], t_evm_tx = [], t_evm_tx_accounts = [], t_evm_internal_tx = [],
     t_evm_internal_tx_accounts = [], t_nft_collection = [], t_nft = [], t_fa_store = [], t_account_dict = [],
     t_nft_dict = [], t_msg_type_dict = [], t_type_tag_dict = [], t_evm_tx_hash_dict = [], t_rich_list = [],
     t_rich_list_status = [], t_evm_ret_status = [], t_ta_status = []\<rparr>"

definition world_of :: "db \<Rightarrow> world" where
  "world_of d = \<lparr>w_db = d, serial_account = 0, serial_nft = 0, serial_msg_type = 0, serial_type_tag = 0,
     serial_evm_tx_hash = 0, accountCache = [], nftCache = [], msgTypeCache = [], typeTagCache = [],
     evmTxHashCache = [], faStoreCache = [], txCache = Map.empty, moveNftCache = Map.empty,
     wasmNftCache = Map.empty, evmNftCache = Map.empty, nftBlacklist = [], w_faults = []\<rparr>"

definition demo_block :: ScrapedBlock where
  "demo_block = \<lparr>sb_ChainId = ''c'', sb_Height = 1, sb_Timestamp = 7, sb_Hash = ''AB'', sb_Proposer = ''p'',
     sb_Txs = [''AQ==''], sb_TxResults = [demo_result], sb_PreBlock = [], sb_BeginBlock = [], sb_EndBlock = []\<rparr>"

definition demo_rest_tx :: RestTx where
  "demo_rest_tx = \<lparr>rt_Body = CHR ''{'' # CHR 0x22 # ''messages'' @ CHR 0x22 # '':[]}'', rt_AuthInfo = [], rt_Signatures = [''AQ=='']\<rparr>"

definition demo_world :: world where
  "demo_world = (world_of empty_db)\<lparr>txCache := [1 \<mapsto> \<lparr>cd_RestTxs = [demo_rest_tx], cd_EvmTxs = []\<rparr>]\<rparr>"

lemma demo_bech32_ok: "bech32_ok demo_env"
  by (auto simp: bech32_ok_def demo_env_def demo_from_bech32_def has_prefix_def split: sum.splits if_splits)

lemma demo_env_ok: "env_ok demo_env"
  using demo_bech32_ok
  by (auto simp: env_ok_def backfill_ok_def evicts_def) (auto simp: demo_env_def dest: in_set_takeD)

lemma demo_codec_ok: "codec_ok demo_env"
  by (auto simp: codec_ok_def demo_env_def split: if_splits)

lemma demo_valid: "valid_config demo_cfg"
  by (simp add: valid_config_def demo_cfg_def)

lemma demo_dicts: "dict_invs demo_env (world_of empty_db)" "dict_invs demo_env demo_world"
  by (simp_all add: dict_invs_def dict_inv_def account_dict_def msg_type_dict_def type_tag_dict_def world_of_def
      empty_db_def demo_world_def)

lemma runs_Inr: "\<not> isl (fst (f w)) \<Longrightarrow> \<exists>x w'. f w = (Inr x, w')"
  by (cases "f w"; cases "fst (f w)") auto

text \<open>The demo block is collected.\<close>

lemma demo_collects_tx: "fst (collect_tx demo_env demo_cfg demo_block demo_world) = Inr ()"
  by code_simp

text \<open>
  A run of the pipeline: block 1 is scraped twice, collected once, and its second copy reaches the
  map afterwards.
\<close>

definition demo_prep :: prep_rel where
  "demo_prep b w r w' \<longleftrightarrow> r = Inr () \<and> w' = w"

definition demo_nft :: collect_fn where
  "demo_nft E cfg b = ret ()"

definition demo_coll :: coll_fn where
  "demo_coll b = ret ()"

definition demo_start :: indexer where
  "demo_start = init_indexer 1 (world_of empty_db)"

definition demo_end :: indexer where
  "demo_end = demo_start\<lparr>i_height := 2, blockMap := [(1, demo_block)], collected := [demo_block], received := [1, 1]\<rparr>"

lemma demo_prep_pure: "prep_pure demo_prep"
  by (simp add: prep_pure_def demo_prep_def)

lemma demo_run: "reachable demo_prep demo_coll demo_start demo_end"
proof -
  let ?b = demo_block
  note d = demo_start_def init_indexer_def demo_end_def demo_prep_def demo_coll_def demo_block_def ret_def
    MaxInflightBlocks_def MinInflightBlocks_def collect_section_def control_switch_def inflightCount_def
    take_block_def map_put_def map_delete_def
  note more = reachable.more [where prep = demo_prep and coll = demo_coll]
  define s1 where "s1 = demo_start\<lparr>blockChan := [?b], received := [1]\<rparr>"
  define s2 where "s2 = demo_start\<lparr>blockChan := [?b, ?b], received := [1, 1]\<rparr>"
  define s3 where "s3 = demo_start\<lparr>blockChan := [?b], received := [1, 1], prepareCount := 1, preparing := [?b]\<rparr>"
  define s4 where "s4 = demo_start\<lparr>received := [1, 1], prepareCount := 2, preparing := [?b, ?b]\<rparr>"
  define s5 where "s5 = demo_start\<lparr>received := [1, 1], prepareCount := 1, preparing := [?b], blockMap := [(1, ?b)]\<rparr>"
  define s6 where "s6 = demo_start\<lparr>received := [1, 1], prepareCount := 1, preparing := [?b], collecting := Some ?b\<rparr>"
  define s7 where "s7 = demo_start\<lparr>received := [1, 1], prepareCount := 1, preparing := [?b], i_height := 2, collected := [?b]\<rparr>"
  note e = d s1_def s2_def s3_def s4_def s5_def s6_def s7_def
  have 1: "step demo_prep demo_coll demo_start s1"
    using step.scraped [of demo_start demo_prep demo_coll ?b] by (simp add: e)
  have 2: "step demo_prep demo_coll s1 s2" using step.scraped [of s1 demo_prep demo_coll ?b] by (simp add: e)
  have 3: "step demo_prep demo_coll s2 s3" using step.prepare_start [of s2 ?b "[?b]" demo_prep demo_coll] by (simp add: e)
  have 4: "step demo_prep demo_coll s3 s4" using step.prepare_start [of s3 ?b "[]" demo_prep demo_coll] by (simp add: e)
  have 5: "step demo_prep demo_coll s4 s5"
    using step.prepare_done [of s4 ?b demo_prep "i_world s4" demo_coll] by (simp add: e)
  have 6: "step demo_prep demo_coll s5 s6" using step.collect_take [of s5 s6 demo_prep demo_coll] by (simp add: e)
  have 7: "step demo_prep demo_coll s6 s7"
    using step.collect_done [of s6 ?b demo_coll "i_world s6" demo_prep] by (simp add: e)
  have 8: "step demo_prep demo_coll s7 demo_end"
    using step.prepare_done [of s7 ?b demo_prep "i_world s7" demo_coll] by (simp add: e)
  show ?thesis
    by (rule more [OF more [OF more [OF more [OF more [OF more [OF more [OF more [OF reachable.start
      1] 2] 3] 4] 5] 6] 7] 8])
qed

end
