(* ===== verification/Data_Properties.thy ===== *)
theory Data_Properties
  imports Demo
begin

text \<open>
  Properties of the data: hex strings, base64, addresses, JSON, and what is read out of events.
\<close>

section \<open>Hex and base64\<close>

lemma hex_encode_no_prefix: "\<not> has_prefix (hex_encode bs) ''0x''"
proof
  assume p: "has_prefix (hex_encode bs) ''0x''"
  then obtain b cs where bs: "bs = b # cs" by (cases bs) (auto simp: has_prefix_def)
  with p have "hex_digit (unat b mod 16) = CHR ''x''" by (simp add: has_prefix_def)
  moreover have "hex_val (hex_digit (unat b mod 16)) = Some (unat b mod 16)" by simp
  moreover have "hex_val (CHR ''x'') = None" by (simp add: hex_val_def)
  ultimately show False by simp
qed

text \<open>
  Bytes written as a hex string, with or without prefix, in lower or upper case, are read back by \<open>HexToBytes\<close>
  as the same bytes; the same for base64.
\<close>

theorem bytes_round_trip:
  "HexToBytes (BytesToHex bs) = Inr bs \<and> HexToBytes (BytesToHexWithPrefix bs) = Inr bs \<and>
   HexToBytes (BytesToHexWithPrefixIfPresent bs) = Inr bs \<and> HexToBytes (hex_upper bs) = Inr bs \<and>
   DecodeString (EncodeToString bs) = Inr bs"
proof -
  have "HexToBytes (hex_encode bs) = Inr bs"
    using hex_encode_no_prefix [of bs] by (auto simp: HexToBytes_def trim_prefix_def Let_def)
  moreover have "HexToBytes (BytesToHexWithPrefixIfPresent bs) = Inr bs"
    using HexToBytes_prefix [of bs] by (auto simp: BytesToHexWithPrefixIfPresent_def BytesToHexWithPrefix_def HexToBytes_def trim_prefix_def has_prefix_def)
  ultimately show ?thesis by (simp add: BytesToHex_def HexToBytes_prefix)
qed


section \<open>Addresses\<close>

lemma set_pad: "\<forall>c \<in> set h. hex_val c \<noteq> None \<Longrightarrow> \<forall>c \<in> set (pad_address h). hex_val c \<noteq> None"
  by (auto simp: pad_address_def hex_val_def)

lemma trim_left_hex: "(\<forall>c \<in> set (trim_left s (CHR ''0'')). hex_val c \<noteq> None) \<longleftrightarrow> (\<forall>c \<in> set s. hex_val c \<noteq> None)"
proof (induction s)
  case (Cons c s)
  have "hex_val (CHR ''0'') \<noteq> None" by (simp add: hex_val_def)
  with Cons show ?case by (auto simp: trim_left_def)
qed (simp add: trim_left_def)

text \<open>
  A hex address parses exactly when it has hex digits only and at most 64 of them after its leading zeros. The result
  has 20 or 32 bytes, its own hex form parses to the same bytes, and zeros put in front do not matter.
\<close>

theorem hex_address:
  "((\<exists>b. AccAddressFromString dec (''0x'' @ s) = Inr b) \<longleftrightarrow>
      length (trim_left s (CHR ''0'')) \<le> 64 \<and> (\<forall>c \<in> set s. hex_val c \<noteq> None)) \<and>
   (\<forall>b. AccAddressFromString dec (''0x'' @ s) = Inr b \<longrightarrow>
      (length b = 20 \<or> length b = 32) \<and> AccAddressFromString dec (BytesToHexWithPrefix b) = Inr b \<and>
      AccAddressFromString dec (''0x'' @ replicate n (CHR ''0'') @ s) = Inr b)"
proof -
  let ?h = "to_lower (trim_left s (CHR ''0''))"
  have len: "length ?h = length (trim_left s (CHR ''0''))" by (simp add: to_lower_def)
  have digits: "(\<forall>c \<in> set ?h. hex_val c \<noteq> None) \<longleftrightarrow> (\<forall>c \<in> set s. hex_val c \<noteq> None)"
    unfolding trim_left_hex [of s, symmetric] by (simp add: to_lower_def)
  have "(\<exists>b. hex_decode (pad_address ?h) = Inr b) \<longleftrightarrow> (\<forall>c \<in> set ?h. hex_val c \<noteq> None)" if "length ?h \<le> 64"
  proof -
    have "even (length (pad_address ?h))" using length_pad [OF that] by auto
    moreover have "(\<forall>c \<in> set (pad_address ?h). hex_val c \<noteq> None) \<longleftrightarrow> (\<forall>c \<in> set ?h. hex_val c \<noteq> None)"
      using set_pad [of ?h] by (auto simp: pad_address_def)
    ultimately show ?thesis by (simp only: hex_decode_ok_iff simp_thms)
  qed
  then have "(\<exists>b. AccAddressFromString dec (''0x'' @ s) = Inr b) \<longleftrightarrow>
      length (trim_left s (CHR ''0'')) \<le> 64 \<and> (\<forall>c \<in> set s. hex_val c \<noteq> None)"
    using len digits by (auto simp: AccAddressFromString_0x Let_def)
  then show ?thesis using AccAddressFromString_normal [of dec s] AccAddressFromString_padding [of dec n s] by blast
qed

theorem hex_address_witness:
  "AccAddressFromString demo_from_bech32 (''0x'' @ ''1'') = Inr (replicate 19 0 @ [1]) \<and>
   AccAddressFromString demo_from_bech32 (''0x'' @ replicate 3 (CHR ''0'') @ ''1'') = Inr (replicate 19 0 @ [1])"
proof -
  have p: "AccAddressFromString demo_from_bech32 (''0x'' @ ''1'') = Inr (replicate 19 0 @ [1])" by code_simp
  from hex_address [of demo_from_bech32 "''1''" 3] p show ?thesis by blast
qed


section \<open>Keys made of signatures\<close>







section \<open>Stored JSON\<close>

definition ascii_log :: "EvmLog \<Rightarrow> bool" where
  "ascii_log l \<longleftrightarrow> list_all ascii (el_Topics l) \<and> list_all ascii [el_Address l, el_Data l, el_BlockNumber l, el_TxHash l,
     el_TxIndex l, el_BlockHash l, el_LogIndex l]"

definition ascii_receipt :: "EvmTx \<Rightarrow> bool" where
  "ascii_receipt t \<longleftrightarrow> list_all ascii_log (et_Logs t) \<and> list_all ascii (case et_ContractAddress t of None \<Rightarrow> [] | Some c \<Rightarrow> [c]) \<and>
     list_all ascii [et_BlockHash t, et_BlockNumber t, et_CumulativeGasUsed t, et_EffectiveGasPrice t, et_From t, et_GasUsed t,
       et_LogsBloom t, et_Status t, et_To t, et_TxHash t, et_TxIndex t, et_Type t]"

text \<open>
  What \<open>collectEvm\<close> stores of a receipt is JSON that is read back as the same value: every field and log, in order, under
  its own name.
\<close>

theorem receipt_json_round_trip:
  assumes "ascii_receipt t"
  shows "parse_json (print_json (json_EvmTx t)) = Inr (json_EvmTx t)"
proof (rule parse_print)
  have "printable (json_EvmLog l)" if "ascii_log l" for l
    using that by (simp add: json_EvmLog_def ascii_log_def list_all_iff) (simp add: ascii_def)
  then show "printable (json_EvmTx t)"
    using assms by (simp add: json_EvmTx_def ascii_receipt_def list_all_iff split: option.splits) (simp_all add: ascii_def)
qed

definition demo_receipt :: EvmTx where
  "demo_receipt = \<lparr>et_BlockHash = ''0xb'', et_BlockNumber = ''0x1'', et_ContractAddress = None, et_CumulativeGasUsed = ''0x5'',
     et_EffectiveGasPrice = ''0x0'', et_From = ''0x1'', et_GasUsed = ''0x5'',
     et_Logs = [\<lparr>el_Address = ''0x2'', el_Topics = [''0x3'', ''0x4''], el_Data = ''0x'', el_BlockNumber = ''0x1'', el_TxHash = ''0xaa'',
       el_TxIndex = ''0x0'', el_BlockHash = ''0xb'', el_LogIndex = ''0x0'', el_Removed = False\<rparr>],
     et_LogsBloom = ''0x'', et_Status = ''0x1'', et_To = ''0x2'', et_TxHash = ''0xaa'', et_TxIndex = ''0x0'', et_Type = ''0x2''\<rparr>"

theorem receipt_json_round_trip_witness: "parse_json (print_json (json_EvmTx demo_receipt)) = Inr (json_EvmTx demo_receipt)"
  by (rule receipt_json_round_trip) (simp add: demo_receipt_def ascii_receipt_def ascii_log_def ascii_def)

text \<open>An occurrence of \<open>p\<close> in \<open>s\<close>.\<close>

definition occurs :: "string \<Rightarrow> string \<Rightarrow> bool" where
  "occurs p s \<longleftrightarrow> (\<exists>i \<le> length s. has_prefix (drop i s) p)"

lemma has_prefix_Nil [simp]: "has_prefix s []"
  and has_prefix_Cons: "has_prefix (c # s) (d # p) \<longleftrightarrow> c = d \<and> has_prefix s p"
  and has_prefix_empty [simp]: "\<not> has_prefix [] (d # p)"
  by (auto simp: has_prefix_def)

lemma occurs_Nil [simp]: "occurs (d # p) [] = False"
  by (simp add: occurs_def)

lemma occurs_Cons: "occurs p (c # s) \<longleftrightarrow> has_prefix (c # s) p \<or> occurs p s"
proof
  assume "occurs p (c # s)"
  then obtain i where i: "i \<le> Suc (length s)" "has_prefix (drop i (c # s)) p" by (auto simp: occurs_def)
  then show "has_prefix (c # s) p \<or> occurs p s" by (cases i) (auto simp: occurs_def)
next
  assume "has_prefix (c # s) p \<or> occurs p s"
  then show "occurs p (c # s)"
  proof
    assume "occurs p s"
    then obtain i where "i \<le> length s" "has_prefix (drop i s) p" by (auto simp: occurs_def)
    then show ?thesis unfolding occurs_def by (intro exI [of _ "Suc i"]) simp
  qed (auto simp: occurs_def intro: exI [of _ 0])
qed

lemma replace_all_cons:
  "old \<noteq> [] \<Longrightarrow> replace_all old new (c # s) =
     (if has_prefix (c # s) old then new @ replace_all old new (drop (length old) (c # s)) else c # replace_all old new s)"
  by (subst replace_all.simps) simp

lemma replace_all_Nil [simp]: "replace_all old new [] = []"
  by (simp add: replace_all.simps)

lemma set_replace_all: "set (replace_all old new s) \<subseteq> set new \<union> set s"
proof (induction old new s rule: replace_all.induct)
  case (1 old new s)
  show ?case
  proof (cases "s = [] \<or> old = []")
    case False
    then obtain c t where s: "s = c # t" by (cases s) auto
    have "set (drop (length old) s) \<subseteq> set s" by (rule set_drop_subset)
    show ?thesis
    proof (cases "has_prefix s old")
      case True
      with 1(1) False have "set (replace_all old new (drop (length old) s)) \<subseteq> set new \<union> set (drop (length old) s)" by blast
      moreover have "replace_all old new s = new @ replace_all old new (drop (length old) s)"
        using True False s replace_all_cons [of old new c t] by simp
      ultimately show ?thesis using \<open>set (drop (length old) s) \<subseteq> set s\<close> by auto
    next
      case no: False
      with 1(2) False s have "set (replace_all old new t) \<subseteq> set new \<union> set t" by simp
      with no False s show ?thesis by (auto simp: replace_all_cons)
    qed
  qed (auto simp: replace_all.simps)
qed

text \<open>A prefix of the result without the first character of the replacement is a prefix of the source.\<close>

lemma replace_prefix:
  assumes "old \<noteq> []" "new \<noteq> []" "hd new \<notin> set p" "has_prefix (replace_all old new s) p"
  shows "has_prefix s p"
  using assms(3,4)
proof (induction p arbitrary: s)
  case (Cons d p)
  show ?case
  proof (cases s)
    case (Cons c t)
    show ?thesis
    proof (cases "has_prefix (c # t) old")
      case True
      obtain n ns where "new = n # ns" using assms(2) by (cases new) auto
      with True Cons Cons.prems assms(1) show ?thesis by (simp add: replace_all_cons has_prefix_Cons)
    next
      case False
      with Cons Cons.prems assms(1) Cons.IH [of t] show ?thesis by (simp add: replace_all_cons has_prefix_Cons)
    qed
  qed (use Cons.prems in simp)
qed simp

lemma no_nul_escape: "\<not> occurs nul_escape (replace_all nul_escape (CHR 0x5C # ''uFFFD'') s)"
proof (induction nul_escape "CHR 0x5C # ''uFFFD''" s rule: replace_all.induct)
  case (1 s)
  let ?new = "CHR 0x5C # ''uFFFD''"
  show ?case
  proof (cases s)
    case (Cons c t)
    show ?thesis
    proof (cases "has_prefix s nul_escape")
      case True
      have "\<not> occurs nul_escape (replace_all nul_escape ?new (drop (length nul_escape) s))"
        by (rule 1(1)) (use True Cons in \<open>simp_all add: nul_escape_def\<close>)
      moreover have "replace_all nul_escape ?new s = ?new @ replace_all nul_escape ?new (drop (length nul_escape) s)"
        using True Cons replace_all_cons [of nul_escape ?new c t] by (simp only: if_True) (simp add: nul_escape_def)
      ultimately show ?thesis by (simp add: occurs_Cons has_prefix_Cons nul_escape_def)
    next
      case False
      have ih: "\<not> occurs nul_escape (replace_all nul_escape ?new t)"
        using 1(2) False Cons by (simp add: nul_escape_def)
      have eq: "replace_all nul_escape ?new s = c # replace_all nul_escape ?new t"
        using False Cons replace_all_cons [of nul_escape ?new c t] by (simp only: if_False) (simp add: nul_escape_def)
      have "\<not> has_prefix (c # replace_all nul_escape ?new t) nul_escape"
      proof
        assume "has_prefix (c # replace_all nul_escape ?new t) nul_escape"
        then have c: "c = CHR 0x5C" and p: "has_prefix (replace_all nul_escape ?new t) ''u0000''"
          by (simp_all add: nul_escape_def has_prefix_Cons)
        have "has_prefix t ''u0000''" by (rule replace_prefix [OF _ _ _ p]) (simp_all add: nul_escape_def)
        with c False Cons show False by (simp add: nul_escape_def has_prefix_Cons)
      qed
      with ih show ?thesis by (simp add: eq occurs_Cons)
    qed
  qed (simp add: nul_escape_def)
qed

text \<open>
  What \<open>sanitizeJSONBytes\<close> returns holds no NUL byte and no NUL escape, and data without either is returned as it is.
\<close>

theorem sanitized:
  "CHR 0x00 \<notin> set (sanitizeJSONBytes data) \<and> \<not> occurs nul_escape (sanitizeJSONBytes data) \<and>
   (CHR 0x00 \<notin> set data \<and> \<not> occurs nul_escape data \<longrightarrow> sanitizeJSONBytes data = data)"
proof -
  have nul: "CHR 0x00 \<notin> set (replace_all nul [CHR 0xEF, CHR 0xBF, CHR 0xBD] s)" for s
  proof (induction s)
    case (Cons c s)
    then show ?case by (auto simp: replace_all_cons nul_def has_prefix_Cons)
  qed simp
  have id: "replace_all p new s = s" if "\<not> occurs p s" "p \<noteq> []" for p new s
    using that by (induction s) (auto simp: replace_all_cons occurs_Cons)
  have "CHR 0x00 \<notin> set (sanitizeJSONBytes data)"
    using nul set_replace_all by (fastforce simp: sanitizeJSONBytes_def)
  moreover have "sanitizeJSONBytes data = data" if "CHR 0x00 \<notin> set data" "\<not> occurs nul_escape data"
  proof -
    have "\<not> occurs nul s" if "CHR 0x00 \<notin> set s" for s using that by (induction s) (auto simp: nul_def occurs_Cons has_prefix_Cons)
    with that id show ?thesis by (simp add: sanitizeJSONBytes_def nul_def nul_escape_def)
  qed
  ultimately show ?thesis using no_nul_escape by (simp add: sanitizeJSONBytes_def)
qed

theorem sanitized_witness: "sanitizeJSONBytes ''ok'' = ''ok''"
proof -
  have "CHR 0x00 \<notin> set ''ok''" "\<not> occurs nul_escape ''ok''" by (simp_all add: nul_escape_def occurs_Cons has_prefix_Cons)
  with sanitized [of "''ok''"] show ?thesis by blast
qed

text \<open>
  The sanitizer works on bytes, not on JSON: the string of the six characters backslash, u, 0, 0, 0, 0 holds no NUL, its
  JSON text escapes the backslash, and the sanitizer still changes it into another string.
\<close>

theorem sanitizer_changes_text:
  "parse_json (print_json (JStr nul_escape)) = Inr (JStr nul_escape) \<and>
   parse_json (sanitizeJSONBytes (print_json (JStr nul_escape))) = Inr (JStr (CHR 0x5C # ''uFFFD''))"
proof
  show "parse_json (print_json (JStr nul_escape)) = Inr (JStr nul_escape)"
    by (rule parse_print) (simp add: nul_escape_def ascii_def)
  have "sanitizeJSONBytes (print_json (JStr nul_escape)) = print_json (JStr (CHR 0x5C # ''uFFFD''))" by code_simp
  then show "parse_json (sanitizeJSONBytes (print_json (JStr nul_escape))) = Inr (JStr (CHR 0x5C # ''uFFFD''))"
    by (simp only:) (rule parse_print, simp add: ascii_def)
qed


section \<open>Addresses in events\<close>




text \<open>
  A \<open>move\<close> event whose first attribute is its \<open>data\<close> stops the search with an index panic, whatever comes with it:
  the code reads the attribute before it.
\<close>

theorem data_first_panics:
  assumes "etype e = ''move''" "eattrs e = attr # attrs" "akey attr = ''data''"
  shows "GrepAddressesFromTx E (e # events) w = (Inl (Panic ''index out of range [-1]''), w)"
  using assms by (simp add: GrepAddressesFromTx_def grep_events_def grep_attribute_def bnd_def)

theorem data_first_panics_witness:
  "fst (GrepAddressesFromTx demo_env [\<lparr>etype = ''move'', eattrs = [\<lparr>akey = ''data'', aval = ''{}''\<rparr>]\<rparr>] demo_world) =
     Inl (Panic ''index out of range [-1]'')"
  using data_first_panics [of "\<lparr>etype = ''move'', eattrs = [\<lparr>akey = ''data'', aval = ''{}''\<rparr>]\<rparr>" "\<lparr>akey = ''data'', aval = ''{}''\<rparr>"] by simp

text \<open>
  \<open>ExtractEvents\<close> returns the events of the asked type in the order of the block: before the transactions, then per
  transaction with its hash, then after them; a block with fewer results than transactions is not accepted.
\<close>

theorem extracted_events:
  assumes "ExtractEvents E block t = Inr events"
  shows "events = parseEvents (sb_PreBlock block) [] t @ parseEvents (sb_BeginBlock block) [] t @
      concat (map (tx_events E block t) [0..<length (sb_Txs block)]) @ parseEvents (sb_EndBlock block) [] t \<and>
    (length (sb_Txs block) \<le> length (sb_TxResults block) \<or> sb_Txs block = []) \<and>
    (\<forall>p \<in> set events. etype (pe_Event p) = t)"
  using ExtractEvents_Inr [OF assms] ExtractEvents_type [OF assms] by blast

theorem extracted_events_witness:
  "\<exists>events. ExtractEvents demo_env demo_block ''m'' = Inr events \<and> events = tx_events demo_env demo_block ''m'' 0"
proof -
  have "\<not> isl (ExtractEvents demo_env demo_block ''m'')" by code_simp
  then obtain events where ev: "ExtractEvents demo_env demo_block ''m'' = Inr events"
    by (cases "ExtractEvents demo_env demo_block ''m''") simp_all
  from extracted_events [OF this] ev show ?thesis by (simp add: demo_block_def parseEvents_def)
qed


section \<open>Dictionaries\<close>

text \<open>C23.
  \<open>GetOrCreateAccountIds\<close> with \<open>createNew\<close> gives every requested account an id, the one its row holds afterwards;
  the table only grows, cache and table stay consistent, and equal ids mean equal accounts.
\<close>

theorem accounts_get_ids:
  assumes "env_ok E" "dict_inv (account_dict E) w" "\<forall>a \<in> set accounts. canonical E a"
    and "GetOrCreateAccountIds E accounts True w = (Inr m, w')"
  shows "dict_inv (account_dict E) w' \<and> dom m = set accounts \<and> inj_on m (set accounts) \<and>
    (\<exists>u. t_account_dict (w_db w') = t_account_dict (w_db w) @ u) \<and>
    (\<forall>a \<in> set accounts. \<exists>i. m a = Some i \<and> has_account E w' a i)"
proof -
  note s = GetOrCreateAccountIds_create [OF assms]
  have ids: "\<exists>i. m a = Some i \<and> has_account E w' a i" if "a \<in> set accounts" for a
    using bspec [OF s(3) that] unfolding has_account_def by blast
  have "inj_on m (set accounts)"
  proof (rule inj_onI)
    fix a a' assume *: "a \<in> set accounts" "a' \<in> set accounts" "m a = m a'"
    from ids [OF *(1)] ids [OF *(2)] *(3) obtain i where "has_account E w' a i" "has_account E w' a' i" by auto
    then obtain b b' where b: "a = to_bech32 E b" "a' = to_bech32 E b'"
      "(i, b) \<in> set (t_account_dict (w_db w'))" "(i, b') \<in> set (t_account_dict (w_db w'))" by (auto simp: has_account_def)
    have "distinct (map fst (t_account_dict (w_db w')))" using s(1) unfolding dict_inv_def account_rows by blast
    from eq_key_imp_eq_value [OF this b(3,4)] have "b = b'" .
    with b(1,2) show "a = a'" by simp
  qed
  moreover have "dom m = set accounts" using s(4) ids by force
  ultimately show ?thesis using s(1,2) ids by blast
qed

theorem accounts_get_ids_witness:
  "\<exists>m w'. GetOrCreateAccountIds demo_env [to_bech32 demo_env [1]] True demo_world = (Inr m, w') \<and> dom m = {to_bech32 demo_env [1]}"
proof -
  have "\<not> isl (fst (GetOrCreateAccountIds demo_env [to_bech32 demo_env [1]] True demo_world))" by code_simp
  then obtain m w' where run: "GetOrCreateAccountIds demo_env [to_bech32 demo_env [1]] True demo_world = (Inr m, w')"
    by (blast dest: runs_Inr)
  have inv: "dict_inv (account_dict demo_env) demo_world" using demo_dicts(2) by (simp add: dict_invs_def)
  have can: "\<forall>a \<in> set [to_bech32 demo_env [1]]. canonical demo_env a" by (auto simp: canonical_def)
  from accounts_get_ids [OF demo_env_ok inv can run] run show ?thesis by simp
qed

end
