(* ===== verification/Sync_Properties.thy ===== *)
theory Sync_Properties
  imports Demo
begin

text \<open>
  Properties of the start of the indexer and of the scraper.
\<close>

section \<open>The start height\<close>

lemma last_height_upper:
  assumes "r \<in> set (t_block d)" "blk_ChainId r = chain"
  shows "blk_Height r \<le> last_height chain d"
proof -
  let ?t = "filter (\<lambda>r. blk_ChainId r = chain) (t_block d)"
  have "r \<in> set ?t" using assms by simp
  from coalesce_max_upper [OF this, of blk_Height] show ?thesis
    by (simp add: last_height_def coalesce_max_def)
qed

text \<open>
  The indexer starts above every stored block of its chain, at the next height when no start is configured, and otherwise
  at the configured height, clamped to the head of the chain, where that is above the stored blocks.
\<close>

theorem start_height_bounds:
  "(\<forall>r \<in> set (t_block d). blk_ChainId r = cfg_ChainId cfg \<longrightarrow> blk_Height r < start_height cfg d head) \<and>
   (\<not> cfg_StartHeightSet cfg \<longrightarrow> start_height cfg d head = last_height (cfg_ChainId cfg) d + 1) \<and>
   (cfg_StartHeightSet cfg \<longrightarrow> start_height cfg d head = max (last_height (cfg_ChainId cfg) d + 1) (min head (max 0 (cfg_StartHeight cfg))))"
  using last_height_upper [where chain = "cfg_ChainId cfg" and d = d]
  by (fastforce simp: start_height_def computeStartHeight_def)

theorem start_height_bounds_witness:
  "start_height (demo_cfg\<lparr>cfg_StartHeightSet := True, cfg_StartHeight := 50\<rparr>) empty_db 20 = 20 \<and> start_height demo_cfg empty_db 20 = 1"
proof -
  let ?c = "demo_cfg\<lparr>cfg_StartHeightSet := True, cfg_StartHeight := 50\<rparr>"
  have l: "last_height c empty_db = 0" for c by (simp add: last_height_def empty_db_def)
  have "cfg_StartHeightSet ?c" "\<not> cfg_StartHeightSet demo_cfg" "cfg_StartHeight ?c = 50" by (simp_all add: demo_cfg_def)
  with start_height_bounds [of empty_db ?c 20] start_height_bounds [of empty_db demo_cfg 20] show ?thesis by (simp add: l)
qed

text \<open>
  Whatever the head of the chain, there is a database for which the start height is above it, although the code says that
  the effective height is at most the head.
\<close>

theorem start_above_head: "\<exists>cfg d. head < start_height cfg d head"
proof -
  define row where "row = \<lparr>blk_ChainId = cfg_ChainId demo_cfg, blk_Height = head, blk_Hash = [], blk_Timestamp = 0, blk_BlockTime = 0,
     blk_Proposer = [], blk_GasUsed = 0, blk_GasWanted = 0, blk_TxCount = 0, blk_TotalFee = []\<rparr>"
  have "head < start_height demo_cfg (empty_db\<lparr>t_block := [row]\<rparr>) head"
    by (simp add: start_height_def computeStartHeight_def last_height_def row_def)
  then show ?thesis by blast
qed

text \<open>
  \<open>wait\<close> goes on after errors and low answers, and returns at the first answer above \<open>MinChainHeightToStart\<close>.
\<close>

theorem wait_returns_first:
  "wait_for_chain rs = Some n \<longleftrightarrow> 0 < n \<and> n \<le> length rs \<and> (\<exists>h. rs ! (n - 1) = Inr h \<and> h > MinChainHeightToStart) \<and>
     (\<forall>i < n - 1. \<forall>h. rs ! i = Inr h \<longrightarrow> h \<le> MinChainHeightToStart)"
proof (induction rs arbitrary: n rule: wait_for_chain.induct)
  case 1
  show ?case by (cases n) auto
next
  case (2 e rs)
  show ?case
  proof (cases n)
    case (Suc k)
    have "wait_for_chain (Inl e # rs) = Some n \<longleftrightarrow> wait_for_chain rs = Some k" by (auto simp: Suc)
    also have "\<dots> \<longleftrightarrow> 0 < n \<and> n \<le> length (Inl e # rs) \<and> (\<exists>h. (Inl e # rs) ! (n - 1) = Inr h \<and> h > MinChainHeightToStart) \<and>
        (\<forall>i < n - 1. \<forall>h. (Inl e # rs) ! i = Inr h \<longrightarrow> h \<le> MinChainHeightToStart)"
      unfolding 2 Suc by (cases k) (auto simp: All_less_Suc2)
    finally show ?thesis .
  qed auto
next
  case (3 c rs)
  show ?case
  proof (cases n)
    case (Suc k)
    show ?thesis
    proof (cases "c > MinChainHeightToStart")
      case True
      then show ?thesis by (cases k) (auto simp: Suc All_less_Suc2)
    next
      case False
      then have "wait_for_chain (Inr c # rs) = Some n \<longleftrightarrow> wait_for_chain rs = Some k" by (auto simp: Suc)
      also have "\<dots> \<longleftrightarrow> 0 < n \<and> n \<le> length (Inr c # rs) \<and> (\<exists>h. (Inr c # rs) ! (n - 1) = Inr h \<and> h > MinChainHeightToStart) \<and>
          (\<forall>i < n - 1. \<forall>h. (Inr c # rs) ! i = Inr h \<longrightarrow> h \<le> MinChainHeightToStart)"
        unfolding 3 [OF False] Suc using False by (cases k) (auto simp: All_less_Suc2)
      finally show ?thesis .
    qed
  qed auto
qed

theorem wait_returns_first_witness: "wait_for_chain [Inl Canceled, Inr 3, Inr 11] = Some 3"
  unfolding wait_returns_first by (auto simp: MinChainHeightToStart_def less_Suc_eq numeral_2_eq_2 numeral_3_eq_3)


section \<open>The scraper\<close>

text \<open>C16.
  As long as the head of the chain does not move during fast sync, \<open>Run\<close> misses nothing: whatever the order in which
  requests end, every height from the first one to the next one slow sync asks for has been delivered, and nothing below.
\<close>

theorem run_delivers_all:
  assumes "delivered_by_run cfg False h0 head s hs" "\<not> s_cancelled s" "0 \<le> h0"
  shows "(\<forall>h. h0 \<le> h \<and> h < s_height s \<longrightarrow> h \<in> hs) \<and> (\<forall>h \<in> hs. h0 \<le> h)"
proof -
  from assms(1) obtain f n where f: "freach cfg False (init_fast h0 head) f" "main f = Returned n" "\<not> f_cancelled f"
    and s: "slow_reach (n + 1) s" and hs: "hs = set (sent f) \<union> set (s_sent s)" by (auto simp: delivered_by_run_def)
  have n: "h0 - 1 \<le> n" by (rule fast_returns_from [OF f(1,2)])
  have slow: "slow_inv (n + 1) s" by (rule slow_reach_inv [OF s]) (use n assms(3) in simp)
  have fast: "h0 \<le> h" if "h \<in> set (sent f)" for h
    using freach_fast_inv [OF f(1)] that unfolding fast_inv_def in_range_def by blast
  have "h \<in> hs" if "h0 \<le> h" "h < s_height s" for h
  proof (cases "h \<le> n")
    case True
    then show ?thesis using fast_sync_complete [OF f] that(1) by (simp add: hs)
  next
    case False
    then show ?thesis using slow assms(2) that(2) by (simp add: slow_inv_def hs)
  qed
  then show ?thesis using slow fast n by (fastforce simp: hs slow_inv_def)
qed

lemma demo_fast_run: "freach demo_cfg False (init_fast 1 0) ((init_fast 1 0)\<lparr>main := Returned 0, f_height := 2, status := Stopped\<rparr>)"
proof -
  let ?s = "init_fast 1 0"
  note d = init_fast_def max_conc_def demo_cfg_def
  note more = freach.more [of demo_cfg False ?s]
  define s1 where "s1 = ?s\<lparr>main := Spawning\<rparr>"
  define s2 where "s2 = ?s\<lparr>scraping := [1], f_height := 2\<rparr>"
  define s3 where "s3 = ?s\<lparr>f_height := 2, status := Stopped\<rparr>"
  define s4 where "s4 = s3\<lparr>main := Leaving\<rparr>"
  note e = d s1_def s2_def s3_def s4_def
  have 1: "fstep demo_cfg ?s s1" using fstep.look [of ?s demo_cfg] by (simp add: e)
  have 2: "fstep demo_cfg s1 s2" using fstep.spawn [of s1 demo_cfg] by (simp add: e)
  have 3: "fstep demo_cfg s2 s3" using fstep.latest [of 1 s2 demo_cfg] by (simp add: e)
  have 4: "fstep demo_cfg s3 s4" using fstep.look [of s3 demo_cfg] by (simp add: e)
  have 5: "fstep demo_cfg s4 (?s\<lparr>main := Returned 0, f_height := 2, status := Stopped\<rparr>)"
    using fstep.finish [of s4 demo_cfg] by (simp add: e)
  show ?thesis by (rule more [OF more [OF more [OF more [OF more [OF freach.start 1] 2] 3] 4] 5])
qed

theorem run_delivers_all_witness:
  "\<exists>s hs. delivered_by_run demo_cfg False 1 0 s hs \<and> s_height s = 6 \<and> (\<forall>h. 1 \<le> h \<and> h < 6 \<longrightarrow> h \<in> hs)"
proof -
  let ?rs = "[(1, None), (2, None), (3, None), (4, None), (5, None)] :: scrap_result list"
  define s where "s = \<lparr>s_height = 6, s_sent = [1, 2, 3, 4, 5], s_cancelled = False\<rparr>"
  have b: "batch_heights 1 = [1, 2, 3, 4, 5]" by (simp add: batch_heights_def BatchScrapSize_def upt_rec numeral_eq_Suc)
  have nx: "slow_next 1 ?rs = 6" by (simp add: slow_next_def BatchScrapSize_def)
  have "slow_step \<lparr>s_height = 1, s_sent = [], s_cancelled = False\<rparr> s"
    using slow_step.batch [of "\<lparr>s_height = 1, s_sent = [], s_cancelled = False\<rparr>" ?rs "[1, 2, 3, 4, 5]" False]
    by (simp add: s_def b nx ok_heights_def)
  then have "slow_reach 1 s" using slow_reach.more [OF slow_reach.start] by blast
  then have d: "delivered_by_run demo_cfg False 1 0 s (set (sent (init_fast 1 0)) \<union> set (s_sent s))"
    unfolding delivered_by_run_def using demo_fast_run
    by (intro exI [of _ "(init_fast 1 0)\<lparr>main := Returned 0, f_height := 2, status := Stopped\<rparr>"] exI [of _ 0]) (simp add: init_fast_def)
  from run_delivers_all [OF d] d show ?thesis by (intro exI [of _ s] exI) (auto simp: s_def)
qed

text \<open>C34.
  When the chain grows between two answers a height can be lost: fast sync can return past height 1 without having
  delivered it, and slow sync, which starts above, never does.
\<close>

theorem growing_head_loses_height:
  assumes "2 \<le> max_conc cfg"
  shows "\<exists>f. freach cfg True (init_fast 1 0) f \<and> main f = Returned 2 \<and> \<not> f_cancelled f \<and> 1 \<le> chain_head f \<and>
    (\<forall>s. slow_reach (2 + 1) s \<longrightarrow> 1 \<notin> set (sent f) \<union> set (s_sent s))"
proof -
  from gap_reached [OF assms] obtain f where f: "freach cfg True (init_fast 1 0) f" "main f = Returned 2" "\<not> f_cancelled f"
    "sent f = [2]" by blast
  have head: "\<forall>h \<in> set (sent g). h \<le> chain_head g" if "freach cfg True (init_fast 1 0) g" for g
    using that
  proof (induction rule: freach.induct)
    case start
    show ?case by (simp add: init_fast_def)
  next
    case (more s t)
    from more(2) more(3) show ?case by (induction rule: fstep.induct) (auto simp: raise_synced_def)
  next
    case (grows s t)
    from grows(3) grows(4) show ?case by (induction rule: fgrow.induct) auto
  qed
  have "2 \<le> chain_head f" using head [OF f(1)] f(4) by simp
  moreover have "1 \<notin> set (s_sent s)" if "slow_reach (2 + 1) s" for s using slow_sent_above [OF that, of 1] by auto
  ultimately show ?thesis using f by (intro exI [of _ f]) simp
qed

theorem growing_head_loses_height_witness:
  "\<exists>f :: fast_sync. main f = Returned 2 \<and> (\<forall>s. slow_reach (2 + 1) s \<longrightarrow> 1 \<notin> set (sent f) \<union> set (s_sent s))"
proof -
  have "2 \<le> max_conc demo_cfg" by (simp add: max_conc_def demo_cfg_def)
  from growing_head_loses_height [OF this] show ?thesis by blast
qed

text \<open>
  After a batch, slow sync goes on at the lowest height that failed, or after the batch; every height below it succeeded.
\<close>

theorem slow_sync_next:
  assumes "mset (map fst results) = mset (batch_heights n)" "0 \<le> n"
  shows "n \<le> slow_next n results \<and> slow_next n results \<le> n + BatchScrapSize \<and>
    (\<forall>h. n \<le> h \<and> h < slow_next n results \<longrightarrow> h \<in> set (ok_heights results)) \<and>
    (slow_next n results < n + BatchScrapSize \<longrightarrow> (\<exists>e. (slow_next n results, Some e) \<in> set results))"
  using slow_next_spec [OF assms] by blast

theorem slow_sync_next_witness:
  "slow_next 7 [(9, Some Canceled), (8, None), (11, Some Canceled), (7, None), (10, None)] = 9 \<and>
   8 \<in> set (ok_heights [(9, Some Canceled), (8, None), (11, Some Canceled), (7, None), (10, None)])"
proof -
  let ?rs = "[(9, Some Canceled), (8, None), (11, Some Canceled), (7, None), (10, None)]"
  have b: "batch_heights 7 = [7, 8, 9, 10, 11]" by (simp add: batch_heights_def BatchScrapSize_def upt_rec numeral_eq_Suc)
  have m: "mset (map fst ?rs) = mset (batch_heights 7)" by (simp add: b add_mset_commute)
  have nx: "slow_next 7 ?rs = 9" by code_simp
  from slow_sync_next [OF m] nx show ?thesis by auto
qed

text \<open>
  A scraped block has the height that was asked for, the transactions and results of the answers, the time of the block
  in nanoseconds, and every event in the list of its phase, in order.
\<close>

theorem scraped_block:
  assumes "parseScrapedBlock va blk res h = Inr b"
  shows "sb_Height b = h \<and> sb_ChainId b = gb_ChainId blk \<and> sb_Txs b = gb_Txs blk \<and> sb_TxResults b = gr_TxsResults res \<and>
    parse_time (gb_Time blk) = Inr (sb_Timestamp b) \<and> va (gb_ProposerAddress blk) = Inr (sb_Proposer b) \<and>
    sb_PreBlock b = filter (\<lambda>x. event_phase x = Some PreBlockPhase) (gr_FinalizeBlockEvents res) \<and>
    sb_BeginBlock b = filter (\<lambda>x. event_phase x = Some BeginBlockPhase) (gr_FinalizeBlockEvents res) \<and>
    sb_EndBlock b = filter (\<lambda>x. event_phase x = Some EndBlockPhase) (gr_FinalizeBlockEvents res)"
  using assms by (auto simp: parseScrapedBlock_def rbind_eq_Inr phase_fold)

theorem scraped_block_witness:
  "\<exists>b. parseScrapedBlock Inr \<lparr>gb_Hash = [], gb_ChainId = ''c'', gb_Time = ''1970-01-01T00:00:01.5Z'', gb_ProposerAddress = ''p'', gb_Txs = []\<rparr>
     \<lparr>gr_FinalizeBlockEvents = [\<lparr>etype = ''e'', eattrs = [\<lparr>akey = ''mode'', aval = ''EndBlock''\<rparr>]\<rparr>], gr_TxsResults = []\<rparr> 4 = Inr b \<and>
     sb_Timestamp b = 1500000000 \<and> sb_PreBlock b = []"
proof -
  let ?blk = "\<lparr>gb_Hash = [], gb_ChainId = ''c'', gb_Time = ''1970-01-01T00:00:01.5Z'', gb_ProposerAddress = ''p'', gb_Txs = []\<rparr>"
  let ?res = "\<lparr>gr_FinalizeBlockEvents = [\<lparr>etype = ''e'', eattrs = [\<lparr>akey = ''mode'', aval = ''EndBlock''\<rparr>]\<rparr>], gr_TxsResults = []\<rparr>"
  have t: "parse_time ''1970-01-01T00:00:01.5Z'' = Inr 1500000000" by code_simp
  have "\<not> isl (parseScrapedBlock Inr ?blk ?res 4)" by (simp add: parseScrapedBlock_def t Let_def split: prod.splits)
  then obtain b where b: "parseScrapedBlock Inr ?blk ?res 4 = Inr b" by (cases "parseScrapedBlock Inr ?blk ?res 4") simp_all
  from scraped_block [OF b] b show ?thesis by (auto simp: t event_phase_def)
qed

end
