(* ===== verification/Internal_Tx.thy ===== *)
theory Internal_Tx
  imports Tx_Collect_Proofs
begin

text \<open>
  The internal-transaction extension: \<open>src/indexer/extension/internaltx/\<close> (\<open>address.go\<close>, \<open>util.go\<close>,
  \<open>collect.go\<close>). The call trace of a block is a forest: one tree of calls per transaction. Every call
  becomes a row; rows of a tree are numbered in pre-order and point to their parent's number.
\<close>

section \<open>Call traces\<close>

datatype InternalTransaction = InternalTransaction
  (it_Type: string) (it_From: string) (it_To: string) (it_Value: string) (it_Gas: string) (it_GasUsed: string)
  (it_Input: string) (it_Output: string) (it_Calls: "InternalTransaction list")

record TransactionTrace =
  tt_TxHash :: string
  tt_Error :: string
  tt_Type :: string
  tt_From :: string
  tt_To :: string
  tt_Value :: string
  tt_Gas :: string
  tt_GasUsed :: string
  tt_Input :: string
  tt_Calls :: "InternalTransaction list"

record InternalTxInfo =
  iti_Height :: int
  iti_HashId :: int
  iti_Index :: int
  iti_ParentIndex :: int

record InternalTxResult =
  itr_Height :: int
  itr_CallTrace :: "TransactionTrace list"


section \<open>Addresses: address.go\<close>

definition addressPrefix :: string where
  "addressPrefix = CHR ''0'' # CHR ''x'' # replicate 24 (CHR ''0'')"

definition input_args :: "string \<Rightarrow> string list" where
  "input_args input = (if length input > 10 then
      (let rest = drop 10 input in
       filter (\<lambda>argStr. has_prefix argStr addressPrefix) (map (\<lambda>i. take 32 (drop (32 * i) rest)) [0..<length rest div 32]))
      else [])"

definition call_addresses :: "InternalTransaction \<Rightarrow> string list" where
  "call_addresses call =
     (if it_From call \<noteq> [] then [it_From call] else []) @ (if it_To call \<noteq> [] then [it_To call] else []) @
     input_args (it_Input call)"

definition GrepAddressesFromEvmInternalTx :: "env \<Rightarrow> InternalTransaction \<Rightarrow> err + string list" where
  "GrepAddressesFromEvmInternalTx E call = to_accounts E (map_order E (dedup (call_addresses call))) []"


section \<open>One call: util.go\<close>

text \<open>The id of a party of the call: 0 when it is empty, and Go's zero value when the map has no entry.\<close>

definition party_id :: "env \<Rightarrow> (string \<rightharpoonup> int) \<Rightarrow> string \<Rightarrow> err + int" where
  "party_id E accIdMap addr = (if addr = [] then Inr 0
     else rbind (AccAddressFromString (from_bech32 E) addr) (\<lambda>b.
       Inr (case accIdMap (to_bech32 E b) of Some i \<Rightarrow> i | None \<Rightarrow> 0)))"

definition call_bytes :: "InternalTransaction \<Rightarrow> err + byte list \<times> byte list \<times> byte list \<times> byte list \<times> byte list" where
  "call_bytes call =
     rbind (HexToBytes (it_Input call)) (\<lambda>inputBytes.
     rbind (HexToBytes (it_Output call)) (\<lambda>outputBytes.
     rbind (HexToBytes (it_Value call)) (\<lambda>valueBytes.
     rbind (HexToBytes (it_Gas call)) (\<lambda>gasBytes.
     rbind (HexToBytes (it_GasUsed call)) (\<lambda>gasUsedBytes.
     Inr (inputBytes, outputBytes, valueBytes, gasBytes, gasUsedBytes))))))"

text \<open>The row of a call and its edges, for the sequence number \<open>seq\<close>.\<close>

definition call_row :: "env \<Rightarrow> InternalTxInfo \<Rightarrow> InternalTransaction \<Rightarrow> int \<Rightarrow>
    (world, CollectedEvmInternalTx \<times> CollectedEvmInternalTxAccount list) act" where
  "call_row E tx call seq =
     bnd (lift_res (GrepAddressesFromEvmInternalTx E call)) (\<lambda>accounts.
     bnd (GetOrCreateAccountIds E accounts True) (\<lambda>accIdMap.
     bnd (lift_res (party_id E accIdMap (it_From call))) (\<lambda>fromId.
     bnd (lift_res (party_id E accIdMap (it_To call))) (\<lambda>toId.
     bnd (lift_res (call_bytes call)) (\<lambda>(inputBytes, outputBytes, valueBytes, gasBytes, gasUsedBytes).
     ret (\<lparr>ei_Height = iti_Height tx, ei_HashId = iti_HashId tx, ei_Index = iti_Index tx,
            ei_ParentIndex = iti_ParentIndex tx, ei_Sequence = seq, ei_Type = it_Type call, ei_FromId = fromId,
            ei_ToId = toId, ei_Input = inputBytes, ei_Output = outputBytes, ei_Value = valueBytes, ei_Gas = gasBytes,
            ei_GasUsed = gasUsedBytes\<rparr>,
          map (\<lambda>i. \<lparr>eia_AccountId = i, eia_Sequence = seq\<rparr>) (dedup (ids_of accIdMap accounts))))))))"

text \<open>The recursion threads the sequence number and the edges.\<close>

type_synonym itx_acc = "int \<times> CollectedEvmInternalTxAccount list"

fun processInternalCall :: "env \<Rightarrow> InternalTxInfo \<Rightarrow> InternalTransaction \<Rightarrow> itx_acc \<Rightarrow>
      (world, CollectedEvmInternalTx list \<times> itx_acc) act"
  and processNestedCalls :: "env \<Rightarrow> InternalTxInfo \<Rightarrow> int \<Rightarrow> InternalTransaction list \<Rightarrow> itx_acc \<Rightarrow>
      (world, CollectedEvmInternalTx list \<times> itx_acc) act" where
  "processInternalCall E tx (InternalTransaction ty fr re va ga gu inp out calls) (seq, edges) =
     bnd (call_row E tx (InternalTransaction ty fr re va ga gu inp out calls) (seq + 1)) (\<lambda>(row, es).
     bnd (processNestedCalls E tx (iti_Index tx + 1) calls (seq + 1, edges @ es)) (\<lambda>(rows, acc).
     ret (row # rows, acc)))"
| "processNestedCalls E tx nextIndex [] acc = ret ([], acc)"
| "processNestedCalls E tx nextIndex (nestedCall # calls) acc =
     bnd (processInternalCall E \<lparr>iti_Height = iti_Height tx, iti_HashId = iti_HashId tx, iti_Index = nextIndex,
            iti_ParentIndex = iti_Index tx\<rparr> nestedCall acc) (\<lambda>(nestedResults, acc).
     bnd (processNestedCalls E tx (nextIndex + int (length nestedResults)) calls acc) (\<lambda>(rest, acc).
     ret (nestedResults @ rest, acc)))"

declare processInternalCall.simps [simp del]


section \<open>A block: collect.go\<close>

definition top_call :: "TransactionTrace \<Rightarrow> InternalTransaction" where
  "top_call t = InternalTransaction (tt_Type t) (tt_From t) (tt_To t) (tt_Value t) (tt_Gas t) (tt_GasUsed t) (tt_Input t) []
     (tt_Calls t)"

definition hash_hex :: "string \<Rightarrow> string" where
  "hash_hex txHash = to_lower (trim_prefix txHash ''0x'')"

record itx_rows =
  itx_Seq :: int
  itx_txs :: "CollectedEvmInternalTx list"
  itx_edges :: "CollectedEvmInternalTxAccount list"

definition collect_trace :: "env \<Rightarrow> int \<Rightarrow> (string \<rightharpoonup> int) \<Rightarrow> TransactionTrace \<Rightarrow> itx_rows \<Rightarrow> (world, itx_rows) act" where
  "collect_trace E height hashIdMap trace acc =
     (if tt_Error trace \<noteq> [] then ret acc
      else (case hashIdMap (hash_hex (tt_TxHash trace)) of
          None \<Rightarrow> throw (NotFoundErr (''hash ID for hash '' @ hash_hex (tt_TxHash trace)))
        | Some hashId \<Rightarrow>
            bnd (processInternalCall E \<lparr>iti_Height = height, iti_HashId = hashId, iti_Index = 0, iti_ParentIndex = - 1\<rparr>
              (top_call trace) (itx_Seq acc, itx_edges acc)) (\<lambda>(txResults, seq, edges).
            ret \<lparr>itx_Seq = seq, itx_txs = itx_txs acc @ txResults, itx_edges = edges\<rparr>)))"

definition ins_ei :: "CollectedEvmInternalTx list \<Rightarrow> db \<Rightarrow> db" where
  "ins_ei rs d = d\<lparr>t_evm_internal_tx := insert_rows ei_key rs (t_evm_internal_tx d)\<rparr>"

definition ins_eia :: "CollectedEvmInternalTxAccount list \<Rightarrow> db \<Rightarrow> db" where
  "ins_eia rs d = d\<lparr>t_evm_internal_tx_accounts := insert_rows eia_key rs (t_evm_internal_tx_accounts d)\<rparr>"

definition insert_itx :: "config \<Rightarrow> itx_rows \<Rightarrow> (world, unit) act" where
  "insert_itx cfg acc =
     bnd (CreateInBatches cfg ins_ei (itx_txs acc)) (\<lambda>_.
     bnd (CreateInBatches cfg ins_eia (itx_edges acc)) (\<lambda>_.
     exec (put_seq \<lparr>si_Name = ''evm_internal_tx'', si_Sequence = itx_Seq acc\<rparr>)))"

definition itx_body :: "env \<Rightarrow> config \<Rightarrow> InternalTxResult \<Rightarrow> (world, unit) act" where
  "itx_body E cfg internalTx =
     bnd (GetSeqInfo ''evm_internal_tx'') (\<lambda>seqInfo.
     bnd (wrap_err ''failed to convert tx hash'' (lift_res (map_res (\<lambda>trace. HexToBytes (tt_TxHash trace)) (itr_CallTrace internalTx)))) (\<lambda>hashes.
     bnd (wrap_err ''failed to create hash dictionary entries'' (GetOrCreateEvmTxHashIds E hashes True)) (\<lambda>hashIdMap.
     bnd (foreach (collect_trace E (itr_Height internalTx) hashIdMap) (itr_CallTrace internalTx)
            \<lparr>itx_Seq = si_Sequence seqInfo, itx_txs = [], itx_edges = []\<rparr>) (\<lambda>acc.
     insert_itx cfg acc))))"

definition CollectInternalTxs :: "env \<Rightarrow> config \<Rightarrow> InternalTxResult \<Rightarrow> (world, unit) act" where
  "CollectInternalTxs E cfg internalTx = (\<lambda>w.
     case transaction (itx_body E cfg internalTx) w of
       (Inr _, w') \<Rightarrow> (Inr (), w')
     | (Inl e, w') \<Rightarrow> if root_cause e = PgError ''40001'' then (Inr (), w') else (Inl e, w'))"


section \<open>Pre-order\<close>

text \<open>The calls of a tree in pre-order, and the numbers of their parents when the root has number \<open>i\<close>.\<close>

fun nodes :: "InternalTransaction \<Rightarrow> InternalTransaction list" where
  "nodes (InternalTransaction ty fr re va ga gu inp out calls) =
     InternalTransaction ty fr re va ga gu inp out calls # concat (map nodes calls)"

fun parents :: "int \<Rightarrow> int \<Rightarrow> InternalTransaction \<Rightarrow> int list"
  and parents_nested :: "int \<Rightarrow> int \<Rightarrow> InternalTransaction list \<Rightarrow> int list" where
  "parents i p (InternalTransaction ty fr re va ga gu inp out calls) = p # parents_nested i (i + 1) calls"
| "parents_nested i j [] = []"
| "parents_nested i j (c # cs) = parents j i c @ parents_nested i (j + int (length (nodes c))) cs"

lemma length_parents:
  "length (parents i p c) = length (nodes c)" "length (parents_nested i j cs) = length (concat (map nodes cs))"
  by (induction i p c and i j cs rule: parents_parents_nested.induct) simp_all

lemma nodes_nonempty [simp]: "nodes c \<noteq> []" "0 < length (nodes c)"
  by (cases c; simp)+

lemma nodes_hd: "nodes c ! 0 = c"
  by (cases c) simp

text \<open>Every call but the root comes after its parent, and is one of the calls its parent made.\<close>

definition child_of :: "int \<Rightarrow> InternalTransaction list \<Rightarrow> int list \<Rightarrow> nat \<Rightarrow> bool" where
  "child_of i ns ps k \<longleftrightarrow> i \<le> ps ! k \<and> ps ! k < i + int k \<and> ns ! k \<in> set (it_Calls (ns ! nat (ps ! k - i)))"

lemma child_of_shift:
  assumes "child_of i ns ps k" "j = i - int (length ms)" "k < length ns" "length ps = length ns" "length qs = length ms"
  shows "child_of j (ms @ ns @ ns') (qs @ ps @ ps') (length ms + k)"
proof -
  have p: "i \<le> ps ! k" "ps ! k < i + int k" "ns ! k \<in> set (it_Calls (ns ! nat (ps ! k - i)))"
    using assms(1) by (simp_all add: child_of_def)
  have n: "nat (ps ! k - j) = length ms + nat (ps ! k - i)" using p(1) assms(2) by simp
  have m: "nat (ps ! k - i) < length ns" using p assms(3) by linarith
  have q: "(qs @ ps @ ps') ! (length ms + k) = ps ! k" using assms(3-5) by (simp add: nth_append)
  have r: "(ms @ ns @ ns') ! (length ms + k) = ns ! k" "(ms @ ns @ ns') ! (length ms + nat (ps ! k - i)) = ns ! nat (ps ! k - i)"
    using assms(3) m by (simp_all add: nth_append)
  show ?thesis unfolding child_of_def q n r using p assms(2) by simp
qed

lemma parents_sound:
  "\<lbrakk>0 < k; k < length (nodes c)\<rbrakk> \<Longrightarrow> child_of i (nodes c) (parents i p c) k"
  "\<lbrakk>j = i + 1 + int (length ms); length qs = length ms; k < length (concat (map nodes cs)); set cs \<subseteq> set (it_Calls c0)\<rbrakk> \<Longrightarrow>
     child_of i (c0 # ms @ concat (map nodes cs)) (q0 # qs @ parents_nested i j cs) (Suc (length ms) + k)"
proof (induction i p c and i j cs arbitrary: k and k ms qs c0 q0 rule: parents_parents_nested.induct)
  case (1 i p ty fr re va ga gu inp out calls)
  from 1(1) [of "[]" "[]" "k - 1" "InternalTransaction ty fr re va ga gu inp out calls" p] 1(2,3) show ?case by simp
next
  case (3 i j c cs)
  note IH1 = 3(1) and IH2 = 3(2) and j = 3(3) and q = 3(4) and k = 3(5) and sub = 3(6)
  show ?case
  proof (cases "k < length (nodes c)")
    case True
    show ?thesis
    proof (cases "k = 0")
      case True
      then show ?thesis
        using sub q j by (simp add: child_of_def nth_append nodes_hd length_parents) (cases c, simp)
    next
      case False
      from child_of_shift [OF IH1 [of k], of i "c0 # ms" "q0 # qs" "concat (map nodes cs)"
          "parents_nested i (j + int (length (nodes c))) cs"] False True j q
      show ?thesis by (simp add: length_parents)
    qed
  next
    case False
    from IH2 [of "ms @ nodes c" "qs @ parents j i c" "k - length (nodes c)" c0 q0] False j q k sub
    show ?thesis by (simp add: length_parents algebra_simps)
  qed
qed simp


section \<open>What a call is stored as\<close>

definition call_accounts :: "env \<Rightarrow> InternalTransaction \<Rightarrow> string set" where
  "call_accounts E c = {to_bech32 E b | a b. a \<in> set (call_addresses c) \<and> AccAddressFromString (from_bech32 E) a = Inr b}"

definition party_ok :: "env \<Rightarrow> world \<Rightarrow> string \<Rightarrow> int \<Rightarrow> bool" where
  "party_ok E w addr i \<longleftrightarrow> (if addr = [] then i = 0
     else \<exists>b. AccAddressFromString (from_bech32 E) addr = Inr b \<and> has_account E w (to_bech32 E b) i)"

definition call_ok :: "env \<Rightarrow> world \<Rightarrow> InternalTxInfo \<Rightarrow> InternalTransaction \<Rightarrow> int \<Rightarrow>
    CollectedEvmInternalTx \<Rightarrow> CollectedEvmInternalTxAccount list \<Rightarrow> bool" where
  "call_ok E w tx c seq row es \<longleftrightarrow>
     ei_Height row = iti_Height tx \<and> ei_HashId row = iti_HashId tx \<and> ei_Index row = iti_Index tx \<and>
     ei_ParentIndex row = iti_ParentIndex tx \<and> ei_Sequence row = seq \<and> ei_Type row = it_Type c \<and>
     call_bytes c = Inr (ei_Input row, ei_Output row, ei_Value row, ei_Gas row, ei_GasUsed row) \<and>
     party_ok E w (it_From c) (ei_FromId row) \<and> party_ok E w (it_To c) (ei_ToId row) \<and>
     distinct (map eia_AccountId es) \<and> (\<forall>e \<in> set es. eia_Sequence e = seq) \<and>
     ids_for (call_accounts E c) (has_account E w) (eia_AccountId ` set es)"

lemma party_ok_mono: "grows w w' \<Longrightarrow> party_ok E w a i \<Longrightarrow> party_ok E w' a i"
  unfolding party_ok_def by (auto dest: has_account_mono split: if_splits)

lemma call_ok_mono:
  assumes "grows w w'" "call_ok E w tx c seq row es"
  shows "call_ok E w' tx c seq row es"
  using assms ids_for_mono [of "call_accounts E c" "has_account E w" "eia_AccountId ` set es" "has_account E w'"]
  unfolding call_ok_def by (auto dest: has_account_mono party_ok_mono)

lemma to_accounts_set:
  assumes "to_accounts E addrs g = Inr accounts"
  shows "set accounts = set g \<union> {to_bech32 E b | a b. a \<in> set addrs \<and> AccAddressFromString (from_bech32 E) a = Inr b}"
    and "\<forall>a \<in> set addrs. \<exists>b. AccAddressFromString (from_bech32 E) a = Inr b"
proof -
  have "set accounts = set g \<union> {to_bech32 E b | a b. a \<in> set addrs \<and> AccAddressFromString (from_bech32 E) a = Inr b} \<and>
    (\<forall>a \<in> set addrs. \<exists>b. AccAddressFromString (from_bech32 E) a = Inr b)"
    using assms unfolding to_accounts_def
  proof (induction addrs arbitrary: g)
    case (Cons a as)
    then obtain b where b: "AccAddressFromString (from_bech32 E) a = Inr b"
      and rest: "rfold (\<lambda>addr grepped. rbind (AccAddressFromString (from_bech32 E) addr)
         (\<lambda>accAddr. Inr (grepped @ [to_bech32 E accAddr]))) as (g @ [to_bech32 E b]) = Inr accounts"
      by (auto simp: rbind_eq_Inr)
    from Cons.IH [OF rest] b show ?case by auto
  qed simp
  then show "set accounts = set g \<union> {to_bech32 E b | a b. a \<in> set addrs \<and> AccAddressFromString (from_bech32 E) a = Inr b}"
    "\<forall>a \<in> set addrs. \<exists>b. AccAddressFromString (from_bech32 E) a = Inr b" by blast+
qed

lemma grep_internal:
  assumes "env_ok E" "GrepAddressesFromEvmInternalTx E c = Inr accounts"
  shows "set accounts = call_accounts E c" and "\<forall>a \<in> set accounts. canonical E a"
proof -
  note t = to_accounts_set [OF assms(2) [unfolded GrepAddressesFromEvmInternalTx_def]]
  have s: "set (map_order E (dedup (call_addresses c))) = set (call_addresses c)"
    using set_map_order [OF assms(1) distinct_dedup] by simp
  show "set accounts = call_accounts E c" using t(1) unfolding s call_accounts_def by simp
  then show "\<forall>a \<in> set accounts. canonical E a"
    using canonical_acc [OF env_okD(1) [OF assms(1)]] unfolding call_accounts_def by auto
qed

definition itx_inv :: "env \<Rightarrow> db \<Rightarrow> world \<Rightarrow> bool" where
  "itx_inv E d w \<longleftrightarrow> coll_inv E d w \<and> dict_inv (evm_tx_hash_dict E) w"

lemma ignores_hash_dicts [simp]:
  "ignores (account_dict E) (dict_inv (evm_tx_hash_dict E'))"
  "ignores (account_dict E) (\<lambda>w. set t \<subseteq> set (t_evm_tx_hash_dict (w_db w)))"
  "ignores (evm_tx_hash_dict E) (coll_inv E' d)"
  "ignores (evm_tx_hash_dict E) (\<lambda>w. grows u w)"
  by (simp_all add: ignores_def fault_free_def dict_inv_def account_dict_def msg_type_dict_def type_tag_dict_def
      evm_tx_hash_dict_def coll_inv_def dict_invs_def same_data_def without_dicts_def grows_def)

lemma party_of:
  assumes "party_id E m addr = Inr i" "\<forall>a \<in> S. \<exists>i. m a = Some i \<and> has_account E w a i"
    and "addr = [] \<or> (\<exists>b. AccAddressFromString (from_bech32 E) addr = Inr b \<and> to_bech32 E b \<in> S)"
  shows "party_ok E w addr i"
  using assms by (fastforce simp: party_id_def party_ok_def split: if_splits)

lemma call_row_spec:
  assumes E: "env_ok E" and inv: "itx_inv E d w" and run: "call_row E tx c seq w = (Inr (row, es), w')"
  shows "itx_inv E d w'" "grows w w'" "call_ok E w' tx c seq row es"
proof -
  from run obtain accounts m fromId toId inp out va ga gu where
    g: "GrepAddressesFromEvmInternalTx E c = Inr accounts"
    and m: "GetOrCreateAccountIds E accounts True w = (Inr m, w')"
    and fr: "party_id E m (it_From c) = Inr fromId" and re: "party_id E m (it_To c) = Inr toId"
    and bys: "call_bytes c = Inr (inp, out, va, ga, gu)"
    and row: "row = \<lparr>ei_Height = iti_Height tx, ei_HashId = iti_HashId tx, ei_Index = iti_Index tx,
            ei_ParentIndex = iti_ParentIndex tx, ei_Sequence = seq, ei_Type = it_Type c, ei_FromId = fromId,
            ei_ToId = toId, ei_Input = inp, ei_Output = out, ei_Value = va, ei_Gas = ga, ei_GasUsed = gu\<rparr>"
    and es: "es = map (\<lambda>i. \<lparr>eia_AccountId = i, eia_Sequence = seq\<rparr>) (dedup (ids_of m accounts))"
    unfolding call_row_def bnd_eq_Inr by auto
  note gr = grep_internal [OF E g]
  have c: "coll_inv E d w" "dict_inv (evm_tx_hash_dict E) w" using inv by (simp_all add: itx_inv_def)
  note s = step_accounts [OF E c(1) gr(2) m]
  show "grows w w'" by (rule s(2))
  have "dict_inv (evm_tx_hash_dict E) w'"
    using keepsD [OF keeps_accounts [OF ignores_hash_dicts(1)] c(2) m] .
  with s(1) show "itx_inv E d w'" by (simp add: itx_inv_def)
  have in_acc: "addr = [] \<or> (\<exists>b. AccAddressFromString (from_bech32 E) addr = Inr b \<and> to_bech32 E b \<in> set accounts)"
    if "addr = it_From c \<or> addr = it_To c" for addr
  proof (cases "addr = []")
    case False
    then have a: "addr \<in> set (call_addresses c)" using that by (auto simp: call_addresses_def)
    then have "addr \<in> set (map_order E (dedup (call_addresses c)))"
      using set_map_order [OF E distinct_dedup] by simp
    with to_accounts_set(2) [OF g [unfolded GrepAddressesFromEvmInternalTx_def]] obtain b where
      "AccAddressFromString (from_bech32 E) addr = Inr b" by blast
    with a show ?thesis unfolding gr(1) call_accounts_def by blast
  qed simp
  have p: "party_ok E w' (it_From c) fromId" "party_ok E w' (it_To c) toId"
    by (rule party_of [OF fr s(4) in_acc] party_of [OF re s(4) in_acc], simp)+
  have "ids_for (set accounts) (has_account E w') (set (ids_of m accounts))" by (rule ids_for_map [OF s(4)])
  then show "call_ok E w' tx c seq row es"
    using p bys by (simp add: call_ok_def row es gr(1) comp_def image_image)
qed


section \<open>What a tree of calls is stored as\<close>

definition tree_rows :: "env \<Rightarrow> world \<Rightarrow> InternalTxInfo \<Rightarrow> int \<Rightarrow> InternalTransaction list \<Rightarrow> int list \<Rightarrow> int \<Rightarrow>
    CollectedEvmInternalTx list \<Rightarrow> CollectedEvmInternalTxAccount list \<Rightarrow> bool" where
  "tree_rows E w tx i cs ps seq rows es \<longleftrightarrow> length rows = length cs \<and>
     (\<exists>ess. es = concat ess \<and> length ess = length cs \<and>
       (\<forall>k < length cs. call_ok E w \<lparr>iti_Height = iti_Height tx, iti_HashId = iti_HashId tx, iti_Index = i + int k,
           iti_ParentIndex = ps ! k\<rparr> (cs ! k) (seq + int k + 1) (rows ! k) (ess ! k)))"

lemma tree_rows_mono: "grows w w' \<Longrightarrow> tree_rows E w tx i cs ps seq rows es \<Longrightarrow> tree_rows E w' tx i cs ps seq rows es"
  unfolding tree_rows_def using call_ok_mono by blast

lemma tree_rows_append:
  assumes "tree_rows E w tx i cs ps seq rows es" "length ps = length cs"
    and "tree_rows E w tx (i + int (length cs)) cs' ps' (seq + int (length cs)) rows' es'"
  shows "tree_rows E w tx i (cs @ cs') (ps @ ps') seq (rows @ rows') (es @ es')"
proof -
  from assms(1,3) obtain ess ess' where e: "es = concat ess" "length ess = length cs" "es' = concat ess'" "length ess' = length cs'"
    and len: "length rows = length cs" "length rows' = length cs'"
    and ok: "\<forall>k < length cs. call_ok E w \<lparr>iti_Height = iti_Height tx, iti_HashId = iti_HashId tx, iti_Index = i + int k,
           iti_ParentIndex = ps ! k\<rparr> (cs ! k) (seq + int k + 1) (rows ! k) (ess ! k)"
      "\<forall>k < length cs'. call_ok E w \<lparr>iti_Height = iti_Height tx, iti_HashId = iti_HashId tx,
           iti_Index = i + int (length cs) + int k, iti_ParentIndex = ps' ! k\<rparr> (cs' ! k)
           (seq + int (length cs) + int k + 1) (rows' ! k) (ess' ! k)"
    unfolding tree_rows_def by blast
  have "call_ok E w \<lparr>iti_Height = iti_Height tx, iti_HashId = iti_HashId tx, iti_Index = i + int k,
       iti_ParentIndex = (ps @ ps') ! k\<rparr> ((cs @ cs') ! k) (seq + int k + 1) ((rows @ rows') ! k) ((ess @ ess') ! k)"
    if k: "k < length (cs @ cs')" for k
  proof (cases "k < length cs")
    case True
    then show ?thesis using ok(1) len e assms(2) by (simp add: nth_append)
  next
    case False
    then obtain l where l: "k = length cs + l" "l < length cs'" using k by (metis add_diff_inverse_nat length_append nat_add_left_cancel_less)
    then show ?thesis using ok(2) [rule_format, OF l(2)] len e assms(2) by (simp add: nth_append add.assoc)
  qed
  then show ?thesis unfolding tree_rows_def using e len
    by (intro conjI exI [of _ "ess @ ess'"]) simp_all
qed

lemma tree_rows_single:
  "call_ok E w tx c (seq + 1) row es \<Longrightarrow> tree_rows E w tx (iti_Index tx) [c] [iti_ParentIndex tx] seq [row] es"
  unfolding tree_rows_def by (intro conjI exI [of _ "[es]"]) (simp_all add: call_ok_def)

lemma process_runs:
  assumes "processInternalCall E tx (InternalTransaction ty fr re va ga gu inp out calls) (seq, edges) w = (Inr (rows, seq', edges'), w')"
  obtains row es w1 rows1 where
    "call_row E tx (InternalTransaction ty fr re va ga gu inp out calls) (seq + 1) w = (Inr (row, es), w1)"
    "processNestedCalls E tx (iti_Index tx + 1) calls (seq + 1, edges @ es) w1 = (Inr (rows1, seq', edges'), w')"
    "rows = row # rows1"
  using assms that by (auto simp: processInternalCall.simps bnd_eq_Inr)

lemma nested_runs:
  assumes "processNestedCalls E tx j (c # cs) (seq, edges) w = (Inr (rows, seq', edges'), w')"
  obtains rows1 seq1 edges1 w1 rows2 where
    "processInternalCall E \<lparr>iti_Height = iti_Height tx, iti_HashId = iti_HashId tx, iti_Index = j, iti_ParentIndex = iti_Index tx\<rparr>
       c (seq, edges) w = (Inr (rows1, seq1, edges1), w1)"
    "processNestedCalls E tx (j + int (length rows1)) cs (seq1, edges1) w1 = (Inr (rows2, seq', edges'), w')"
    "rows = rows1 @ rows2"
  using assms that by (auto simp: processInternalCall.simps bnd_eq_Inr)

lemma process_spec:
  "\<lbrakk>env_ok E; itx_inv E d w; processInternalCall E tx c (seq, edges) w = (Inr (rows, seq', edges'), w')\<rbrakk> \<Longrightarrow>
     itx_inv E d w' \<and> grows w w' \<and> seq' = seq + int (length (nodes c)) \<and>
     (\<exists>es. edges' = edges @ es \<and> tree_rows E w' tx (iti_Index tx) (nodes c) (parents (iti_Index tx) (iti_ParentIndex tx) c) seq rows es)"
  "\<lbrakk>env_ok E; itx_inv E d w; processNestedCalls E tx j cs (seq, edges) w = (Inr (rows, seq', edges'), w')\<rbrakk> \<Longrightarrow>
     itx_inv E d w' \<and> grows w w' \<and> seq' = seq + int (length (concat (map nodes cs))) \<and>
     (\<exists>es. edges' = edges @ es \<and> tree_rows E w' tx j (concat (map nodes cs)) (parents_nested (iti_Index tx) j cs) seq rows es)"
proof (induction E tx c "(seq, edges)" and E tx j cs "(seq, edges)" arbitrary: seq edges w rows seq' edges' w' and
    seq edges w rows seq' edges' w' rule: processInternalCall_processNestedCalls.induct)
  case (1 E tx ty fr re va ga gu inp out calls seq edges)
  let ?c = "InternalTransaction ty fr re va ga gu inp out calls"
  from 1(4) obtain row es w1 rows1 where
    r: "call_row E tx ?c (seq + 1) w = (Inr (row, es), w1)"
    and n: "processNestedCalls E tx (iti_Index tx + 1) calls (seq + 1, edges @ es) w1 = (Inr (rows1, seq', edges'), w')"
    and rows: "rows = row # rows1"
    by (rule process_runs)
  note s = call_row_spec [OF 1(2,3) r]
  from 1(1) [OF 1(2) s(1) n] obtain es1 where
    i: "itx_inv E d w'" "grows w1 w'" "seq' = seq + 1 + int (length (concat (map nodes calls)))" "edges' = edges @ es @ es1"
    "tree_rows E w' tx (iti_Index tx + 1) (concat (map nodes calls)) (parents_nested (iti_Index tx) (iti_Index tx + 1) calls) (seq + 1) rows1 es1"
    by auto
  have "tree_rows E w' tx (iti_Index tx) [?c] [iti_ParentIndex tx] seq [row] es"
    by (rule tree_rows_single [OF call_ok_mono [OF i(2) s(3)]])
  from tree_rows_append [OF this] i(5)
  have "tree_rows E w' tx (iti_Index tx) (nodes ?c) (parents (iti_Index tx) (iti_ParentIndex tx) ?c) seq rows (es @ es1)"
    by (simp add: rows)
  with i(1,3,4) grows_trans [OF s(2) i(2)] show ?case by auto
next
  case (2 E tx j seq edges)
  then show ?case by (auto simp: processInternalCall.simps tree_rows_def)
next
  case (3 E tx j c cs seq edges)
  let ?tx = "\<lparr>iti_Height = iti_Height tx, iti_HashId = iti_HashId tx, iti_Index = j, iti_ParentIndex = iti_Index tx\<rparr>"
  from 3(5) obtain rows1 seq1 edges1 w1 rows2 where
    a: "processInternalCall E ?tx c (seq, edges) w = (Inr (rows1, seq1, edges1), w1)"
    and b: "processNestedCalls E tx (j + int (length rows1)) cs (seq1, edges1) w1 = (Inr (rows2, seq', edges'), w')"
    and rows: "rows = rows1 @ rows2"
    by (rule nested_runs)
  from 3(1) [OF 3(3,4) a] obtain es1 where
    i: "itx_inv E d w1" "grows w w1" "seq1 = seq + int (length (nodes c))" "edges1 = edges @ es1"
    "tree_rows E w1 ?tx j (nodes c) (parents j (iti_Index tx) c) seq rows1 es1"
    by auto
  have len: "length rows1 = length (nodes c)" using i(5) by (simp add: tree_rows_def)
  from 3(2) [OF 3(3) i(1) b] obtain es2 where
    k: "itx_inv E d w'" "grows w1 w'" "seq' = seq1 + int (length (concat (map nodes cs)))" "edges' = edges1 @ es2"
    "tree_rows E w' tx (j + int (length rows1)) (concat (map nodes cs)) (parents_nested (iti_Index tx) (j + int (length rows1)) cs) seq1 rows2 es2"
    by auto
  have "tree_rows E w' tx j (nodes c) (parents j (iti_Index tx) c) seq rows1 es1"
    using tree_rows_mono [OF k(2) i(5)] by (simp add: tree_rows_def)
  from tree_rows_append [OF this length_parents(1)] k(5)
  have "tree_rows E w' tx j (concat (map nodes (c # cs))) (parents_nested (iti_Index tx) j (c # cs)) seq rows (es1 @ es2)"
    by (simp add: len i(3) rows)
  with k(1,3,4) i(3,4) grows_trans [OF i(2) k(2)] show ?case by auto
qed


section \<open>What a block is stored as\<close>

text \<open>The traces that are indexed, and for each the id of its hash and its rows.\<close>

definition indexed :: "InternalTxResult \<Rightarrow> TransactionTrace list" where
  "indexed itr = filter (\<lambda>t. tt_Error t = []) (itr_CallTrace itr)"

definition calls_of :: "TransactionTrace list \<Rightarrow> InternalTransaction list" where
  "calls_of ts = concat (map (\<lambda>t. nodes (top_call t)) ts)"

definition trace_rows :: "env \<Rightarrow> world \<Rightarrow> int \<Rightarrow> TransactionTrace \<Rightarrow> int \<Rightarrow>
    CollectedEvmInternalTx list \<Rightarrow> CollectedEvmInternalTxAccount list \<Rightarrow> bool" where
  "trace_rows E w height t seq rows es \<longleftrightarrow> (\<exists>hashId h.
     HexToBytes (tt_TxHash t) = Inr h \<and> (hashId, h) \<in> set (t_evm_tx_hash_dict (w_db w)) \<and>
     tree_rows E w \<lparr>iti_Height = height, iti_HashId = hashId, iti_Index = 0, iti_ParentIndex = - 1\<rparr> 0
       (nodes (top_call t)) (parents 0 (- 1) (top_call t)) seq rows es)"

fun block_rows :: "env \<Rightarrow> world \<Rightarrow> int \<Rightarrow> TransactionTrace list \<Rightarrow> int \<Rightarrow>
    (CollectedEvmInternalTx list \<times> CollectedEvmInternalTxAccount list) list \<Rightarrow> bool" where
  "block_rows E w height [] seq rs \<longleftrightarrow> rs = []"
| "block_rows E w height (t # ts) seq rs \<longleftrightarrow> (\<exists>r rest. rs = r # rest \<and> trace_rows E w height t seq (fst r) (snd r) \<and>
     block_rows E w height ts (seq + int (length (nodes (top_call t)))) rest)"

definition hash_grows :: "world \<Rightarrow> world \<Rightarrow> bool" where
  "hash_grows w w' \<longleftrightarrow> set (t_evm_tx_hash_dict (w_db w)) \<subseteq> set (t_evm_tx_hash_dict (w_db w'))"

lemma trace_rows_mono:
  assumes "grows w w'" "hash_grows w w'" "trace_rows E w h t s rows es"
  shows "trace_rows E w' h t s rows es"
  using assms tree_rows_mono [OF assms(1)] unfolding trace_rows_def hash_grows_def by blast

text \<open>The accounts dictionary is all a tree of calls writes.\<close>

lemma keeps_call_row: "ignores (account_dict E) P \<Longrightarrow> keeps P (call_row E tx c seq)"
  unfolding call_row_def by (intro keeps_intros keeps_accounts)

lemma keeps_process:
  "ignores (account_dict E) P \<Longrightarrow> keeps P (processInternalCall E tx c acc)"
  "ignores (account_dict E) P \<Longrightarrow> keeps P (processNestedCalls E tx j cs acc)"
proof (induction E tx c acc and E tx j cs acc rule: processInternalCall_processNestedCalls.induct)
  case (1 E tx ty fr re va ga gu inp out calls seq edges)
  show ?case unfolding processInternalCall.simps by (intro keeps_intros keeps_call_row 1)
next
  case (2 E tx j acc)
  show ?case unfolding processNestedCalls.simps by (rule keeps_ret)
next
  case (3 E tx j c cs acc)
  show ?case unfolding processNestedCalls.simps by (intro keeps_intros 3)
qed

lemma block_rows_snoc:
  "block_rows E w h ts s rs \<Longrightarrow> trace_rows E w h t (s + int (length (calls_of ts))) (fst r) (snd r) \<Longrightarrow>
   block_rows E w h (ts @ [t]) s (rs @ [r])"
  by (induction ts arbitrary: s rs) (auto simp: calls_of_def add.assoc)

lemma block_rows_mono:
  "grows w w' \<Longrightarrow> hash_grows w w' \<Longrightarrow> block_rows E w h ts s rs \<Longrightarrow> block_rows E w' h ts s rs"
  by (induction ts arbitrary: s rs) (auto intro: trace_rows_mono)

definition itx_acc_of :: "int \<Rightarrow> TransactionTrace list \<Rightarrow> (CollectedEvmInternalTx list \<times> CollectedEvmInternalTxAccount list) list \<Rightarrow> itx_rows" where
  "itx_acc_of s ts rs = \<lparr>itx_Seq = s + int (length (calls_of ts)), itx_txs = concat (map fst rs), itx_edges = concat (map snd rs)\<rparr>"

text \<open>What the hash map says: the id it gives a hash is that of the hash's row.\<close>

definition hash_map_ok :: "world \<Rightarrow> (string \<rightharpoonup> int) \<Rightarrow> TransactionTrace list \<Rightarrow> bool" where
  "hash_map_ok w m ts \<longleftrightarrow> (\<forall>t \<in> set ts. \<forall>i. m (hash_hex (tt_TxHash t)) = Some i \<longrightarrow>
     (\<exists>h. HexToBytes (tt_TxHash t) = Inr h \<and> (i, h) \<in> set (t_evm_tx_hash_dict (w_db w))))"

lemma collect_trace_step:
  assumes E: "env_ok E" and inv: "itx_inv E d w" and hm: "hash_map_ok w m [t]"
    and run: "collect_trace E h m t (itx_acc_of s ts rs) w = (Inr acc, w')"
    and rows: "block_rows E w h ts s rs"
  shows "itx_inv E d w' \<and> grows w w' \<and> hash_grows w w' \<and>
    (if tt_Error t \<noteq> [] then acc = itx_acc_of s ts rs \<and> block_rows E w' h ts s rs
     else \<exists>r. acc = itx_acc_of s (ts @ [t]) (rs @ [r]) \<and> block_rows E w' h (ts @ [t]) s (rs @ [r]))"
proof (cases "tt_Error t = []")
  case False
  with run inv rows show ?thesis by (simp add: collect_trace_def hash_grows_def)
next
  case True
  with run obtain i txs seq edges where i: "m (hash_hex (tt_TxHash t)) = Some i"
    and p: "processInternalCall E \<lparr>iti_Height = h, iti_HashId = i, iti_Index = 0, iti_ParentIndex = - 1\<rparr> (top_call t)
        (itx_Seq (itx_acc_of s ts rs), itx_edges (itx_acc_of s ts rs)) w = (Inr (txs, seq, edges), w')"
    and acc: "acc = \<lparr>itx_Seq = seq, itx_txs = itx_txs (itx_acc_of s ts rs) @ txs, itx_edges = edges\<rparr>"
    unfolding collect_trace_def by (auto simp: bnd_eq_Inr split: option.splits)
  from process_spec(1) [OF E inv p] obtain es where
    q: "itx_inv E d w'" "grows w w'" "seq = s + int (length (calls_of ts)) + int (length (nodes (top_call t)))"
      "edges = concat (map snd rs) @ es"
      "tree_rows E w' \<lparr>iti_Height = h, iti_HashId = i, iti_Index = 0, iti_ParentIndex = - 1\<rparr> 0 (nodes (top_call t))
         (parents 0 (- 1) (top_call t)) (s + int (length (calls_of ts))) txs es"
    by (auto simp: itx_acc_of_def)
  have hg: "hash_grows w w'"
    unfolding hash_grows_def using keepsD [OF keeps_process(1) [OF ignores_hash_dicts(2)] subset_refl p] .
  obtain hb where hb: "HexToBytes (tt_TxHash t) = Inr hb" "(i, hb) \<in> set (t_evm_tx_hash_dict (w_db w))"
    using hm i by (auto simp: hash_map_ok_def)
  have "trace_rows E w' h t (s + int (length (calls_of ts))) txs es"
    unfolding trace_rows_def using hb q(5) hg by (auto simp: hash_grows_def)
  then have "block_rows E w' h (ts @ [t]) s (rs @ [(txs, es)])"
    using block_rows_snoc [OF block_rows_mono [OF q(2) hg rows], of t "(txs, es)"] by simp
  moreover have "acc = itx_acc_of s (ts @ [t]) (rs @ [(txs, es)])"
    by (simp add: acc q(3,4) itx_acc_of_def calls_of_def)
  ultimately show ?thesis using q(1,2) hg True by auto
qed

lemma hash_map_ok_mono: "hash_grows w w' \<Longrightarrow> hash_map_ok w m ts \<Longrightarrow> set us \<subseteq> set ts \<Longrightarrow> hash_map_ok w' m us"
  unfolding hash_map_ok_def hash_grows_def by blast

lemma grows_hash_trans: "hash_grows u v \<Longrightarrow> hash_grows v w \<Longrightarrow> hash_grows u w"
  by (auto simp: hash_grows_def)

lemma collect_traces:
  assumes E: "env_ok E" and inv: "itx_inv E d w" and hm: "hash_map_ok w m ts"
    and run: "foreach (collect_trace E h m) ts (itx_acc_of s [] []) w = (Inr acc, w')"
  shows "itx_inv E d w' \<and> grows w w' \<and> hash_grows w w' \<and>
    (\<exists>rs. acc = itx_acc_of s (filter (\<lambda>t. tt_Error t = []) ts) rs \<and>
       block_rows E w' h (filter (\<lambda>t. tt_Error t = []) ts) s rs)"
proof -
  let ?I = "\<lambda>ys a u. itx_inv E d u \<and> grows w u \<and> hash_grows w u \<and>
    (\<exists>rs. a = itx_acc_of s (filter (\<lambda>t. tt_Error t = []) ys) rs \<and>
       block_rows E u h (filter (\<lambda>t. tt_Error t = []) ys) s rs)"
  show ?thesis
  proof (rule foreach_Inr [OF run, of ?I])
    show "?I [] (itx_acc_of s [] []) w" using inv by (auto simp: hash_grows_def)
  next
    fix ys x zs c u a v
    assume xs: "ts = ys @ x # zs" and I: "?I ys c u" and run: "collect_trace E h m x c u = (Inr a, v)"
    from I obtain rs where rs: "c = itx_acc_of s (filter (\<lambda>t. tt_Error t = []) ys) rs"
      "block_rows E u h (filter (\<lambda>t. tt_Error t = []) ys) s rs" by blast
    from I have u: "itx_inv E d u" "grows w u" "hash_grows w u" by blast+
    have hm': "hash_map_ok u m [x]" by (rule hash_map_ok_mono [OF u(3) hm]) (simp add: xs)
    note st = collect_trace_step [OF E u(1) hm' run [unfolded rs(1)] rs(2)]
    have g: "grows w v" "hash_grows w v" using st grows_trans [OF u(2)] grows_hash_trans [OF u(3)] by blast+
    show "?I (ys @ [x]) a v"
    proof (cases "tt_Error x = []")
      case True
      with st show ?thesis using g by auto
    next
      case False
      with st show ?thesis using g by auto
    qed
  qed
qed


lemma hash_hex_bytes:
  assumes "hash_hex s = BytesToHex h"
  shows "HexToBytes s = Inr h"
proof -
  let ?t = "trim_prefix s ''0x''"
  have e: "to_lower ?t = hex_encode h" using assms by (simp add: hash_hex_def BytesToHex_def)
  have "length ?t = 2 * length h" using arg_cong [OF e, of length] by (simp add: to_lower_def)
  moreover have "hex_decode ?t = Inr h" using hex_decode_lower [of ?t] e by simp
  ultimately show ?thesis by (auto simp: HexToBytes_def Let_def)
qed

lemma ids_hash_map:
  assumes "dom m = BytesToHex ` set hs"
    and "\<forall>q \<in> set hs. \<exists>i. m (BytesToHex q) = Some i \<and> (i, q) \<in> set (t_evm_tx_hash_dict (w_db w))"
  shows "hash_map_ok w m ts"
  unfolding hash_map_ok_def
proof (intro ballI allI impI)
  fix t i assume "m (hash_hex (tt_TxHash t)) = Some i"
  moreover from this obtain q where "q \<in> set hs" "hash_hex (tt_TxHash t) = BytesToHex q" using assms(1) by blast
  ultimately show "\<exists>h. HexToBytes (tt_TxHash t) = Inr h \<and> (i, h) \<in> set (t_evm_tx_hash_dict (w_db w))"
    using assms(2) hash_hex_bytes by auto
qed

lemma additive_itx [simp]: "additive ins_ei" "additive ins_eia"
  by (simp_all add: additive_def ins_ei_def ins_eia_def insert_rows_append)

lemma hoare_insert_itx:
  assumes "valid_config cfg"
  shows "hoare (\<lambda>w. w_db w = d) (insert_itx cfg acc)
    (\<lambda>_ w. w_db w = put_seq \<lparr>si_Name = ''evm_internal_tx'', si_Sequence = itx_Seq acc\<rparr>
       (ins_eia (itx_edges acc) (ins_ei (itx_txs acc) d)))
    (\<lambda>_ _. True)"
  unfolding insert_itx_def
  by (rule hoare_bnd [OF hoare_batches [OF assms]], simp)+ (rule hoare_weaken [OF hoare_exec], simp_all)

lemma keeps_only_db_itx: "keeps (only_db w) (insert_itx cfg acc)"
  unfolding insert_itx_def by (intro keeps_intros)

lemma ins_itx_sel [simp]:
  "t_evm_internal_tx (ins_ei rs d) = insert_rows ei_key rs (t_evm_internal_tx d)"
  "t_evm_internal_tx_accounts (ins_ei rs d) = t_evm_internal_tx_accounts d"
  "t_evm_internal_tx (ins_eia es d) = t_evm_internal_tx d"
  "t_evm_internal_tx_accounts (ins_eia es d) = insert_rows eia_key es (t_evm_internal_tx_accounts d)"
  "t_evm_internal_tx (put_seq s d) = t_evm_internal_tx d"
  "t_evm_internal_tx_accounts (put_seq s d) = t_evm_internal_tx_accounts d"
  by (simp_all add: ins_ei_def ins_eia_def put_seq_def)

text \<open>The rows a block's trace leaves in the database.\<close>

definition itx_stored :: "env \<Rightarrow> InternalTxResult \<Rightarrow> db \<Rightarrow> world \<Rightarrow> bool" where
  "itx_stored E itr d w' \<longleftrightarrow> (\<exists>rs. block_rows E w' (itr_Height itr) (indexed itr) (seq_value d ''evm_internal_tx'') rs \<and>
     t_evm_internal_tx (w_db w') = insert_rows ei_key (concat (map fst rs)) (t_evm_internal_tx d) \<and>
     t_evm_internal_tx_accounts (w_db w') = insert_rows eia_key (concat (map snd rs)) (t_evm_internal_tx_accounts d) \<and>
     seq_value (w_db w') ''evm_internal_tx'' = seq_value d ''evm_internal_tx'' + int (length (calls_of (indexed itr))))"

lemma itx_body_spec:
  assumes E: "env_ok E" "valid_config cfg" and inv: "itx_inv E (w_db w) w"
    and d: "distinct (map (\<lambda>t. HexToBytes (tt_TxHash t)) (itr_CallTrace itr))"
    and run: "itx_body E cfg itr w = (Inr (), w')"
  shows "itx_stored E itr (w_db w) w'" and "grows w w'" and "dict_invs E w'"
proof -
  let ?s = "seq_value (w_db w) ''evm_internal_tx''" and ?d = "w_db w"
  from run obtain q w1 hs m w2 acc w3 where
    q: "GetSeqInfo ''evm_internal_tx'' w = (Inr q, w1)"
    and hs: "map_res (\<lambda>trace. HexToBytes (tt_TxHash trace)) (itr_CallTrace itr) = Inr hs"
    and m: "GetOrCreateEvmTxHashIds E hs True w1 = (Inr m, w2)"
    and lp: "foreach (collect_trace E (itr_Height itr) m) (itr_CallTrace itr)
       \<lparr>itx_Seq = si_Sequence q, itx_txs = [], itx_edges = []\<rparr> w2 = (Inr acc, w3)"
    and ins: "insert_itx cfg acc w3 = (Inr (), w')"
    unfolding itx_body_def bnd_eq_Inr by auto
  have q1: "w_db w1 = ?d" "si_Sequence q = ?s" using hoareD [OF hoare_GetSeqInfo [of ?d] refl q] by simp_all
  have ff: "fault_free (itx_inv E ?d)"
    by (simp add: fault_free_def itx_inv_def coll_inv_def dict_invs_def dict_inv_def account_dict_def msg_type_dict_def
        type_tag_dict_def evm_tx_hash_dict_def)
  have inv1: "itx_inv E ?d w1" by (rule keepsD [OF keeps_GetSeqInfo [OF ff] inv q])
  have "list_all2 (\<lambda>t h. HexToBytes (tt_TxHash t) = Inr h) (itr_CallTrace itr) hs" using hs by (simp add: map_res_Inr)
  then have "map (\<lambda>t. HexToBytes (tt_TxHash t)) (itr_CallTrace itr) = map Inr hs"
    by (induction rule: list_all2_induct) auto
  then have dist: "distinct hs" using d by (simp add: distinct_map)
  have pre: "dict_inv (evm_tx_hash_dict E) w1 \<and> set (t_evm_tx_hash_dict (w_db w1)) \<subseteq> set (t_evm_tx_hash_dict (w_db w1))"
    using inv1 by (simp add: itx_inv_def)
  note post = hoareD [OF evm_hash_ids [OF E(1) dist] pre m]
  have "coll_inv E ?d w1" using inv1 by (simp add: itx_inv_def)
  have k: "keeps P (GetOrCreateEvmTxHashIds E hs True)" if "ignores (evm_tx_hash_dict E) P" for P
    unfolding GetOrCreateEvmTxHashIds_def by (rule keeps_get_or_create [OF that])
  have "coll_inv E ?d w2" by (rule keepsD [OF k [OF ignores_hash_dicts(3)] \<open>coll_inv E ?d w1\<close> m])
  then have inv2: "itx_inv E ?d w2" using post by (simp add: itx_inv_def)
  have g2: "grows w1 w2" by (rule keepsD [OF k [OF ignores_hash_dicts(4)] grows_refl m])
  have hm: "hash_map_ok w2 m (itr_CallTrace itr)" using post by (intro ids_hash_map) blast+
  have init: "\<lparr>itx_Seq = si_Sequence q, itx_txs = [], itx_edges = []\<rparr> = itx_acc_of ?s [] []"
    by (simp add: itx_acc_of_def calls_of_def q1(2))
  from collect_traces [OF E(1) inv2 hm lp [unfolded init]] obtain rs where
    l: "itx_inv E ?d w3" "grows w2 w3" "acc = itx_acc_of ?s (indexed itr) rs"
      "block_rows E w3 (itr_Height itr) (indexed itr) ?s rs"
    unfolding indexed_def by blast
  have db: "w_db w' = put_seq \<lparr>si_Name = ''evm_internal_tx'', si_Sequence = ?s + int (length (calls_of (indexed itr)))\<rparr>
      (ins_eia (concat (map snd rs)) (ins_ei (concat (map fst rs)) (w_db w3)))"
    using hoareD [OF hoare_insert_itx [OF E(2), of "w_db w3"] refl ins] l(3) by (simp add: itx_acc_of_def)
  have sd: "same_dicts (w_db w3) (w_db w')" "hash_grows w3 w'"
    by (simp_all add: db same_dicts_def hash_grows_def put_seq_def ins_eia_def ins_ei_def)
  have "only_db w3 w'" by (rule keepsD [OF keeps_only_db_itx only_db_refl ins])
  then show "dict_invs E w'"
    by (rule dict_invs_only_db [OF _ sd(1)]) (use l(1) in \<open>simp add: itx_inv_def coll_inv_def\<close>)
  have g: "grows w3 w'" by (rule grows_same_dicts [OF sd(1)])
  have "grows w w1" using q1(1) by (simp add: grows_def)
  then show "grows w w'" by (rule grows_trans [OF grows_trans [OF grows_trans [OF _ g2] l(2)] g])
  have same: "same_data ?d (w_db w3)" using l(1) by (simp add: itx_inv_def coll_inv_def)
  show "itx_stored E itr ?d w'"
    unfolding itx_stored_def using block_rows_mono [OF g sd(2) l(4)] same_dataD [OF same]
    by (intro exI [of _ rs]) (simp add: db)
qed

lemma CollectInternalTxs_spec:
  assumes E: "env_ok E" "valid_config cfg" and inv: "itx_inv E (w_db w) w"
    and d: "distinct (map (\<lambda>t. HexToBytes (tt_TxHash t)) (itr_CallTrace itr))"
    and run: "CollectInternalTxs E cfg itr w = (Inr (), w')"
  shows "w_db w' = w_db w \<or> itx_stored E itr (w_db w) w'"
proof (cases "transaction (itx_body E cfg itr) w")
  case (Pair r u)
  show ?thesis
  proof (cases r)
    case (Inl e)
    with Pair run have "w' = u" "transaction (itx_body E cfg itr) w = (Inl e, u)"
      by (auto simp: CollectInternalTxs_def split: if_splits)
    then show ?thesis by (simp add: transaction_atomic)
  next
    case (Inr x)
    with Pair run have "w' = u" "transaction (itx_body E cfg itr) w = (Inr (), u)"
      by (auto simp: CollectInternalTxs_def)
    from transaction_Inr [OF this(2)] this(1) obtain v where v: "itx_body E cfg itr w = (Inr (), v)" "w_db w' = w_db v" by blast
    have "grows v w'" "hash_grows v w'" by (simp_all add: grows_def hash_grows_def v(2))
    from block_rows_mono [OF this] itx_body_spec(1) [OF E inv d v(1)] show ?thesis
      unfolding itx_stored_def v(2) by blast
  qed
qed


section \<open>Arguments of a call\<close>

text \<open>
  The arguments are cut from the input behind its selector, so no chunk of a hexadecimal input starts
  with \<open>0x\<close>: only the parties of a call are ever found.
\<close>

lemma input_args_hex:
  assumes "list_all hex_char (drop 2 input)"
  shows "input_args input = []"
proof -
  have x: "\<not> hex_char (CHR ''x'')" by (simp add: hex_char_def hex_val_def)
  have "\<not> has_prefix (take 32 (drop (32 * i) (drop 10 input))) addressPrefix" for i
  proof
    assume "has_prefix (take 32 (drop (32 * i) (drop 10 input))) addressPrefix"
    then have "take 26 (take 32 (drop (32 * i) (drop 10 input))) = addressPrefix"
      by (simp add: has_prefix_def addressPrefix_def)
    then have "CHR ''x'' \<in> set (take 26 (take 32 (drop (32 * i) (drop 10 input))))"
      by (simp only: addressPrefix_def) simp
    then have "CHR ''x'' \<in> set (drop (32 * i) (drop 10 input))" by (blast dest: in_set_takeD)
    moreover have "drop (32 * i) (drop 10 input) = drop (32 * i + 8) (drop 2 input)" by (simp add: add.commute)
    ultimately have "CHR ''x'' \<in> set (drop 2 input)" by (metis in_set_dropD)
    with assms x show False unfolding list_all_iff by blast
  qed
  then show ?thesis by (simp add: input_args_def Let_def)
qed

end
