(* ===== verification/Itx_Extension.thy ===== *)
theory Itx_Extension
  imports Internal_Tx
begin

text \<open>
  The producer and the consumer of the internal-transaction extension:
  \<open>src/indexer/extension/internaltx/extension.go\<close>. The producer looks for blocks above the last height it
  produced, fetches their traces and pushes them into a bounded queue; the consumer pops and stores them.
\<close>

section \<open>The work queue\<close>

record WorkItem =
  wi_Height :: int
  wi_CallTrace :: "TransactionTrace list"

record WorkQueue =
  wq_ch :: "WorkItem list"
  wq_maxSize :: nat

definition NewWorkQueue :: "nat \<Rightarrow> WorkQueue" where
  "NewWorkQueue maxSize = \<lparr>wq_ch = [], wq_maxSize = maxSize\<rparr>"

definition IsNotFull :: "WorkQueue \<Rightarrow> bool" where
  "IsNotFull wq \<longleftrightarrow> length (wq_ch wq) < wq_maxSize wq"

definition IsNotEmpty :: "WorkQueue \<Rightarrow> bool" where
  "IsNotEmpty wq \<longleftrightarrow> 0 < length (wq_ch wq)"

text \<open>\<open>None\<close>: the goroutine blocks.\<close>

definition Push :: "WorkQueue \<Rightarrow> WorkItem \<Rightarrow> WorkQueue option" where
  "Push wq item = (if IsNotFull wq then Some (wq\<lparr>wq_ch := wq_ch wq @ [item]\<rparr>) else None)"

definition Pop :: "WorkQueue \<Rightarrow> (WorkItem \<times> WorkQueue) option" where
  "Pop wq = (case wq_ch wq of [] \<Rightarrow> None | item # rest \<Rightarrow> Some (item, wq\<lparr>wq_ch := rest\<rparr>))"

text \<open>The contract of a bounded first-in-first-out queue, and what follows for any sequence of operations.\<close>

locale bounded_fifo =
  fixes items :: "'q \<Rightarrow> 'a list" and cap :: "'q \<Rightarrow> nat"
    and put :: "'q \<Rightarrow> 'a \<Rightarrow> 'q option" and get :: "'q \<Rightarrow> ('a \<times> 'q) option"
  assumes put_items: "put q x = Some q' \<Longrightarrow> items q' = items q @ [x] \<and> cap q' = cap q"
    and put_blocks: "put q x = None \<longleftrightarrow> cap q \<le> length (items q)"
    and get_items: "get q = Some (x, q') \<Longrightarrow> items q = x # items q' \<and> cap q' = cap q"
    and get_blocks: "get q = None \<longleftrightarrow> items q = []"
begin

lemma put_bounded: "put q x = Some q' \<Longrightarrow> length (items q) \<le> cap q \<Longrightarrow> length (items q') \<le> cap q'"
  using put_items [of q x q'] put_blocks [of q x] by auto

lemma get_bounded: "get q = Some (x, q') \<Longrightarrow> length (items q) \<le> cap q \<Longrightarrow> length (items q') \<le> cap q'"
  using get_items [of q x q'] by auto

text \<open>What went in is what came out and what is still there, in order.\<close>

lemma put_order: "put q x = Some q' \<Longrightarrow> pushed = popped @ items q \<Longrightarrow> pushed @ [x] = popped @ items q'"
  using put_items [of q x q'] by simp

lemma get_order: "get q = Some (x, q') \<Longrightarrow> pushed = popped @ items q \<Longrightarrow> pushed = (popped @ [x]) @ items q'"
  using get_items [of q x q'] by simp

end

interpretation wq: bounded_fifo wq_ch wq_maxSize Push Pop
  by unfold_locales (auto simp: Push_def Pop_def IsNotFull_def split: if_splits list.splits)


section \<open>The producer's query\<close>

definition limit :: "int \<Rightarrow> 'a list \<Rightarrow> 'a list" where
  "limit n xs = (if n < 0 then xs else take (nat n) xs)"

definition batch_heights_of :: "config \<Rightarrow> int \<Rightarrow> int \<Rightarrow> db \<Rightarrow> int list" where
  "batch_heights_of cfg lastHeight batchSize d =
     limit batchSize (map blk_Height (order_asc blk_Height (filter (\<lambda>r.
       blk_ChainId r = cfg_ChainId cfg \<and> lastHeight < blk_Height r \<and> 0 < blk_TxCount r) (t_block d))))"

definition getBatchHeights :: "config \<Rightarrow> int \<Rightarrow> WorkQueue \<Rightarrow> (world, int list) act" where
  "getBatchHeights cfg lastProducedHeight wq =
     bnd ctx_check (\<lambda>_.
     let availableSpace = int (wq_maxSize wq) - int (length (wq_ch wq)) in
     if availableSpace \<le> 0 then ret []
     else query (batch_heights_of cfg lastProducedHeight (min (cfg_InternalTxBatchSize cfg) availableSpace)))"

text \<open>\<open>Initialize\<close>: the greatest height with an internal transaction, 0 when there is none.\<close>

definition last_itx_height :: "db \<Rightarrow> int" where
  "last_itx_height d = (case map ei_Height (t_evm_internal_tx d) of [] \<Rightarrow> 0 | h # hs \<Rightarrow> fold max hs h)"


section \<open>The two loops\<close>

record itx_ext =
  lastProducedHeight :: int
  workQueue :: WorkQueue
  batch_rest :: "WorkItem list"
  batch_last :: "int option"
  consuming :: "WorkItem option"
  x_world :: world
  x_cancelled :: bool
  pushed :: "WorkItem list"
  popped :: "WorkItem list"
  failed :: "WorkItem list"

text \<open>
  \<open>batch_rest\<close> are the items of the current batch that are not pushed yet, \<open>batch_last\<close> the last height
  of that batch. The last three fields are the history. \<open>grow\<close> is what the rest of the program does
  to the database in the meantime.
\<close>

definition init_ext :: "nat \<Rightarrow> world \<Rightarrow> itx_ext" where
  "init_ext queueSize w = \<lparr>lastProducedHeight = last_itx_height (w_db w), workQueue = NewWorkQueue queueSize,
     batch_rest = [], batch_last = None, consuming = None, x_world = w, x_cancelled = False,
     pushed = [], popped = [], failed = []\<rparr>"

inductive ext_step :: "env \<Rightarrow> config \<Rightarrow> (world \<Rightarrow> world \<Rightarrow> bool) \<Rightarrow> itx_ext \<Rightarrow> itx_ext \<Rightarrow> bool" for E cfg grow where
  produce: "batch_last s = None \<Longrightarrow> \<not> x_cancelled s \<Longrightarrow> IsNotFull (workQueue s) \<Longrightarrow>
    getBatchHeights cfg (lastProducedHeight s) (workQueue s) (x_world s) = (Inr heights, w') \<Longrightarrow>
    heights \<noteq> [] \<Longrightarrow> map wi_Height workItems = heights \<Longrightarrow>
    ext_step E cfg grow s (s\<lparr>x_world := w', batch_rest := workItems, batch_last := Some (last heights)\<rparr>)"
| produce_fails: "batch_last s = None \<Longrightarrow> \<not> x_cancelled s \<Longrightarrow> IsNotFull (workQueue s) \<Longrightarrow>
    getBatchHeights cfg (lastProducedHeight s) (workQueue s) (x_world s) = (r, w') \<Longrightarrow>
    ext_step E cfg grow s (s\<lparr>x_world := w'\<rparr>)"
| push: "batch_rest s = item # rest \<Longrightarrow> Push (workQueue s) item = Some wq' \<Longrightarrow>
    ext_step E cfg grow s (s\<lparr>workQueue := wq', batch_rest := rest, pushed := pushed s @ [item]\<rparr>)"
| produced: "batch_last s = Some h \<Longrightarrow> batch_rest s = [] \<Longrightarrow>
    ext_step E cfg grow s (s\<lparr>batch_last := None, lastProducedHeight := h\<rparr>)"
| pop: "consuming s = None \<Longrightarrow> \<not> x_cancelled s \<Longrightarrow> Pop (workQueue s) = Some (item, wq') \<Longrightarrow>
    ext_step E cfg grow s (s\<lparr>workQueue := wq', consuming := Some item, popped := popped s @ [item]\<rparr>)"
| consume: "consuming s = Some item \<Longrightarrow>
    CollectInternalTxs E cfg \<lparr>itr_Height = wi_Height item, itr_CallTrace = wi_CallTrace item\<rparr> (x_world s) = (Inr (), w') \<Longrightarrow>
    ext_step E cfg grow s (s\<lparr>x_world := w', consuming := None\<rparr>)"
| consume_fails: "consuming s = Some item \<Longrightarrow>
    CollectInternalTxs E cfg \<lparr>itr_Height = wi_Height item, itr_CallTrace = wi_CallTrace item\<rparr> (x_world s) = (Inl e, w') \<Longrightarrow>
    ext_step E cfg grow s (s\<lparr>x_world := w', consuming := None, failed := failed s @ [item]\<rparr>)"
| others: "grow (x_world s) w' \<Longrightarrow> ext_step E cfg grow s (s\<lparr>x_world := w'\<rparr>)"
| cancel: "ext_step E cfg grow s (s\<lparr>x_cancelled := True\<rparr>)"

inductive ext_reach :: "env \<Rightarrow> config \<Rightarrow> (world \<Rightarrow> world \<Rightarrow> bool) \<Rightarrow> itx_ext \<Rightarrow> itx_ext \<Rightarrow> bool" for E cfg grow s0 where
  start: "ext_reach E cfg grow s0 s0"
| more: "ext_reach E cfg grow s0 s \<Longrightarrow> ext_step E cfg grow s t \<Longrightarrow> ext_reach E cfg grow s0 t"

inductive_cases ext_stepE: "ext_step E cfg grow s t"


section \<open>Invariants\<close>

definition queue_ok :: "itx_ext \<Rightarrow> bool" where
  "queue_ok s \<longleftrightarrow> length (wq_ch (workQueue s)) \<le> wq_maxSize (workQueue s) \<and> pushed s = popped s @ wq_ch (workQueue s)"

definition last_of :: "itx_ext \<Rightarrow> int" where
  "last_of s = (case batch_last s of None \<Rightarrow> lastProducedHeight s | Some h \<Rightarrow> h)"

lemma last_of_simps [simp]:
  "last_of (s\<lparr>x_world := w\<rparr>) = last_of s" "last_of (s\<lparr>workQueue := q\<rparr>) = last_of s"
  "last_of (s\<lparr>batch_rest := r\<rparr>) = last_of s" "last_of (s\<lparr>pushed := ps\<rparr>) = last_of s"
  "last_of (s\<lparr>popped := ps\<rparr>) = last_of s" "last_of (s\<lparr>consuming := c\<rparr>) = last_of s"
  "last_of (s\<lparr>failed := fs\<rparr>) = last_of s" "last_of (s\<lparr>x_cancelled := b\<rparr>) = last_of s"
  "last_of (s\<lparr>batch_last := Some h\<rparr>) = h" "batch_last s = Some h \<Longrightarrow> last_of s = h"
  "batch_last s = None \<Longrightarrow> last_of s = lastProducedHeight s"
  "last_of (s\<lparr>batch_last := None, lastProducedHeight := h\<rparr>) = h"
  by (simp_all add: last_of_def split: option.splits)

definition ascending :: "int \<Rightarrow> itx_ext \<Rightarrow> bool" where
  "ascending h0 s \<longleftrightarrow> sorted_wrt (<) (h0 # map wi_Height (pushed s @ batch_rest s)) \<and>
     last (h0 # map wi_Height (pushed s @ batch_rest s)) \<le> last_of s \<and>
     (batch_last s = None \<longrightarrow> batch_rest s = [])"

lemma queue_step: "ext_step E cfg grow s t \<Longrightarrow> queue_ok s \<Longrightarrow> queue_ok t"
proof (induction rule: ext_step.induct)
  case (push s item rest wq')
  then show ?case using wq.put_bounded [OF push(2)] wq.put_order [OF push(2), of "pushed s" "popped s"]
    by (simp add: queue_ok_def)
next
  case (pop s item wq')
  then show ?case using wq.get_bounded [OF pop(3)] wq.get_order [OF pop(3), of "pushed s" "popped s"]
    by (simp add: queue_ok_def)
qed (simp_all add: queue_ok_def)

text \<open>The heights of a batch ascend when every height has one row.\<close>

lemma sorted_strict: "sorted xs \<Longrightarrow> distinct xs \<Longrightarrow> sorted_wrt (<) xs" for xs :: "int list"
  by (simp add: strict_sorted_iff)

lemma limit_prefix: "\<exists>ys. xs = limit n xs @ ys"
  by (metis append_Nil2 append_take_drop_id limit_def)

lemma batch_ascending:
  assumes "unique_key block_key (t_block d)"
  shows "sorted_wrt (<) (batch_heights_of cfg l n d)" "\<forall>h \<in> set (batch_heights_of cfg l n d). l < h"
proof -
  let ?rs = "filter (\<lambda>r. blk_ChainId r = cfg_ChainId cfg \<and> l < blk_Height r \<and> 0 < blk_TxCount r) (t_block d)"
  have "distinct (map block_key ?rs)" using assms by (simp add: unique_key_def distinct_map_filter)
  then have "distinct (map blk_Height ?rs)"
    by (auto simp: distinct_map inj_on_def block_key_def)
  then have "distinct (map blk_Height (order_asc blk_Height ?rs))"
    by (auto simp: order_asc_def distinct_map)
  then have "sorted_wrt (<) (map blk_Height (order_asc blk_Height ?rs))"
    by (intro sorted_strict) (simp_all add: order_asc_def)
  then show "sorted_wrt (<) (batch_heights_of cfg l n d)"
    unfolding batch_heights_of_def limit_def by (simp add: sorted_wrt_take)
  show "\<forall>h \<in> set (batch_heights_of cfg l n d). l < h"
    unfolding batch_heights_of_def limit_def order_asc_def by (auto dest: in_set_takeD)
qed

lemma hoare_getBatchHeights:
  "hoare (\<lambda>w. w_db w = d) (getBatchHeights cfg l wq)
    (\<lambda>hs w. w_db w = d \<and> (hs = [] \<or> (\<exists>n. hs = batch_heights_of cfg l n d))) (\<lambda>_ w. w_db w = d)"
proof (rule hoareI)
  fix w hs w' assume w: "w_db w = d" "getBatchHeights cfg l wq w = (Inr hs, w')"
  from w(2) obtain u where u: "ctx_check w = (Inr (), u)"
    and r: "(if int (wq_maxSize wq) - int (length (wq_ch wq)) \<le> 0 then ret []
       else query (batch_heights_of cfg l (min (cfg_InternalTxBatchSize cfg)
          (int (wq_maxSize wq) - int (length (wq_ch wq)))))) u = (Inr hs, w')"
    by (auto simp: getBatchHeights_def bnd_eq_Inr Let_def)
  have k: "keeps (\<lambda>w. w_db w = d) ctx_check" by (intro keeps_intros) (simp add: fault_free_def)
  have "w_db u = d" using keepsD [OF k w(1) u] .
  then show "w_db w' = d \<and> (hs = [] \<or> (\<exists>n. hs = batch_heights_of cfg l n d))"
  proof (cases "int (wq_maxSize wq) - int (length (wq_ch wq)) \<le> 0")
    case True
    with r \<open>w_db u = d\<close> show ?thesis by simp
  next
    case False
    with r have "query (batch_heights_of cfg l (min (cfg_InternalTxBatchSize cfg)
          (int (wq_maxSize wq) - int (length (wq_ch wq))))) u = (Inr hs, w')" by simp
    from hoareD [OF hoare_query \<open>w_db u = d\<close> this] show ?thesis by blast
  qed
next
  fix w e w' assume w: "w_db w = d" "getBatchHeights cfg l wq w = (Inl e, w')"
  have "keeps (\<lambda>w. w_db w = d) (getBatchHeights cfg l wq)"
    unfolding getBatchHeights_def Let_def by (intro keeps_intros) (simp_all add: fault_free_def)
  from keepsD [OF this w] show "w_db w' = d" .
qed


text \<open>The rest of the program appends blocks: a new row is above every stored one.\<close>

definition appends :: "config \<Rightarrow> int \<Rightarrow> (world \<Rightarrow> world \<Rightarrow> bool) \<Rightarrow> bool" where
  "appends cfg h0 grow \<longleftrightarrow> (\<forall>w w'. grow w w' \<longrightarrow>
     set (t_block (w_db w)) \<subseteq> set (t_block (w_db w')) \<and>
     (unique_key block_key (t_block (w_db w)) \<longrightarrow> unique_key block_key (t_block (w_db w'))) \<and>
     (\<forall>r \<in> set (t_block (w_db w')) - set (t_block (w_db w)). blk_ChainId r = cfg_ChainId cfg \<longrightarrow> h0 < blk_Height r \<and>
        (\<forall>q \<in> set (t_block (w_db w)). blk_ChainId q = cfg_ChainId cfg \<longrightarrow> blk_Height q < blk_Height r)))"

definition with_txs :: "config \<Rightarrow> world \<Rightarrow> int set" where
  "with_txs cfg w = {blk_Height r | r. r \<in> set (t_block (w_db w)) \<and> blk_ChainId r = cfg_ChainId cfg \<and> 0 < blk_TxCount r}"

definition complete :: "config \<Rightarrow> int \<Rightarrow> itx_ext \<Rightarrow> bool" where
  "complete cfg h0 s \<longleftrightarrow> unique_key block_key (t_block (w_db (x_world s))) \<and>
     (\<forall>h \<in> with_txs cfg (x_world s). h0 < h \<and> h \<le> last_of s \<longrightarrow> h \<in> wi_Height ` set (pushed s @ batch_rest s)) \<and>
     (last_of s = h0 \<or> (\<exists>r \<in> set (t_block (w_db (x_world s))). blk_ChainId r = cfg_ChainId cfg \<and> blk_Height r = last_of s))"

lemma keeps_block_itx: "keeps (\<lambda>w. t_block (w_db w) = B) (CollectInternalTxs E cfg itr)"
proof -
  have ff: "fault_free (\<lambda>w. t_block (w_db w) = B)" by (simp add: fault_free_def)
  have acc: "ignores (account_dict E) (\<lambda>w. t_block (w_db w) = B)" "ignores (evm_tx_hash_dict E) (\<lambda>w. t_block (w_db w) = B)"
    by (simp_all add: ignores_def fault_free_def account_dict_def evm_tx_hash_dict_def)
  have batches: "keeps (\<lambda>w. t_block (w_db w) = B) (CreateInBatches cfg ins rows)" if "\<And>rs d. t_block (ins rs d) = t_block d" for ins rows
    by (rule keeps_batches) (simp_all add: fault_free_def that)
  have hash: "keeps (\<lambda>w. t_block (w_db w) = B) (GetOrCreateEvmTxHashIds E hs True)" for hs
    unfolding GetOrCreateEvmTxHashIds_def by (rule keeps_get_or_create [OF acc(2)])
  have trace: "keeps (\<lambda>w. t_block (w_db w) = B) (collect_trace E h m x a)" for h m x a
    unfolding collect_trace_def by (intro keeps_intros keeps_process acc)
  have "keeps (\<lambda>w. t_block (w_db w) = B) (itx_body E cfg itr)"
    unfolding itx_body_def insert_itx_def
    by (intro keeps_intros batches hash trace ff) (simp_all add: ins_ei_def ins_eia_def put_seq_def)
  note body = keepsD [OF this]
  show ?thesis
  proof (rule keepsI)
    fix w r w' assume w: "t_block (w_db w) = B" and run: "CollectInternalTxs E cfg itr w = (r, w')"
    show "t_block (w_db w') = B"
    proof (cases "transaction (itx_body E cfg itr) w")
      case (Pair r1 u)
      then have "w' = u" using run by (auto simp: CollectInternalTxs_def split: sum.splits if_splits)
      moreover have "t_block (w_db u) = B"
      proof (cases r1)
        case (Inl e)
        with Pair w show ?thesis by (simp add: transaction_atomic)
      next
        case (Inr x)
        with Pair have "transaction (itx_body E cfg itr) w = (Inr x, u)" by simp
        from transaction_Inr [OF this] obtain v where v: "itx_body E cfg itr w = (Inr x, v)" "w_db u = w_db v" by blast
        from body [OF w v(1)] show ?thesis unfolding v(2) .
      qed
      ultimately show ?thesis by simp
    qed
  qed
qed

lemma last_batch: "sorted_wrt (<) (xs :: int list) \<Longrightarrow> x \<in> set xs \<Longrightarrow> x \<le> last xs"
  by (induction xs) (auto simp: less_imp_le)

lemma last_snoc_le:
  assumes "sorted_wrt (<) (h0 # xs)" "last (h0 # xs) \<le> (l :: int)" "sorted_wrt (<) ys" "\<forall>y \<in> set ys. l < y"
  shows "sorted_wrt (<) (h0 # xs @ ys)"
proof -
  have "x \<le> last (h0 # xs)" if "x \<in> set (h0 # xs)" for x by (rule last_batch [OF assms(1) that])
  then have "x < y" if "x \<in> set (h0 # xs)" "y \<in> set ys" for x y using that assms(2,4) by force
  with assms(1,3) show ?thesis by (auto simp: sorted_wrt_append)
qed

text \<open>A batch is everything up to its last height.\<close>

lemma batch_complete:
  assumes "hs = batch_heights_of cfg l n (w_db w)" "hs \<noteq> []" "unique_key block_key (t_block (w_db w))"
  shows "\<forall>h \<in> with_txs cfg w. l < h \<and> h \<le> last hs \<longrightarrow> h \<in> set hs"
    and "\<exists>r \<in> set (t_block (w_db w)). blk_ChainId r = cfg_ChainId cfg \<and> blk_Height r = last hs"
proof -
  let ?all = "map blk_Height (order_asc blk_Height (filter (\<lambda>r.
       blk_ChainId r = cfg_ChainId cfg \<and> l < blk_Height r \<and> 0 < blk_TxCount r) (t_block (w_db w))))"
  obtain ys where ys: "?all = hs @ ys" using limit_prefix [of ?all n] by (auto simp: assms(1) batch_heights_of_def)
  have srt: "sorted ?all" by (simp add: order_asc_def)
  have above: "last hs \<le> y" if "y \<in> set ys" for y
    using srt that assms(2) unfolding ys by (auto simp: sorted_append)
  have lt: "sorted_wrt (<) ?all"
    using batch_ascending(1) [OF assms(3), of cfg l "-1"] by (simp add: batch_heights_of_def limit_def)
  show "\<forall>h \<in> with_txs cfg w. l < h \<and> h \<le> last hs \<longrightarrow> h \<in> set hs"
  proof (intro ballI impI)
    fix h assume "h \<in> with_txs cfg w" and h: "l < h \<and> h \<le> last hs"
    then have "h \<in> set ?all" by (auto simp: with_txs_def order_asc_def)
    then have "h \<in> set hs \<or> h \<in> set ys" unfolding ys by simp
    moreover have False if "h \<in> set ys" "h \<notin> set hs"
    proof -
      have "last hs < h" using lt that(1) assms(2) unfolding ys by (simp add: sorted_wrt_append)
      with h show False by simp
    qed
    ultimately show "h \<in> set hs" by blast
  qed
  have "last hs \<in> set ?all" unfolding ys using assms(2) by simp
  then show "\<exists>r \<in> set (t_block (w_db w)). blk_ChainId r = cfg_ChainId cfg \<and> blk_Height r = last hs"
    by (auto simp: order_asc_def)
qed

lemma ext_inv_step:
  assumes "ext_step E cfg grow s t" "appends cfg h0 grow" "ascending h0 s" "complete cfg h0 s"
  shows "ascending h0 t \<and> complete cfg h0 t"
  using assms(1)
proof cases
  case (produce heights w' workItems)
  let ?l = "lastProducedHeight s" and ?w = "x_world s"
  have l: "last_of s = ?l" "batch_rest s = []" using produce(2) assms(3) by (simp_all add: ascending_def)
  have u: "unique_key block_key (t_block (w_db ?w))" using assms(4) by (simp add: complete_def)
  from hoareD [OF hoare_getBatchHeights refl produce(5)] produce(6) obtain n where
    n: "w_db w' = w_db ?w" "heights = batch_heights_of cfg ?l n (w_db ?w)" by blast
  note bh = batch_ascending [OF u, of cfg ?l n, folded n(2)] and bc = batch_complete [OF n(2) produce(6) u]
  have "sorted_wrt (<) (h0 # map wi_Height (pushed s) @ heights)"
    by (rule last_snoc_le [where l = ?l]) (use assms(3) l bh in \<open>simp_all add: ascending_def\<close>)
  then have "ascending h0 t" using produce(6) by (simp add: produce(1,7) ascending_def)
  moreover have "complete cfg h0 t"
    unfolding complete_def produce(1)
  proof (simp add: n(1) u, intro conjI ballI impI)
    show "last heights = h0 \<or> (\<exists>r \<in> set (t_block (w_db ?w)). blk_ChainId r = cfg_ChainId cfg \<and> blk_Height r = last heights)"
      using bc(2) by blast
  next
    fix h assume h: "h \<in> with_txs cfg w'" "h0 < h \<and> h \<le> last heights"
    have w: "h \<in> with_txs cfg ?w" using h(1) n(1) by (simp add: with_txs_def)
    have img: "wi_Height ` set workItems = set heights" using produce(7) by (metis set_map)
    show "h \<in> wi_Height ` (set (pushed s) \<union> set workItems)"
    proof (cases "h \<le> ?l")
      case True
      then show ?thesis using assms(4) w h(2) l by (auto simp: complete_def)
    next
      case False
      then have "h \<in> set heights" using bc(1) w h(2) by simp
      then show ?thesis unfolding image_Un img by blast
    qed
  qed
  ultimately show ?thesis by blast
next
  case (produce_fails r w')
  have "w_db w' = w_db (x_world s)"
    using produce_fails(5) hoareD [OF hoare_getBatchHeights refl] hoareD_err [OF hoare_getBatchHeights refl]
    by (cases r) blast+
  then show ?thesis
    using assms(3,4) by (simp add: produce_fails(1) ascending_def complete_def with_txs_def)
next
  case (push item rest wq')
  then obtain h where "batch_last s = Some h" using assms(3) by (cases "batch_last s") (auto simp: ascending_def)
  then show ?thesis using push assms(3,4) by (simp add: ascending_def complete_def)
next
  case (produced h)
  then show ?thesis using assms(3,4) by (simp add: ascending_def complete_def)
next
  case (pop item wq')
  then show ?thesis using assms(3,4) by (simp add: ascending_def complete_def)
next
  case (consume item w')
  have "t_block (w_db w') = t_block (w_db (x_world s))"
    using keepsD [OF keeps_block_itx [of "t_block (w_db (x_world s))"] refl consume(3)] .
  then show ?thesis using assms(3,4) by (simp add: consume(1) ascending_def complete_def with_txs_def)
next
  case (consume_fails item e w')
  have "t_block (w_db w') = t_block (w_db (x_world s))"
    using keepsD [OF keeps_block_itx [of "t_block (w_db (x_world s))"] refl consume_fails(3)] .
  then show ?thesis using assms(3,4) by (simp add: consume_fails(1) ascending_def complete_def with_txs_def)
next
  case (others w')
  let ?B = "set (t_block (w_db (x_world s)))" and ?B' = "set (t_block (w_db w'))"
  have g: "?B \<subseteq> ?B'" "unique_key block_key (t_block (w_db (x_world s))) \<longrightarrow> unique_key block_key (t_block (w_db w'))"
    "\<forall>r \<in> ?B' - ?B. blk_ChainId r = cfg_ChainId cfg \<longrightarrow> h0 < blk_Height r \<and>
        (\<forall>q \<in> ?B. blk_ChainId q = cfg_ChainId cfg \<longrightarrow> blk_Height q < blk_Height r)"
    using assms(2) others(2) unfolding appends_def by blast+
  have new: "last_of s < blk_Height r" if "r \<in> ?B' - ?B" "blk_ChainId r = cfg_ChainId cfg" for r
    using g(3) that assms(4) unfolding complete_def by metis
  have old: "h \<in> with_txs cfg (x_world s)" if "h \<in> with_txs cfg w'" "h \<le> last_of s" for h
    using that new unfolding with_txs_def by force
  have "last_of t = last_of s" by (simp add: others(1))
  then show ?thesis
    using assms(3,4) g(1,2) old by (auto simp: ascending_def complete_def others(1))
next
  case cancel
  then show ?thesis using assms(3,4) by (simp add: ascending_def complete_def)
qed


lemma ext_inv_init:
  assumes "unique_key block_key (t_block (w_db w))" "s0 = init_ext n w"
  shows "ascending (last_itx_height (w_db w)) s0 \<and> complete cfg (last_itx_height (w_db w)) s0 \<and> queue_ok s0"
  using assms by (simp add: ascending_def complete_def queue_ok_def init_ext_def last_of_def NewWorkQueue_def)

lemma ext_reach_inv:
  assumes "ext_reach E cfg grow (init_ext n w) s" "appends cfg (last_itx_height (w_db w)) grow"
    and "unique_key block_key (t_block (w_db w))"
  shows "ascending (last_itx_height (w_db w)) s \<and> complete cfg (last_itx_height (w_db w)) s \<and> queue_ok s"
  using assms(1)
proof (induction rule: ext_reach.induct)
  case start
  show ?case by (rule ext_inv_init [OF assms(3) refl])
next
  case (more s t)
  then show ?case using ext_inv_step [OF more(2) assms(2)] queue_step [OF more(2)] by blast
qed

text \<open>A work item whose collection failed was popped; it is in no queue any more.\<close>

definition failed_ok :: "itx_ext \<Rightarrow> bool" where
  "failed_ok s \<longleftrightarrow> set (failed s) \<subseteq> set (popped s) \<and> (\<forall>i. consuming s = Some i \<longrightarrow> i \<in> set (popped s))"

lemma failed_step: "ext_step E cfg grow s t \<Longrightarrow> failed_ok s \<Longrightarrow> failed_ok t \<and> set (failed s) \<subseteq> set (failed t)"
  by (induction rule: ext_step.induct) (auto simp: failed_ok_def)

lemma failed_reach: "ext_reach E cfg grow (init_ext n w) s \<Longrightarrow> failed_ok s"
proof (induction rule: ext_reach.induct)
  case (more s t)
  then show ?case using failed_step by blast
qed (simp add: failed_ok_def init_ext_def)

lemma failed_gone:
  assumes "ascending h0 s" "queue_ok s" "failed_ok s" "item \<in> set (failed s)"
  shows "wi_Height item \<notin> wi_Height ` set (wq_ch (workQueue s) @ batch_rest s)"
proof -
  have d: "distinct (map wi_Height (pushed s @ batch_rest s))"
    using assms(1) by (simp add: ascending_def strict_sorted_iff)
  have "item \<in> set (popped s)" using assms(3,4) by (auto simp: failed_ok_def)
  then show ?thesis using d assms(2) by (auto simp: queue_ok_def)
qed

end
