(* ===== verification/Edge_Cleanup.thy ===== *)
theory Edge_Cleanup
  imports Tx_Collect_Proofs
begin

text \<open>
  What the two cleanup extensions share: they look accounts up without creating them, and they write the
  edges between transactions and accounts only.
\<close>

section \<open>Looking accounts up\<close>

text \<open>Without \<open>createNew\<close> an account has an id exactly when its address has a row.\<close>

definition account_id :: "env \<Rightarrow> CollectedAccountDict list \<Rightarrow> string \<Rightarrow> int \<Rightarrow> bool" where
  "account_id E t a i \<longleftrightarrow> (\<exists>b. AccAddressFromString (from_bech32 E) a = Inr b \<and> (i, b) \<in> set t)"

lemma dict_inv_ids: "dict_inv D w \<Longrightarrow> (i, v) \<in> set (d_rows D w) \<Longrightarrow> (j, v) \<in> set (d_rows D w) \<Longrightarrow> i = j"
  unfolding dict_inv_def by (metis eq_key_imp_eq_value map_of_eq_Some_iff distinct_map inj_on_def snd_conv fst_conv)

lemma account_lookup:
  assumes E: "env_ok E"
  shows "hoare (\<lambda>w. dict_inv (account_dict E) w \<and> t_account_dict (w_db w) = t) (GetOrCreateAccountIds E accounts False)
    (\<lambda>m w. (dict_inv (account_dict E) w \<and> t_account_dict (w_db w) = t) \<and>
       (\<forall>a i. m a = Some i \<longleftrightarrow> a \<in> set accounts \<and> account_id E t a i))
    (\<lambda>e w. dict_inv (account_dict E) w \<and> t_account_dict (w_db w) = t)"
proof -
  have b32: "bech32_ok E" by (rule env_okD(1) [OF E])
  have ev: "evicts (d_evict (account_dict E))" using env_okD(3) [OF E] by simp
  show ?thesis
    unfolding GetOrCreateAccountIds_eq
  proof (rule hoare_weaken [OF acc.get_or_create_False [OF ev, of t]])
    fix m w
    assume *: "(dict_inv (account_dict E) w \<and> d_rows (account_dict E) w = t) \<and> sound (account_dict E) t (dedup accounts) m \<and>
      (\<forall>q \<in> set (dedup accounts). acc.has_row E t q \<longrightarrow> m (d_key (account_dict E) q) \<noteq> None)"
    then have inv: "dict_inv (account_dict E) w" "t_account_dict (w_db w) = t" by simp_all
    have ne: "v \<noteq> []" if "(i, v) \<in> set t" for i v
      using inv that unfolding dict_inv_def account_rows account_ok by fastforce
    have fwd: "a \<in> set accounts \<and> account_id E t a i" if "m a = Some i" for a i
    proof -
      from * that obtain v where v: "a \<in> set accounts" "normalizeAccountToBech32 E a = Inr (to_bech32 E v)" "(i, v) \<in> set t"
        unfolding sound_def account_ckey account_rkey account_key set_dedup by blast
      from v(2) obtain b where b: "AccAddressFromString (from_bech32 E) a = Inr b" "to_bech32 E b = to_bech32 E v"
        by (auto simp: normalizeAccountToBech32_def rbind_eq_Inr)
      have "b = v" using b(2) AccAddress_nonempty [OF b32 b(1)] ne [OF v(3)] b32
        unfolding bech32_ok_def by (metis option.inject)
      with v b(1) show ?thesis unfolding account_id_def by blast
    qed
    have "m a = Some i" if a: "a \<in> set accounts" "account_id E t a i" for a i
    proof -
      from a(2) obtain b where b: "AccAddressFromString (from_bech32 E) a = Inr b" "(i, b) \<in> set t"
        unfolding account_id_def by blast
      then have "acc.has_row E t a"
        unfolding acc.has_row_def by (auto simp: normalizeAccountToBech32_def)
      with * a(1) obtain j where j: "m a = Some j" by auto
      from fwd [OF j] b(1) have "(j, b) \<in> set t" unfolding account_id_def by auto
      with b(2) inv have "j = i" using dict_inv_ids [of "account_dict E" w j b i] by simp
      with j show ?thesis by simp
    qed
    with fwd inv show "(dict_inv (account_dict E) w \<and> t_account_dict (w_db w) = t) \<and>
       (\<forall>a i. m a = Some i \<longleftrightarrow> a \<in> set accounts \<and> account_id E t a i)" by blast
  qed simp_all
qed


section \<open>Predicates that do not look at edges and caches\<close>

definition blind :: "(world \<Rightarrow> bool) \<Rightarrow> bool" where
  "blind P \<longleftrightarrow> fault_free P \<and> (\<forall>c w. P w \<longrightarrow> P (w\<lparr>accountCache := c\<rparr>)) \<and>
     (\<forall>c w. P w \<longrightarrow> P (w\<lparr>faStoreCache := c\<rparr>)) \<and>
     (\<forall>e w. P w \<longrightarrow> P (w\<lparr>w_db := (w_db w)\<lparr>t_tx_accounts := e\<rparr>\<rparr>))"

lemma blindD:
  assumes "blind P"
  shows "fault_free P" "P w \<Longrightarrow> P (w\<lparr>accountCache := c\<rparr>)" "P w \<Longrightarrow> P (w\<lparr>faStoreCache := d\<rparr>)"
    "P w \<Longrightarrow> P (w\<lparr>w_db := (w_db w)\<lparr>t_tx_accounts := e\<rparr>\<rparr>)"
  using assms by (auto simp: blind_def)

text \<open>A lookup changes the cache of the dictionary only.\<close>

lemma keeps_lookup:
  assumes "fault_free P" "\<And>w c. P w \<Longrightarrow> P (w\<lparr>accountCache := c\<rparr>)"
  shows "keeps P (GetOrCreateAccountIds E as False)"
proof -
  have put: "d_put_cache (account_dict E) c w = w\<lparr>accountCache := c\<rparr>" for c w by (simp add: account_dict_def)
  have get: "keeps P (cache_Get (account_dict E) k)" for k
    by (rule keepsI) (auto simp: cache_Get_def put assms(2) split: prod.splits)
  have set_: "keeps P (cache_Set (account_dict E) k i)" for k i
    unfolding cache_Set_def by (intro keeps_intros) (simp add: put assms(2))
  have "keeps P (check_cache (account_dict E) qs)" for qs
    unfolding check_cache_def by (intro keeps_intros get)
  moreover have "keeps P (fetch_rows (account_dict E) qs)" for qs
    unfolding fetch_rows_def by (intro keeps_intros assms(1))
  moreover have "keeps P (update_cache (account_dict E) qs m i)" for qs m i
    unfolding update_cache_def by (intro keeps_intros set_)
  ultimately show ?thesis
    unfolding GetOrCreateAccountIds_eq get_or_create_def if_False by (intro keeps_intros)
qed

lemma keeps_exec_edges:
  assumes "blind P"
  shows "keeps P (exec (\<lambda>d. d\<lparr>t_tx_accounts := f (t_tx_accounts d)\<rparr>))"
  by (rule keeps_exec [OF blindD(1) [OF assms]]) (rule blindD(4) [OF assms])

lemma dict_inv_edges: "dict_inv (account_dict E) u \<Longrightarrow> dict_inv (account_dict E) (u\<lparr>w_db := (w_db u)\<lparr>t_tx_accounts := x\<rparr>\<rparr>)"
  by (simp add: dict_inv_def account_dict_def)

lemma keeps_dict_lookup:
  assumes "env_ok E"
  shows "keeps (\<lambda>w. dict_inv (account_dict E) w \<and> t_account_dict (w_db w) = t) (GetOrCreateAccountIds E as False)"
  unfolding keeps_def by (rule hoare_weaken [OF account_lookup [OF assms]]) blast+


section \<open>Writing edges\<close>

definition edges_at :: "int list \<Rightarrow> int \<Rightarrow> CollectedTxAccount \<Rightarrow> bool" where
  "edges_at accountIds sequence r \<longleftrightarrow> ta_AccountId r \<in> set accountIds \<and> ta_Sequence r = sequence"

text \<open>One statement on the edge table, with the number of rows it affected.\<close>

definition edge_stmt :: "(CollectedTxAccount list \<Rightarrow> int \<times> CollectedTxAccount list) \<Rightarrow> (world, int) act" where
  "edge_stmt f = stmt (\<lambda>w. (Inr (fst (f (t_tx_accounts (w_db w)))),
     w\<lparr>w_db := (w_db w)\<lparr>t_tx_accounts := snd (f (t_tx_accounts (w_db w)))\<rparr>\<rparr>))"

definition delete_edges :: "(CollectedTxAccount \<Rightarrow> bool) \<Rightarrow> (world, int) act" where
  "delete_edges P = edge_stmt (\<lambda>t. (rows_affected P t, delete_where P t))"

definition update_edges :: "(CollectedTxAccount \<Rightarrow> bool) \<Rightarrow> (CollectedTxAccount \<Rightarrow> CollectedTxAccount) \<Rightarrow> (world, int) act" where
  "update_edges P f = edge_stmt (\<lambda>t. (rows_affected P t, update_where P f t))"

text \<open>\<open>slices.Collect(maps.Values(m))\<close> for a map with keys among \<open>ks\<close>.\<close>

definition map_values :: "(string \<rightharpoonup> int) \<Rightarrow> string list \<Rightarrow> int list" where
  "map_values m ks = ids_of m (dedup ks)"

text \<open>The dictionary is sound, and the database is \<open>d\<close> except for its edges \<open>e\<close>.\<close>

definition edge_state :: "env \<Rightarrow> db \<Rightarrow> CollectedTxAccount list \<Rightarrow> world \<Rightarrow> bool" where
  "edge_state E d e w \<longleftrightarrow> dict_inv (account_dict E) w \<and> w_db w = d\<lparr>t_tx_accounts := e\<rparr>"

lemma edge_state_ff [simp]: "fault_free (edge_state E d e)"
  by (simp add: edge_state_def fault_free_def dict_inv_def account_dict_def)

lemma keeps_edge_state_lookup:
  assumes "env_ok E"
  shows "keeps (edge_state E d e) (GetOrCreateAccountIds E as False)"
proof -
  have "keeps (\<lambda>w. (dict_inv (account_dict E) w \<and> t_account_dict (w_db w) = t_account_dict d) \<and> w_db w = d\<lparr>t_tx_accounts := e\<rparr>)
      (GetOrCreateAccountIds E as False)"
    by (rule keeps_conj [OF keeps_dict_lookup [OF assms]], rule keeps_lookup) (simp_all add: fault_free_def)
  moreover have "(\<lambda>w. (dict_inv (account_dict E) w \<and> t_account_dict (w_db w) = t_account_dict d) \<and> w_db w = d\<lparr>t_tx_accounts := e\<rparr>)
      = edge_state E d e"
  proof (rule ext)
    fix w :: world
    have "w_db w = d\<lparr>t_tx_accounts := e\<rparr> \<Longrightarrow> t_account_dict (w_db w) = t_account_dict d" by simp
    then show "((dict_inv (account_dict E) w \<and> t_account_dict (w_db w) = t_account_dict d) \<and> w_db w = d\<lparr>t_tx_accounts := e\<rparr>)
        = edge_state E d e w" unfolding edge_state_def by blast
  qed
  ultimately show ?thesis by simp
qed

lemma set_ids_of: "set (ids_of m ks) = {i. \<exists>k \<in> set ks. m k = Some i}"
  by (induction ks) (auto simp: ids_of_def split: option.splits)

lemma hoare_lookup_state:
  assumes "env_ok E" "edge_state E d e w" "GetOrCreateAccountIds E as False w = (Inr m, w')"
  shows "edge_state E d e w'" "m a = Some i \<longleftrightarrow> a \<in> set as \<and> account_id E (t_account_dict d) a i"
proof -
  show "edge_state E d e w'" by (rule keepsD [OF keeps_edge_state_lookup [OF assms(1)] assms(2,3)])
  have pre: "dict_inv (account_dict E) w \<and> t_account_dict (w_db w) = t_account_dict d"
    using assms(2) by (simp add: edge_state_def)
  from hoareD [OF account_lookup [OF assms(1)] pre assms(3)]
  show "m a = Some i \<longleftrightarrow> a \<in> set as \<and> account_id E (t_account_dict d) a i" by blast
qed

lemma ctx_check_Inr: "ctx_check w = (Inr x, w') \<Longrightarrow> fault_free P \<Longrightarrow> P w \<Longrightarrow> P w'"
  using keepsD [OF keeps_ctx_check] by blast

lemma bnd_check_Inr: "bnd ctx_check (\<lambda>_. f) w = (Inr y, w') \<longleftrightarrow> (\<exists>u. ctx_check w = (Inr (), u) \<and> f u = (Inr y, w'))"
  by (simp add: bnd_eq_Inr)

lemma edge_state_cache: "edge_state E d e w \<Longrightarrow> edge_state E d e (w\<lparr>faStoreCache := c\<rparr>)"
proof -
  have "dict_inv (account_dict E) w \<Longrightarrow> dict_inv (account_dict E) (w\<lparr>faStoreCache := c\<rparr>)"
    by (simp add: dict_inv_def account_dict_def)
  then show "edge_state E d e w \<Longrightarrow> ?thesis" by (simp add: edge_state_def)
qed

lemma edge_stmt_spec:
  assumes "edge_state E d e w" "edge_stmt f w = (Inr n, w')"
  shows "edge_state E d (snd (f e)) w' \<and> n = fst (f e)"
proof -
  let ?f = "\<lambda>w. (Inr (fst (f (t_tx_accounts (w_db w)))),
     w\<lparr>w_db := (w_db w)\<lparr>t_tx_accounts := snd (f (t_tx_accounts (w_db w)))\<rparr>\<rparr>)"
  from assms(2) have run: "stmt ?f w = (Inr n, w')" by (simp add: edge_stmt_def)
  show ?thesis
  proof (cases rule: stmt_cases [of w ?f])
    case (2 fs)
    define u where "u = w\<lparr>w_faults := fs\<rparr>"
    have su: "edge_state E d e u" using assms(1) fault_freeD [OF edge_state_ff] unfolding u_def by blast
    then have u: "dict_inv (account_dict E) u" "w_db u = d\<lparr>t_tx_accounts := e\<rparr>" by (simp_all add: edge_state_def)
    from run 2 have "n = fst (f e)" "w' = u\<lparr>w_db := (w_db u)\<lparr>t_tx_accounts := snd (f e)\<rparr>\<rparr>"
      using u(2) by (simp_all add: u_def)
    with dict_inv_edges [OF u(1), of "snd (f e)"] u(2) show ?thesis by (simp add: edge_state_def)
  qed (use run in simp)
qed


section \<open>The status row\<close>

text \<open>
  The progress of a cleanup is the only row of its status table, which \<open>Initialize\<close> creates on the first run.
\<close>

definition load_status :: "(db \<Rightarrow> 's list) \<Rightarrow> ('s list \<Rightarrow> db \<Rightarrow> db) \<Rightarrow> 's \<Rightarrow> (world, 's) act" where
  "load_status rows put s0 = (\<lambda>w. case first_row rows w of
       (Inr s, w') \<Rightarrow> (Inr s, w')
     | (Inl e, w') \<Rightarrow>
         if errors_is e RecordNotFound then
           bnd (wrap_err ''failed to create initial status'' (exec (\<lambda>d. put (rows d @ [s0]) d))) (\<lambda>_. ret s0) w'
         else (Inl (Wrapped ''failed to retrieve cleanup status'' e), w'))"

definition status_of :: "'s \<Rightarrow> 's list \<Rightarrow> 's" where
  "status_of s0 rows = (case rows of [] \<Rightarrow> s0 | s # _ \<Rightarrow> s)"

lemma load_status_spec:
  assumes one: "length (rows (w_db w)) \<le> 1" and P: "fault_free P" "\<And>w x. P w \<Longrightarrow> P (w\<lparr>w_db := put x (w_db w)\<rparr>)" "P w"
    and id: "\<And>d. put (rows d) d = d" and run: "load_status rows put s0 w = (Inr s, w')"
  shows "s = status_of s0 (rows (w_db w))" "w_db w' = put [s] (w_db w)" "P w'"
proof (atomize (full))
  obtain r u where f: "first_row rows w = (r, u)" by fastforce
  have pu: "P u" by (rule keepsD [OF keeps_first_row [OF P(1)] P(3) f])
  show "s = status_of s0 (rows (w_db w)) \<and> w_db w' = put [s] (w_db w) \<and> P w'"
  proof (cases r)
    case (Inr x)
    from hoareD [OF hoare_first_row refl f [unfolded Inr]] obtain rs where rs: "w_db u = w_db w" "rows (w_db w) = x # rs"
      by blast
    with one have "rs = []" by simp
    moreover have "s = x" "w' = u" using run f Inr by (simp_all add: load_status_def)
    ultimately show ?thesis using rs pu id [of "w_db w"] by (simp add: status_of_def)
  next
    case (Inl e)
    note h = hoareD_err [OF hoare_first_row refl f [unfolded Inl]]
    from run f Inl have nf: "errors_is e RecordNotFound" and ex: "exec (\<lambda>d. put (rows d @ [s0]) d) u = (Inr (), w')" and s: "s = s0"
      by (auto simp: load_status_def bnd_eq_Inr split: if_splits)
    have "P w'" by (rule keepsD [OF keeps_exec [OF P(1,2)] pu ex])
    moreover have "w_db w' = put (rows (w_db u) @ [s0]) (w_db u)" by (rule hoareD [OF hoare_exec refl ex])
    ultimately show ?thesis using h nf by (simp add: s status_of_def)
  qed
qed

lemma dict_inv_ff: "fault_free (dict_inv (account_dict E))"
  by (simp add: fault_free_def dict_inv_def account_dict_def)

end
