(* ===== verification/Evm_Ret.thy ===== *)
theory Evm_Ret
  imports Edge_Cleanup
begin

text \<open>
  The cleanup of \<open>ret\<close> addresses: \<open>src/indexer/extension/evmret/\<close> (\<open>cleanup.go\<close>, \<open>extension.go\<close>). An older
  collector also searched the return data of EVM calls for addresses. This extension walks over the stored
  transactions and deletes the edges to accounts that only occur there.
\<close>

section \<open>cleanup.go\<close>

definition extractAddressesFromValue :: "env \<Rightarrow> string \<Rightarrow> string list" where
  "extractAddressesFromValue E value =
     concat (map (\<lambda>addr. case AccAddressFromString (from_bech32 E) addr of
         Inr accAddr \<Rightarrow> [BytesToHexWithPrefix accAddr] | Inl e \<Rightarrow> [])
       (concat (map (\<lambda>attrVal. findAllBech32Address attrVal @ findAllHexAddress attrVal) (split_comma value))))"

definition is_ret :: "env \<Rightarrow> event \<Rightarrow> attribute \<Rightarrow> bool" where
  "is_ret E e attr \<longleftrightarrow> etype e = EventTypeCall E \<and> akey attr = AttributeKeyRet E"

definition attribute_addresses :: "env \<Rightarrow> event \<Rightarrow> attribute \<Rightarrow> err + string list" where
  "attribute_addresses E e attr =
     (if etype e = EventTypeEVM E \<and> akey attr = AttributeKeyLog E then
        rbind (case unmarshal_log E (aval attr) of Inl e \<Rightarrow> Inl (Wrapped ''failed to unmarshal evm log'' e) | Inr l \<Rightarrow> Inr l)
          (\<lambda>(address, topics). Inr (concat (map (extractAddressesFromValue E) (log_addresses address topics))))
      else Inr (extractAddressesFromValue E (aval attr)))"

definition ret_loop :: "env \<Rightarrow> event list \<Rightarrow> err + string list \<times> string list" where
  "ret_loop E events = rfold (\<lambda>e. rfold (\<lambda>attr (retAddresses, nonRetAddresses).
       rbind (attribute_addresses E e attr) (\<lambda>addrs.
       Inr (if is_ret E e attr then (retAddresses @ addrs, nonRetAddresses) else (retAddresses, nonRetAddresses @ addrs))))
     (eattrs e)) events ([], [])"

definition FindRetOnlyAddresses :: "env \<Rightarrow> string \<Rightarrow> err + string list" where
  "FindRetOnlyAddresses E txData =
     rbind (case unmarshal_tx_events E txData of Inl e \<Rightarrow> Inl (Wrapped ''failed to unmarshal tx data'' e) | Inr es \<Rightarrow> Inr es)
     (\<lambda>events. rbind (ret_loop E events) (\<lambda>(retAddresses, nonRetAddresses).
     Inr (filter (\<lambda>a. a \<notin> set nonRetAddresses) (map_order E (dedup retAddresses)))))"

definition FilterNonSigners :: "int list \<Rightarrow> int \<Rightarrow> int list" where
  "FilterNonSigners accountIds signerId = filter (\<lambda>i. i \<noteq> signerId) accountIds"

definition DeleteRetOnlyRecords :: "int list \<Rightarrow> int \<Rightarrow> (world, int) act" where
  "DeleteRetOnlyRecords accountIds sequence =
     (if accountIds = [] then ret 0
      else wrap_err ''failed to delete ret-only records'' (delete_edges (edges_at accountIds sequence)))"

definition clean_tx :: "env \<Rightarrow> CollectedTx \<Rightarrow> int \<Rightarrow> (world, int) act" where
  "clean_tx E tx totalDeleted =
     bnd ctx_check (\<lambda>_.
     case FindRetOnlyAddresses E (tx_Data tx) of
       Inl e \<Rightarrow> ret totalDeleted
     | Inr retOnlyAddrs \<Rightarrow>
         if retOnlyAddrs = [] then ret totalDeleted
         else bnd (wrap_err ''failed to get account IDs'' (GetOrCreateAccountIds E retOnlyAddrs False)) (\<lambda>accountIds.
           let nonSignerIds = FilterNonSigners (map_values accountIds (map_order E (dedup retOnlyAddrs))) (tx_SignerId tx) in
           if nonSignerIds = [] then ret totalDeleted
           else bnd (wrap_err ''failed to delete records'' (DeleteRetOnlyRecords nonSignerIds (tx_Sequence tx))) (\<lambda>deleted.
             ret (totalDeleted + deleted))))"

definition ProcessBatch_ret :: "env \<Rightarrow> int \<Rightarrow> int \<Rightarrow> (world, int) act" where
  "ProcessBatch_ret E startHeight endHeight =
     bnd (wrap_err ''failed to query transactions'' (query (\<lambda>d. order_asc tx_Height
       (filter (\<lambda>t. startHeight \<le> tx_Height t \<and> tx_Height t \<le> endHeight) (t_tx d))))) (\<lambda>txs.
     foreach (clean_tx E) txs 0)"


section \<open>extension.go\<close>

definition BatchSize_ret :: int where
  "BatchSize_ret = 1000"

definition Initialize_ret :: "(world, CollectedEvmRetCleanupStatus) act" where
  "Initialize_ret = load_status t_evm_ret_status (\<lambda>t d. d\<lparr>t_evm_ret_status := t\<rparr>) \<lparr>LastCleanedHeight = 0, CorrectedRecords = 0\<rparr>"

definition updateStatus_ret :: "CollectedEvmRetCleanupStatus \<Rightarrow> (world, unit) act" where
  "updateStatus_ret status = exec (\<lambda>d. d\<lparr>t_evm_ret_status := map (\<lambda>_. status) (t_evm_ret_status d)\<rparr>)"

text \<open>One turn of the loop of \<open>Run_ret\<close>: the next current height and status.\<close>

definition clean_turn :: "env \<Rightarrow> int \<times> CollectedEvmRetCleanupStatus \<Rightarrow> (world, int \<times> CollectedEvmRetCleanupStatus) act" where
  "clean_turn E = (\<lambda>(currentHeight, status).
     bnd ctx_check (\<lambda>_.
     bnd (wrap_err ''failed to get max height'' (query (\<lambda>d. coalesce_max tx_Height (t_tx d)))) (\<lambda>maxHeight.
     if currentHeight > maxHeight then bnd ctx_check (\<lambda>_. ret (currentHeight, status))
     else let endHeight = min (currentHeight + BatchSize_ret - 1) maxHeight in
       bnd (wrap_err ''failed to process batch'' (ProcessBatch_ret E currentHeight endHeight)) (\<lambda>deleted.
       let status' = \<lparr>LastCleanedHeight = endHeight, CorrectedRecords = wrap64 (CorrectedRecords status + deleted)\<rparr> in
       bnd (wrap_err ''failed to update status'' (updateStatus_ret status')) (\<lambda>_.
       ret (endHeight + 1, status'))))))"

text \<open>\<open>turns\<close> turns of the loop, which only an error ends.\<close>

fun clean_turns :: "env \<Rightarrow> nat \<Rightarrow> int \<times> CollectedEvmRetCleanupStatus \<Rightarrow> (world, int \<times> CollectedEvmRetCleanupStatus) act" where
  "clean_turns E 0 s = ret s"
| "clean_turns E (Suc n) s = bnd (clean_turn E s) (clean_turns E n)"

definition Run_ret :: "env \<Rightarrow> nat \<Rightarrow> (world, int \<times> CollectedEvmRetCleanupStatus) act" where
  "Run_ret E n = bnd (wrap_err ''failed to initialize'' Initialize_ret) (\<lambda>status. clean_turns E n (LastCleanedHeight status + 1, status))"


section \<open>Which addresses are found\<close>

definition hits :: "env \<Rightarrow> bool \<Rightarrow> event list \<Rightarrow> string set" where
  "hits E r events = {a. \<exists>e \<in> set events. \<exists>attr \<in> set (eattrs e). is_ret E e attr = r \<and>
     (\<exists>addrs. attribute_addresses E e attr = Inr addrs \<and> a \<in> set addrs)}"

lemma ret_loop_spec:
  assumes "ret_loop E events = Inr (R, N)"
  shows "set R = hits E True events" "set N = hits E False events"
proof -
  have attrs: "set (fst y) = set (fst x) \<union> {a. \<exists>attr \<in> set as. is_ret E e attr \<and> (\<exists>addrs. attribute_addresses E e attr = Inr addrs \<and> a \<in> set addrs)} \<and>
      set (snd y) = set (snd x) \<union> {a. \<exists>attr \<in> set as. \<not> is_ret E e attr \<and> (\<exists>addrs. attribute_addresses E e attr = Inr addrs \<and> a \<in> set addrs)}"
    if "rfold (\<lambda>attr (retAddresses, nonRetAddresses). rbind (attribute_addresses E e attr) (\<lambda>addrs.
       Inr (if is_ret E e attr then (retAddresses @ addrs, nonRetAddresses) else (retAddresses, nonRetAddresses @ addrs)))) as x = Inr y"
    for e as x y
    using that
  proof (induction as arbitrary: x)
    case (Cons a as)
    obtain R N where [simp]: "x = (R, N)" by (cases x)
    from Cons.prems obtain addrs where ad: "attribute_addresses E e a = Inr addrs"
      and rest: "rfold (\<lambda>attr (retAddresses, nonRetAddresses). rbind (attribute_addresses E e attr) (\<lambda>addrs.
       Inr (if is_ret E e attr then (retAddresses @ addrs, nonRetAddresses) else (retAddresses, nonRetAddresses @ addrs)))) as
       (if is_ret E e a then (R @ addrs, N) else (R, N @ addrs)) = Inr y"
      by (auto simp: rbind_eq_Inr)
    from Cons.IH [OF rest] ad show ?case by auto
  qed simp
  have "set (fst y) = set (fst x) \<union> hits E True es \<and> set (snd y) = set (snd x) \<union> hits E False es"
    if "rfold (\<lambda>e. rfold (\<lambda>attr (retAddresses, nonRetAddresses). rbind (attribute_addresses E e attr) (\<lambda>addrs.
       Inr (if is_ret E e attr then (retAddresses @ addrs, nonRetAddresses) else (retAddresses, nonRetAddresses @ addrs))))
       (eattrs e)) es x = Inr y" for es x y
    using that
  proof (induction es arbitrary: x)
    case (Cons e es)
    from Cons.prems obtain z where z: "rfold (\<lambda>attr (retAddresses, nonRetAddresses). rbind (attribute_addresses E e attr) (\<lambda>addrs.
       Inr (if is_ret E e attr then (retAddresses @ addrs, nonRetAddresses) else (retAddresses, nonRetAddresses @ addrs))))
       (eattrs e) x = Inr z"
      and rest: "rfold (\<lambda>e. rfold (\<lambda>attr (retAddresses, nonRetAddresses). rbind (attribute_addresses E e attr) (\<lambda>addrs.
       Inr (if is_ret E e attr then (retAddresses @ addrs, nonRetAddresses) else (retAddresses, nonRetAddresses @ addrs))))
       (eattrs e)) es z = Inr y"
      by (auto simp: rbind_eq_Inr)
    from attrs [OF z] Cons.IH [OF rest] show ?case by (auto simp: hits_def)
  qed (simp add: hits_def)
  from this [OF assms [unfolded ret_loop_def]]
  show "set R = hits E True events" "set N = hits E False events" by simp_all
qed

lemma FindRetOnly_spec:
  assumes "env_ok E" "FindRetOnlyAddresses E d = Inr addrs"
  shows "\<exists>events. unmarshal_tx_events E d = Inr events \<and> set addrs = hits E True events - hits E False events"
proof -
  from assms(2) obtain events R N where ev: "unmarshal_tx_events E d = Inr events"
    and loop: "ret_loop E events = Inr (R, N)" and a: "addrs = filter (\<lambda>a. a \<notin> set N) (map_order E (dedup R))"
    by (auto simp: FindRetOnlyAddresses_def rbind_eq_Inr split: sum.splits)
  have "set (map_order E (dedup R)) = set R" using set_map_order [OF assms(1) distinct_dedup] by simp
  then have "set addrs = hits E True events - hits E False events"
    using ret_loop_spec [OF loop] unfolding a by auto
  with ev show ?thesis by blast
qed


section \<open>Which edges are deleted\<close>

definition ret_ids :: "env \<Rightarrow> CollectedAccountDict list \<Rightarrow> CollectedTx \<Rightarrow> int set" where
  "ret_ids E t tx = {i. \<exists>addrs a. FindRetOnlyAddresses E (tx_Data tx) = Inr addrs \<and> a \<in> set addrs \<and>
     account_id E t a i \<and> i \<noteq> tx_SignerId tx}"

definition ret_edge :: "env \<Rightarrow> CollectedAccountDict list \<Rightarrow> CollectedTx list \<Rightarrow> CollectedTxAccount \<Rightarrow> bool" where
  "ret_edge E t txs r \<longleftrightarrow> (\<exists>tx \<in> set txs. ta_Sequence r = tx_Sequence tx \<and> ta_AccountId r \<in> ret_ids E t tx)"

lemma DeleteRetOnly_spec:
  assumes "edge_state E d e w" "DeleteRetOnlyRecords is s w = (Inr n, w')"
  shows "edge_state E d (delete_where (edges_at is s) e) w'" "n = rows_affected (edges_at is s) e"
proof (atomize (full), cases "is = []")
  case True
  with assms show "edge_state E d (delete_where (edges_at is s) e) w' \<and> n = rows_affected (edges_at is s) e"
    by (simp add: DeleteRetOnlyRecords_def delete_where_def rows_affected_def edges_at_def)
next
  case False
  with assms(2) have "delete_edges (edges_at is s) w = (Inr n, w')" by (simp add: DeleteRetOnlyRecords_def)
  from edge_stmt_spec [OF assms(1) this [unfolded delete_edges_def]]
  show "edge_state E d (delete_where (edges_at is s) e) w' \<and> n = rows_affected (edges_at is s) e" by simp
qed

lemma delete_none: "\<forall>r \<in> set e. \<not> P r \<Longrightarrow> delete_where P e = e" "\<forall>r \<in> set e. \<not> P r \<Longrightarrow> rows_affected P e = 0"
  by (simp_all add: delete_where_def rows_affected_def filter_id_conv)

lemma clean_tx_spec:
  assumes E: "env_ok E" and st: "edge_state E d e w" and run: "clean_tx E tx n w = (Inr m, w')"
  shows "edge_state E d (delete_where (ret_edge E (t_account_dict d) [tx]) e) w'"
    and "m = n + rows_affected (ret_edge E (t_account_dict d) [tx]) e"
proof (atomize (full))
  let ?P = "ret_edge E (t_account_dict d) [tx]"
  let ?goal = "edge_state E d (delete_where ?P e) w' \<and> m = n + rows_affected ?P e"
  from run obtain u where u: "ctx_check w = (Inr (), u)"
    and rest: "(case FindRetOnlyAddresses E (tx_Data tx) of Inl e \<Rightarrow> ret n
       | Inr retOnlyAddrs \<Rightarrow> if retOnlyAddrs = [] then ret n
         else bnd (wrap_err ''failed to get account IDs'' (GetOrCreateAccountIds E retOnlyAddrs False)) (\<lambda>accountIds.
           let nonSignerIds = FilterNonSigners (map_values accountIds (map_order E (dedup retOnlyAddrs))) (tx_SignerId tx) in
           if nonSignerIds = [] then ret n
           else bnd (wrap_err ''failed to delete records'' (DeleteRetOnlyRecords nonSignerIds (tx_Sequence tx))) (\<lambda>deleted.
             ret (n + deleted)))) u = (Inr m, w')"
    unfolding clean_tx_def bnd_eq_Inr by auto
  have su: "edge_state E d e u" by (rule ctx_check_Inr [OF u edge_state_ff st])
  show ?goal
  proof (cases "FindRetOnlyAddresses E (tx_Data tx)")
    case (Inl x)
    then have "\<forall>r \<in> set e. \<not> ?P r" by (simp add: ret_edge_def ret_ids_def)
    from delete_none [OF this] rest Inl su show ?thesis by simp
  next
    case (Inr addrs)
    show ?thesis
    proof (cases "addrs = []")
      case True
      then have "\<forall>r \<in> set e. \<not> ?P r" using Inr by (simp add: ret_edge_def ret_ids_def)
      from delete_none [OF this] rest Inr True su show ?thesis by simp
    next
      case False
      with rest Inr obtain am v where am: "GetOrCreateAccountIds E addrs False u = (Inr am, v)"
        and fin: "(let nonSignerIds = FilterNonSigners (map_values am (map_order E (dedup addrs))) (tx_SignerId tx) in
           if nonSignerIds = [] then ret n
           else bnd (wrap_err ''failed to delete records'' (DeleteRetOnlyRecords nonSignerIds (tx_Sequence tx))) (\<lambda>deleted.
             ret (n + deleted))) v = (Inr m, w')"
        by (auto simp: bnd_eq_Inr)
      note lk = hoare_lookup_state [OF E su am]
      define ids where "ids = FilterNonSigners (map_values am (map_order E (dedup addrs))) (tx_SignerId tx)"
      have "set (map_order E (dedup addrs)) = set addrs" using set_map_order [OF E distinct_dedup] by simp
      then have "set ids = {i. \<exists>a \<in> set addrs. am a = Some i \<and> i \<noteq> tx_SignerId tx}"
        unfolding ids_def FilterNonSigners_def map_values_def set_filter set_ids_of set_dedup by blast
      then have ids: "set ids = ret_ids E (t_account_dict d) tx" using Inr by (auto simp: ret_ids_def lk(2))
      have P: "edges_at ids (tx_Sequence tx) = ?P"
        by (rule ext) (auto simp: edges_at_def ret_edge_def ids)
      show ?thesis
      proof (cases "ids = []")
        case True
        then have "\<forall>r \<in> set e. \<not> ?P r" unfolding P [symmetric] by (simp add: edges_at_def)
        from delete_none [OF this] fin True lk(1) show ?thesis by (simp add: ids_def)
      next
        case nonempty: False
        with fin obtain k where k: "DeleteRetOnlyRecords ids (tx_Sequence tx) v = (Inr k, w')" "m = n + k"
          by (auto simp: ids_def [symmetric] Let_def bnd_eq_Inr)
        from DeleteRetOnly_spec [OF lk(1) k(1)] k(2) show ?thesis by (simp add: P)
      qed
    qed
  qed
qed

lemma delete_twice: "delete_where P (delete_where Q e) = delete_where (\<lambda>r. Q r \<or> P r) e"
  and affected_twice: "rows_affected Q e + rows_affected P (delete_where Q e) = rows_affected (\<lambda>r. Q r \<or> P r) e"
  by (induction e) (auto simp: delete_where_def rows_affected_def)

lemma clean_txs_spec:
  assumes E: "env_ok E" and st: "edge_state E d e w" and run: "foreach (clean_tx E) txs 0 w = (Inr m, w')"
  shows "edge_state E d (delete_where (ret_edge E (t_account_dict d) txs) e) w' \<and>
    m = rows_affected (ret_edge E (t_account_dict d) txs) e"
proof (rule foreach_Inr [OF run, of "\<lambda>ys m w. edge_state E d (delete_where (ret_edge E (t_account_dict d) ys) e) w \<and>
    m = rows_affected (ret_edge E (t_account_dict d) ys) e"])
  have "\<forall>r \<in> set e. \<not> ret_edge E (t_account_dict d) [] r" by (simp add: ret_edge_def)
  from delete_none [OF this] st show "edge_state E d (delete_where (ret_edge E (t_account_dict d) []) e) w \<and>
      0 = rows_affected (ret_edge E (t_account_dict d) []) e" by simp
next
  fix ys x zs c u a v
  assume c: "edge_state E d (delete_where (ret_edge E (t_account_dict d) ys) e) u \<and> c = rows_affected (ret_edge E (t_account_dict d) ys) e"
    and run: "clean_tx E x c u = (Inr a, v)"
  have P: "(\<lambda>r. ret_edge E (t_account_dict d) ys r \<or> ret_edge E (t_account_dict d) [x] r) = ret_edge E (t_account_dict d) (ys @ [x])"
    by (rule ext) (auto simp: ret_edge_def)
  from clean_tx_spec [OF E conjunct1 [OF c] run] c show "edge_state E d (delete_where (ret_edge E (t_account_dict d) (ys @ [x])) e) v \<and>
      a = rows_affected (ret_edge E (t_account_dict d) (ys @ [x])) e"
    by (simp add: delete_twice affected_twice P)
qed

text \<open>The transactions of a range of heights.\<close>

definition txs_between :: "db \<Rightarrow> int \<Rightarrow> int \<Rightarrow> CollectedTx list" where
  "txs_between d a b = order_asc tx_Height (filter (\<lambda>t. a \<le> tx_Height t \<and> tx_Height t \<le> b) (t_tx d))"

lemma ProcessBatch_ret_spec:
  assumes E: "env_ok E" and inv: "dict_inv (account_dict E) w" and run: "ProcessBatch_ret E a b w = (Inr n, w')"
  shows "dict_inv (account_dict E) w' \<and>
    w_db w' = (w_db w)\<lparr>t_tx_accounts := delete_where (ret_edge E (t_account_dict (w_db w)) (txs_between (w_db w) a b)) (t_tx_accounts (w_db w))\<rparr> \<and>
    n = rows_affected (ret_edge E (t_account_dict (w_db w)) (txs_between (w_db w) a b)) (t_tx_accounts (w_db w))"
proof -
  from run obtain txs u where q: "query (\<lambda>d. order_asc tx_Height
       (filter (\<lambda>t. a \<le> tx_Height t \<and> tx_Height t \<le> b) (t_tx d))) w = (Inr txs, u)"
    and lp: "foreach (clean_tx E) txs 0 u = (Inr n, w')"
    by (auto simp: ProcessBatch_ret_def bnd_eq_Inr)
  have st: "edge_state E (w_db w) (t_tx_accounts (w_db w)) w" using inv by (simp add: edge_state_def)
  have "keeps (edge_state E (w_db w) (t_tx_accounts (w_db w))) (query q)" for q :: "db \<Rightarrow> CollectedTx list"
    by (intro keeps_intros edge_state_ff)
  from keepsD [OF this st q] have su: "edge_state E (w_db w) (t_tx_accounts (w_db w)) u" .
  have txs: "txs = txs_between (w_db w) a b" using hoareD [OF hoare_query refl q] by (simp add: txs_between_def)
  from clean_txs_spec [OF E su lp] show ?thesis by (simp add: edge_state_def txs)
qed


section \<open>The loop\<close>

text \<open>
  The state between two turns that started from the database \<open>d\<close> at height \<open>h\<close> with \<open>n\<close> corrected records:
  all transactions below the current height are cleaned, and the status row says so.
\<close>

definition cleaned :: "env \<Rightarrow> db \<Rightarrow> int \<Rightarrow> int \<Rightarrow> int \<times> CollectedEvmRetCleanupStatus \<Rightarrow> world \<Rightarrow> bool" where
  "cleaned E d h n = (\<lambda>(c, status) w. dict_inv (account_dict E) w \<and>
     w_db w = d\<lparr>t_tx_accounts := delete_where (ret_edge E (t_account_dict d) (txs_between d h (c - 1))) (t_tx_accounts d),
                t_evm_ret_status := [status]\<rparr> \<and>
     LastCleanedHeight status = c - 1 \<and>
     CorrectedRecords status = wrap64 (n + rows_affected (ret_edge E (t_account_dict d) (txs_between d h (c - 1))) (t_tx_accounts d)))"

lemma cleaned_ff [simp]: "fault_free (cleaned E d h n s)"
  by (cases s) (simp add: cleaned_def fault_free_def dict_inv_def account_dict_def)

lemma set_txs_between: "set (txs_between d a b) = {t \<in> set (t_tx d). a \<le> tx_Height t \<and> tx_Height t \<le> b}"
  by (auto simp: txs_between_def)

lemma ret_edge_split:
  assumes "a \<le> c" "c \<le> b + 1"
  shows "(\<lambda>r. ret_edge E t (txs_between d a (c - 1)) r \<or> ret_edge E t (txs_between d c b) r) = ret_edge E t (txs_between d a b)"
proof -
  have "set (txs_between d a b) = set (txs_between d a (c - 1)) \<union> set (txs_between d c b)"
    using assms by (auto simp: set_txs_between)
  then show ?thesis by (intro ext) (auto simp: ret_edge_def)
qed

lemma clean_turn_spec:
  assumes E: "env_ok E" and st: "cleaned E d h n (c, status) w" and h: "h \<le> c"
    and run: "clean_turn E (c, status) w = (Inr (c', status'), w')"
  defines "m \<equiv> coalesce_max tx_Height (t_tx d)"
  shows "cleaned E d h n (c', status') w'" and "c' = (if c > m then c else min (c + 1000) (m + 1))"
proof (atomize (full))
  let ?q = "query (\<lambda>d. coalesce_max tx_Height (t_tx d))"
  from run obtain u k v where u: "ctx_check w = (Inr (), u)" and q: "?q u = (Inr k, v)"
    and rest: "(if c > k then bnd ctx_check (\<lambda>_. ret (c, status))
      else let endHeight = min (c + BatchSize_ret - 1) k in
       bnd (wrap_err ''failed to process batch'' (ProcessBatch_ret E c endHeight)) (\<lambda>deleted.
       let status' = \<lparr>LastCleanedHeight = endHeight, CorrectedRecords = wrap64 (CorrectedRecords status + deleted)\<rparr> in
       bnd (wrap_err ''failed to update status'' (updateStatus_ret status')) (\<lambda>_.
       ret (endHeight + 1, status')))) v = (Inr (c', status'), w')"
    unfolding clean_turn_def case_prod_conv bnd_eq_Inr wrap_err_eq_Inr by auto
  have su: "cleaned E d h n (c, status) u" by (rule ctx_check_Inr [OF u cleaned_ff st])
  have "keeps (cleaned E d h n (c, status)) ?q" by (intro keeps_intros cleaned_ff)
  from keepsD [OF this su q] have sv: "cleaned E d h n (c, status) v" .
  have k: "k = m" using hoareD [OF hoare_query refl q] su by (simp add: m_def cleaned_def)
  show "cleaned E d h n (c', status') w' \<and> c' = (if c > m then c else min (c + 1000) (m + 1))"
  proof (cases "c > m")
    case True
    with rest k have "ctx_check v = (Inr (), w')" "c' = c" "status' = status" by (auto simp: bnd_eq_Inr)
    with ctx_check_Inr [OF this(1) cleaned_ff sv] True show ?thesis by simp
  next
    case False
    define b where "b = min (c + BatchSize_ret - 1) m"
    from rest False k obtain del x where pb: "ProcessBatch_ret E c b v = (Inr del, x)"
      and st': "status' = \<lparr>LastCleanedHeight = b, CorrectedRecords = wrap64 (CorrectedRecords status + del)\<rparr>"
      and us: "updateStatus_ret status' x = (Inr (), w')" and c': "c' = b + 1"
      by (auto simp: b_def Let_def bnd_eq_Inr)
    define e1 where "e1 = ret_edge E (t_account_dict d) (txs_between d h (c - 1))"
    define e2 where "e2 = ret_edge E (t_account_dict d) (txs_between d c b)"
    have vinv: "dict_inv (account_dict E) v"
      and vdb: "w_db v = d\<lparr>t_tx_accounts := delete_where e1 (t_tx_accounts d), t_evm_ret_status := [status]\<rparr>"
      and vcr: "CorrectedRecords status = wrap64 (n + rows_affected e1 (t_tx_accounts d))"
      using sv by (simp_all add: cleaned_def e1_def)
    have tb: "txs_between (w_db v) c b = txs_between d c b" by (simp add: vdb txs_between_def)
    have split: "(\<lambda>r. e1 r \<or> e2 r) = ret_edge E (t_account_dict d) (txs_between d h b)"
      unfolding e1_def e2_def using False h by (intro ret_edge_split) (auto simp: b_def BatchSize_ret_def)
    from ProcessBatch_ret_spec [OF E vinv pb] have xinv: "dict_inv (account_dict E) x"
      and xdb: "w_db x = (w_db v)\<lparr>t_tx_accounts := delete_where e2 (delete_where e1 (t_tx_accounts d))\<rparr>"
      and del: "del = rows_affected e2 (delete_where e1 (t_tx_accounts d))"
      unfolding tb by (simp_all add: vdb e2_def)
    have "keeps (dict_inv (account_dict E)) (updateStatus_ret status')"
      unfolding updateStatus_ret_def by (rule keeps_exec) (simp_all add: fault_free_def dict_inv_def account_dict_def)
    from keepsD [OF this xinv us] have winv: "dict_inv (account_dict E) w'" .
    have "w_db w' = (w_db x)\<lparr>t_evm_ret_status := map (\<lambda>_. status') (t_evm_ret_status (w_db x))\<rparr>"
      using hoareD [OF hoare_exec refl us [unfolded updateStatus_ret_def]] .
    then have wdb: "w_db w' = d\<lparr>t_tx_accounts := delete_where (ret_edge E (t_account_dict d) (txs_between d h b)) (t_tx_accounts d),
        t_evm_ret_status := [status']\<rparr>"
      by (simp add: xdb vdb delete_twice split)
    have "CorrectedRecords status' = wrap64 (n + (rows_affected e1 (t_tx_accounts d) + del))"
      by (simp add: st' vcr wrap64_add add.assoc)
    then have "CorrectedRecords status' = wrap64 (n + rows_affected (ret_edge E (t_account_dict d) (txs_between d h b)) (t_tx_accounts d))"
      by (simp only: del affected_twice split)
    moreover have "LastCleanedHeight status' = b" by (simp add: st')
    ultimately have "cleaned E d h n (b + 1, status') w'" using winv wdb by (simp add: cleaned_def)
    moreover have "b + 1 = min (c + 1000) (m + 1)" unfolding b_def BatchSize_ret_def by auto
    ultimately show ?thesis using False by (simp add: c')
  qed
qed

text \<open>The height after \<open>n\<close> turns: 1000 heights a turn, up to one past the highest stored transaction.\<close>

fun height_after :: "int \<Rightarrow> nat \<Rightarrow> int \<Rightarrow> int" where
  "height_after m 0 c = c"
| "height_after m (Suc k) c = height_after m k (if c > m then c else min (c + 1000) (m + 1))"

lemma height_after_eq: "c \<le> m + 1 \<Longrightarrow> height_after m k c = min (c + 1000 * int k) (m + 1)"
  by (induction k arbitrary: c) (auto simp: algebra_simps)

lemma height_after_above: "c > m \<Longrightarrow> height_after m k c = c"
  by (induction k) auto

lemma clean_turns_spec:
  assumes E: "env_ok E" and "cleaned E d h n (c, status) w" "h \<le> c"
    and "clean_turns E k (c, status) w = (Inr (c', status'), w')"
  shows "cleaned E d h n (c', status') w' \<and> c' = height_after (coalesce_max tx_Height (t_tx d)) k c"
  using assms(2-)
proof (induction k arbitrary: c status w)
  case (Suc k)
  from Suc.prems(3) obtain c1 s1 u where t: "clean_turn E (c, status) w = (Inr (c1, s1), u)"
    and rest: "clean_turns E k (c1, s1) u = (Inr (c', status'), w')"
    by (auto simp: bnd_eq_Inr)
  note sp = clean_turn_spec [OF E Suc.prems(1,2) t]
  have "h \<le> c1" using sp(2) Suc.prems(2) by (auto split: if_splits)
  from Suc.IH [OF sp(1) this rest] show ?case unfolding height_after.simps sp(2) [symmetric] .
qed auto

definition start_status_ret :: "db \<Rightarrow> CollectedEvmRetCleanupStatus" where
  "start_status_ret d = status_of \<lparr>LastCleanedHeight = 0, CorrectedRecords = 0\<rparr> (t_evm_ret_status d)"

lemma Initialize_ret_spec:
  assumes "length (t_evm_ret_status (w_db w)) \<le> 1" "dict_inv (account_dict E) w" "Initialize_ret w = (Inr s, w')"
  shows "s = start_status_ret (w_db w)" "w_db w' = (w_db w)\<lparr>t_evm_ret_status := [s]\<rparr>" "dict_inv (account_dict E) w'"
  using load_status_spec [OF assms(1) dict_inv_ff _ assms(2) _ assms(3) [unfolded Initialize_ret_def]]
  by (simp_all add: dict_inv_def account_dict_def start_status_ret_def)

theorem Run_ret_spec:
  assumes E: "env_ok E" and inv: "dict_inv (account_dict E) w" and one: "length (t_evm_ret_status (w_db w)) \<le> 1"
    and run: "Run_ret E k w = (Inr (c, status), w')"
  defines "d \<equiv> w_db w" and "s0 \<equiv> start_status_ret (w_db w)"
  defines "bad \<equiv> ret_edge E (t_account_dict d) (txs_between d (LastCleanedHeight s0 + 1) (c - 1))"
  assumes cr: "int64_range (CorrectedRecords s0)"
  shows "w_db w' = d\<lparr>t_tx_accounts := delete_where bad (t_tx_accounts d), t_evm_ret_status := [status]\<rparr>"
    and "LastCleanedHeight status = c - 1"
    and "CorrectedRecords status = wrap64 (CorrectedRecords s0 + rows_affected bad (t_tx_accounts d))"
    and "c = height_after (coalesce_max tx_Height (t_tx d)) k (LastCleanedHeight s0 + 1)"
proof -
  from run obtain s u where i: "Initialize_ret w = (Inr s, u)" and t: "clean_turns E k (LastCleanedHeight s + 1, s) u = (Inr (c, status), w')"
    by (auto simp: Run_ret_def bnd_eq_Inr)
  note sp = Initialize_ret_spec [OF one inv i]
  let ?h = "LastCleanedHeight s0 + 1"
  have s: "s = s0" using sp(1) by (simp add: s0_def)
  have "txs_between d ?h (?h - 1) = []" by (rule set_empty [THEN iffD1]) (auto simp: set_txs_between)
  then have none: "\<forall>r \<in> set (t_tx_accounts d). \<not> ret_edge E (t_account_dict d) (txs_between d ?h (?h - 1)) r"
    by (simp add: ret_edge_def)
  have "cleaned E d ?h (CorrectedRecords s0) (?h, s0) u"
    using sp(2,3) cr delete_none [OF none] by (simp add: cleaned_def s d_def)
  note sp' = clean_turns_spec [OF E this order_refl t [unfolded s]]
  have c: "cleaned E d ?h (CorrectedRecords s0) (c, status) w'" by (rule conjunct1 [OF sp'])
  have h: "c = height_after (coalesce_max tx_Height (t_tx d)) k ?h" by (rule conjunct2 [OF sp'])
  from c show "w_db w' = d\<lparr>t_tx_accounts := delete_where bad (t_tx_accounts d), t_evm_ret_status := [status]\<rparr>"
    "LastCleanedHeight status = c - 1"
    "CorrectedRecords status = wrap64 (CorrectedRecords s0 + rows_affected bad (t_tx_accounts d))"
    by (simp_all add: cleaned_def bad_def)
  show "c = height_after (coalesce_max tx_Height (t_tx d)) k ?h" by (rule h)
qed


section \<open>No edge is lost\<close>

text \<open>
  Events as the chain writes them: no fungible-asset events, logs with plain hex addresses, and every bech32
  address reads back from its hex form (an account of 20 bytes, or of 32 bytes that do not start with 12 zeros).
\<close>

definition reads_back :: "env \<Rightarrow> string \<Rightarrow> bool" where
  "reads_back E a \<longleftrightarrow> (case AccAddressFromString (from_bech32 E) a of Inl e \<Rightarrow> True
     | Inr b \<Rightarrow> AccAddressFromString (from_bech32 E) (BytesToHexWithPrefix b) = Inr b)"

definition plain_attribute :: "env \<Rightarrow> event \<Rightarrow> attribute \<Rightarrow> bool" where
  "plain_attribute E e attr \<longleftrightarrow> \<not> (etype e = ''move'' \<and> akey attr = ''data'') \<and>
     (if etype e = EventTypeEVM E \<and> akey attr = AttributeKeyLog E then
        (case unmarshal_log E (aval attr) of Inl e \<Rightarrow> True
         | Inr (address, topics) \<Rightarrow> \<forall>a \<in> set (log_addresses address topics). split_comma a = [a] \<and> findAllHexAddress a = [a])
      else \<forall>v \<in> set (split_comma (aval attr)). \<forall>a \<in> set (findAllBech32Address v). reads_back E a)"

definition plain_events :: "env \<Rightarrow> event list \<Rightarrow> bool" where
  "plain_events E events \<longleftrightarrow> EventTypeEVM E \<noteq> EventTypeCall E \<and>
     (\<forall>e \<in> set events. \<forall>attr \<in> set (eattrs e). plain_attribute E e attr)"

lemma findAllBech32_hex: "findAllBech32Address v \<noteq> [] \<Longrightarrow> findAllHexAddress v = []"
  by (cases v) (auto simp: findAllBech32Address_def findAllHexAddress_def has_prefix_def Let_def)

lemma hex_reads_back:
  assumes "a \<in> set (findAllHexAddress v)"
  shows "reads_back E a"
proof -
  from assms have "take 2 a = ''0x''" by (simp add: findAllHexAddress_def has_prefix_def Let_def numeral_2_eq_2 split: if_splits)
  then have a: "a = ''0x'' @ drop 2 a" by (metis append_take_drop_id)
  show ?thesis
  proof (cases "AccAddressFromString (from_bech32 E) a")
    case (Inr b)
    with a have "AccAddressFromString (from_bech32 E) (''0x'' @ drop 2 a) = Inr b" by simp
    from AccAddressFromString_normal(2) [OF this] Inr show ?thesis by (simp add: reads_back_def)
  qed (simp add: reads_back_def)
qed

lemma in_extract: "h \<in> set (extractAddressesFromValue E v) \<longleftrightarrow>
    (\<exists>u \<in> set (split_comma v). \<exists>a \<in> set (findAllBech32Address u) \<union> set (findAllHexAddress u). \<exists>b.
       AccAddressFromString (from_bech32 E) a = Inr b \<and> h = BytesToHexWithPrefix b)"
  by (simp add: extractAddressesFromValue_def bex_Un eq_commute [of "Inr _" "AccAddressFromString _ _"])

text \<open>Every address found this way reads back.\<close>

lemma hit_reads_back:
  assumes "plain_events E events" "h \<in> hits E r events"
  shows "\<exists>b. h = BytesToHexWithPrefix b \<and> AccAddressFromString (from_bech32 E) h = Inr b"
proof -
  from assms obtain e attr addrs where e: "e \<in> set events" "attr \<in> set (eattrs e)"
    and a: "attribute_addresses E e attr = Inr addrs" "h \<in> set addrs" and p: "plain_attribute E e attr"
    by (auto simp: hits_def plain_events_def)
  have "\<exists>a b. h = BytesToHexWithPrefix b \<and> AccAddressFromString (from_bech32 E) a = Inr b \<and> reads_back E a"
  proof (cases "etype e = EventTypeEVM E \<and> akey attr = AttributeKeyLog E")
    case True
    with a obtain address topics x where l: "unmarshal_log E (aval attr) = Inr (address, topics)"
      and x: "x \<in> set (log_addresses address topics)" "h \<in> set (extractAddressesFromValue E x)"
      by (auto simp: attribute_addresses_def rbind_eq_Inr split: sum.splits)
    with p True have sx: "split_comma x = [x]" "findAllHexAddress x = [x]" by (auto simp: plain_attribute_def)
    then have "findAllBech32Address x = []" using findAllBech32_hex by force
    with x(2) sx show ?thesis using hex_reads_back [of x x E] by (auto simp: in_extract)
  next
    case False
    then have ad: "addrs = extractAddressesFromValue E (aval attr)" using a(1) by (auto simp: attribute_addresses_def)
    have rb: "reads_back E y" if "u \<in> set (split_comma (aval attr))" "y \<in> set (findAllBech32Address u)" for u y
      using False p that by (auto simp: plain_attribute_def)
    from a(2) [unfolded ad in_extract] rb hex_reads_back show ?thesis by blast
  qed
  then show ?thesis by (auto simp: reads_back_def)
qed

text \<open>What the collector finds is found outside the return data.\<close>

lemma grepped_hit:
  assumes pl: "plain_events E events" and g: "grep_events E events = Inr r" and x: "x \<in> set (fst r)"
  shows "\<exists>b. x = to_bech32 E b \<and> BytesToHexWithPrefix b \<in> hits E False events"
proof -
  from x obtain e i attr where e: "e \<in> set events" "(i, attr) \<in> set (enumerate 0 (eattrs e))"
    and acc: "x \<in> set (acc_strings E (fst (attribute_hits E e (i, attr))))"
    unfolding grep_events_Inr(1) [OF g] event_hits_def by auto
  from acc obtain a b where a: "a \<in> set (fst (attribute_hits E e (i, attr)))"
    "AccAddressFromString (from_bech32 E) a = Inr b" "x = to_bech32 E b" unfolding in_acc_strings by blast
  have attr: "attr \<in> set (eattrs e)" using e(2) by (metis enumerate_eq_zip set_zip_rightD)
  have p: "plain_attribute E e attr" using pl e(1) attr by (auto simp: plain_events_def)
  from a(1) obtain ad st where ga: "grep_attribute E e i attr = Inr (ad, st)" "a \<in> set ad"
    by (auto simp: attribute_hits_def split: sum.splits)
  have "\<not> is_ret E e attr \<and> (\<exists>addrs. attribute_addresses E e attr = Inr addrs \<and> BytesToHexWithPrefix b \<in> set addrs)"
  proof (cases "etype e = EventTypeEVM E \<and> akey attr = AttributeKeyLog E")
    case True
    with ga p obtain address topics where l: "unmarshal_log E (aval attr) = Inr (address, topics)" "a \<in> set (log_addresses address topics)"
      by (auto simp: grep_attribute_def plain_attribute_def rbind_eq_Inr)
    with p True have "split_comma a = [a]" "findAllHexAddress a = [a]" by (auto simp: plain_attribute_def)
    with a(2) have "BytesToHexWithPrefix b \<in> set (extractAddressesFromValue E a)" by (auto simp: in_extract)
    with True l pl show ?thesis by (auto simp: is_ret_def attribute_addresses_def plain_events_def)
  next
    case False
    with ga p have "\<not> is_ret E e attr" "\<exists>u \<in> set (split_comma (aval attr)). a \<in> set (findAllBech32Address u) \<union> set (findAllHexAddress u)"
      by (auto simp: grep_attribute_def plain_attribute_def is_ret_def split: if_splits)
    moreover from this(2) a(2) have "BytesToHexWithPrefix b \<in> set (extractAddressesFromValue E (aval attr))"
      unfolding in_extract by blast
    ultimately show ?thesis using False by (auto simp: attribute_addresses_def)
  qed
  with a(3) e(1) attr show ?thesis by (auto simp: hits_def)
qed

theorem no_found_edge_deleted:
  assumes E: "env_ok E" and dict: "distinct (map fst t)" "\<forall>r \<in> set t. snd r \<noteq> []"
    and ev: "unmarshal_tx_events E (tx_Data tx) = Inr events" and pl: "plain_events E events"
    and g: "grep_events E events = Inr r" and x: "x \<in> set (fst r)" "account_id E t x i"
  shows "i \<notin> ret_ids E t tx"
proof
  assume "i \<in> ret_ids E t tx"
  then obtain addrs a b where f: "FindRetOnlyAddresses E (tx_Data tx) = Inr addrs" "a \<in> set addrs"
    and a: "AccAddressFromString (from_bech32 E) a = Inr b" "(i, b) \<in> set t"
    by (auto simp: ret_ids_def account_id_def)
  from FindRetOnly_spec [OF E f(1)] f(2) ev have hit: "a \<in> hits E True events" "a \<notin> hits E False events" by auto
  from hit_reads_back [OF pl hit(1)] a(1) have ab: "a = BytesToHexWithPrefix b" by auto
  from grepped_hit [OF pl g x(1)] obtain c where c: "x = to_bech32 E c" "BytesToHexWithPrefix c \<in> hits E False events" by blast
  from x(2) obtain b' where b': "AccAddressFromString (from_bech32 E) x = Inr b'" "(i, b') \<in> set t"
    by (auto simp: account_id_def)
  have "b' = b" using dict(1) a(2) b'(2) by (metis eq_key_imp_eq_value)
  obtain k where k: "BytesToHexWithPrefix c = BytesToHexWithPrefix k" "AccAddressFromString (from_bech32 E) (BytesToHexWithPrefix c) = Inr k"
    using hit_reads_back [OF pl c(2)] by blast
  from k(1) have "hex_encode c = hex_encode k" by (simp add: BytesToHexWithPrefix_def)
  then have "c = k" using hex_decode_encode by (metis sum.inject(2))
  then have "c \<noteq> []" using AccAddress_nonempty [OF env_okD(1) [OF E] k(2)] by simp
  then have "AccAddressFromString (from_bech32 E) x = Inr c"
    using env_okD(1) [OF E] unfolding c(1) by (simp add: bech32_ok_def AccAddressFromString_def)
  with b' \<open>b' = b\<close> have "c = b" by simp
  with c(2) ab hit(2) show False by simp
qed

end
