(* ===== verification/Tx_Account_Cleanup.thy ===== *)
theory Tx_Account_Cleanup
  imports Edge_Cleanup
begin

text \<open>
  The reconciliation of account edges: \<open>src/indexer/extension/txaccountcleanup/\<close> (\<open>cleanup.go\<close>,
  \<open>extension.go\<close>). From the highest sequence number down to 1, the edges of every stored transaction are made
  to be the ones its events call for.
\<close>

section \<open>cleanup.go\<close>

text \<open>The maps of \<open>reconcileTx\<close>: the last entry of an account wins; a \<open>range\<close> takes any order.\<close>

definition actual_signer :: "CollectedTxAccount list \<Rightarrow> int \<Rightarrow> bool" where
  "actual_signer actual i = (case row_at ta_AccountId (rev actual) i of Some r \<Rightarrow> ta_Signer r | None \<Rightarrow> False)"

definition expectedSet :: "env \<Rightarrow> (string \<rightharpoonup> int) \<Rightarrow> string list \<Rightarrow> int \<Rightarrow> int list" where
  "expectedSet E accountIdMap addrs signer =
     id_order E (dedup (filter (\<lambda>i. i \<noteq> 0) (map_values accountIdMap (map_order E (dedup addrs))) @ (if signer \<noteq> 0 then [signer] else [])))"

definition insert_missing :: "config \<Rightarrow> CollectedTxAccount list \<Rightarrow> (world, int) act" where
  "insert_missing cfg rows = foreach (\<lambda>chunk n.
       bnd (edge_stmt (\<lambda>t. (int (length (insert_rows ta_key chunk t)) - int (length t), insert_rows ta_key chunk t))) (\<lambda>k. ret (n + k)))
     (chunks (nat (cfg_DBBatchSize cfg)) rows) 0"

definition fix_signers :: "int list \<Rightarrow> int \<Rightarrow> int \<Rightarrow> (world, unit) act" where
  "fix_signers staleSigner signer sequence =
     bnd (wrap_err ''failed to clear stale signer flags'' (update_edges (edges_at staleSigner sequence) (\<lambda>r. r\<lparr>ta_Signer := False\<rparr>))) (\<lambda>_.
     if signer \<noteq> 0 \<and> signer \<in> set staleSigner then
       bnd (wrap_err ''failed to set signer flag'' (update_edges (edges_at [signer] sequence) (\<lambda>r. r\<lparr>ta_Signer := True\<rparr>))) (\<lambda>_. ret ())
     else ret ())"

definition reconcile_edges :: "config \<Rightarrow> CollectedTx \<Rightarrow> int list \<Rightarrow> CollectedTxAccount list \<Rightarrow> int list \<Rightarrow> (world, int \<times> int) act" where
  "reconcile_edges cfg tx extraIds missingEntries staleSigner =
     (if extraIds = [] \<and> missingEntries = [] \<and> staleSigner = [] then ret (0, 0)
      else transaction (
        bnd (if extraIds = [] then ret 0
             else wrap_err ''failed to delete extra entries'' (delete_edges (edges_at extraIds (tx_Sequence tx)))) (\<lambda>deleted.
        bnd (if missingEntries = [] then ret 0
             else wrap_err ''failed to insert missing entries'' (insert_missing cfg missingEntries)) (\<lambda>inserted.
        bnd (if staleSigner = [] then ret () else fix_signers staleSigner (tx_SignerId tx) (tx_Sequence tx)) (\<lambda>_.
        ret (deleted, inserted))))))"

definition reconcileTx :: "env \<Rightarrow> config \<Rightarrow> CollectedTx \<Rightarrow> CollectedTxAccount list \<Rightarrow> (world, int \<times> int) act" where
  "reconcileTx E cfg tx actual =
     bnd (wrap_err ''failed to unmarshal tx data'' (lift_res (unmarshal_tx_events E (tx_Data tx)))) (\<lambda>events.
     bnd (wrap_err ''failed to grep addresses'' (GrepAddressesFromTx E events)) (\<lambda>addrs.
     bnd (wrap_err ''failed to get account IDs'' (GetOrCreateAccountIds E addrs False)) (\<lambda>accountIdMap.
     let expected = expectedSet E accountIdMap addrs (tx_SignerId tx);
         actualIds = id_order E (dedup (map ta_AccountId actual));
         extraIds = filter (\<lambda>i. i \<notin> set expected) actualIds;
         missingEntries = map (\<lambda>i. \<lparr>ta_AccountId = i, ta_Sequence = tx_Sequence tx, ta_Signer = (i = tx_SignerId tx)\<rparr>)
           (filter (\<lambda>i. i \<notin> set actualIds) expected);
         staleSigner = filter (\<lambda>i. i \<in> set expected \<and> actual_signer actual i \<noteq> (i = tx_SignerId tx)) actualIds
     in reconcile_edges cfg tx extraIds missingEntries staleSigner)))"

definition ProcessBatch_ta :: "env \<Rightarrow> config \<Rightarrow> int \<Rightarrow> int \<Rightarrow> (world, int \<times> int \<times> int) act" where
  "ProcessBatch_ta E cfg startSeq endSeq =
     bnd (wrap_err ''failed to query transactions'' (query (\<lambda>d. order_asc tx_Sequence
       (filter (\<lambda>t. startSeq \<le> tx_Sequence t \<and> tx_Sequence t \<le> endSeq) (t_tx d))))) (\<lambda>txs.
     if txs = [] then ret (endSeq, 0, 0)
     else bnd (wrap_err ''failed to query tx_accounts'' (query (\<lambda>d.
         filter (\<lambda>r. startSeq \<le> ta_Sequence r \<and> ta_Sequence r \<le> endSeq) (t_tx_accounts d)))) (\<lambda>actualEntries.
       bnd (foreach (\<lambda>collectedTx (totalDeleted, totalInserted).
         bnd ctx_check (\<lambda>_.
         bnd (wrap_err ''failed to reconcile tx'' (reconcileTx E cfg collectedTx
             (filter (\<lambda>r. ta_Sequence r = tx_Sequence collectedTx) actualEntries))) (\<lambda>(deleted, inserted).
         ret (totalDeleted + deleted, totalInserted + inserted)))) txs (0, 0)) (\<lambda>(totalDeleted, totalInserted).
       ret (endSeq, totalDeleted, totalInserted))))"


section \<open>extension.go\<close>

definition BatchSize_ta :: int where
  "BatchSize_ta = 1000"

definition Initialize_ta :: "(world, CollectedTxAccountCleanupStatus) act" where
  "Initialize_ta = load_status t_ta_status (\<lambda>t d. d\<lparr>t_ta_status := t\<rparr>)
     \<lparr>LastCleanedSequence = -1, DeletedRecords = 0, InsertedRecords = 0\<rparr>"

definition updateStatus_ta :: "CollectedTxAccountCleanupStatus \<Rightarrow> (world, unit) act" where
  "updateStatus_ta status = exec (\<lambda>d. d\<lparr>t_ta_status := map (\<lambda>_. status) (t_ta_status d)\<rparr>)"

function reverse_loop :: "env \<Rightarrow> config \<Rightarrow> int \<Rightarrow> CollectedTxAccountCleanupStatus \<Rightarrow> (world, CollectedTxAccountCleanupStatus) act" where
  "reverse_loop E cfg currentSeq status =
     bnd ctx_check (\<lambda>_.
     if currentSeq \<le> 0 then ret status
     else let startSeq = max (currentSeq - BatchSize_ta + 1) 1 in
       bnd (wrap_err ''failed to process batch'' (ProcessBatch_ta E cfg startSeq currentSeq)) (\<lambda>(_, deleted, inserted).
       let status' = \<lparr>LastCleanedSequence = startSeq - 1, DeletedRecords = wrap64 (DeletedRecords status + deleted),
                      InsertedRecords = wrap64 (InsertedRecords status + inserted)\<rparr> in
       bnd (wrap_err ''failed to update status'' (updateStatus_ta status')) (\<lambda>_.
       reverse_loop E cfg (startSeq - 1) status')))"
  by pat_completeness auto
termination
  by (relation "measure (\<lambda>(E, cfg, currentSeq, status). nat currentSeq)") (auto simp: BatchSize_ta_def)

declare reverse_loop.simps [simp del]

definition Run_ta :: "env \<Rightarrow> config \<Rightarrow> (world, CollectedTxAccountCleanupStatus) act" where
  "Run_ta E cfg =
     bnd (wrap_err ''failed to initialize'' Initialize_ta) (\<lambda>status.
     if LastCleanedSequence status < 0 then
       bnd (wrap_err ''failed to get max sequence'' (query (\<lambda>d. coalesce_max tx_Sequence (t_tx d)))) (\<lambda>maxSeq.
       let status' = status\<lparr>LastCleanedSequence := maxSeq\<rparr> in
       bnd (wrap_err ''failed to update status'' (updateStatus_ta status')) (\<lambda>_.
       reverse_loop E cfg maxSeq status'))
     else reverse_loop E cfg (LastCleanedSequence status) status)"


section \<open>One transaction\<close>

text \<open>The edges the accounts \<open>exp\<close> call for, and what the statements make of the table.\<close>

definition edges_for :: "int set \<Rightarrow> int \<Rightarrow> int \<Rightarrow> CollectedTxAccount set" where
  "edges_for exp signer s = (\<lambda>i. \<lparr>ta_AccountId = i, ta_Sequence = s, ta_Signer = (i = signer)\<rparr>) ` exp"

definition rows_of :: "CollectedTxAccount list \<Rightarrow> int \<Rightarrow> CollectedTxAccount list" where
  "rows_of e s = filter (\<lambda>r. ta_Sequence r = s) e"

definition rows_beside :: "CollectedTxAccount list \<Rightarrow> int set \<Rightarrow> CollectedTxAccount list" where
  "rows_beside e S = filter (\<lambda>r. ta_Sequence r \<notin> S) e"

definition flags_fixed :: "int list \<Rightarrow> int \<Rightarrow> int \<Rightarrow> CollectedTxAccount list \<Rightarrow> CollectedTxAccount list" where
  "flags_fixed stale signer s e = update_where (edges_at stale s) (\<lambda>r. r\<lparr>ta_Signer := (ta_AccountId r = signer \<and> signer \<noteq> 0)\<rparr>) e"

lemma fix_signers_spec:
  assumes "edge_state E d e w" "fix_signers stale signer s w = (Inr (), w')"
  shows "edge_state E d (flags_fixed stale signer s e) w'"
proof -
  let ?clear = "update_where (edges_at stale s) (\<lambda>r. r\<lparr>ta_Signer := False\<rparr>)"
  let ?set = "update_where (edges_at [signer] s) (\<lambda>r. r\<lparr>ta_Signer := True\<rparr>)"
  from assms(2) obtain k u where clear: "update_edges (edges_at stale s) (\<lambda>r. r\<lparr>ta_Signer := False\<rparr>) w = (Inr k, u)"
    and rest: "(if signer \<noteq> 0 \<and> signer \<in> set stale then
       bnd (wrap_err ''failed to set signer flag'' (update_edges (edges_at [signer] s) (\<lambda>r. r\<lparr>ta_Signer := True\<rparr>))) (\<lambda>_. ret ())
     else ret ()) u = (Inr (), w')"
    by (auto simp: fix_signers_def bnd_eq_Inr)
  from edge_stmt_spec [OF assms(1) clear [unfolded update_edges_def]] have u: "edge_state E d (?clear e) u" by simp
  show ?thesis
  proof (cases "signer \<noteq> 0 \<and> signer \<in> set stale")
    case True
    with rest obtain k' where "update_edges (edges_at [signer] s) (\<lambda>r. r\<lparr>ta_Signer := True\<rparr>) u = (Inr k', w')"
      by (auto simp: bnd_eq_Inr)
    from edge_stmt_spec [OF u this [unfolded update_edges_def]] have "edge_state E d (?set (?clear e)) w'" by simp
    moreover have "?set (?clear e) = flags_fixed stale signer s e"
      using True by (auto simp: flags_fixed_def update_where_def edges_at_def)
    ultimately show ?thesis by simp
  next
    case False
    then have "(ta_AccountId r = signer \<and> signer \<noteq> 0) = False" if "edges_at stale s r" for r using that by (auto simp: edges_at_def)
    then have "flags_fixed stale signer s e = ?clear e" by (simp add: flags_fixed_def update_where_def)
    with False rest u show ?thesis by auto
  qed
qed

lemma insert_missing_spec:
  assumes cfg: "valid_config cfg" and st: "edge_state E d e w" and run: "insert_missing cfg rows w = (Inr n, w')"
  shows "edge_state E d (insert_rows ta_key rows e) w' \<and> n = int (length (insert_rows ta_key rows e)) - int (length e)"
proof -
  have "edge_state E d (insert_rows ta_key (concat cs) e) w' \<and> n = int (length (insert_rows ta_key (concat cs) e)) - int (length e)"
    if "foreach (\<lambda>chunk n. bnd (edge_stmt (\<lambda>t. (int (length (insert_rows ta_key chunk t)) - int (length t), insert_rows ta_key chunk t)))
      (\<lambda>k. ret (n + k))) cs 0 w = (Inr n, w')" for cs
  proof (rule foreach_Inr [OF that, of "\<lambda>ys n w. edge_state E d (insert_rows ta_key (concat ys) e) w \<and>
      n = int (length (insert_rows ta_key (concat ys) e)) - int (length e)"])
    show "edge_state E d (insert_rows ta_key (concat []) e) w \<and> 0 = int (length (insert_rows ta_key (concat []) e)) - int (length e)"
      using st by simp
  next
    fix ys x zs c u m v
    assume *: "edge_state E d (insert_rows ta_key (concat ys) e) u \<and> c = int (length (insert_rows ta_key (concat ys) e)) - int (length e)"
      and "bnd (edge_stmt (\<lambda>t. (int (length (insert_rows ta_key x t)) - int (length t), insert_rows ta_key x t))) (\<lambda>k. ret (c + k)) u = (Inr m, v)"
    then obtain k where k: "edge_stmt (\<lambda>t. (int (length (insert_rows ta_key x t)) - int (length t), insert_rows ta_key x t)) u = (Inr k, v)" "m = c + k"
      by (auto simp: bnd_eq_Inr)
    from edge_stmt_spec [OF conjunct1 [OF *] k(1)] * k(2)
    show "edge_state E d (insert_rows ta_key (concat (ys @ [x])) e) v \<and> m = int (length (insert_rows ta_key (concat (ys @ [x])) e)) - int (length e)"
      by (simp add: insert_rows_append)
  qed
  from this [OF run [unfolded insert_missing_def]] show ?thesis using cfg by (simp add: valid_config_def)
qed


text \<open>The three statements together.\<close>

definition reconciled :: "int list \<Rightarrow> CollectedTxAccount list \<Rightarrow> int list \<Rightarrow> int \<Rightarrow> int \<Rightarrow> CollectedTxAccount list \<Rightarrow> CollectedTxAccount list" where
  "reconciled extra missing stale signer s e =
     flags_fixed stale signer s (insert_rows ta_key missing (delete_where (edges_at extra s) e))"

lemma edge_state_commit:
  assumes "edge_state E d e u" "w_db w = w_db u" "only_db u w"
  shows "edge_state E d e w"
proof -
  from assms(1) have u: "dict_inv (account_dict E) u" "w_db u = d\<lparr>t_tx_accounts := e\<rparr>" by (simp_all add: edge_state_def)
  have "dict_inv (account_dict E) w"
    using u(1) assms(2) only_dbD(1,6) [OF assms(3)] by (simp add: dict_inv_def account_dict_def)
  with u(2) assms(2) show ?thesis by (simp add: edge_state_def)
qed

lemma length_flags_fixed [simp]: "length (flags_fixed stale signer s e) = length e"
  by (simp add: flags_fixed_def update_where_def)

lemma no_edges_at: "edges_at [] s = (\<lambda>_. False)"
  by (rule ext) (simp add: edges_at_def)

lemma reconciled_nothing [simp]:
  "delete_where (\<lambda>_. False) e = e" "rows_affected (\<lambda>_. False) e = 0" "flags_fixed [] signer s e = e"
  by (simp_all add: delete_where_def rows_affected_def flags_fixed_def update_where_def no_edges_at)

lemma reconcile_edges_spec:
  assumes cfg: "valid_config cfg" and st: "edge_state E d e w"
    and run: "reconcile_edges cfg tx extra missing stale w = (Inr (del, ins), w')"
  defines "e' \<equiv> reconciled extra missing stale (tx_SignerId tx) (tx_Sequence tx) e"
  shows "edge_state E d e' w' \<and> int (length e') = int (length e) - del + ins"
proof (cases "extra = [] \<and> missing = [] \<and> stale = []")
  case True
  with run st show ?thesis by (auto simp: reconcile_edges_def e'_def reconciled_def no_edges_at)
next
  case False
  note tr = transaction_Inr [OF run [unfolded reconcile_edges_def if_not_P [OF False]]]
  obtain u where u: "bnd (if extra = [] then ret 0
             else wrap_err ''failed to delete extra entries'' (delete_edges (edges_at extra (tx_Sequence tx)))) (\<lambda>deleted.
        bnd (if missing = [] then ret 0
             else wrap_err ''failed to insert missing entries'' (insert_missing cfg missing)) (\<lambda>inserted.
        bnd (if stale = [] then ret () else fix_signers stale (tx_SignerId tx) (tx_Sequence tx)) (\<lambda>_.
        ret (deleted, inserted)))) w = (Inr (del, ins), u)" and c: "w_db w' = w_db u" "only_db u w'"
    using tr by blast
  let ?e1 = "delete_where (edges_at extra (tx_Sequence tx)) e"
  let ?e2 = "insert_rows ta_key missing ?e1"
  from u obtain w1 w2 where
    1: "(if extra = [] then ret 0 else wrap_err ''failed to delete extra entries'' (delete_edges (edges_at extra (tx_Sequence tx)))) w = (Inr del, w1)"
    and 2: "(if missing = [] then ret 0 else wrap_err ''failed to insert missing entries'' (insert_missing cfg missing)) w1 = (Inr ins, w2)"
    and 3: "(if stale = [] then ret () else fix_signers stale (tx_SignerId tx) (tx_Sequence tx)) w2 = (Inr (), u)"
    unfolding bnd_eq_Inr by auto
  have s1: "edge_state E d ?e1 w1 \<and> int (length ?e1) = int (length e) - del"
  proof (cases "extra = []")
    case True
    with 1 st show ?thesis by (simp add: no_edges_at)
  next
    case False
    with 1 have "delete_edges (edges_at extra (tx_Sequence tx)) w = (Inr del, w1)" by simp
    from edge_stmt_spec [OF st this [unfolded delete_edges_def]] show ?thesis by (simp add: rows_affected_delete)
  qed
  have s2: "edge_state E d ?e2 w2 \<and> ins = int (length ?e2) - int (length ?e1)"
  proof (cases "missing = []")
    case True
    with 2 s1 show ?thesis by simp
  next
    case False
    with 2 have "insert_missing cfg missing w1 = (Inr ins, w2)" by simp
    from insert_missing_spec [OF cfg conjunct1 [OF s1] this] show ?thesis .
  qed
  have "edge_state E d e' u"
  proof (cases "stale = []")
    case True
    with 3 s2 show ?thesis by (simp add: e'_def reconciled_def)
  next
    case False
    with 3 have "fix_signers stale (tx_SignerId tx) (tx_Sequence tx) w2 = (Inr (), u)" by simp
    from fix_signers_spec [OF conjunct1 [OF s2] this] show ?thesis by (simp add: e'_def reconciled_def)
  qed
  from edge_state_commit [OF this c] s1 s2 show ?thesis by (simp add: e'_def reconciled_def)
qed

text \<open>With the lists \<open>reconcileTx\<close> computes, the edges are those of the expected accounts, and no others change.\<close>

lemma row_unique: "unique_key ta_key e \<Longrightarrow> r \<in> set e \<Longrightarrow> r' \<in> set e \<Longrightarrow> ta_AccountId r = ta_AccountId r' \<Longrightarrow>
    ta_Sequence r = ta_Sequence r' \<Longrightarrow> r = r'"
  unfolding unique_key_def distinct_map by (auto elim!: inj_onD simp: ta_key_def)

lemma actual_signer_at:
  assumes "unique_key ta_key e" "r \<in> set (rows_of e s)"
  shows "actual_signer (rows_of e s) (ta_AccountId r) = ta_Signer r"
proof (cases "row_at ta_AccountId (rev (rows_of e s)) (ta_AccountId r)")
  case None
  with assms(2) show ?thesis by (auto simp: row_at_None)
next
  case (Some x)
  from row_at_SomeD [OF Some] have "x = r"
    using row_unique [OF assms(1), of x r] assms(2) by (auto simp: rows_of_def)
  with Some show ?thesis by (simp add: actual_signer_def)
qed

lemma reconciled_exact:
  fixes signer :: int
  assumes un: "unique_key ta_key e" and exp: "distinct exp" "0 \<notin> set exp" and ids: "set actualIds = ta_AccountId ` set (rows_of e s)"
  defines "e' \<equiv> reconciled (filter (\<lambda>i. i \<notin> set exp) actualIds)
      (map (\<lambda>i. \<lparr>ta_AccountId = i, ta_Sequence = s, ta_Signer = (i = signer)\<rparr>) (filter (\<lambda>i. i \<notin> set actualIds) exp))
      (filter (\<lambda>i. i \<in> set exp \<and> actual_signer (rows_of e s) i \<noteq> (i = signer)) actualIds) signer s e"
  shows "set (rows_of e' s) = edges_for (set exp) signer s"
    and "rows_beside e' (insert s S) = rows_beside e (insert s S)"
    and "s' \<noteq> s \<Longrightarrow> rows_of e' s' = rows_of e s'"
    and "unique_key ta_key e'"
proof -
  define mk where "mk i = \<lparr>ta_AccountId = i, ta_Sequence = s, ta_Signer = (i = signer)\<rparr>" for i
  define extra where "extra = filter (\<lambda>i. i \<notin> set exp) actualIds"
  define new where "new = filter (\<lambda>i. i \<notin> set actualIds) exp"
  define stale where "stale = filter (\<lambda>i. i \<in> set exp \<and> actual_signer (rows_of e s) i \<noteq> (i = signer)) actualIds"
  define e1 where "e1 = delete_where (edges_at extra s) e"
  define fix_row where "fix_row r = (if edges_at stale s r then r\<lparr>ta_Signer := (ta_AccountId r = signer \<and> signer \<noteq> 0)\<rparr> else r)" for r
  have mk: "ta_key (mk i) = (i, s)" "ta_Sequence (mk i) = s" "ta_AccountId (mk i) = i" for i by (simp_all add: mk_def ta_key_def)
  have "insert_rows ta_key (map mk new) e1 = e1 @ map mk new"
  proof (rule insert_rows_fresh)
    show "distinct (map ta_key (map mk new))" using exp(1) by (simp add: new_def o_def mk distinct_map inj_on_def)
    show "ta_key ` set (map mk new) \<inter> ta_key ` set e1 = {}"
      using ids by (auto simp: mk new_def e1_def ta_key_def rows_of_def)
  qed
  then have e': "e' = map fix_row (e1 @ map mk new)"
    unfolding e'_def reconciled_def flags_fixed_def update_where_def extra_def [symmetric] new_def [symmetric] stale_def [symmetric]
      e1_def [symmetric] mk_def [symmetric] fix_row_def [abs_def, symmetric] by simp
  have fr: "ta_Sequence (fix_row r) = ta_Sequence r" "ta_AccountId (fix_row r) = ta_AccountId r" "ta_key (fix_row r) = ta_key r" for r
    by (simp_all add: fix_row_def ta_key_def)
  have other: "fix_row r = r" if "ta_Sequence r \<noteq> s" for r using that by (simp add: fix_row_def edges_at_def)
  have fmk: "fix_row (mk i) = mk i" if "i \<in> set new" for i using that by (auto simp: fix_row_def edges_at_def mk_def new_def stale_def)
  have row: "fix_row r = mk (ta_AccountId r)" if r: "r \<in> set e" "ta_Sequence r = s" "ta_AccountId r \<in> set exp" for r
  proof -
    have rr: "r \<in> set (rows_of e s)" using r by (simp add: rows_of_def)
    have "ta_AccountId r \<in> set stale \<longleftrightarrow> ta_Signer r \<noteq> (ta_AccountId r = signer)"
      using r(3) ids rr actual_signer_at [OF un rr] by (auto simp: stale_def)
    moreover have "ta_AccountId r \<noteq> 0" using r(3) exp(2) by auto
    ultimately show ?thesis using r(2) by (cases r) (auto simp: fix_row_def edges_at_def mk_def)
  qed
  have e1_s: "r \<in> set e1 \<and> ta_Sequence r = s \<longleftrightarrow> r \<in> set e \<and> ta_Sequence r = s \<and> ta_AccountId r \<in> set exp" for r
    using ids by (auto simp: e1_def edges_at_def extra_def rows_of_def)
  show "set (rows_of e' s) = edges_for (set exp) signer s"
  proof
    show "set (rows_of e' s) \<subseteq> edges_for (set exp) signer s"
    proof
      fix r assume "r \<in> set (rows_of e' s)"
      then consider x where "x \<in> set e1" "r = fix_row x" "ta_Sequence x = s" | i where "i \<in> set new" "r = fix_row (mk i)"
        by (auto simp: rows_of_def e' fr)
      then have "r \<in> mk ` set exp"
      proof cases
        case 1
        then have "x \<in> set e \<and> ta_Sequence x = s \<and> ta_AccountId x \<in> set exp" using e1_s by blast
        with row [of x] 1(2) show ?thesis by blast
      next
        case 2
        with fmk [of i] show ?thesis by (auto simp: new_def)
      qed
      then show "r \<in> edges_for (set exp) signer s" by (simp add: edges_for_def mk_def [abs_def])
    qed
    show "edges_for (set exp) signer s \<subseteq> set (rows_of e' s)"
    proof
      fix r assume "r \<in> edges_for (set exp) signer s"
      then obtain i where i: "i \<in> set exp" "r = mk i" by (auto simp: edges_for_def mk_def)
      show "r \<in> set (rows_of e' s)"
      proof (cases "i \<in> set actualIds")
        case True
        with ids obtain x where x: "x \<in> set e" "ta_Sequence x = s" "ta_AccountId x = i" by (auto simp: rows_of_def)
        with i row [of x] e1_s [of x] show ?thesis by (force simp: rows_of_def e' fr mk)
      next
        case False
        with i fmk [of i] show ?thesis by (force simp: rows_of_def e' mk new_def)
      qed
    qed
  qed
  have fe1: "filter P e1 = filter P e" if "\<And>r. P r \<Longrightarrow> ta_Sequence r \<noteq> s" for P
    unfolding e1_def delete_where_def filter_filter using that by (auto intro!: filter_cong simp: edges_at_def)
  have beside: "filter P e' = filter P e" if P: "\<And>r. P r \<Longrightarrow> ta_Sequence r \<noteq> s" "\<And>r. P (fix_row r) = P r" for P
  proof -
    have "filter P (map mk new) = []" using P(1) mk(2) by (auto simp: filter_empty_conv)
    moreover have "map fix_row (filter P e1) = filter P e1" using P(1) other by (auto intro!: map_idI)
    ultimately show ?thesis using fe1 [OF P(1)] P(2) by (simp add: e' filter_map o_def)
  qed
  show "rows_beside e' (insert s S) = rows_beside e (insert s S)"
    unfolding rows_beside_def by (rule beside) (auto simp: fr)
  show "s' \<noteq> s \<Longrightarrow> rows_of e' s' = rows_of e s'"
    unfolding rows_of_def by (rule beside) (auto simp: fr)
  have "map ta_key e' = map ta_key (insert_rows ta_key (map mk new) e1)"
    using \<open>insert_rows ta_key (map mk new) e1 = e1 @ map mk new\<close> by (simp add: e' fr o_def)
  moreover have "unique_key ta_key (insert_rows ta_key (map mk new) e1)" using un by (simp add: e1_def)
  ultimately show "unique_key ta_key e'" by (simp add: unique_key_def)
qed


text \<open>What the events of a transaction call for.\<close>

definition found :: "env \<Rightarrow> event list \<Rightarrow> string list \<Rightarrow> bool" where
  "found E events addrs \<longleftrightarrow> (\<exists>r. grep_events E events = Inr r \<and> set (fst r) \<subseteq> set addrs \<and>
     (snd r = [] \<longrightarrow> addrs = fst r) \<and> (\<forall>a \<in> set addrs. canonical E a))"

definition expected_ids :: "env \<Rightarrow> CollectedAccountDict list \<Rightarrow> string list \<Rightarrow> int \<Rightarrow> int set" where
  "expected_ids E t addrs signer = {i. (\<exists>a \<in> set addrs. account_id E t a i) \<or> i = signer} - {0}"

lemma GrepAddresses_found:
  assumes "bech32_ok E" "GrepAddressesFromTx E events w = (Inr addrs, w')"
  shows "found E events addrs"
proof -
  from assms(2) obtain r where r: "grep_events E events = Inr r"
    and rest: "snd r = [] \<and> addrs = fst r \<or> snd r \<noteq> [] \<and> (\<exists>owners. to_accounts E owners (fst r) = Inr addrs)"
    by (auto simp: GrepAddressesFromTx_def bnd_eq_Inr split: prod.splits if_splits) blast+
  have "set (fst r) \<subseteq> set addrs \<and> (snd r = [] \<longrightarrow> addrs = fst r)"
    using rest by (auto simp: to_accounts_Inr)
  with r GrepAddressesFromTx_canonical [OF assms] show ?thesis unfolding found_def by blast
qed

lemma set_expectedSet:
  assumes E: "env_ok E" and m: "\<And>a i. m a = Some i \<longleftrightarrow> a \<in> set addrs \<and> account_id E t a i"
  shows "set (expectedSet E m addrs signer) = expected_ids E t addrs signer" "distinct (expectedSet E m addrs signer)"
proof -
  have "set (map_order E (dedup addrs)) = set addrs" using set_map_order [OF E distinct_dedup] by simp
  then have mv: "set (map_values m (map_order E (dedup addrs))) = {i. \<exists>a \<in> set addrs. account_id E t a i}"
    unfolding map_values_def set_ids_of set_dedup by (auto simp: m)
  note io = set_id_order [OF E distinct_dedup] distinct_id_order [OF E distinct_dedup]
  show "set (expectedSet E m addrs signer) = expected_ids E t addrs signer" "distinct (expectedSet E m addrs signer)"
    unfolding expectedSet_def expected_ids_def using io by (auto simp: mv)
qed

lemma reconcileTx_spec:
  assumes E: "env_ok E" and cfg: "valid_config cfg" and st: "edge_state E d e w" and un: "unique_key ta_key e"
    and run: "reconcileTx E cfg tx (rows_of e (tx_Sequence tx)) w = (Inr (del, ins), w')"
  obtains e' events addrs where "edge_state E d e' w'" "unmarshal_tx_events E (tx_Data tx) = Inr events" "found E events addrs"
    "set (rows_of e' (tx_Sequence tx)) = edges_for (expected_ids E (t_account_dict d) addrs (tx_SignerId tx)) (tx_SignerId tx) (tx_Sequence tx)"
    "\<And>S. rows_beside e' (insert (tx_Sequence tx) S) = rows_beside e (insert (tx_Sequence tx) S)"
    "\<And>s'. s' \<noteq> tx_Sequence tx \<Longrightarrow> rows_of e' s' = rows_of e s'"
    "unique_key ta_key e'" "int (length e') = int (length e) - del + ins"
proof -
  let ?s = "tx_Sequence tx" and ?sg = "tx_SignerId tx"
  from run obtain events u addrs v m where ev: "unmarshal_tx_events E (tx_Data tx) = Inr events"
    and g: "GrepAddressesFromTx E events w = (Inr addrs, u)"
    and lk: "GetOrCreateAccountIds E addrs False u = (Inr m, v)"
    and fin: "(let expected = expectedSet E m addrs ?sg;
         actualIds = id_order E (dedup (map ta_AccountId (rows_of e ?s)));
         extraIds = filter (\<lambda>i. i \<notin> set expected) actualIds;
         missingEntries = map (\<lambda>i. \<lparr>ta_AccountId = i, ta_Sequence = ?s, ta_Signer = (i = ?sg)\<rparr>)
           (filter (\<lambda>i. i \<notin> set actualIds) expected);
         staleSigner = filter (\<lambda>i. i \<in> set expected \<and> actual_signer (rows_of e ?s) i \<noteq> (i = ?sg)) actualIds
     in reconcile_edges cfg tx extraIds missingEntries staleSigner) v = (Inr (del, ins), w')"
    unfolding reconcileTx_def bnd_eq_Inr wrap_err_eq_Inr lift_run by blast
  have "keeps (edge_state E d e) (GrepAddressesFromTx E events)"
    by (rule keeps_GrepAddressesFromTx) (simp_all add: edge_state_cache)
  from keepsD [OF this st g] have su: "edge_state E d e u" .
  note l = hoare_lookup_state [OF E su lk]
  note ex = set_expectedSet [OF E l(2)]
  define actualIds where "actualIds = id_order E (dedup (map ta_AccountId (rows_of e ?s)))"
  have ids: "set actualIds = ta_AccountId ` set (rows_of e ?s)"
    unfolding actualIds_def using set_id_order [OF E distinct_dedup] by simp
  define exp where "exp = expectedSet E m addrs ?sg"
  have z: "0 \<notin> set exp" unfolding exp_def ex(1) by (simp add: expected_ids_def)
  have dx: "distinct exp" unfolding exp_def by (rule ex(2))
  note rc = reconcile_edges_spec [OF cfg l(1) fin [unfolded Let_def, folded actualIds_def exp_def]]
  note re = reconciled_exact [OF un dx z ids, where signer = ?sg]
  have ids_eq': "edges_for (set exp) ?sg ?s = edges_for (expected_ids E (t_account_dict d) addrs ?sg) ?sg ?s"
    by (simp only: exp_def ex(1))
  show ?thesis
  proof (rule that)
    show "unmarshal_tx_events E (tx_Data tx) = Inr events" by (rule ev)
    show "found E events addrs" by (rule GrepAddresses_found [OF env_okD(1) [OF E] g])
  qed (rule conjunct1 [OF rc] conjunct2 [OF rc] trans [OF re(1) ids_eq'] re(2) re(3) re(4), (assumption)?)+
qed


section \<open>A batch\<close>

definition exact_edges :: "env \<Rightarrow> CollectedAccountDict list \<Rightarrow> CollectedTxAccount list \<Rightarrow> CollectedTx \<Rightarrow> bool" where
  "exact_edges E t e tx \<longleftrightarrow> (\<exists>events addrs. unmarshal_tx_events E (tx_Data tx) = Inr events \<and> found E events addrs \<and>
     set (rows_of e (tx_Sequence tx)) = edges_for (expected_ids E t addrs (tx_SignerId tx)) (tx_SignerId tx) (tx_Sequence tx))"

text \<open>From the table \<open>e\<close>, the edges of the transactions \<open>T\<close> are set right and nothing else: \<open>n\<close> rows more.\<close>

definition fixed :: "env \<Rightarrow> CollectedAccountDict list \<Rightarrow> CollectedTx set \<Rightarrow> CollectedTxAccount list \<Rightarrow> CollectedTxAccount list \<Rightarrow> int \<Rightarrow> bool" where
  "fixed E t T e e' n \<longleftrightarrow> unique_key ta_key e' \<and> (\<forall>tx \<in> T. exact_edges E t e' tx) \<and>
     (\<forall>S. tx_Sequence ` T \<subseteq> S \<longrightarrow> rows_beside e' S = rows_beside e S) \<and> int (length e') = int (length e) + n"

lemma rows_of_beside: "rows_of e s = rows_beside e (- {s})"
  by (simp add: rows_of_def rows_beside_def)

lemma fixed_start: "unique_key ta_key e \<Longrightarrow> fixed E t {} e e 0"
  by (simp add: fixed_def)

lemma fixed_rows: "fixed E t T e e' n \<Longrightarrow> s \<notin> tx_Sequence ` T \<Longrightarrow> rows_of e' s = rows_of e s"
  unfolding rows_of_beside by (auto simp: fixed_def)

lemma fixed_trans:
  assumes 1: "fixed E t T e e' n" and 2: "fixed E t U e' e'' m" and dis: "tx_Sequence ` T \<inter> tx_Sequence ` U = {}"
  shows "fixed E t (T \<union> U) e e'' (n + m)"
proof -
  have "exact_edges E t e'' tx" if "tx \<in> T" for tx
  proof -
    have "tx_Sequence tx \<notin> tx_Sequence ` U" using dis that by blast
    from fixed_rows [OF 2 this] 1 that show ?thesis by (auto simp: fixed_def exact_edges_def)
  qed
  with 1 2 show ?thesis by (auto simp: fixed_def image_Un)
qed

lemma fixed_one:
  assumes E: "env_ok E" and cfg: "valid_config cfg" and st: "edge_state E d e w" and un: "unique_key ta_key e"
    and run: "reconcileTx E cfg tx (rows_of e (tx_Sequence tx)) w = (Inr (del, ins), w')"
  obtains e' where "edge_state E d e' w'" "fixed E (t_account_dict d) {tx} e e' (ins - del)"
proof (rule reconcileTx_spec [OF E cfg st un run])
  fix e' events addrs
  assume *: "edge_state E d e' w'" "unmarshal_tx_events E (tx_Data tx) = Inr events" "found E events addrs"
    "set (rows_of e' (tx_Sequence tx)) = edges_for (expected_ids E (t_account_dict d) addrs (tx_SignerId tx)) (tx_SignerId tx) (tx_Sequence tx)"
    "\<And>S. rows_beside e' (insert (tx_Sequence tx) S) = rows_beside e (insert (tx_Sequence tx) S)"
    "unique_key ta_key e'" "int (length e') = int (length e) - del + ins"
  have "rows_beside e' S = rows_beside e S" if "tx_Sequence tx \<in> S" for S
    using *(5) [of S] that by (simp add: insert_absorb)
  with * have "fixed E (t_account_dict d) {tx} e e' (ins - del)" by (auto simp: fixed_def exact_edges_def)
  with *(1) show thesis by (rule that)
qed

definition txs_numbered :: "db \<Rightarrow> int \<Rightarrow> int \<Rightarrow> CollectedTx set" where
  "txs_numbered d a b = {t \<in> set (t_tx d). a \<le> tx_Sequence t \<and> tx_Sequence t \<le> b}"

lemma ProcessBatch_ta_spec:
  assumes E: "env_ok E" and cfg: "valid_config cfg" and st: "edge_state E d e w" and un: "unique_key ta_key e"
    and seqs: "distinct (map tx_Sequence (t_tx d))"
    and run: "ProcessBatch_ta E cfg a b w = (Inr (k, del, ins), w')"
  obtains e' where "edge_state E d e' w'" "fixed E (t_account_dict d) (txs_numbered d a b) e e' (ins - del)"
proof -
  let ?q1 = "query (\<lambda>d. order_asc tx_Sequence (filter (\<lambda>t. a \<le> tx_Sequence t \<and> tx_Sequence t \<le> b) (t_tx d)))"
  let ?q2 = "query (\<lambda>d. filter (\<lambda>r. a \<le> ta_Sequence r \<and> ta_Sequence r \<le> b) (t_tx_accounts d))"
  let ?body = "\<lambda>acts collectedTx (totalDeleted, totalInserted).
         bnd ctx_check (\<lambda>_.
         bnd (wrap_err ''failed to reconcile tx'' (reconcileTx E cfg collectedTx
             (filter (\<lambda>r. ta_Sequence r = tx_Sequence collectedTx) acts))) (\<lambda>(deleted, inserted).
         ret (totalDeleted + deleted, totalInserted + inserted)))"
  from run obtain txs u where q1: "?q1 w = (Inr txs, u)" and rest: "(if txs = [] then ret (b, 0, 0)
     else bnd (wrap_err ''failed to query tx_accounts'' ?q2) (\<lambda>actualEntries.
       bnd (foreach (?body actualEntries) txs (0, 0)) (\<lambda>(totalDeleted, totalInserted).
       ret (b, totalDeleted, totalInserted)))) u = (Inr (k, del, ins), w')"
    unfolding ProcessBatch_ta_def bnd_eq_Inr wrap_err_eq_Inr by blast
  have wdb: "w_db w = d\<lparr>t_tx_accounts := e\<rparr>" using st by (simp add: edge_state_def)
  have k1: "keeps (edge_state E d e) ?q1" and k2: "keeps (edge_state E d e) ?q2" by (intro keeps_intros edge_state_ff)+
  note su = keepsD [OF k1 st q1]
  have txs: "txs = order_asc tx_Sequence (filter (\<lambda>t. a \<le> tx_Sequence t \<and> tx_Sequence t \<le> b) (t_tx d))"
    using hoareD [OF hoare_query refl q1] by (simp add: wdb)
  have set: "set txs = txs_numbered d a b" by (auto simp: txs txs_numbered_def)
  have dist: "distinct (map tx_Sequence txs)"
    using seqs unfolding txs by (simp add: order_asc_def distinct_map inj_on_def)
  show ?thesis
  proof (cases "txs = []")
    case True
    then have none: "txs_numbered d a b = {}" using set by simp
    from rest True have z: "u = w'" "ins - del = 0" by auto
    have "fixed E (t_account_dict d) (txs_numbered d a b) e e (ins - del)" unfolding none z(2) by (rule fixed_start [OF un])
    with su [unfolded z(1)] show ?thesis by (rule that)
  next
    case False
    with rest obtain acts v where q2: "?q2 u = (Inr acts, v)" and lp: "foreach (?body acts) txs (0, 0) v = (Inr (del, ins), w')"
      by (auto simp: bnd_eq_Inr)
    note sv = keepsD [OF k2 su q2]
    have udb: "w_db u = d\<lparr>t_tx_accounts := e\<rparr>" using su by (simp add: edge_state_def)
    have acts: "acts = filter (\<lambda>r. a \<le> ta_Sequence r \<and> ta_Sequence r \<le> b) e"
      using hoareD [OF hoare_query refl q2] by (simp add: udb)
    have act: "filter (\<lambda>r. ta_Sequence r = tx_Sequence x) acts = rows_of e (tx_Sequence x)" if "x \<in> set txs" for x
      using that by (auto simp: acts rows_of_def set txs_numbered_def intro!: filter_cong)
    let ?I = "\<lambda>ys (del, ins) w. \<exists>e'. edge_state E d e' w \<and> fixed E (t_account_dict d) (set ys) e e' (ins - del)"
    have "?I txs (del, ins) w'"
    proof (rule foreach_Inr [OF lp, of ?I])
      show "?I [] (0, 0) v" using sv fixed_start [OF un] by auto
    next
      fix ys x zs and c c' :: "int \<times> int" and s s'
      assume xs: "txs = ys @ x # zs" and I: "?I ys c s" and step: "?body acts x c s = (Inr c', s')"
      obtain del ins where c: "c = (del, ins)" by (cases c)
      from I c obtain e1 where e1: "edge_state E d e1 s" "fixed E (t_account_dict d) (set ys) e e1 (ins - del)" by auto
      have fresh: "tx_Sequence x \<notin> tx_Sequence ` set ys" using dist unfolding xs by auto
      have x: "x \<in> set txs" by (simp add: xs)
      from step c obtain s1 k1 k2 where cc: "ctx_check s = (Inr (), s1)"
        and rt: "reconcileTx E cfg x (filter (\<lambda>r. ta_Sequence r = tx_Sequence x) acts) s1 = (Inr (k1, k2), s')"
        and c': "c' = (del + k1, ins + k2)" by (auto simp: bnd_eq_Inr)
      have rows: "filter (\<lambda>r. ta_Sequence r = tx_Sequence x) acts = rows_of e1 (tx_Sequence x)"
        using act [OF x] fixed_rows [OF e1(2) fresh] by simp
      have u1: "unique_key ta_key e1" using e1(2) by (simp add: fixed_def)
      obtain e2 where e2: "edge_state E d e2 s'" "fixed E (t_account_dict d) {x} e1 e2 (k2 - k1)"
        by (rule fixed_one [OF E cfg ctx_check_Inr [OF cc edge_state_ff e1(1)] u1 rt [unfolded rows]])
      have "fixed E (t_account_dict d) (set ys \<union> {x}) e e2 (ins - del + (k2 - k1))"
        by (rule fixed_trans [OF e1(2) e2(2)]) (use fresh in auto)
      then have "fixed E (t_account_dict d) (set (ys @ [x])) e e2 (ins + k2 - (del + k1))" by (simp add: algebra_simps)
      with e2(1) show "?I (ys @ [x]) c' s'" unfolding c' by auto
    qed
    with that show ?thesis by (auto simp: set)
  qed
qed


section \<open>The loop\<close>

definition counted :: "CollectedTxAccountCleanupStatus \<Rightarrow> int \<Rightarrow> int \<Rightarrow> CollectedTxAccountCleanupStatus \<Rightarrow> bool" where
  "counted s del ins s' \<longleftrightarrow> DeletedRecords s' = wrap64 (DeletedRecords s + del) \<and> InsertedRecords s' = wrap64 (InsertedRecords s + ins)"

text \<open>Between two rounds: the status row is \<open>status\<close>, the edges are \<open>e\<close>.\<close>

abbreviation loop_state :: "env \<Rightarrow> db \<Rightarrow> CollectedTxAccount list \<Rightarrow> CollectedTxAccountCleanupStatus \<Rightarrow> world \<Rightarrow> bool" where
  "loop_state E d e status \<equiv> edge_state E (d\<lparr>t_ta_status := [status]\<rparr>) e"

lemma updateStatus_ta_spec:
  assumes "loop_state E d e s w" "updateStatus_ta s' w = (Inr (), w')"
  shows "loop_state E d e s' w'"
proof -
  have inv: "dict_inv (account_dict E) w" and db: "w_db w = d\<lparr>t_ta_status := [s], t_tx_accounts := e\<rparr>"
    using assms(1) by (simp_all add: edge_state_def)
  have "keeps (dict_inv (account_dict E)) (updateStatus_ta s')"
    unfolding updateStatus_ta_def by (rule keeps_exec [OF dict_inv_ff]) (simp add: dict_inv_def account_dict_def)
  from keepsD [OF this inv assms(2)] have inv': "dict_inv (account_dict E) w'" .
  have "w_db w' = (w_db w)\<lparr>t_ta_status := map (\<lambda>_. s') (t_ta_status (w_db w))\<rparr>"
    by (rule hoareD [OF hoare_exec refl assms(2) [unfolded updateStatus_ta_def]])
  then show ?thesis using inv' by (simp add: edge_state_def db)
qed

lemma txs_numbered_split: "1 \<le> a \<Longrightarrow> a \<le> c + 1 \<Longrightarrow> txs_numbered d a c \<union> txs_numbered d 1 (a - 1) = txs_numbered d 1 c"
  by (auto simp: txs_numbered_def)

lemma numbered_disjoint:
  "distinct (map tx_Sequence (t_tx d)) \<Longrightarrow> tx_Sequence ` txs_numbered d a c \<inter> tx_Sequence ` txs_numbered d 1 (a - 1) = {}"
  by (auto simp: txs_numbered_def)

lemma reverse_loop_spec:
  assumes E: "env_ok E" and cfg: "valid_config cfg" and seqs: "distinct (map tx_Sequence (t_tx d))"
    and "loop_state E d e s w" "unique_key ta_key e" "int64_range (DeletedRecords s)" "int64_range (InsertedRecords s)"
    and "reverse_loop E cfg c s w = (Inr s', w')"
  shows "\<exists>e' del ins. loop_state E d e' s' w' \<and> fixed E (t_account_dict d) (txs_numbered d 1 c) e e' (ins - del) \<and>
    counted s del ins s' \<and> LastCleanedSequence s' = (if c \<le> 0 then LastCleanedSequence s else 0)"
  using assms(4-)
proof (induction "nat c" arbitrary: c s e w rule: less_induct)
  case less
  from less.prems(5) obtain u where cc: "ctx_check w = (Inr (), u)" and rest: "(if c \<le> 0 then ret s
     else let startSeq = max (c - BatchSize_ta + 1) 1 in
       bnd (wrap_err ''failed to process batch'' (ProcessBatch_ta E cfg startSeq c)) (\<lambda>(_, deleted, inserted).
       let status' = \<lparr>LastCleanedSequence = startSeq - 1, DeletedRecords = wrap64 (DeletedRecords s + deleted),
                      InsertedRecords = wrap64 (InsertedRecords s + inserted)\<rparr> in
       bnd (wrap_err ''failed to update status'' (updateStatus_ta status')) (\<lambda>_.
       reverse_loop E cfg (startSeq - 1) status'))) u = (Inr s', w')"
    unfolding reverse_loop.simps [of E cfg c s] bnd_check_Inr by blast
  note su = ctx_check_Inr [OF cc edge_state_ff less.prems(1)]
  show ?case
  proof (cases "c \<le> 0")
    case True
    then have none: "txs_numbered d 1 c = {}" by (auto simp: txs_numbered_def)
    have "counted s 0 0 s" using less.prems(3,4) by (simp add: counted_def)
    moreover have "fixed E (t_account_dict d) {} e e (0 - 0)" using fixed_start [OF less.prems(2)] by simp
    moreover have "s' = s" "w' = u" using rest True by auto
    ultimately show ?thesis using True su unfolding none by (intro exI [of _ e] exI [of _ 0]) simp
  next
    case False
    define a where "a = max (c - BatchSize_ta + 1) 1"
    from rest False obtain k del ins v s1 x where pb: "ProcessBatch_ta E cfg a c u = (Inr (k, del, ins), v)"
      and s1: "s1 = \<lparr>LastCleanedSequence = a - 1, DeletedRecords = wrap64 (DeletedRecords s + del),
                      InsertedRecords = wrap64 (InsertedRecords s + ins)\<rparr>"
      and us: "updateStatus_ta s1 v = (Inr (), x)" and rl: "reverse_loop E cfg (a - 1) s1 x = (Inr s', w')"
      by (auto simp: a_def Let_def bnd_eq_Inr)
    obtain e1 where e1: "loop_state E d e1 s v" "fixed E (t_account_dict d) (txs_numbered d a c) e e1 (ins - del)"
    proof (rule ProcessBatch_ta_spec [OF E cfg su less.prems(2) _ pb])
      show "distinct (map tx_Sequence (t_tx (d\<lparr>t_ta_status := [s]\<rparr>)))" using seqs by simp
    qed (simp add: txs_numbered_def)
    note sx = updateStatus_ta_spec [OF e1(1) us]
    have u1: "unique_key ta_key e1" using e1(2) by (simp add: fixed_def)
    have lt: "nat (a - 1) < nat c" using False by (auto simp: a_def BatchSize_ta_def)
    have rg: "int64_range (DeletedRecords s1)" "int64_range (InsertedRecords s1)" by (simp_all add: s1 wrap64_range)
    from less.hyps [OF lt sx u1 rg rl] obtain e' del' ins' where r: "loop_state E d e' s' w'"
      "fixed E (t_account_dict d) (txs_numbered d 1 (a - 1)) e1 e' (ins' - del')" "counted s1 del' ins' s'"
      "LastCleanedSequence s' = (if a - 1 \<le> 0 then LastCleanedSequence s1 else 0)" by blast
    have a: "1 \<le> a" "a \<le> c + 1" using False by (auto simp: a_def BatchSize_ta_def)
    have "fixed E (t_account_dict d) (txs_numbered d 1 c) e e' (ins - del + (ins' - del'))"
      using fixed_trans [OF e1(2) r(2) numbered_disjoint [OF seqs]] unfolding txs_numbered_split [OF a] .
    then have "fixed E (t_account_dict d) (txs_numbered d 1 c) e e' ((ins + ins') - (del + del'))" by (simp add: algebra_simps)
    moreover have "counted s (del + del') (ins + ins') s'" using r(3) by (simp add: counted_def s1 wrap64_add add.assoc)
    moreover have "LastCleanedSequence s' = 0" using r(4) a(1) by (auto simp: s1)
    ultimately show ?thesis using r(1) False by auto
  qed
qed

definition start_status_ta :: "db \<Rightarrow> CollectedTxAccountCleanupStatus" where
  "start_status_ta d = status_of \<lparr>LastCleanedSequence = -1, DeletedRecords = 0, InsertedRecords = 0\<rparr> (t_ta_status d)"

definition first_sequence :: "db \<Rightarrow> int" where
  "first_sequence d = (if LastCleanedSequence (start_status_ta d) < 0 then coalesce_max tx_Sequence (t_tx d)
     else LastCleanedSequence (start_status_ta d))"

theorem Run_ta_spec:
  assumes E: "env_ok E" and cfg: "valid_config cfg" and inv: "dict_inv (account_dict E) w"
    and one: "length (t_ta_status (w_db w)) \<le> 1"
    and seqs: "distinct (map tx_Sequence (t_tx (w_db w)))" and un: "unique_key ta_key (t_tx_accounts (w_db w))"
    and rg: "int64_range (DeletedRecords (start_status_ta (w_db w)))" "int64_range (InsertedRecords (start_status_ta (w_db w)))"
    and run: "Run_ta E cfg w = (Inr s', w')"
  shows "\<exists>e' del ins. w_db w' = (w_db w)\<lparr>t_tx_accounts := e', t_ta_status := [s']\<rparr> \<and>
    fixed E (t_account_dict (w_db w)) (txs_numbered (w_db w) 1 (first_sequence (w_db w))) (t_tx_accounts (w_db w)) e' (ins - del) \<and>
    counted (start_status_ta (w_db w)) del ins s'"
proof -
  let ?d = "w_db w" and ?e = "t_tx_accounts (w_db w)" and ?s0 = "start_status_ta (w_db w)"
  from run obtain s u where i: "Initialize_ta w = (Inr s, u)" and rest: "(if LastCleanedSequence s < 0 then
       bnd (wrap_err ''failed to get max sequence'' (query (\<lambda>d. coalesce_max tx_Sequence (t_tx d)))) (\<lambda>maxSeq.
       let status' = s\<lparr>LastCleanedSequence := maxSeq\<rparr> in
       bnd (wrap_err ''failed to update status'' (updateStatus_ta status')) (\<lambda>_.
       reverse_loop E cfg maxSeq status'))
     else reverse_loop E cfg (LastCleanedSequence s) s) u = (Inr s', w')"
    unfolding Run_ta_def bnd_eq_Inr wrap_err_eq_Inr by blast
  have "s = ?s0 \<and> w_db u = ?d\<lparr>t_ta_status := [s]\<rparr> \<and> dict_inv (account_dict E) u"
    using load_status_spec [OF one dict_inv_ff _ inv _ i [unfolded Initialize_ta_def]]
    by (simp add: dict_inv_def account_dict_def start_status_ta_def)
  then have s: "s = ?s0" and su: "loop_state E ?d ?e s u" by (simp_all add: edge_state_def)
  obtain s1 v where rl: "reverse_loop E cfg (first_sequence ?d) s1 v = (Inr s', w')" and sv: "loop_state E ?d ?e s1 v"
    and cnt: "DeletedRecords s1 = DeletedRecords ?s0" "InsertedRecords s1 = InsertedRecords ?s0"
  proof (cases "LastCleanedSequence s < 0")
    case True
    let ?q = "query (\<lambda>d. coalesce_max tx_Sequence (t_tx d))"
    from rest True obtain m x v where q: "?q u = (Inr m, x)" and us: "updateStatus_ta (s\<lparr>LastCleanedSequence := m\<rparr>) x = (Inr (), v)"
      and rl: "reverse_loop E cfg m (s\<lparr>LastCleanedSequence := m\<rparr>) v = (Inr s', w')"
      by (auto simp: Let_def bnd_eq_Inr)
    have "keeps (loop_state E ?d ?e s) ?q" by (intro keeps_intros edge_state_ff)
    from updateStatus_ta_spec [OF keepsD [OF this su q] us] have sv: "loop_state E ?d ?e (s\<lparr>LastCleanedSequence := m\<rparr>) v" .
    have "m = coalesce_max tx_Sequence (t_tx (w_db u))" using hoareD [OF hoare_query refl q] by simp
    also have "\<dots> = coalesce_max tx_Sequence (t_tx ?d)" using su by (simp add: edge_state_def)
    finally have "m = first_sequence ?d" using True by (simp add: first_sequence_def s)
    with that [OF rl [unfolded this] sv [unfolded this]] show ?thesis by (simp add: s)
  next
    case False
    with rest have "reverse_loop E cfg (first_sequence ?d) s u = (Inr s', w')" by (simp add: first_sequence_def s)
    from that [OF this su] show ?thesis by (simp add: s)
  qed
  have rg1: "int64_range (DeletedRecords s1)" "int64_range (InsertedRecords s1)" using rg cnt by simp_all
  from reverse_loop_spec [OF E cfg seqs sv un rg1 rl] obtain e' del ins where
    r: "loop_state E ?d e' s' w'" "fixed E (t_account_dict ?d) (txs_numbered ?d 1 (first_sequence ?d)) ?e e' (ins - del)"
    "counted s1 del ins s'" by blast
  have "w_db w' = ?d\<lparr>t_tx_accounts := e', t_ta_status := [s']\<rparr>" using r(1) by (simp add: edge_state_def)
  moreover have "counted ?s0 del ins s'" using r(3) cnt by (simp add: counted_def)
  ultimately show ?thesis using r(2) by blast
qed

end
