(* ===== verification/Cleanup_Progress.thy ===== *)
theory Cleanup_Progress
  imports Tx_Account_Cleanup
begin

text \<open>
  The reconciliation ends well when nothing fails around it: without faults of the database, and with stored
  transactions that decode, \<open>Run_ta\<close> returns. The rules below say that a computation returns from every state that
  satisfies \<open>P\<close>, and keeps \<open>P\<close>.
\<close>

named_theorems succeeds_intros \<open>rules for \<open>succeeds\<close>\<close>

definition succeeds :: "(world \<Rightarrow> bool) \<Rightarrow> (world, 'a) act \<Rightarrow> bool" where
  "succeeds P m \<longleftrightarrow> (\<forall>w. P w \<longrightarrow> (\<exists>x w'. m w = (Inr x, w') \<and> P w'))"

definition calm :: "CollectedTx list \<Rightarrow> world \<Rightarrow> bool" where
  "calm txs w \<longleftrightarrow> w_faults w = [] \<and> t_tx (w_db w) = txs"

lemma succeeds_ret [succeeds_intros]: "succeeds P (ret x)"
  by (auto simp: succeeds_def)

lemma succeeds_lift: "r = Inr x \<Longrightarrow> succeeds P (lift_res r)"
  by (auto simp: succeeds_def)

lemma succeeds_bnd:
  assumes "succeeds P m" "\<And>x w w'. m w = (Inr x, w') \<Longrightarrow> P w \<Longrightarrow> succeeds P (f x)"
  shows "succeeds P (bnd m f)"
  unfolding succeeds_def
proof (intro allI impI)
  fix w assume "P w"
  with assms(1) obtain x u where u: "m w = (Inr x, u)" "P u" by (auto simp: succeeds_def)
  with assms(2) \<open>P w\<close> obtain y v where "f x u = (Inr y, v)" "P v" by (force simp: succeeds_def)
  with u show "\<exists>y w'. bnd m f w = (Inr y, w') \<and> P w'" by auto
qed

lemma succeeds_wrap [succeeds_intros]: "succeeds P m \<Longrightarrow> succeeds P (wrap_err msg m)"
  by (fastforce simp: succeeds_def wrap_err_def)

lemma succeeds_foreach: "(\<And>x a. x \<in> set xs \<Longrightarrow> succeeds P (f x a)) \<Longrightarrow> succeeds P (foreach f xs a)"
  by (induction xs arbitrary: a) (auto intro!: succeeds_bnd succeeds_ret)

lemma succeeds_if [succeeds_intros]: "(b \<Longrightarrow> succeeds P m) \<Longrightarrow> (\<not> b \<Longrightarrow> succeeds P n) \<Longrightarrow> succeeds P (if b then m else n)"
  by simp

lemma calm_stmt: "(\<And>w. calm txs w \<Longrightarrow> \<exists>x w'. f w = (Inr x, w') \<and> calm txs w') \<Longrightarrow> succeeds (calm txs) (stmt f)"
  by (auto simp: succeeds_def calm_def)

lemma calm_query [succeeds_intros]: "succeeds (calm txs) (query q)"
  and calm_check [succeeds_intros]: "succeeds (calm txs) ctx_check"
  unfolding query_def ctx_check_def by (rule calm_stmt, simp)+

lemma calm_exec [succeeds_intros]: "(\<And>d. t_tx (f d) = t_tx d) \<Longrightarrow> succeeds (calm txs) (exec f)"
  unfolding exec_def by (rule calm_stmt) (simp add: calm_def)

lemma calm_edge_stmt [succeeds_intros]: "succeeds (calm txs) (edge_stmt f)"
  unfolding edge_stmt_def by (rule calm_stmt) (simp add: calm_def)

lemma calm_transaction [succeeds_intros]: "succeeds (calm txs) m \<Longrightarrow> succeeds (calm txs) (transaction m)"
proof -
  assume "succeeds (calm txs) m"
  then have "succeeds (calm txs) (bnd m (\<lambda>x. bnd ctx_check (\<lambda>_. ret x)))"
    by (intro succeeds_bnd succeeds_intros)
  then show ?thesis by (force simp: succeeds_def transaction_def)
qed

text \<open>Looking canonical accounts up.\<close>

lemma calm_cache: "succeeds (calm txs) (cache_Get (account_dict E) k)" "succeeds (calm txs) (cache_Set (account_dict E) k i)"
  by (auto simp: succeeds_def cache_Get_def cache_Set_def calm_def account_dict_def split: prod.splits)

lemma check_cache_uncached:
  assumes "check_cache D qs w = (Inr (m, uncached), w')"
  shows "set uncached \<subseteq> set qs"
proof -
  have "set (snd (m, uncached)) \<subseteq> set qs"
    by (rule foreach_Inr [OF assms [unfolded check_cache_def], of "\<lambda>ys r w. set (snd r) \<subseteq> set ys"])
       (auto simp: bnd_eq_Inr split: sum.splits option.splits prod.splits)
  then show ?thesis by simp
qed

lemma calm_accounts:
  assumes E: "env_ok E" and can: "\<forall>a \<in> set addrs. canonical E a"
  shows "succeeds (calm txs) (GetOrCreateAccountIds E addrs False)"
proof -
  have parse: "\<exists>b. AccAddressFromString (from_bech32 E) a = Inr b" if "canonical E a" for a
    using that env_okD(1) [OF E] by (auto simp: canonical_def bech32_ok_def AccAddressFromString_def)
  have "succeeds (calm txs) (check_cache (account_dict E) qs)" for qs
    unfolding check_cache_def
    by (rule succeeds_foreach) (auto split: sum.splits option.splits prod.splits intro!: succeeds_bnd calm_cache succeeds_intros)
  moreover have "succeeds (calm txs) (fetch_rows (account_dict E) un)" if "set un \<subseteq> set (dedup addrs)" for un
  proof -
    have "AccAddressFromString (from_bech32 E) a = Inr (projr (AccAddressFromString (from_bech32 E) a))" if "a \<in> set un" for a
    proof -
      have "canonical E a" using can that \<open>set un \<subseteq> set (dedup addrs)\<close> by auto
      with parse obtain b where "AccAddressFromString (from_bech32 E) a = Inr b" by blast
      then show ?thesis by simp
    qed
    then have "map_res (AccAddressFromString (from_bech32 E)) un = Inr (map (\<lambda>a. projr (AccAddressFromString (from_bech32 E) a)) un)"
      by (rule map_res_total)
    then have "\<exists>vs. map_res (AccAddressFromString (from_bech32 E)) un = Inr vs" by blast
    then obtain vs where "map_res (d_val (account_dict E)) un = Inr vs" by (auto simp: account_dict_def)
    then show ?thesis unfolding fetch_rows_def
      by (intro succeeds_bnd succeeds_intros succeeds_lift calm_stmt) auto
  qed
  moreover have "succeeds (calm txs) (update_cache (account_dict E) un m i)" for un m i
    unfolding update_cache_def
    by (rule succeeds_foreach) (auto split: sum.splits option.splits intro!: succeeds_bnd calm_cache succeeds_intros)
  ultimately show ?thesis
    unfolding GetOrCreateAccountIds_eq get_or_create_def
    by (auto intro!: succeeds_bnd succeeds_intros split: prod.splits dest: check_cache_uncached)
qed

text \<open>A stored transaction that decodes, without fungible-asset events.\<close>

definition decodes :: "env \<Rightarrow> CollectedTx \<Rightarrow> bool" where
  "decodes E tx \<longleftrightarrow> (\<exists>events g. unmarshal_tx_events E (tx_Data tx) = Inr events \<and> grep_events E events = Inr (g, []))"

lemma calm_reconcile_edges: "succeeds (calm txs) (reconcile_edges cfg tx ex ms st)"
  unfolding reconcile_edges_def insert_missing_def fix_signers_def delete_edges_def update_edges_def
  by (intro succeeds_bnd succeeds_intros succeeds_foreach)

lemma calm_reconcileTx:
  assumes E: "env_ok E" and d: "decodes E tx"
  shows "succeeds (calm txs) (reconcileTx E cfg tx acts)"
proof -
  from d obtain events g where ev: "unmarshal_tx_events E (tx_Data tx) = Inr events" and g: "grep_events E events = Inr (g, [])"
    by (auto simp: decodes_def)
  have grep: "GrepAddressesFromTx E events = ret g" by (rule ext) (simp add: GrepAddressesFromTx_def g bnd_def)
  have can: "\<forall>a \<in> set g. canonical E a" using grep_events_canonical [OF env_okD(1) [OF E] g] by simp
  show ?thesis
    unfolding reconcileTx_def ev Let_def
    by (rule succeeds_bnd, rule succeeds_wrap, rule succeeds_lift, rule refl)
       (auto simp: grep intro!: succeeds_bnd succeeds_intros calm_accounts [OF E can] calm_reconcile_edges)
qed

lemma calm_ProcessBatch:
  assumes E: "env_ok E" and d: "\<forall>tx \<in> set txs. decodes E tx"
  shows "succeeds (calm txs) (ProcessBatch_ta E cfg a b)"
  unfolding ProcessBatch_ta_def
proof (rule succeeds_bnd, intro succeeds_intros)
  fix ts w w'
  assume "wrap_err ''failed to query transactions'' (query (\<lambda>d. order_asc tx_Sequence
       (filter (\<lambda>t. a \<le> tx_Sequence t \<and> tx_Sequence t \<le> b) (t_tx d)))) w = (Inr ts, w')" "calm txs w"
  then have ts: "set ts \<subseteq> set txs" using hoareD [OF hoare_query refl] by (fastforce simp: calm_def)
  show "succeeds (calm txs) (if ts = [] then ret (b, 0, 0)
     else bnd (wrap_err ''failed to query tx_accounts'' (query (\<lambda>d.
         filter (\<lambda>r. a \<le> ta_Sequence r \<and> ta_Sequence r \<le> b) (t_tx_accounts d)))) (\<lambda>actualEntries.
       bnd (foreach (\<lambda>collectedTx (totalDeleted, totalInserted).
         bnd ctx_check (\<lambda>_.
         bnd (wrap_err ''failed to reconcile tx'' (reconcileTx E cfg collectedTx
             (filter (\<lambda>r. ta_Sequence r = tx_Sequence collectedTx) actualEntries))) (\<lambda>(deleted, inserted).
         ret (totalDeleted + deleted, totalInserted + inserted)))) ts (0, 0)) (\<lambda>(totalDeleted, totalInserted).
       ret (b, totalDeleted, totalInserted))))"
    using ts d by (auto intro!: succeeds_bnd succeeds_intros succeeds_foreach calm_reconcileTx [OF E] split: prod.splits)
qed

lemma calm_updateStatus: "succeeds (calm txs) (updateStatus_ta s)"
  unfolding updateStatus_ta_def by (rule calm_exec) simp

lemma calm_reverse_loop:
  assumes E: "env_ok E" and d: "\<forall>tx \<in> set txs. decodes E tx"
  shows "succeeds (calm txs) (reverse_loop E cfg c s)"
proof (induction "nat c" arbitrary: c s rule: less_induct)
  case less
  show ?case
  proof (cases "c \<le> 0")
    case True
    then show ?thesis unfolding reverse_loop.simps [of E cfg c s] by (auto intro!: succeeds_bnd succeeds_intros)
  next
    case False
    then have "nat (max (c - BatchSize_ta + 1) 1 - 1) < nat c" by (auto simp: BatchSize_ta_def)
    note ih = less.hyps [OF this]
    show ?thesis unfolding reverse_loop.simps [of E cfg c s] Let_def
      by (auto intro!: succeeds_bnd succeeds_intros calm_ProcessBatch [OF E d] calm_updateStatus ih split: prod.splits)
  qed
qed

lemma calm_Initialize: "succeeds (calm txs) Initialize_ta"
  unfolding succeeds_def Initialize_ta_def load_status_def first_row_def
  by (auto simp: calm_def exec_def errors_is_def bnd_def wrap_err_def split: list.splits)

theorem Run_ta_returns:
  assumes "env_ok E" "\<forall>tx \<in> set (t_tx (w_db w)). decodes E tx" "w_faults w = []"
  shows "\<exists>s' w'. Run_ta E cfg w = (Inr s', w')"
proof -
  have "succeeds (calm (t_tx (w_db w))) (Run_ta E cfg)"
    unfolding Run_ta_def Let_def
    by (auto intro!: succeeds_bnd succeeds_intros calm_updateStatus calm_Initialize calm_reverse_loop [OF assms(1,2)])
  moreover have "calm (t_tx (w_db w)) w" using assms(3) by (simp add: calm_def)
  ultimately show ?thesis unfolding succeeds_def by blast
qed

end
