(* ===== verification/Ext_Properties.thy ===== *)
theory Ext_Properties
  imports Demo Itx_Extension Evm_Ret Cleanup_Progress
begin

text \<open>
  Properties of the extensions: internal transactions, and the two cleanups of account edges.
\<close>

section \<open>Internal transactions\<close>

text \<open>C9.
  A block of call traces that is collected without an error leaves either the database as it was (a serialization failure
  of the transaction, which \<open>CollectInternalTxs\<close> hides) or, for every trace without an error, one row per call of its tree,
  in pre-order, numbered consecutively, with exactly the edges of its addresses. A call points to the number of
  the call that made it.
\<close>

theorem internal_tx_rows:
  assumes "env_ok E" "valid_config cfg" "itx_inv E (w_db w) w"
    and "distinct (map (\<lambda>t. HexToBytes (tt_TxHash t)) (itr_CallTrace itr))"
    and "CollectInternalTxs E cfg itr w = (Inr (), w')"
  shows "(w_db w' = w_db w \<or> itx_stored E itr (w_db w) w') \<and>
    (\<forall>t k. 0 < k \<and> k < length (nodes (top_call t)) \<longrightarrow> child_of 0 (nodes (top_call t)) (parents 0 (- 1) (top_call t)) k)"
  using CollectInternalTxs_spec [OF assms] parents_sound(1) by blast

definition demo_trace :: TransactionTrace where
  "demo_trace = \<lparr>tt_TxHash = ''0xaa'', tt_Error = [], tt_Type = ''CALL'', tt_From = ''0x1'', tt_To = ''0x2'', tt_Value = ''0x0'',
     tt_Gas = ''0x5'', tt_GasUsed = ''0x5'', tt_Input = ''0x'',
     tt_Calls = [InternalTransaction ''CALL'' ''0x2'' ''0x3'' ''0x0'' ''0x1'' ''0x1'' ''0x'' ''0x'' []]\<rparr>"

definition demo_itr :: InternalTxResult where
  "demo_itr = \<lparr>itr_Height = 1, itr_CallTrace = [demo_trace]\<rparr>"

lemma demo_itx_inv: "itx_inv demo_env empty_db (world_of empty_db)"
proof -
  have "dict_inv (evm_tx_hash_dict demo_env) (world_of empty_db)"
    by (simp add: dict_inv_def evm_tx_hash_dict_def world_of_def empty_db_def)
  with demo_dicts(1) show ?thesis by (simp add: itx_inv_def coll_inv_def world_of_def)
qed

theorem internal_tx_rows_witness:
  "\<exists>w'. CollectInternalTxs demo_env demo_cfg demo_itr (world_of empty_db) = (Inr (), w') \<and>
     itx_stored demo_env demo_itr empty_db w' \<and> length (t_evm_internal_tx (w_db w')) = 2"
proof -
  let ?run = "CollectInternalTxs demo_env demo_cfg demo_itr (world_of empty_db)"
  have ev: "(case ?run of (r, w) \<Rightarrow> \<not> isl r \<and> length (t_evm_internal_tx (w_db w)) = 2)" by code_simp
  then obtain w' where run: "?run = (Inr (), w')"
    using runs_Inr [of "CollectInternalTxs demo_env demo_cfg demo_itr"] by (auto simp: split_beta)
  have len: "length (t_evm_internal_tx (w_db (snd ?run))) = 2" using ev by (simp add: split_beta)
  have d: "distinct (map (\<lambda>t. HexToBytes (tt_TxHash t)) (itr_CallTrace demo_itr))" by (simp add: demo_itr_def)
  have inv: "itx_inv demo_env (w_db (world_of empty_db)) (world_of empty_db)" using demo_itx_inv by (simp add: world_of_def)
  from internal_tx_rows [OF demo_env_ok demo_valid inv d run] run len show ?thesis
    by (auto simp: world_of_def empty_db_def)
qed

text \<open>
  The search for addresses in the input of a call never finds one: it looks for a prefix \<open>0x\<close> inside the hex digits. Only
  the two parties of the call count.
\<close>

theorem input_never_searched:
  assumes "list_all hex_char (drop 2 (it_Input call))"
  shows "call_addresses call = filter (\<lambda>a. a \<noteq> []) [it_From call, it_To call]"
  using input_args_hex [OF assms] by (simp add: call_addresses_def)

theorem input_never_searched_witness:
  "call_addresses (InternalTransaction [] ''0x1'' ''0x2'' [] [] [] (''0x'' @ replicate 72 (CHR ''0'')) [] []) = [''0x1'', ''0x2'']"
  using input_never_searched [of "InternalTransaction [] ''0x1'' ''0x2'' [] [] [] (''0x'' @ replicate 72 (CHR ''0'')) [] []"]
  by (simp add: list_all_iff hex_char_def hex_val_def)

definition faulty_world :: world where
  "faulty_world = (world_of empty_db)\<lparr>w_faults := replicate 6 None @ [Some (ConnFailed ''reset'')]\<rparr>"

abbreviation account1 :: string where
  "account1 \<equiv> to_bech32 demo_env (replicate 19 0 @ [1])"

abbreviation account2 :: string where
  "account2 \<equiv> to_bech32 demo_env (replicate 19 0 @ [2])"

lemma faulty_run: "(case CollectInternalTxs demo_env demo_cfg demo_itr faulty_world of (r, w) \<Rightarrow> (r, w_db w, accountCache w)) =
    (Inl (Err ''reset''), empty_db, [(account2, 2), (account1, 1)])"
  by code_simp

lemma cached_id:
  assumes "accountCache w = [(account2, 2), (account1, 1)]" "w_db w = empty_db"
  shows "\<exists>w'. GetOrCreateAccountIds demo_env [account1] True w = (Inr [account1 \<mapsto> 1], w') \<and> t_account_dict (w_db w') = []"
proof -
  have "normalizeAccountToBech32 demo_env account1 = Inr account1" "account1 \<noteq> account2" by code_simp+
  with assms show ?thesis
    by (simp add: GetOrCreateAccountIds_eq get_or_create_def check_cache_def bnd_def cache_Get_def lru_Get_def dedup_def
        Let_def account_dict_def empty_db_def)
qed

text \<open>C38.
  When the transaction of a block of traces is rolled back, the account cache keeps the ids it had handed out: it is no longer
  consistent with the table, and the next call returns the id of an account that has no row.
\<close>

theorem rollback_leaves_ids:
  "dict_inv (account_dict demo_env) faulty_world \<and>
   (let (r, w) = CollectInternalTxs demo_env demo_cfg demo_itr faulty_world;
        a = to_bech32 demo_env (replicate 19 0 @ [1])
    in isl r \<and> t_account_dict (w_db w) = [] \<and> \<not> dict_inv (account_dict demo_env) w \<and>
       (case fst (GetOrCreateAccountIds demo_env [a] True w) of Inr m \<Rightarrow> m a \<noteq> None | Inl e \<Rightarrow> False) \<and>
       t_account_dict (w_db (snd (GetOrCreateAccountIds demo_env [a] True w))) = [])"
proof -
  obtain r w where run: "CollectInternalTxs demo_env demo_cfg demo_itr faulty_world = (r, w)" by fastforce
  with faulty_run have w: "isl r" "w_db w = empty_db" "accountCache w = [(account2, 2), (account1, 1)]" by auto
  from cached_id [OF w(3,2)] obtain v where v: "GetOrCreateAccountIds demo_env [account1] True w = (Inr [account1 \<mapsto> 1], v)"
    "t_account_dict (w_db v) = []" by blast
  have "\<not> dict_inv (account_dict demo_env) w" using w(2,3) by (auto simp: dict_inv_def account_dict_def empty_db_def)
  moreover have "dict_inv (account_dict demo_env) faulty_world"
    by (simp add: faulty_world_def dict_inv_def account_dict_def world_of_def empty_db_def)
  ultimately show ?thesis using w v unfolding run Let_def by (simp add: empty_db_def)
qed


section \<open>The producer and the consumer\<close>

lemma sorted_upper: "sorted_wrt (<) (map f xs) \<Longrightarrow> x \<in> set xs \<Longrightarrow> f x \<le> last (map f xs)" for f :: "'a \<Rightarrow> int"
  by (induction xs) (auto simp: less_imp_le last_map)

text \<open>C13.
  Whatever the interleaving of producer and consumer, and whatever the indexer stores meanwhile: the heights pushed ascend,
  every stored block with transactions up to the last height produced has been pushed or is about to be, the queue
  stays within its capacity, and items leave it in the order they came.
\<close>

theorem produced_heights:
  assumes "ext_reach E cfg grow (init_ext n w) s" "appends cfg (last_itx_height (w_db w)) grow"
    and "unique_key block_key (t_block (w_db w))"
  shows "ascending (last_itx_height (w_db w)) s \<and> complete cfg (last_itx_height (w_db w)) s \<and> queue_ok s"
  by (rule ext_reach_inv [OF assms])

definition ext_world :: world where
  "ext_world = (world_of (empty_db\<lparr>t_block := [\<lparr>blk_ChainId = ''c'', blk_Height = 1, blk_Hash = [], blk_Timestamp = 0, blk_BlockTime = 0,
     blk_Proposer = [], blk_GasUsed = 0, blk_GasWanted = 0, blk_TxCount = 1, blk_TotalFee = []\<rparr>]\<rparr>))
     \<lparr>w_faults := [None, None, Some (ConnFailed ''reset'')]\<rparr>"

definition demo_item :: WorkItem where
  "demo_item = \<lparr>wi_Height = 1, wi_CallTrace = [demo_trace]\<rparr>"

definition ext_end :: itx_ext where
  "ext_end = (init_ext 2 ext_world)\<lparr>x_world := ext_world\<lparr>w_faults := []\<rparr>, lastProducedHeight := 1, pushed := [demo_item],
     popped := [demo_item], failed := [demo_item]\<rparr>"

lemma demo_appends: "appends cfg h (\<lambda>_ _. False)"
  by (simp add: appends_def)

lemma ext_unique: "unique_key block_key (t_block (w_db ext_world))"
  by (simp add: ext_world_def world_of_def unique_key_def)

lemma ext_run: "ext_reach demo_env demo_cfg (\<lambda>_ _. False) (init_ext 2 ext_world) ext_end"
proof -
  let ?g = "\<lambda>_ _ :: world. False" and ?s0 = "init_ext 2 ext_world"
  note more = ext_reach.more [of demo_env demo_cfg ?g ?s0]
  define w1 where "w1 = ext_world\<lparr>w_faults := [Some (ConnFailed ''reset'')]\<rparr>"
  define s1 where "s1 = ?s0\<lparr>x_world := w1, batch_rest := [demo_item], batch_last := Some 1\<rparr>"
  define q where "q = \<lparr>wq_ch = [demo_item], wq_maxSize = 2\<rparr>"
  define s2 where "s2 = s1\<lparr>workQueue := q, batch_rest := [], pushed := [demo_item]\<rparr>"
  define s3 where "s3 = s2\<lparr>batch_last := None, lastProducedHeight := 1\<rparr>"
  define s4 where "s4 = s3\<lparr>workQueue := NewWorkQueue 2, consuming := Some demo_item, popped := [demo_item]\<rparr>"
  note e = s1_def s2_def s3_def s4_def init_ext_def NewWorkQueue_def q_def
  have heights: "getBatchHeights demo_cfg 0 (NewWorkQueue 2) ext_world = (Inr [1], w1)"
    by (simp add: getBatchHeights_def ctx_check_def query_def stmt_def bnd_def batch_heights_of_def ext_world_def world_of_def
        NewWorkQueue_def limit_def demo_cfg_def order_asc_def w1_def)
  have last: "last_itx_height (w_db ext_world) = 0" by (simp add: last_itx_height_def ext_world_def world_of_def empty_db_def)
  have 1: "ext_step demo_env demo_cfg ?g ?s0 s1"
    using ext_step.produce [of ?s0 demo_cfg "[1]" w1 "[demo_item]" demo_env ?g] heights
    by (simp add: e last IsNotFull_def demo_item_def)
  have 2: "ext_step demo_env demo_cfg ?g s1 s2"
    using ext_step.push [of s1 demo_item "[]" q demo_env demo_cfg ?g] by (simp add: e Push_def IsNotFull_def)
  have 3: "ext_step demo_env demo_cfg ?g s2 s3"
    using ext_step.produced [of s2 1 demo_env demo_cfg ?g] by (simp add: e)
  have 4: "ext_step demo_env demo_cfg ?g s3 s4"
    using ext_step.pop [of s3 demo_item "NewWorkQueue 2" demo_env demo_cfg ?g] by (simp add: e Pop_def)
  have fails: "CollectInternalTxs demo_env demo_cfg \<lparr>itr_Height = wi_Height demo_item, itr_CallTrace = wi_CallTrace demo_item\<rparr> w1 =
      (Inl (Err ''reset''), ext_world\<lparr>w_faults := []\<rparr>)"
    by (simp add: CollectInternalTxs_def transaction_def itx_body_def GetSeqInfo_def first_row_def stmt_def bnd_def w1_def
        errors_is_def)
  have 5: "ext_step demo_env demo_cfg ?g s4 ext_end"
    using ext_step.consume_fails [of s4 demo_item demo_env demo_cfg "Err ''reset''" "ext_world\<lparr>w_faults := []\<rparr>" ?g] fails
    by (simp add: e ext_end_def)
  show ?thesis by (rule more [OF more [OF more [OF more [OF more [OF ext_reach.start 1] 2] 3] 4] 5])
qed

theorem produced_heights_witness: "ascending 0 ext_end \<and> complete demo_cfg 0 ext_end \<and> pushed ext_end = [demo_item]"
proof -
  have last: "last_itx_height (w_db ext_world) = 0" by (simp add: last_itx_height_def ext_world_def world_of_def empty_db_def)
  from produced_heights [OF ext_run demo_appends ext_unique] show ?thesis by (simp add: last ext_end_def)
qed

text \<open>
  A block whose internal transactions could not be stored, for instance because the connection was reset, is never tried
  again: its height is in no queue and in no batch of any later state.
\<close>

theorem failed_never_retried:
  assumes "ext_reach E cfg grow (init_ext n w) s" "appends cfg (last_itx_height (w_db w)) grow"
    and "unique_key block_key (t_block (w_db w))" "item \<in> set (failed s)"
  shows "wi_Height item \<notin> wi_Height ` set (wq_ch (workQueue s) @ batch_rest s) \<and> wi_Height item \<le> last_of s"
proof -
  have inv: "ascending (last_itx_height (w_db w)) s" "queue_ok s"
    using ext_reach_inv [OF assms(1-3)] by blast+
  have f: "failed_ok s" by (rule failed_reach [OF assms(1)])
  have "item \<in> set (pushed s)" using f inv(2) assms(4) by (auto simp: failed_ok_def queue_ok_def)
  then have m: "item \<in> set (pushed s @ batch_rest s)" by simp
  have "sorted_wrt (<) (map wi_Height (pushed s @ batch_rest s))" using inv(1) by (simp add: ascending_def)
  note sorted_upper [OF this m]
  also have "last (map wi_Height (pushed s @ batch_rest s)) = last (last_itx_height (w_db w) # map wi_Height (pushed s @ batch_rest s))"
    using m by (simp only: last.simps map_is_Nil_conv) auto
  also have "\<dots> \<le> last_of s" using inv(1) unfolding ascending_def by blast
  finally have "wi_Height item \<le> last_of s" .
  with failed_gone [OF inv f assms(4)] show ?thesis by blast
qed

theorem failed_never_retried_witness: "failed ext_end = [demo_item] \<and> wi_Height demo_item \<notin> wi_Height ` set (wq_ch (workQueue ext_end))"
proof -
  have "demo_item \<in> set (failed ext_end)" by (simp add: ext_end_def)
  from failed_never_retried [OF ext_run demo_appends ext_unique this] show ?thesis by (simp add: ext_end_def init_ext_def NewWorkQueue_def)
qed


section \<open>The cleanups\<close>

text \<open>
  A stored transaction whose events name the account 1 outside, and the account 2 inside the return data; both have an edge.
\<close>

definition demo_addr :: "byte \<Rightarrow> byte list" where
  "demo_addr b = replicate 19 0 @ [b]"

definition clean_env :: env where
  "clean_env = demo_env\<lparr>unmarshal_tx_events := (\<lambda>_. Inr [\<lparr>etype = ''call'',
     eattrs = [\<lparr>akey = ''contract'', aval = ''0x1''\<rparr>, \<lparr>akey = ''ret'', aval = ''0x2''\<rparr>]\<rparr>])\<rparr>"

definition clean_tx1 :: CollectedTx where
  "clean_tx1 = \<lparr>tx_Hash = [1], tx_Height = 1, tx_Sequence = 1, tx_SignerId = 1, tx_Data = ''{}''\<rparr>"

definition clean_db :: db where
  "clean_db = empty_db\<lparr>t_tx := [clean_tx1], t_account_dict := [(1, demo_addr 1), (2, demo_addr 2)],
     t_tx_accounts := [\<lparr>ta_AccountId = 1, ta_Sequence = 1, ta_Signer = False\<rparr>, \<lparr>ta_AccountId = 2, ta_Sequence = 1, ta_Signer = False\<rparr>]\<rparr>"

definition clean_world :: world where
  "clean_world = (world_of clean_db)\<lparr>serial_account := 2\<rparr>"

lemma clean_env_ok: "env_ok clean_env"
  using demo_env_ok by (simp add: clean_env_def env_ok_def bech32_ok_def backfill_ok_def)

lemma clean_inv: "dict_inv (account_dict clean_env) clean_world"
  by (simp add: dict_inv_def account_dict_def clean_world_def world_of_def clean_db_def demo_addr_def)

lemma clean_unique: "unique_key ta_key (t_tx_accounts (w_db clean_world))" "distinct (map tx_Sequence (t_tx (w_db clean_world)))"
  by (simp_all add: clean_world_def world_of_def clean_db_def unique_key_def ta_key_def)



text \<open>
  The return-address cleanup never removes an edge the present collector would write for the events of the transaction:
  with events as the chain writes them, no account the collector's search finds is among those whose edges are removed.
\<close>

theorem ret_cleanup_keeps_found:
  assumes "env_ok E" "distinct (map fst t)" "\<forall>r \<in> set t. snd r \<noteq> []"
    and "unmarshal_tx_events E (tx_Data tx) = Inr events" "plain_events E events"
    and "grep_events E events = Inr r" "a \<in> set (fst r)" "account_id E t a i"
  shows "i \<notin> ret_ids E t tx"
  by (rule no_found_edge_deleted [OF assms])

lemma clean_events: "unmarshal_tx_events clean_env (tx_Data clean_tx1) = Inr [\<lparr>etype = ''call'',
     eattrs = [\<lparr>akey = ''contract'', aval = ''0x1''\<rparr>, \<lparr>akey = ''ret'', aval = ''0x2''\<rparr>]\<rparr>]"
  by (simp add: clean_env_def)

lemma clean_grep: "grep_events clean_env [\<lparr>etype = ''call'', eattrs = [\<lparr>akey = ''contract'', aval = ''0x1''\<rparr>, \<lparr>akey = ''ret'', aval = ''0x2''\<rparr>]\<rparr>] =
    Inr ([to_bech32 clean_env (demo_addr 1)], [])"
  by code_simp

theorem ret_cleanup_keeps_found_witness: "1 \<notin> ret_ids clean_env (t_account_dict clean_db) clean_tx1"
proof (rule ret_cleanup_keeps_found [OF clean_env_ok _ _ clean_events _ clean_grep])
  show "plain_events clean_env [\<lparr>etype = ''call'',
     eattrs = [\<lparr>akey = ''contract'', aval = ''0x1''\<rparr>, \<lparr>akey = ''ret'', aval = ''0x2''\<rparr>]\<rparr>]"
    by (simp add: plain_events_def plain_attribute_def clean_env_def demo_env_def findAllBech32Address_def has_prefix_def)
  show "account_id clean_env (t_account_dict clean_db) (to_bech32 clean_env (demo_addr 1)) 1"
  proof -
    have "AccAddressFromString (from_bech32 clean_env) (to_bech32 clean_env (demo_addr 1)) = Inr (demo_addr 1)" by code_simp
    then show ?thesis by (auto simp: account_id_def clean_db_def)
  qed
qed (simp_all add: clean_db_def demo_addr_def)

text \<open>C12.
  After the reconciliation has returned, every stored transaction numbered from 1 to the first sequence has exactly the
  edges of the accounts its events name and of its signer, with the signer flag on the signer's only; the edges of other
  transactions, and all other tables but its status row, are what they were; the counters hold what was deleted and inserted.
\<close>

theorem reconciliation_exact:
  assumes "env_ok E" "valid_config cfg" "dict_inv (account_dict E) w" "length (t_ta_status (w_db w)) \<le> 1"
    and "distinct (map tx_Sequence (t_tx (w_db w)))" "unique_key ta_key (t_tx_accounts (w_db w))"
    and "int64_range (DeletedRecords (start_status_ta (w_db w)))" "int64_range (InsertedRecords (start_status_ta (w_db w)))"
    and "Run_ta E cfg w = (Inr s', w')"
  shows "\<exists>e' del ins. w_db w' = (w_db w)\<lparr>t_tx_accounts := e', t_ta_status := [s']\<rparr> \<and>
    fixed E (t_account_dict (w_db w)) (txs_numbered (w_db w) 1 (first_sequence (w_db w))) (t_tx_accounts (w_db w)) e' (ins - del) \<and>
    counted (start_status_ta (w_db w)) del ins s'"
  by (rule Run_ta_spec [OF assms])

lemma clean_decodes: "\<forall>tx \<in> set (t_tx (w_db clean_world)). decodes clean_env tx"
proof -
  have "decodes clean_env clean_tx1" using clean_events clean_grep unfolding decodes_def by blast
  then show ?thesis by (simp add: clean_world_def world_of_def clean_db_def)
qed

theorem reconciliation_exact_witness:
  "\<exists>s' w'. Run_ta clean_env demo_cfg clean_world = (Inr s', w') \<and>
     set (rows_of (t_tx_accounts (w_db w')) 1) = {\<lparr>ta_AccountId = 1, ta_Sequence = 1, ta_Signer = True\<rparr>}"
proof -
  have "w_faults clean_world = []" by (simp add: clean_world_def world_of_def)
  from Run_ta_returns [OF clean_env_ok clean_decodes this] obtain s' w' where run: "Run_ta clean_env demo_cfg clean_world = (Inr s', w')" by blast
  note d = clean_world_def world_of_def clean_db_def empty_db_def start_status_ta_def status_of_def int64_range_def
  have h: "length (t_ta_status (w_db clean_world)) \<le> 1" "int64_range (DeletedRecords (start_status_ta (w_db clean_world)))"
    "int64_range (InsertedRecords (start_status_ta (w_db clean_world)))" by (simp_all add: d)
  from reconciliation_exact [OF clean_env_ok demo_valid clean_inv h(1) clean_unique(2,1) h(2,3) run] obtain e' del ins where
    w': "w_db w' = (w_db clean_world)\<lparr>t_tx_accounts := e', t_ta_status := [s']\<rparr>"
    and fx: "fixed clean_env (t_account_dict (w_db clean_world)) (txs_numbered (w_db clean_world) 1 (first_sequence (w_db clean_world)))
      (t_tx_accounts (w_db clean_world)) e' (ins - del)" by blast
  have "clean_tx1 \<in> txs_numbered (w_db clean_world) 1 (first_sequence (w_db clean_world))"
    by (simp add: txs_numbered_def first_sequence_def d clean_tx1_def coalesce_max_def)
  with fx have "exact_edges clean_env (t_account_dict (w_db clean_world)) e' clean_tx1" unfolding fixed_def by blast
  then obtain addrs where "found clean_env [\<lparr>etype = ''call'',
     eattrs = [\<lparr>akey = ''contract'', aval = ''0x1''\<rparr>, \<lparr>akey = ''ret'', aval = ''0x2''\<rparr>]\<rparr>] addrs"
    and r: "set (rows_of e' 1) = edges_for (expected_ids clean_env (t_account_dict (w_db clean_world)) addrs 1) 1 1"
    unfolding exact_edges_def clean_events by (auto simp: clean_tx1_def)
  then have addrs: "addrs = [to_bech32 clean_env (demo_addr 1)]" by (simp add: found_def clean_grep)
  have p: "AccAddressFromString (from_bech32 clean_env) (to_bech32 clean_env (demo_addr 1)) = Inr (demo_addr 1)" by code_simp
  have ne: "demo_addr 1 \<noteq> demo_addr 2" by (simp add: demo_addr_def)
  have "expected_ids clean_env (t_account_dict (w_db clean_world)) addrs 1 = {1}"
    unfolding addrs using ne by (auto simp: expected_ids_def account_id_def p d)
  with r run w' show ?thesis by (simp add: edges_for_def)
qed

text \<open>C33.
  Without faults of the database, and when the stored transactions decode and name no fungible-asset store, the
  reconciliation returns: the loop ends, and no step of it fails.
\<close>

theorem reconciliation_returns:
  assumes "env_ok E" "\<forall>tx \<in> set (t_tx (w_db w)). decodes E tx" "w_faults w = []"
  shows "\<exists>s' w'. Run_ta E cfg w = (Inr s', w')"
  by (rule Run_ta_returns [OF assms])

theorem reconciliation_returns_witness: "\<exists>s' w'. Run_ta clean_env demo_cfg clean_world = (Inr s', w')"
  by (rule reconciliation_returns [OF clean_env_ok clean_decodes]) (simp add: clean_world_def world_of_def)

end
