(* ===== verification/Nft_Common.thy ===== *)
theory Nft_Common
  imports Tx_Spec Decimal
begin

text \<open>
  What the NFT submodules share. The Wasm and the EVM submodule keep the same maps while they
  range over the events of a block, and write them to the database with the same statements;
  the code has both copies (\<open>src/indexer/collector/wasm-nft/collect.go\<close> and
  \<open>evm-nft/collect.go\<close>), the theory has one. Every submodule ends with
  \<open>src/indexer/collector/nft-pair/collect.go\<close>.
\<close>

section \<open>The environment\<close>

text \<open>
  \<open>key_order\<close> is the order a \<open>range\<close> over a map of NFT keys takes; the class id functions are
  those of the NFT-transfer module; \<open>log_Data\<close> is the data field of the log that \<open>unmarshal_log\<close>
  decodes; \<open>err_text\<close> prints an error with its stack. The \<open>query\<close> fields are the answers of
  the node at a height.
\<close>

record nft_env =
  key_order :: "NftKey list \<Rightarrow> NftKey list"
  evict_blacklist :: "(string, unit) lru \<Rightarrow> (string, unit) lru"
  GetPrefixedClassId :: "string \<Rightarrow> string \<Rightarrow> string \<Rightarrow> string"
  GetNftTransferClassId :: "string \<Rightarrow> string \<Rightarrow> string \<Rightarrow> string"
  log_Data :: "string \<Rightarrow> string"
  err_text :: "err \<Rightarrow> string"
  query_move_resource :: "string \<Rightarrow> int \<Rightarrow> err + string"
  query_contract_info :: "string \<Rightarrow> int \<Rightarrow> err + string"
  query_wasm_contract :: "string \<Rightarrow> int \<Rightarrow> err + string"
  query_collection_name :: "string \<Rightarrow> int \<Rightarrow> err + string"
  query_token_uri :: "string \<Rightarrow> string \<Rightarrow> int \<Rightarrow> err + string"

definition nft_env_ok :: "nft_env \<Rightarrow> bool" where
  "nft_env_ok N \<longleftrightarrow> (\<forall>ks. distinct ks \<longrightarrow> mset (key_order N ks) = mset ks)"

lemma set_key_order: "nft_env_ok N \<Longrightarrow> distinct ks \<Longrightarrow> set (key_order N ks) = set ks"
  and distinct_key_order: "nft_env_ok N \<Longrightarrow> distinct ks \<Longrightarrow> distinct (key_order N ks)"
  by (metis nft_env_ok_def mset_eq_setD mset_eq_imp_distinct_iff)+

text \<open>The prepared data of a block are taken out of the submodule's cache once.\<close>

definition take_cached :: "(world \<Rightarrow> int \<rightharpoonup> 'c) \<Rightarrow> ((int \<rightharpoonup> 'c) \<Rightarrow> world \<Rightarrow> world) \<Rightarrow> int \<Rightarrow> (world, 'c) act" where
  "take_cached get put height = (\<lambda>w. let w' = put ((get w)(height := None)) w in
     case get w height of None \<Rightarrow> (Inl (Err ''data is not prepared''), w') | Some c \<Rightarrow> (Inr c, w'))"

text \<open>An absent key of a Go map reads as the zero value.\<close>

definition id_of :: "(string \<rightharpoonup> int) \<Rightarrow> string \<Rightarrow> int" where
  "id_of ids a = (case ids a of None \<Rightarrow> 0 | Some i \<Rightarrow> i)"

text \<open>The blacklist of collections that are no NFT contracts.\<close>

definition IsBlacklisted :: "string \<Rightarrow> (world, bool) act" where
  "IsBlacklisted addr = (\<lambda>w. let (r, c) = lru_Get (nftBlacklist w) addr in (Inr (r \<noteq> None), w\<lparr>nftBlacklist := c\<rparr>))"

definition AddToBlacklist :: "nft_env \<Rightarrow> string \<Rightarrow> (world, unit) act" where
  "AddToBlacklist N addr = modify (\<lambda>w. w\<lparr>nftBlacklist := lru_Set (evict_blacklist N) (nftBlacklist w) addr ()\<rparr>)"


section \<open>The maps of a block\<close>

text \<open>
  \<open>nftTxMap\<close> is nested by collection in the code; its two inner levels are a set of NFT keys.
  A Wasm mint carries the owner and the token URI, an EVM mint the owner.
\<close>

record 'v nft_maps =
  mintMap :: "(NftKey, 'v) gomap"
  transferMap :: "(NftKey, string) gomap"
  burnMap :: "NftKey list"
  updateCountMap :: "string list"
  nftTxMap :: "(string, NftKey list) gomap"

definition no_nfts :: "'v nft_maps" where
  "no_nfts = \<lparr>mintMap = [], transferMap = [], burnMap = [], updateCountMap = [], nftTxMap = []\<rparr>"

definition touch_nft :: "string \<Rightarrow> NftKey \<Rightarrow> 'v nft_maps \<Rightarrow> 'v nft_maps" where
  "touch_nft txHash key m = m\<lparr>nftTxMap := map_put txHash (key_put key (map_get (nftTxMap m) txHash [])) (nftTxMap m)\<rparr>"

definition mint_nft :: "NftKey \<Rightarrow> 'v \<Rightarrow> 'v nft_maps \<Rightarrow> 'v nft_maps" where
  "mint_nft key v m = m\<lparr>mintMap := map_put key v (mintMap m), burnMap := removeAll key (burnMap m),
     updateCountMap := key_put (fst key) (updateCountMap m)\<rparr>"

definition transfer_nft :: "NftKey \<Rightarrow> string \<Rightarrow> 'v nft_maps \<Rightarrow> 'v nft_maps" where
  "transfer_nft key to m = m\<lparr>transferMap := map_put key to (transferMap m)\<rparr>"

definition burn_nft :: "NftKey \<Rightarrow> 'v nft_maps \<Rightarrow> 'v nft_maps" where
  "burn_nft key m = m\<lparr>burnMap := key_put key (burnMap m), mintMap := map_delete key (mintMap m),
     transferMap := map_delete key (transferMap m), updateCountMap := key_put (fst key) (updateCountMap m)\<rparr>"


section \<open>The statements\<close>

definition nft_key :: "CollectedNft \<Rightarrow> byte list \<times> string" where
  "nft_key r = (nft_CollectionAddr r, nft_TokenId r)"

definition tn_key :: "CollectedTxNft \<Rightarrow> int \<times> int" where
  "tn_key r = (tn_NftId r, tn_Sequence r)"

definition ins_nc :: "CollectedNftCollection list \<Rightarrow> db \<Rightarrow> db" where
  "ins_nc rs d = d\<lparr>t_nft_collection := insert_rows nc_Addr rs (t_nft_collection d)\<rparr>"

definition ins_nft :: "CollectedNft list \<Rightarrow> db \<Rightarrow> db" where
  "ins_nft rs d = d\<lparr>t_nft := insert_rows nft_key rs (t_nft d)\<rparr>"

definition ins_tn :: "CollectedTxNft list \<Rightarrow> db \<Rightarrow> db" where
  "ins_tn rs d = d\<lparr>t_tx_nfts := insert_rows tn_key rs (t_tx_nfts d)\<rparr>"

text \<open>
  \<open>ON CONFLICT (collection_addr, token_id) DO UPDATE SET height, timestamp, owner_id\<close>. Postgres
  refuses a statement that would update the same row twice (code 21000).
\<close>

definition moved_to :: "CollectedNft \<Rightarrow> CollectedNft \<Rightarrow> CollectedNft" where
  "moved_to r old = old\<lparr>nft_Height := nft_Height r, nft_Timestamp := nft_Timestamp r, nft_OwnerId := nft_OwnerId r\<rparr>"

definition upsert_owner :: "CollectedNft \<Rightarrow> CollectedNft list \<Rightarrow> CollectedNft list" where
  "upsert_owner r t =
     (if nft_key r \<in> nft_key ` set t then map (\<lambda>x. if nft_key x = nft_key r then moved_to r x else x) t else t @ [r])"

definition upsert_chunk :: "CollectedNft list \<Rightarrow> (world, unit) act" where
  "upsert_chunk chunk = stmt (\<lambda>w.
     if distinct (map nft_key chunk) then (Inr (), w\<lparr>w_db := (w_db w)\<lparr>t_nft := fold upsert_owner chunk (t_nft (w_db w))\<rparr>\<rparr>)
     else (Inl (PgError ''21000''), w))"

definition upsert_transferred :: "config \<Rightarrow> CollectedNft list \<Rightarrow> (world, unit) act" where
  "upsert_transferred cfg rows = foreach (\<lambda>chunk _. upsert_chunk chunk) (chunks (nat (cfg_DBBatchSize cfg)) rows) ()"

definition group_tokens :: "NftKey list \<Rightarrow> (string, string list) gomap" where
  "group_tokens ks = fold (\<lambda>(c, t) m. map_put c (map_get m c [] @ [t]) m) ks []"

definition del_nfts :: "(CollectedNft \<Rightarrow> bool) \<Rightarrow> db \<Rightarrow> db" where
  "del_nfts P d = d\<lparr>t_nft := delete_where P (t_nft d)\<rparr>"

definition delete_burned :: "env \<Rightarrow> nft_env \<Rightarrow> (string \<Rightarrow> err + byte list) \<Rightarrow> NftKey list \<Rightarrow> (world, unit) act" where
  "delete_burned E N addr_of burned =
     (let groups = group_tokens (key_order N burned) in
      foreach (\<lambda>c _. bnd (lift_res (addr_of c)) (\<lambda>a.
          exec (del_nfts (\<lambda>r. nft_CollectionAddr r = a \<and> nft_TokenId r \<in> set (map_get groups c [])))))
        (map_order E (map_keys groups)) ())"

text \<open>
  \<open>SELECT collection_addr, COUNT(*) ... WHERE collection_addr IN ? GROUP BY collection_addr\<close>: a collection
  without tokens has no group.
\<close>

definition count_nfts :: "byte list list \<Rightarrow> db \<Rightarrow> (byte list \<times> int) list" where
  "count_nfts addrs d = map (\<lambda>a. (a, rows_affected (\<lambda>r. nft_CollectionAddr r = a) (t_nft d)))
     (filter (\<lambda>a. a \<in> set addrs) (dedup (map nft_CollectionAddr (t_nft d))))"

definition set_count :: "byte list \<times> int \<Rightarrow> db \<Rightarrow> db" where
  "set_count c d = d\<lparr>t_nft_collection := update_where (\<lambda>r. nc_Addr r = fst c) (\<lambda>r. r\<lparr>nc_NftCount := snd c\<rparr>) (t_nft_collection d)\<rparr>"

definition update_counts :: "env \<Rightarrow> string list \<Rightarrow> (world, unit) act" where
  "update_counts E collections =
     bnd (lift_res (map_res HexToBytes (map_order E collections))) (\<lambda>updateAddrs.
     bnd (query (count_nfts updateAddrs)) (\<lambda>nftCounts.
     foreach (\<lambda>c _. exec (set_count c)) nftCounts ()))"

text \<open>The edges from transactions to tokens; a hash that does not decode is logged and skipped.\<close>

definition tx_edges :: "env \<Rightarrow> nft_env \<Rightarrow> int \<Rightarrow> (string, NftKey list) gomap \<Rightarrow> string \<Rightarrow> CollectedTxNft list \<Rightarrow>
    (world, CollectedTxNft list) act" where
  "tx_edges E N height txs txHash edges =
     (if txHash = [] then ret edges
      else let keys = key_order N (map_get txs txHash []) in
        bnd (GetOrCreateNftIds E keys True) (\<lambda>nftIdMap.
        let nftIds = concat (map (\<lambda>k. case nftIdMap k of None \<Rightarrow> [] | Some i \<Rightarrow> [i]) keys) in
        case HexToBytes txHash of
          Inl e \<Rightarrow> ret edges
        | Inr h \<Rightarrow> bnd (first_row (\<lambda>d. filter (\<lambda>r. tx_Hash r = h \<and> tx_Height r = height) (t_tx d))) (\<lambda>row.
            ret (edges @ map (\<lambda>i. \<lparr>tn_NftId = i, tn_Sequence = tx_Sequence row\<rparr>) (dedup nftIds)))))"

definition tx_nft_edges :: "env \<Rightarrow> nft_env \<Rightarrow> config \<Rightarrow> int \<Rightarrow> (string, NftKey list) gomap \<Rightarrow> (world, unit) act" where
  "tx_nft_edges E N cfg height txs =
     bnd (foreach (tx_edges E N height txs) (map_order E (map_keys txs)) []) (\<lambda>txNftEdges.
     if txNftEdges = [] then ret () else CreateInBatches cfg ins_tn txNftEdges)"


section \<open>Pairs of collections: nft-pair\<close>

definition dec_PacketData :: "json \<Rightarrow> string \<times> string \<Rightarrow> err + string \<times> string" where
  "dec_PacketData = dec_struct (\<lambda>kvs a.
     rbind (dec_field ''classData'' dec_string kvs (fst a)) (\<lambda>classData.
     rbind (dec_field ''classId'' dec_string kvs (snd a)) (\<lambda>classId. Inr (classData, classId))))"

definition dec_NftClassData :: "json \<Rightarrow> string \<times> string \<Rightarrow> err + string \<times> string" where
  "dec_NftClassData = dec_struct (\<lambda>kvs a.
     rbind (dec_field ''description'' dec_string kvs (fst a)) (\<lambda>description.
     rbind (dec_field ''name'' dec_string kvs (snd a)) (\<lambda>name. Inr (description, name))))"

definition pair_of :: "nft_env \<Rightarrow> config \<Rightarrow> ParsedEvent \<Rightarrow> (string, string) gomap \<Rightarrow> err + (string, string) gomap" where
  "pair_of N cfg p pairs =
     (let attr = pe_AttrMap p in
      if attr ''packet_src_port'' \<noteq> Some ''nft-transfer'' then Inr pairs
      else case (attr ''packet_dst_port'', attr ''packet_dst_channel'', attr ''packet_data'') of
        (Some dstPort, Some dstChannel, Some packetDataRaw) \<Rightarrow>
          rbind (Unmarshal dec_PacketData packetDataRaw ([], [])) (\<lambda>(classData, classId).
          rbind (DecodeString classData) (\<lambda>classDataRaw.
          rbind (Unmarshal dec_NftClassData (string_of_bytes classDataRaw) ([], [])) (\<lambda>(description, name).
          let l2 = (if cfg_VmType cfg = WasmVM then GetPrefixedClassId N dstPort dstChannel classId
                    else GetNftTransferClassId N dstPort dstChannel classId)
          in Inr (map_put l2 name pairs))))
      | _ \<Rightarrow> Inr pairs)"

definition set_origin :: "string \<Rightarrow> string \<Rightarrow> db \<Rightarrow> db" where
  "set_origin l2 l1 d = d\<lparr>t_nft_collection := update_where (\<lambda>r. nc_Name r = l2) (\<lambda>r. r\<lparr>nc_OriginName := l1\<rparr>) (t_nft_collection d)\<rparr>"

definition Collect_pairs :: "env \<Rightarrow> nft_env \<Rightarrow> config \<Rightarrow> ScrapedBlock \<Rightarrow> (world, unit) act" where
  "Collect_pairs E N cfg block =
     bnd (lift_res (ExtractEvents E block ''recv_packet'')) (\<lambda>events.
     bnd (lift_res (rfold (pair_of N cfg) events [])) (\<lambda>pairs.
     foreach (\<lambda>l2 _. case map_of pairs l2 of None \<Rightarrow> ret () | Some l1 \<Rightarrow> exec (set_origin l2 l1))
       (map_order E (map_keys pairs)) ()))"

end
