(* ===== verification/Nft_Ledger.thy ===== *)
theory Nft_Ledger
  imports Nft_Common
begin

text \<open>
  The abstract specification of the Wasm and the EVM submodule: a ledger of tokens, each with an
  owner and a URI, that the mints, transfers and burns of a block change one after the other. The
  code does not apply them one after the other; it collects them in maps first. This theory
  shows when the two agree.
\<close>

section \<open>Operations\<close>

datatype 'v nft_op = Mint NftKey 'v | Transfer NftKey string | Burn NftKey

fun op_nft :: "'v nft_op \<Rightarrow> NftKey" where
  "op_nft (Mint k v) = k"
| "op_nft (Transfer k o') = k"
| "op_nft (Burn k) = k"

fun track :: "'v nft_op \<Rightarrow> 'v nft_maps \<Rightarrow> 'v nft_maps" where
  "track (Mint k v) m = mint_nft k v m"
| "track (Transfer k o') m = transfer_nft k o' m"
| "track (Burn k) m = burn_nft k m"

definition track_in :: "string \<times> 'v nft_op \<Rightarrow> 'v nft_maps \<Rightarrow> 'v nft_maps" where
  "track_in p m = touch_nft (fst p) (op_nft (snd p)) (track (snd p) m)"

type_synonym ledger = "NftKey \<rightharpoonup> string \<times> string"

text \<open>\<open>vf\<close> reads the owner and the URI off what a mint carries.\<close>

fun ledger_step :: "(NftKey \<Rightarrow> 'v \<Rightarrow> string \<times> string) \<Rightarrow> 'v nft_op \<Rightarrow> ledger \<Rightarrow> ledger" where
  "ledger_step vf (Mint k v) L = L(k \<mapsto> vf k v)"
| "ledger_step vf (Transfer k o') L = L(k \<mapsto> (o', case L k of None \<Rightarrow> [] | Some (_, u) \<Rightarrow> u))"
| "ledger_step vf (Burn k) L = L(k := None)"

text \<open>A token is minted when it does not exist, and moved or burned when it does.\<close>

fun legal :: "(NftKey \<Rightarrow> 'v \<Rightarrow> string \<times> string) \<Rightarrow> ledger \<Rightarrow> 'v nft_op list \<Rightarrow> bool" where
  "legal vf L [] \<longleftrightarrow> True"
| "legal vf L (op # ops) \<longleftrightarrow>
     (case op of Mint k v \<Rightarrow> L k = None | Transfer k o' \<Rightarrow> L k \<noteq> None | Burn k \<Rightarrow> L k \<noteq> None) \<and>
     legal vf (ledger_step vf op L) ops"

text \<open>No token that was there before the block is minted in it.\<close>

definition fresh_mints :: "ledger \<Rightarrow> 'v nft_op list \<Rightarrow> bool" where
  "fresh_mints L ops \<longleftrightarrow> (\<forall>k v. Mint k v \<in> set ops \<longrightarrow> L k = None)"


section \<open>What the maps of a block say\<close>

definition base_of :: "(NftKey \<Rightarrow> 'v \<Rightarrow> string \<times> string) \<Rightarrow> 'v nft_maps \<Rightarrow> ledger \<Rightarrow> ledger" where
  "base_of vf m L k = (case L k of Some x \<Rightarrow> Some x | None \<Rightarrow> map_option (vf k) (map_of (mintMap m) k))"

definition ledger_of :: "(NftKey \<Rightarrow> 'v \<Rightarrow> string \<times> string) \<Rightarrow> 'v nft_maps \<Rightarrow> ledger \<Rightarrow> ledger" where
  "ledger_of vf m L k =
     (if k \<in> set (burnMap m) then None
      else case map_of (transferMap m) k of
        Some o' \<Rightarrow> Some (o', case base_of vf m L k of None \<Rightarrow> [] | Some (_, u) \<Rightarrow> u)
      | None \<Rightarrow> base_of vf m L k)"

definition maps_ok :: "ledger \<Rightarrow> 'v nft_maps \<Rightarrow> bool" where
  "maps_ok L m \<longleftrightarrow> (\<forall>k \<in> set (burnMap m). map_of (mintMap m) k = None \<and> map_of (transferMap m) k = None) \<and>
     (\<forall>k. map_of (mintMap m) k \<noteq> None \<longrightarrow> L k = None)"

lemma touch_other [simp]: "mintMap (touch_nft h k m) = mintMap m" "transferMap (touch_nft h k m) = transferMap m"
  "burnMap (touch_nft h k m) = burnMap m" "updateCountMap (touch_nft h k m) = updateCountMap m"
  by (simp_all add: touch_nft_def)

lemma ledger_of_touch [simp]: "ledger_of vf (touch_nft h k m) L = ledger_of vf m L" "maps_ok L (touch_nft h k m) = maps_ok L m"
  by (rule ext) (simp_all add: ledger_of_def base_of_def maps_ok_def cong: option.case_cong)

lemma base_of_mint: "base_of vf (mint_nft k v m) L j =
    (if j = k then (case L k of Some x \<Rightarrow> Some x | None \<Rightarrow> Some (vf k v)) else base_of vf m L j)"
  and base_of_transfer [simp]: "base_of vf (transfer_nft k to m) L = base_of vf m L"
  and base_of_burn: "base_of vf (burn_nft k m) L j = (if j = k then L k else base_of vf m L j)"
  by (simp_all add: fun_eq_iff base_of_def mint_nft_def transfer_nft_def burn_nft_def split: option.splits)

lemma track_ledger:
  assumes ok: "maps_ok L m" and legal: "case op of Mint k v \<Rightarrow> ledger_of vf m L k = None \<and> L k = None
      | Transfer k o' \<Rightarrow> ledger_of vf m L k \<noteq> None | Burn k \<Rightarrow> ledger_of vf m L k \<noteq> None"
  shows "ledger_of vf (track op m) L = ledger_step vf op (ledger_of vf m L)" "maps_ok L (track op m)"
proof -
  show "maps_ok L (track op m)"
    using ok legal by (cases op) (auto simp: maps_ok_def mint_nft_def transfer_nft_def burn_nft_def ledger_of_def)
  show "ledger_of vf (track op m) L = ledger_step vf op (ledger_of vf m L)"
  proof (rule ext)
    fix j
    show "ledger_of vf (track op m) L j = ledger_step vf op (ledger_of vf m L) j"
    proof (cases op)
      case (Mint k v)
      with legal have n: "ledger_of vf m L k = None" "L k = None" by simp_all
      have "map_of (transferMap m) k = None"
        using n(1) ok by (auto simp: ledger_of_def maps_ok_def split: if_splits option.splits)
      with Mint n(2) show ?thesis
        by (simp only: ledger_of_def track.simps ledger_step.simps base_of_mint) (simp add: mint_nft_def ledger_of_def)
    next
      case (Transfer k o')
      with legal have "k \<notin> set (burnMap m)" by (auto simp: ledger_of_def)
      moreover have "(case ledger_of vf m L k of None \<Rightarrow> [] | Some (_, u) \<Rightarrow> u) = (case base_of vf m L k of None \<Rightarrow> [] | Some (_, u) \<Rightarrow> u)"
        using \<open>k \<notin> set (burnMap m)\<close> by (simp add: ledger_of_def split: option.splits)
      ultimately show ?thesis
        using Transfer by (simp only: ledger_of_def track.simps ledger_step.simps base_of_transfer) (simp add: transfer_nft_def ledger_of_def)
    next
      case (Burn k)
      then show ?thesis
        by (simp only: ledger_of_def track.simps ledger_step.simps base_of_burn) (simp add: burn_nft_def ledger_of_def)
    qed
  qed
qed

lemma ledger_of_empty [simp]: "ledger_of vf no_nfts L = L" "maps_ok L no_nfts"
  by (rule ext) (simp_all add: ledger_of_def base_of_def no_nfts_def maps_ok_def split: option.splits)

text \<open>The maps of the whole block give the ledger after its operations.\<close>

lemma track_all:
  "legal vf (ledger_of vf m L) (map snd ps) \<Longrightarrow> fresh_mints L (map snd ps) \<Longrightarrow> maps_ok L m \<Longrightarrow>
     ledger_of vf (fold track_in ps m) L = fold (ledger_step vf) (map snd ps) (ledger_of vf m L)"
proof (induction ps arbitrary: m)
  case (Cons p ps)
  obtain h op where p: "p = (h, op)" by force
  have c: "case op of Mint k v \<Rightarrow> ledger_of vf m L k = None \<and> L k = None
      | Transfer k o' \<Rightarrow> ledger_of vf m L k \<noteq> None | Burn k \<Rightarrow> ledger_of vf m L k \<noteq> None"
    using Cons.prems(1,2) by (cases op) (auto simp: p fresh_mints_def)
  note t = track_ledger [OF Cons.prems(3) c]
  have "legal vf (ledger_of vf (track_in p m) L) (map snd ps)" using Cons.prems(1) t(1) by (simp add: p track_in_def)
  moreover have "fresh_mints L (map snd ps)" using Cons.prems(2) unfolding fresh_mints_def by auto
  moreover have "maps_ok L (track_in p m)" using t(2) by (simp add: p track_in_def)
  ultimately show ?case using Cons.IH [of "track_in p m"] t(1) by (simp add: p track_in_def)
qed simp

theorem maps_give_ledger:
  assumes "legal vf L (map snd ps)" "fresh_mints L (map snd ps)"
  shows "ledger_of vf (fold track_in ps no_nfts) L = fold (ledger_step vf) (map snd ps) L"
  using track_all [of vf no_nfts L ps] assms by simp


section \<open>The keys of the maps\<close>

definition maps_wf :: "'v nft_maps \<Rightarrow> bool" where
  "maps_wf m \<longleftrightarrow> distinct (map_keys (mintMap m)) \<and> distinct (map_keys (transferMap m)) \<and> distinct (burnMap m) \<and>
     distinct (updateCountMap m) \<and> distinct (map_keys (nftTxMap m)) \<and> (\<forall>(h, ks) \<in> set (nftTxMap m). distinct ks)"

definition nft_keys :: "'v nft_maps \<Rightarrow> NftKey set" where
  "nft_keys m = fst ` set (mintMap m) \<union> fst ` set (transferMap m) \<union> set (burnMap m)"

lemma maps_wf_empty [simp]: "maps_wf no_nfts" "nft_keys no_nfts = {}"
  by (simp_all add: maps_wf_def no_nfts_def nft_keys_def)

lemma wf_touch:
  assumes "\<forall>(h, ks) \<in> set t. distinct ks"
  shows "\<forall>(h, ks) \<in> set (map_put h (key_put k (map_get t h [])) t). distinct ks"
proof -
  have "distinct (map_get t h [])"
    using assms by (cases "map_of t h") (auto dest: map_of_SomeD)
  with assms show ?thesis by (auto simp: map_put_def distinct_key_put)
qed

lemma maps_wf_track:
  assumes "maps_wf m"
  shows "maps_wf (track_in p m)"
proof -
  have "\<forall>(h, ks) \<in> set (nftTxMap m). distinct ks" using assms by (simp add: maps_wf_def)
  note t = wf_touch [OF this, of "fst p"]
  show ?thesis
    using assms t
    by (cases "snd p"; simp add: maps_wf_def track_in_def touch_nft_def mint_nft_def transfer_nft_def burn_nft_def map_put_keys
        map_delete_keys distinct_key_put distinct_removeAll)
qed

lemma maps_wf_fold: "maps_wf m \<Longrightarrow> maps_wf (fold track_in ps m)"
  by (induction ps arbitrary: m) (auto simp: maps_wf_track)

lemma nft_keys_track: "nft_keys (track_in p m) \<subseteq> insert (op_nft (snd p)) (nft_keys m)"
  by (cases "snd p"; auto simp: nft_keys_def track_in_def mint_nft_def transfer_nft_def burn_nft_def simp del: set_map)

lemma nft_keys_fold: "nft_keys (fold track_in ps m) \<subseteq> nft_keys m \<union> op_nft ` snd ` set ps"
proof (induction ps arbitrary: m)
  case (Cons p ps)
  show ?case using Cons [of "track_in p m"] nft_keys_track [of p m] by auto
qed simp

text \<open>What the maps hold comes from the operations.\<close>

definition maps_from :: "(string \<times> 'v nft_op) list \<Rightarrow> 'v nft_maps \<Rightarrow> bool" where
  "maps_from ps m \<longleftrightarrow>
     (\<forall>(k, v) \<in> set (mintMap m). Mint k v \<in> set (map snd ps)) \<and>
     (\<forall>(k, o') \<in> set (transferMap m). Transfer k o' \<in> set (map snd ps)) \<and>
     set (updateCountMap m) = {c. \<exists>(h, op) \<in> set ps. c = fst (op_nft op) \<and> (\<nexists>k o'. op = Transfer k o')} \<and>
     (\<forall>h k. k \<in> set (map_get (nftTxMap m) h []) \<longleftrightarrow> (\<exists>op. (h, op) \<in> set ps \<and> op_nft op = k)) \<and>
     fst ` set (nftTxMap m) = fst ` set ps"

lemma maps_from_track:
  assumes "maps_from ps m"
  shows "maps_from (ps @ [p]) (track_in p m)"
proof -
  obtain h op where p: "p = (h, op)" by force
  have tx: "(\<forall>j k. k \<in> set (map_get (nftTxMap (track_in p m)) j []) \<longleftrightarrow> (\<exists>op. (j, op) \<in> set (ps @ [p]) \<and> op_nft op = k))"
  proof (intro allI)
    fix j k
    have "nftTxMap (track_in p m) = map_put h (key_put (op_nft op) (map_get (nftTxMap m) h [])) (nftTxMap m)"
      by (cases op) (simp_all add: p track_in_def touch_nft_def mint_nft_def transfer_nft_def burn_nft_def)
    moreover have "k \<in> set (map_get (nftTxMap m) j []) \<longleftrightarrow> (\<exists>op. (j, op) \<in> set ps \<and> op_nft op = k)"
      using assms unfolding maps_from_def by blast
    ultimately show "k \<in> set (map_get (nftTxMap (track_in p m)) j []) \<longleftrightarrow> (\<exists>op. (j, op) \<in> set (ps @ [p]) \<and> op_nft op = k)"
      by (auto simp: map_get_def p)
  qed
  have keys: "fst ` set (nftTxMap (track_in p m)) = fst ` set (ps @ [p])"
    using assms by (cases op) (auto simp: maps_from_def p track_in_def touch_nft_def mint_nft_def transfer_nft_def burn_nft_def)
  have cnt: "set (updateCountMap (track_in p m)) = {c. \<exists>(h, op) \<in> set (ps @ [p]). c = fst (op_nft op) \<and> (\<nexists>k o'. op = Transfer k o')}"
  proof -
    have "set (updateCountMap m) = {c. \<exists>(h, op) \<in> set ps. c = fst (op_nft op) \<and> (\<nexists>k o'. op = Transfer k o')}"
      using assms by (simp add: maps_from_def)
    then show ?thesis
      by (cases op) (auto simp: p track_in_def mint_nft_def transfer_nft_def burn_nft_def)
  qed
  have "(\<forall>(k, v) \<in> set (mintMap (track_in p m)). Mint k v \<in> set (map snd (ps @ [p])))"
    "(\<forall>(k, o') \<in> set (transferMap (track_in p m)). Transfer k o' \<in> set (map snd (ps @ [p])))"
    using assms by (cases op; force simp: maps_from_def p track_in_def mint_nft_def transfer_nft_def burn_nft_def map_put_def map_delete_def)+
  with tx keys cnt show ?thesis unfolding maps_from_def by blast
qed

lemma maps_from_fold: "maps_from qs m \<Longrightarrow> maps_from (qs @ ps) (fold track_in ps m)"
proof (induction ps arbitrary: qs m)
  case (Cons p ps)
  from Cons.IH [OF maps_from_track [OF Cons.prems]] show ?case by simp
qed simp

lemma maps_from_ops: "maps_from ps (fold track_in ps no_nfts)"
  using maps_from_fold [of "[]" no_nfts ps] by (simp add: maps_from_def no_nfts_def map_get_def)

end
