(* ===== verification/Nft_Proofs.thy ===== *)
theory Nft_Proofs
  imports Nft_Ledger Collector
begin

text \<open>
  What the shared statements of the NFT submodules do to the database: which tables each leaves
  alone, and how the table of tokens, the counts and the edges look after a success.
\<close>

section \<open>What is left alone\<close>

text \<open>\<open>P\<close> does not look at a table, or at the caches of the NFT submodules.\<close>

definition stable :: "((db \<Rightarrow> db) \<Rightarrow> bool) \<Rightarrow> (world \<Rightarrow> bool) \<Rightarrow> bool" where
  "stable C P \<longleftrightarrow> fault_free P \<and> (\<forall>f w. C f \<longrightarrow> P w \<longrightarrow> P (w\<lparr>w_db := f (w_db w)\<rparr>))"

definition only_nft :: "(db \<Rightarrow> db) \<Rightarrow> bool" where
  "only_nft f \<longleftrightarrow> (\<forall>d. \<exists>t. f d = d\<lparr>t_nft := t\<rparr>)"

definition only_nc :: "(db \<Rightarrow> db) \<Rightarrow> bool" where
  "only_nc f \<longleftrightarrow> (\<forall>d. \<exists>t. f d = d\<lparr>t_nft_collection := t\<rparr>)"

definition only_tn :: "(db \<Rightarrow> db) \<Rightarrow> bool" where
  "only_tn f \<longleftrightarrow> (\<forall>d. \<exists>t. f d = d\<lparr>t_tx_nfts := t\<rparr>)"

definition stable_caches :: "(world \<Rightarrow> bool) \<Rightarrow> bool" where
  "stable_caches P \<longleftrightarrow> (\<forall>w c. P w \<longrightarrow> P (w\<lparr>moveNftCache := c\<rparr>)) \<and> (\<forall>w c. P w \<longrightarrow> P (w\<lparr>wasmNftCache := c\<rparr>)) \<and>
     (\<forall>w c. P w \<longrightarrow> P (w\<lparr>evmNftCache := c\<rparr>)) \<and> (\<forall>w c. P w \<longrightarrow> P (w\<lparr>nftBlacklist := c\<rparr>))"

lemma stableD: "stable C P \<Longrightarrow> fault_free P" "stable C P \<Longrightarrow> C f \<Longrightarrow> P w \<Longrightarrow> P (w\<lparr>w_db := f (w_db w)\<rparr>)"
  by (auto simp: stable_def)

lemma only_ins [simp]: "only_nc (ins_nc cs)" "only_nft (ins_nft rs)" "only_tn (ins_tn es)" "only_nft (del_nfts Q)"
  "only_nc (set_count c)" "only_nc (set_origin l2 l1)"
  by (auto simp: only_nc_def only_nft_def only_tn_def ins_nc_def ins_nft_def ins_tn_def del_nfts_def set_count_def set_origin_def)

lemma keeps_exec_in: "stable C P \<Longrightarrow> C f \<Longrightarrow> keeps P (exec f)"
  by (rule keeps_exec) (auto dest: stableD)

lemma keeps_batches_in: "stable C P \<Longrightarrow> (\<And>rs. C (ins rs)) \<Longrightarrow> keeps P (CreateInBatches cfg ins rows)"
  by (rule keeps_batches) (auto dest: stableD)

lemma keeps_IsBlacklisted: "stable_caches P \<Longrightarrow> keeps P (IsBlacklisted a)"
  by (rule keepsI) (auto simp: IsBlacklisted_def stable_caches_def split: prod.splits)

lemma keeps_upsert: "stable only_nft P \<Longrightarrow> keeps P (upsert_transferred cfg rows)"
  unfolding upsert_transferred_def upsert_chunk_def
proof (intro keeps_foreach keeps_stmt)
  fix chunk assume st: "stable only_nft P"
  then show "fault_free P" by (rule stableD)
  show "keeps P (\<lambda>w. if distinct (map nft_key chunk) then (Inr (), w\<lparr>w_db := (w_db w)\<lparr>t_nft := fold upsert_owner chunk (t_nft (w_db w))\<rparr>\<rparr>)
     else (Inl (PgError ''21000''), w))"
  proof (rule keepsI)
    fix w r w' assume "P w" "(if distinct (map nft_key chunk) then (Inr (), w\<lparr>w_db := (w_db w)\<lparr>t_nft := fold upsert_owner chunk (t_nft (w_db w))\<rparr>\<rparr>)
     else (Inl (PgError ''21000''), w)) = (r, w')"
    then show "P w'" using stableD(2) [OF st, of "\<lambda>d. d\<lparr>t_nft := fold upsert_owner chunk (t_nft d)\<rparr>" w]
      by (auto simp: only_nft_def split: if_splits)
  qed
qed

lemma keeps_delete_burned: "stable only_nft P \<Longrightarrow> keeps P (delete_burned E N addr_of burned)"
  unfolding delete_burned_def Let_def by (intro keeps_intros keeps_exec_in [where C = only_nft]) auto

lemma keeps_update_counts: "stable only_nc P \<Longrightarrow> keeps P (update_counts E cs)"
  unfolding update_counts_def by (intro keeps_intros keeps_exec_in [where C = only_nc]) (auto dest: stableD)

lemma keeps_pairs: "stable only_nc P \<Longrightarrow> keeps P (Collect_pairs E N cfg block)"
  unfolding Collect_pairs_def by (intro keeps_intros keeps_exec_in [where C = only_nc]) auto

lemma keeps_nft_ids: "ignores (nft_dict E) P \<Longrightarrow> keeps P (GetOrCreateNftIds E ks c)"
  unfolding GetOrCreateNftIds_eq by (rule keeps_get_or_create)

lemma keeps_tx_nft_edges: "ignores (nft_dict E) P \<Longrightarrow> stable only_tn P \<Longrightarrow> keeps P (tx_nft_edges E N cfg h txs)"
  unfolding tx_nft_edges_def tx_edges_def Let_def
  by (intro keeps_intros keeps_nft_ids keeps_batches_in [where C = only_tn]) (auto dest: stableD)

lemma keeps_take_cached:
  assumes "\<And>c w. P w \<Longrightarrow> P (put c w)"
  shows "keeps P (take_cached get put h)"
  by (rule keepsI) (use assms in \<open>auto simp: take_cached_def Let_def split: option.splits\<close>)

text \<open>The part of the state the submodules may not change: the block table and the other dictionaries.\<close>

lemma only_nftD:
  assumes "only_nft f"
  shows "t_block (f d) = t_block d" "t_tx (f d) = t_tx d" "t_account_dict (f d) = t_account_dict d" "t_msg_type_dict (f d) = t_msg_type_dict d" "t_type_tag_dict (f d) = t_type_tag_dict d" "t_nft_dict (f d) = t_nft_dict d" "t_nft_collection (f d) = t_nft_collection d" "t_tx_nfts (f d) = t_tx_nfts d"
proof -
  obtain t where "f d = d\<lparr>t_nft := t\<rparr>" using assms by (auto simp: only_nft_def)
  then show "t_block (f d) = t_block d" "t_tx (f d) = t_tx d" "t_account_dict (f d) = t_account_dict d" "t_msg_type_dict (f d) = t_msg_type_dict d" "t_type_tag_dict (f d) = t_type_tag_dict d" "t_nft_dict (f d) = t_nft_dict d" "t_nft_collection (f d) = t_nft_collection d" "t_tx_nfts (f d) = t_tx_nfts d" by simp_all
qed

lemma only_ncD:
  assumes "only_nc f"
  shows "t_block (f d) = t_block d" "t_tx (f d) = t_tx d" "t_account_dict (f d) = t_account_dict d" "t_msg_type_dict (f d) = t_msg_type_dict d" "t_type_tag_dict (f d) = t_type_tag_dict d" "t_nft_dict (f d) = t_nft_dict d" "t_nft (f d) = t_nft d" "t_tx_nfts (f d) = t_tx_nfts d"
proof -
  obtain t where "f d = d\<lparr>t_nft_collection := t\<rparr>" using assms by (auto simp: only_nc_def)
  then show "t_block (f d) = t_block d" "t_tx (f d) = t_tx d" "t_account_dict (f d) = t_account_dict d" "t_msg_type_dict (f d) = t_msg_type_dict d" "t_type_tag_dict (f d) = t_type_tag_dict d" "t_nft_dict (f d) = t_nft_dict d" "t_nft (f d) = t_nft d" "t_tx_nfts (f d) = t_tx_nfts d" by simp_all
qed

lemma only_tnD:
  assumes "only_tn f"
  shows "t_block (f d) = t_block d" "t_tx (f d) = t_tx d" "t_account_dict (f d) = t_account_dict d" "t_msg_type_dict (f d) = t_msg_type_dict d" "t_type_tag_dict (f d) = t_type_tag_dict d" "t_nft_dict (f d) = t_nft_dict d" "t_nft (f d) = t_nft d" "t_nft_collection (f d) = t_nft_collection d"
proof -
  obtain t where "f d = d\<lparr>t_tx_nfts := t\<rparr>" using assms by (auto simp: only_tn_def)
  then show "t_block (f d) = t_block d" "t_tx (f d) = t_tx d" "t_account_dict (f d) = t_account_dict d" "t_msg_type_dict (f d) = t_msg_type_dict d" "t_type_tag_dict (f d) = t_type_tag_dict d" "t_nft_dict (f d) = t_nft_dict d" "t_nft (f d) = t_nft d" "t_nft_collection (f d) = t_nft_collection d" by simp_all
qed

lemmas only_tables = only_nftD only_ncD only_tnD

definition apart :: "env \<Rightarrow> (world \<Rightarrow> bool) \<Rightarrow> bool" where
  "apart E P \<longleftrightarrow> stable only_nft P \<and> stable only_nc P \<and> stable only_tn P \<and> ignores (nft_dict E) P \<and> stable_caches P"

lemma apart_block [simp]: "apart E (\<lambda>w. t_block (w_db w) = B)"
  by (simp add: apart_def stable_def fault_free_def only_tables ignores_def nft_dict_def stable_caches_def)

lemma apart_dicts [simp]: "apart E (dict_inv (account_dict E'))" "apart E (dict_inv (msg_type_dict E'))"
    "apart E (dict_inv (type_tag_dict E'))"
  by (simp_all add: apart_def stable_def fault_free_def only_tables ignores_def nft_dict_def stable_caches_def dict_inv_def
      account_dict_def msg_type_dict_def type_tag_dict_def)

lemma apart_grows [simp]: "apart E (\<lambda>w. set T \<subseteq> set (t_account_dict (w_db w)))"
  by (simp add: apart_def stable_def fault_free_def only_tables ignores_def nft_dict_def stable_caches_def)

lemma apartD: "apart E P \<Longrightarrow> stable only_nft P" "apart E P \<Longrightarrow> stable only_nc P" "apart E P \<Longrightarrow> stable only_tn P"
    "apart E P \<Longrightarrow> ignores (nft_dict E) P" "apart E P \<Longrightarrow> stable_caches P" "apart E P \<Longrightarrow> fault_free P"
  by (auto simp: apart_def stable_def)

lemma keeps_apart:
  assumes "apart E P"
  shows "keeps P (IsBlacklisted a)" "keeps P (upsert_transferred cfg rows)" "keeps P (delete_burned E N addr_of burned)"
    "keeps P (update_counts E cs)" "keeps P (Collect_pairs E N cfg block)" "keeps P (tx_nft_edges E N cfg h txs)"
    "keeps P (CreateInBatches cfg ins_nc ncs)" "keeps P (CreateInBatches cfg ins_nft nfts)"
    "fault_free P"
  using apartD [OF assms]
  by (auto intro: keeps_IsBlacklisted keeps_upsert keeps_delete_burned keeps_update_counts keeps_pairs keeps_tx_nft_edges
      keeps_batches_in [where C = only_nc] keeps_batches_in [where C = only_nft])

end
