(* ===== verification/Nft_Rows.thy ===== *)
theory Nft_Rows
  imports Nft_Proofs
begin

text \<open>
  What the statements of the Wasm and the EVM submodule do to the table of tokens, and how the
  table represents the ledger of \<open>Nft_Ledger\<close>.
\<close>

section \<open>The statements on the table of tokens\<close>

interpretation nft_store: conflict_store "row_at nft_key" nft_key "insert_row nft_key" "\<lambda>_. True"
  by unfold_locales (auto simp: row_at_insert_row split: option.splits)

lemma row_at_insert_rows:
  "row_at nft_key (insert_rows nft_key rs t) k = (case row_at nft_key t k of Some x \<Rightarrow> Some x | None \<Rightarrow> row_at nft_key rs k)"
  unfolding insert_rows_def by (simp only: nft_store.look_fold [OF TrueI] row_at_def [symmetric])

lemma key_moved [simp]: "nft_key (moved_to r old) = nft_key old"
  by (simp add: moved_to_def nft_key_def)

lemma row_at_update:
  "row_at nft_key (map (\<lambda>x. if nft_key x = j then moved_to r x else x) t) k =
     (if k = j then map_option (moved_to r) (row_at nft_key t k) else row_at nft_key t k)"
  by (induction t) auto

lemma row_at_upsert_owner:
  "row_at nft_key (upsert_owner r t) k =
     (if k = nft_key r then Some (case row_at nft_key t k of None \<Rightarrow> r | Some old \<Rightarrow> moved_to r old) else row_at nft_key t k)"
proof (cases "nft_key r \<in> nft_key ` set t")
  case True
  then have "row_at nft_key t (nft_key r) \<noteq> None" by (simp add: row_at_None)
  with True show ?thesis by (auto simp: upsert_owner_def row_at_update)
next
  case False
  then have "row_at nft_key t (nft_key r) = None" by (simp add: row_at_None)
  with False show ?thesis
    by (cases "row_at nft_key t k") (auto simp: upsert_owner_def row_at_append)
qed

lemma row_at_upserts:
  "distinct (map nft_key rs) \<Longrightarrow> row_at nft_key (fold upsert_owner rs t) k =
     (case row_at nft_key rs k of None \<Rightarrow> row_at nft_key t k
      | Some r \<Rightarrow> Some (case row_at nft_key t k of None \<Rightarrow> r | Some old \<Rightarrow> moved_to r old))"
proof (induction rs arbitrary: t)
  case (Cons r rs)
  have "row_at nft_key rs (nft_key r) = None" using Cons.prems by (simp add: row_at_None)
  with Cons show ?case by (auto simp: row_at_upsert_owner split: option.split)
qed simp

lemma row_at_delete:
  "row_at nft_key (delete_where (\<lambda>r. Q (nft_key r)) t) k = (if Q k then None else row_at nft_key t k)"
  by (induction t) (auto simp: delete_where_def)

lemma keys_upsert_owner: "map nft_key (upsert_owner r t) = (if nft_key r \<in> nft_key ` set t then map nft_key t else map nft_key t @ [nft_key r])"
  by (simp add: upsert_owner_def)

lemma unique_upserts: "unique_key nft_key t \<Longrightarrow> unique_key nft_key (fold upsert_owner rs t)"
proof (induction rs arbitrary: t)
  case (Cons r rs)
  have "unique_key nft_key (upsert_owner r t)"
    using Cons.prems unfolding unique_key_def keys_upsert_owner by auto
  with Cons.IH show ?case by simp
qed simp

text \<open>The upsert in batches, and the deletes, when they succeed.\<close>

lemma upsert_chunk_db:
  assumes "upsert_chunk chunk w = (Inr (), w')"
  shows "distinct (map nft_key chunk) \<and> w_db w' = (w_db w)\<lparr>t_nft := fold upsert_owner chunk (t_nft (w_db w))\<rparr>"
  using assms unfolding upsert_chunk_def
  by (cases rule: stmt_cases [of w "\<lambda>w. if distinct (map nft_key chunk)
      then (Inr (), w\<lparr>w_db := (w_db w)\<lparr>t_nft := fold upsert_owner chunk (t_nft (w_db w))\<rparr>\<rparr>) else (Inl (PgError ''21000''), w)"])
    (auto split: if_splits)

lemma upsert_transferred_db:
  assumes "valid_config cfg" "upsert_transferred cfg rows w = (Inr (), w')"
  shows "w_db w' = (w_db w)\<lparr>t_nft := fold upsert_owner rows (t_nft (w_db w))\<rparr>"
proof -
  have "foreach (\<lambda>chunk _. upsert_chunk chunk) cs () w = (Inr (), w') \<Longrightarrow>
      w_db w' = (w_db w)\<lparr>t_nft := fold upsert_owner (concat cs) (t_nft (w_db w))\<rparr>" for cs w
  proof (induction cs arbitrary: w)
    case (Cons c cs)
    from Cons.prems obtain u where "upsert_chunk c w = (Inr (), u)" "foreach (\<lambda>chunk _. upsert_chunk chunk) cs () u = (Inr (), w')"
      by (auto simp: bnd_eq_Inr)
    with Cons.IH [of u] upsert_chunk_db [of c w u] show ?case by simp
  qed simp
  from this [of "chunks (nat (cfg_DBBatchSize cfg)) rows" w] assms show ?thesis
    by (simp add: upsert_transferred_def valid_config_def)
qed

lemma map_of_group: "map_of (group_tokens ks) c = (let ts = map snd (filter (\<lambda>k. fst k = c) ks) in if ts = [] then None else Some ts)"
proof -
  have "map_of (fold (\<lambda>(c, t) m. map_put c (map_get m c [] @ [t]) m) ks m) c =
      (let ts = map snd (filter (\<lambda>k. fst k = c) ks) in if ts = [] then map_of m c else Some (map_get m c [] @ ts))"
    for m :: "(string, string list) gomap"
    by (induction ks arbitrary: m) (auto simp: Let_def map_get_def)
  from this [of "[]"] show ?thesis by (simp add: group_tokens_def map_get_def Let_def)
qed

lemma map_get_group: "map_get (group_tokens ks) c [] = map snd (filter (\<lambda>k. fst k = c) ks)"
  by (simp add: map_get_def map_of_group Let_def)

lemma set_group: "set (map_get (group_tokens ks) c []) = {t. (c, t) \<in> set ks}"
  unfolding map_get_group by force

lemma keys_group: "fst ` set (group_tokens ks) = fst ` set ks"
proof (rule set_eqI)
  fix c
  have "c \<in> fst ` set (group_tokens ks) \<longleftrightarrow> map snd (filter (\<lambda>k. fst k = c) ks) \<noteq> []"
    by (simp add: map_of_key map_of_group Let_def)
  also have "\<dots> \<longleftrightarrow> c \<in> fst ` set ks" by (force simp: filter_empty_conv)
  finally show "c \<in> fst ` set (group_tokens ks) \<longleftrightarrow> c \<in> fst ` set ks" .
qed

lemma distinct_groups: "distinct (map_keys (group_tokens ks))"
proof -
  have "distinct (map_keys m) \<Longrightarrow> distinct (map_keys (fold (\<lambda>(c, t) m. map_put c (map_get m c [] @ [t]) m) ks m))"
    for m :: "(string, string list) gomap"
    by (induction ks arbitrary: m) (auto simp: map_put_keys)
  then show ?thesis by (simp add: group_tokens_def)
qed

lemma exec_db: "exec f w = (Inr (), w') \<Longrightarrow> w_db w' = f (w_db w)"
  using hoareD [OF hoare_exec refl] by blast

text \<open>After the deletes, the table has the rows whose key is no burned token.\<close>

lemma delete_burned_db:
  assumes N: "nft_env_ok N" "env_ok E" and d: "distinct burned"
    and run: "delete_burned E N addr_of burned w = (Inr (), w')"
  shows "w_db w' = (w_db w)\<lparr>t_nft := delete_where (\<lambda>r. \<exists>k \<in> set burned. addr_of (fst k) = Inr (nft_CollectionAddr r) \<and> snd k = nft_TokenId r) (t_nft (w_db w))\<rparr>"
proof -
  define groups where "groups = group_tokens (key_order N burned)"
  define step where "step = (\<lambda>c. bnd (lift_res (addr_of c)) (\<lambda>a.
      exec (del_nfts (\<lambda>r. nft_CollectionAddr r = a \<and> nft_TokenId r \<in> set (map_get groups c [])))))"
  have "foreach (\<lambda>c _. step c) cs () w = (Inr (), w') \<Longrightarrow> w_db w' = (w_db w)\<lparr>t_nft := delete_where
      (\<lambda>r. \<exists>c \<in> set cs. addr_of c = Inr (nft_CollectionAddr r) \<and> nft_TokenId r \<in> set (map_get groups c [])) (t_nft (w_db w))\<rparr>" for cs w
  proof (induction cs arbitrary: w)
    case Nil
    then show ?case by (simp add: delete_where_def)
  next
    case (Cons c cs)
    then obtain u where u: "step c w = (Inr (), u)" "foreach (\<lambda>c _. step c) cs () u = (Inr (), w')" by (auto simp: bnd_eq_Inr)
    from u(1) obtain a where a: "addr_of c = Inr a"
      "exec (del_nfts (\<lambda>r. nft_CollectionAddr r = a \<and> nft_TokenId r \<in> set (map_get groups c []))) w = (Inr (), u)"
      by (auto simp: step_def bnd_eq_Inr)
    have "w_db u = del_nfts (\<lambda>r. nft_CollectionAddr r = a \<and> nft_TokenId r \<in> set (map_get groups c [])) (w_db w)"
      by (rule exec_db [OF a(2)])
    with Cons.IH [OF u(2)] a(1) show ?case
      by (auto simp: del_nfts_def delete_where_def intro!: arg_cong [where f = "\<lambda>t. (w_db w)\<lparr>t_nft := t\<rparr>"] filter_cong)
  qed
  moreover have "foreach (\<lambda>c _. step c) (map_order E (map_keys groups)) () w = (Inr (), w')"
    using run by (simp add: delete_burned_def Let_def step_def groups_def)
  moreover have "set (map_order E (map_keys groups)) = fst ` set burned"
    by (simp add: set_map_order [OF N(2)] distinct_groups groups_def keys_group set_key_order [OF N(1) d])
  moreover have "set (map_get groups c []) = {t. (c, t) \<in> set burned}" for c
    by (simp add: groups_def set_group set_key_order [OF N(1) d])
  ultimately have "w_db w' = (w_db w)\<lparr>t_nft := delete_where
      (\<lambda>r. \<exists>c \<in> fst ` set burned. addr_of c = Inr (nft_CollectionAddr r) \<and> nft_TokenId r \<in> {t. (c, t) \<in> set burned}) (t_nft (w_db w))\<rparr>"
    by simp
  moreover have "(\<lambda>r :: CollectedNft. \<exists>c \<in> fst ` set burned. addr_of c = Inr (nft_CollectionAddr r) \<and> nft_TokenId r \<in> {t. (c, t) \<in> set burned})
      = (\<lambda>r :: CollectedNft. \<exists>k \<in> set burned. addr_of (fst k) = Inr (nft_CollectionAddr r) \<and> snd k = nft_TokenId r)"
    by (rule ext) force
  ultimately show ?thesis by (simp only:)
qed


section \<open>The table and the ledger\<close>

lemma maps_from_mint:
  assumes "maps_from ps m" "map_of (mintMap m) k = Some v"
  shows "Mint k v \<in> snd ` set ps"
proof -
  have "\<forall>(k, v) \<in> set (mintMap m). Mint k v \<in> set (map snd ps)" using assms(1) unfolding maps_from_def by (elim conjE)
  with map_of_SomeD [OF assms(2)] show ?thesis by auto
qed

lemma maps_from_transfer:
  assumes "maps_from ps m" "map_of (transferMap m) k = Some v"
  shows "Transfer k v \<in> snd ` set ps"
proof -
  have "\<forall>(k, o') \<in> set (transferMap m). Transfer k o' \<in> set (map snd ps)" using assms(1) unfolding maps_from_def by (elim conjE)
  with map_of_SomeD [OF assms(2)] show ?thesis by auto
qed

text \<open>
  A row holds the id of the token's owner and its URI; the table represents a ledger whose
  collections are written as hex addresses with the prefix \<open>0x\<close>.
\<close>

definition owned :: "env \<Rightarrow> world \<Rightarrow> CollectedNft \<Rightarrow> string \<times> string \<Rightarrow> bool" where
  "owned E w r x \<longleftrightarrow> has_account E w (fst x) (nft_OwnerId r) \<and> nft_Uri r = snd x"

definition represents :: "env \<Rightarrow> world \<Rightarrow> CollectedNft list \<Rightarrow> ledger \<Rightarrow> bool" where
  "represents E w t L \<longleftrightarrow>
     (\<forall>b tok. rel_option (owned E w) (row_at nft_key t (b, tok)) (L (BytesToHexWithPrefix b, tok)))"

definition named :: "NftKey \<Rightarrow> CollectedNft \<Rightarrow> bool" where
  "named k r \<longleftrightarrow> k = (BytesToHexWithPrefix (nft_CollectionAddr r), nft_TokenId r)"

definition rows_of :: "(NftKey \<Rightarrow> CollectedNft \<Rightarrow> bool) \<Rightarrow> NftKey list \<Rightarrow> CollectedNft list \<Rightarrow> bool" where
  "rows_of R ks rows \<longleftrightarrow> distinct ks \<and> list_all2 (\<lambda>k r. named k r \<and> R k r) ks rows"

lemma has_account_rows: "has_account E w a i \<Longrightarrow> set (t_account_dict (w_db w)) \<subseteq> set (t_account_dict (w_db w')) \<Longrightarrow> has_account E w' a i"
  unfolding has_account_def by blast

lemma represents_mono:
  assumes "set (t_account_dict (w_db w)) \<subseteq> set (t_account_dict (w_db w'))" "represents E w t L"
  shows "represents E w' t L"
proof -
  have "owned E w r x \<Longrightarrow> owned E w' r x" for r x
    unfolding owned_def using has_account_rows [OF _ assms(1)] by blast
  then show ?thesis using assms(2) unfolding represents_def by (meson option.rel_mono_strong)
qed

lemma inj_hex_prefix: "BytesToHexWithPrefix a = BytesToHexWithPrefix b \<longleftrightarrow> a = b"
  by (metis HexToBytes_prefix Inr_inject)

lemma rows_of_keys: "rows_of R ks rows \<Longrightarrow> ks = map (\<lambda>r. (BytesToHexWithPrefix (nft_CollectionAddr r), nft_TokenId r)) rows"
  unfolding rows_of_def
proof (elim conjE)
  show "list_all2 (\<lambda>k r. named k r \<and> R k r) ks rows \<Longrightarrow> ?thesis"
    by (induction rule: list_all2_induct) (auto simp: named_def)
qed

lemma rows_of_distinct:
  assumes "rows_of R ks rows"
  shows "distinct (map nft_key rows)"
proof -
  have "distinct (map (\<lambda>r. (BytesToHexWithPrefix (nft_CollectionAddr r), nft_TokenId r)) rows)"
    using assms rows_of_keys [OF assms] by (simp add: rows_of_def)
  then show ?thesis by (auto simp: distinct_map nft_key_def inj_on_def)
qed

lemma rows_of_in: "rows_of R ks rows \<Longrightarrow> r \<in> set rows \<Longrightarrow> R (BytesToHexWithPrefix (nft_CollectionAddr r), nft_TokenId r) r"
  unfolding rows_of_def
proof (elim conjE)
  show "list_all2 (\<lambda>k r. named k r \<and> R k r) ks rows \<Longrightarrow> r \<in> set rows \<Longrightarrow> ?thesis"
    by (induction rule: list_all2_induct) (auto simp: named_def)
qed

lemma rows_of_at:
  assumes "rows_of R ks rows"
  shows "row_at nft_key rows (b, tok) = None \<longleftrightarrow> (BytesToHexWithPrefix b, tok) \<notin> set ks"
    and "row_at nft_key rows (b, tok) = Some r \<Longrightarrow> R (BytesToHexWithPrefix b, tok) r"
proof -
  show "row_at nft_key rows (b, tok) = None \<longleftrightarrow> (BytesToHexWithPrefix b, tok) \<notin> set ks"
    unfolding row_at_None rows_of_keys [OF assms] by (force simp: nft_key_def inj_hex_prefix image_iff)
  show "row_at nft_key rows (b, tok) = Some r \<Longrightarrow> R (BytesToHexWithPrefix b, tok) r"
    using rows_of_in [OF assms, of r] by (auto simp: nft_key_def dest: row_at_SomeD)
qed

text \<open>The three statements of a block take the ledger before it to the ledger its maps give.\<close>

lemma represents_block:
  assumes L: "represents E w t L"
    and mint: "rows_of (\<lambda>k r. \<exists>v. map_of (mintMap m) k = Some v \<and> owned E w r (vf k v)) mks mrows" "set mks = fst ` set (mintMap m)"
    and move: "rows_of (\<lambda>k r. \<exists>o'. map_of (transferMap m) k = Some o' \<and> owned E w r (o', [])) tks trows" "set tks = fst ` set (transferMap m)"
    and burn: "\<And>k. k \<in> set (burnMap m) \<Longrightarrow> \<exists>b. fst k = BytesToHexWithPrefix b \<and> addr_of (fst k) = Inr b"
  shows "represents E w (delete_where (\<lambda>r. \<exists>k \<in> set (burnMap m). addr_of (fst k) = Inr (nft_CollectionAddr r) \<and> snd k = nft_TokenId r)
      (fold upsert_owner trows (insert_rows nft_key mrows t))) (ledger_of vf m L)"
proof -
  have "rel_option (owned E w) (row_at nft_key (insert_rows nft_key mrows t) (b, tok)) (base_of vf m L (BytesToHexWithPrefix b, tok))" for b tok
  proof (cases "L (BytesToHexWithPrefix b, tok)")
    case (Some x)
    then show ?thesis using L by (auto simp: represents_def base_of_def row_at_insert_rows option_rel_Some2 dest!: spec [of _ b] spec [of _ tok])
  next
    case None
    then have n: "row_at nft_key t (b, tok) = None" using L by (auto simp: represents_def dest!: spec [of _ b] spec [of _ tok])
    show ?thesis
    proof (cases "row_at nft_key mrows (b, tok)")
      case None
      then have "(BytesToHexWithPrefix b, tok) \<notin> fst ` set (mintMap m)" using rows_of_at(1) [OF mint(1)] mint(2) by simp
      then have "map_of (mintMap m) (BytesToHexWithPrefix b, tok) = None" by (simp add: map_of_eq_None_iff)
      with None n \<open>L _ = None\<close> show ?thesis by (simp add: base_of_def row_at_insert_rows)
    next
      case (Some r)
      with rows_of_at(2) [OF mint(1) Some] n \<open>L _ = None\<close> show ?thesis by (auto simp: base_of_def row_at_insert_rows)
    qed
  qed
  note base = this
  have moved: "rel_option (owned E w) (row_at nft_key (fold upsert_owner trows (insert_rows nft_key mrows t)) (b, tok))
      (case map_of (transferMap m) (BytesToHexWithPrefix b, tok) of
        Some o' \<Rightarrow> Some (o', case base_of vf m L (BytesToHexWithPrefix b, tok) of None \<Rightarrow> [] | Some (_, u) \<Rightarrow> u)
      | None \<Rightarrow> base_of vf m L (BytesToHexWithPrefix b, tok))" for b tok
  proof (cases "row_at nft_key trows (b, tok)")
    case None
    then have "(BytesToHexWithPrefix b, tok) \<notin> fst ` set (transferMap m)" using rows_of_at(1) [OF move(1)] move(2) by simp
    then have "map_of (transferMap m) (BytesToHexWithPrefix b, tok) = None" by (simp add: map_of_eq_None_iff)
    with None base [of b tok] show ?thesis by (simp add: row_at_upserts [OF rows_of_distinct [OF move(1)]])
  next
    case (Some r)
    from rows_of_at(2) [OF move(1) Some] obtain o' where o': "map_of (transferMap m) (BytesToHexWithPrefix b, tok) = Some o'"
      "owned E w r (o', [])" by blast
    have "rel_option (owned E w) (Some (case old of None \<Rightarrow> r | Some x \<Rightarrow> moved_to r x)) (Some (o', case x of None \<Rightarrow> [] | Some (_, u) \<Rightarrow> u))"
      if "rel_option (owned E w) old x" for old x
      using that o'(2) by (cases old; cases x) (auto simp: owned_def moved_to_def)
    from this [OF base [of b tok]] show ?thesis by (simp add: row_at_upserts [OF rows_of_distinct [OF move(1)]] Some o'(1))
  qed
  have del: "(\<exists>k \<in> set (burnMap m). addr_of (fst k) = Inr b \<and> snd k = tok) \<longleftrightarrow> (BytesToHexWithPrefix b, tok) \<in> set (burnMap m)" for b tok
    using burn by (force simp: inj_hex_prefix)
  have "row_at nft_key (delete_where (\<lambda>r. \<exists>k \<in> set (burnMap m). addr_of (fst k) = Inr (nft_CollectionAddr r) \<and> snd k = nft_TokenId r) u) (b, tok) =
      (if (BytesToHexWithPrefix b, tok) \<in> set (burnMap m) then None else row_at nft_key u (b, tok))" for u b tok
    using row_at_delete [of "\<lambda>j. \<exists>k \<in> set (burnMap m). addr_of (fst k) = Inr (fst j) \<and> snd k = snd j" u "(b, tok)"]
    by (simp add: nft_key_def del)
  with moved show ?thesis by (simp add: represents_def ledger_of_def)
qed


section \<open>The last statements of a block\<close>

lemma ignores_nft_rows [simp]: "ignores (nft_dict E) (\<lambda>w. t_nft (w_db w) = T)" "ignores (account_dict E) (\<lambda>w. t_nft (w_db w) = T)"
  by (simp_all add: ignores_def fault_free_def nft_dict_def account_dict_def)

lemma stable_nft_rows [simp]: "stable only_nc (\<lambda>w. t_nft (w_db w) = T)" "stable only_tn (\<lambda>w. t_nft (w_db w) = T)"
  by (simp_all add: stable_def fault_free_def only_tables)

lemma additive_nft [simp]: "additive ins_nft" "additive ins_nc"
  by (simp_all add: additive_def ins_nft_def ins_nc_def insert_rows_append)

text \<open>
  The rows a block inserts, moves and deletes, whatever the statements on collections and edges
  do in between.
\<close>

lemma nft_statements:
  assumes E: "nft_env_ok N" "env_ok E" "valid_config cfg" and d: "distinct burned"
    and s: "CreateInBatches cfg ins_nc cols w1 = (Inr (), w2)" "CreateInBatches cfg ins_nft mrows w2 = (Inr (), w3)"
      "upsert_transferred cfg trows w3 = (Inr (), w4)" "delete_burned E N addr_of burned w4 = (Inr (), w5)"
      "update_counts E cs w5 = (Inr (), w6)" "tx_nft_edges E N cfg h txs w6 = (Inr (), w7)" "Collect_pairs E N cfg block w7 = (Inr (), w8)"
  shows "t_nft (w_db w8) = delete_where (\<lambda>r. \<exists>k \<in> set burned. addr_of (fst k) = Inr (nft_CollectionAddr r) \<and> snd k = nft_TokenId r)
      (fold upsert_owner trows (insert_rows nft_key mrows (t_nft (w_db w1))))"
    and "set (t_account_dict (w_db w1)) \<subseteq> set (t_account_dict (w_db w8))"
proof -
  have "w_db w2 = ins_nc cols (w_db w1)" by (rule hoareD [OF hoare_batches [OF E(3) additive_nft(2)] refl s(1)])
  moreover have "w_db w3 = ins_nft mrows (w_db w2)" by (rule hoareD [OF hoare_batches [OF E(3) additive_nft(1)] refl s(2)])
  ultimately have t5: "t_nft (w_db w5) = delete_where (\<lambda>r. \<exists>k \<in> set burned. addr_of (fst k) = Inr (nft_CollectionAddr r) \<and> snd k = nft_TokenId r)
      (fold upsert_owner trows (insert_rows nft_key mrows (t_nft (w_db w1))))"
    and a5: "t_account_dict (w_db w5) = t_account_dict (w_db w1)"
    using upsert_transferred_db [OF E(3) s(3)] delete_burned_db [OF E(1,2) d s(4)] by (simp_all add: ins_nc_def ins_nft_def)
  have "t_nft (w_db w6) = t_nft (w_db w5)" by (rule keepsD [OF keeps_update_counts [OF stable_nft_rows(1)] refl s(5)])
  moreover have "t_nft (w_db w7) = t_nft (w_db w6)"
    by (rule keepsD [OF keeps_tx_nft_edges [OF ignores_nft_rows(1) stable_nft_rows(2)] refl s(6)])
  moreover have "t_nft (w_db w8) = t_nft (w_db w7)" by (rule keepsD [OF keeps_pairs [OF stable_nft_rows(1)] refl s(7)])
  ultimately show "t_nft (w_db w8) = delete_where (\<lambda>r. \<exists>k \<in> set burned. addr_of (fst k) = Inr (nft_CollectionAddr r) \<and> snd k = nft_TokenId r)
      (fold upsert_owner trows (insert_rows nft_key mrows (t_nft (w_db w1))))" using t5 by simp
  note k = keeps_apart [OF apart_grows [where T = "t_account_dict (w_db w1)"]]
  have "set (t_account_dict (w_db w1)) \<subseteq> set (t_account_dict (w_db w5))" by (simp add: a5)
  from keepsD [OF k(5) keepsD [OF k(6) keepsD [OF k(4) this s(5)] s(6)] s(7)]
  show "set (t_account_dict (w_db w1)) \<subseteq> set (t_account_dict (w_db w8))" .
qed


section \<open>Running a block\<close>

lemma take_cached_Inr:
  "take_cached get put h w = (Inr c, w') \<Longrightarrow> get w h = Some c \<and> w' = put ((get w)(h := None)) w"
  by (auto simp: take_cached_def Let_def split: option.splits)

lemma bndE: "bnd m f s = (Inr y, u) \<Longrightarrow> (\<And>x t. m s = (Inr x, t) \<Longrightarrow> f x t = (Inr y, u) \<Longrightarrow> P) \<Longrightarrow> P"
  by (auto simp: bnd_eq_Inr)

lemma bndUnitE: "bnd m f s = (Inr y, u) \<Longrightarrow> (\<And>t. m s = (Inr (), t) \<Longrightarrow> f () t = (Inr y, u) \<Longrightarrow> P) \<Longrightarrow> P"
  by (auto simp: bnd_eq_Inr)

lemma bndLiftE: "bnd (lift_res r) f s = (Inr y, u) \<Longrightarrow> (\<And>x. r = Inr x \<Longrightarrow> f x s = (Inr y, u) \<Longrightarrow> P) \<Longrightarrow> P"
  by (auto simp: bnd_eq_Inr)


section \<open>A block and the ledger\<close>

text \<open>
  The operations of a block are legal, do not mint a token that was there before, and name their
  collections by hex addresses with the prefix \<open>0x\<close>.
\<close>

definition block_ok :: "(NftKey \<Rightarrow> 'v \<Rightarrow> string \<times> string) \<Rightarrow> ledger \<Rightarrow> (string \<times> 'v nft_op) list \<Rightarrow> bool" where
  "block_ok vf L ps \<longleftrightarrow> legal vf L (map snd ps) \<and> fresh_mints L (map snd ps) \<and>
     (\<forall>op \<in> snd ` set ps. \<exists>b. fst (op_nft op) = BytesToHexWithPrefix b)"

definition maps_of :: "(string \<times> 'v nft_op) list \<Rightarrow> 'v nft_maps" where
  "maps_of ps = fold track_in ps no_nfts"

lemma maps_of_wf: "maps_wf (maps_of ps)" and maps_of_from: "maps_from ps (maps_of ps)"
  by (simp_all add: maps_of_def maps_wf_fold maps_from_ops)

lemma maps_of_key: "block_ok vf L ps \<Longrightarrow> k \<in> nft_keys (maps_of ps) \<Longrightarrow> \<exists>b. fst k = BytesToHexWithPrefix b"
proof -
  assume a: "block_ok vf L ps" "k \<in> nft_keys (maps_of ps)"
  have "\<forall>op \<in> snd ` set ps. \<exists>b. fst (op_nft op) = BytesToHexWithPrefix b" using a(1) unfolding block_ok_def by (elim conjE)
  with a(2) nft_keys_fold [of ps no_nfts] show ?thesis by (auto simp: maps_of_def)
qed

lemma maps_of_keys:
  assumes "nft_env_ok N"
  shows "distinct (key_order N (map_keys (mintMap (maps_of ps))))" "distinct (key_order N (map_keys (transferMap (maps_of ps))))"
    "set (key_order N (map_keys (mintMap (maps_of ps)))) = fst ` set (mintMap (maps_of ps))"
    "set (key_order N (map_keys (transferMap (maps_of ps)))) = fst ` set (transferMap (maps_of ps))" "distinct (burnMap (maps_of ps))"
  using maps_of_wf [of ps] by (simp_all add: maps_wf_def set_key_order [OF assms] distinct_key_order [OF assms])

lemma list_all2_set1: "list_all2 R xs ys \<Longrightarrow> (\<And>x y. x \<in> set xs \<Longrightarrow> R x y \<Longrightarrow> Q x y) \<Longrightarrow> list_all2 Q xs ys"
  by (erule list.rel_mono_strong) simp

text \<open>The rows of the keys of a map, when each is the row of its key's owner.\<close>

lemma rows_of_map:
  assumes ok: "block_ok vf L ps" and ks: "distinct ks" "set ks = fst ` set mp" "fst ` set mp \<subseteq> nft_keys (maps_of ps)"
    and rows: "list_all2 F ks rows"
    and F: "\<And>k v b r. map_of mp k = Some v \<Longrightarrow> fst k = BytesToHexWithPrefix b \<Longrightarrow> F k r \<Longrightarrow> named k r \<and> owned E w r (g k v)"
  shows "rows_of (\<lambda>k r. \<exists>v. map_of mp k = Some v \<and> owned E w r (g k v)) ks rows"
  unfolding rows_of_def
proof (intro conjI ks(1) list_all2_set1 [OF rows])
  fix k r assume k: "k \<in> set ks" and r: "F k r"
  from k ks(2) obtain v where v: "map_of mp k = Some v" by (auto simp: map_of_key)
  obtain b where "fst k = BytesToHexWithPrefix b" using maps_of_key [OF ok] k ks(2,3) by blast
  from F [OF v this r] show "named k r" "\<exists>v. map_of mp k = Some v \<and> owned E w r (g k v)" using v by blast+
qed

lemma keys_in_maps: "fst ` set (mintMap m) \<subseteq> nft_keys m" "fst ` set (transferMap m) \<subseteq> nft_keys m" "set (burnMap m) \<subseteq> nft_keys m"
  by (auto simp: nft_keys_def)

text \<open>The statements of a block take the ledger from before its operations to after them.\<close>

lemma block_ledger:
  fixes ps :: "(string \<times> 'v nft_op) list" and N :: nft_env
  defines "m \<equiv> maps_of ps"
  assumes E: "nft_env_ok N" "env_ok E" "valid_config cfg" and ok: "block_ok vf L ps"
    and L: "represents E w t L" and w1: "t_nft (w_db w1) = t" "set (t_account_dict (w_db w)) \<subseteq> set (t_account_dict (w_db w1))"
    and s: "CreateInBatches cfg ins_nc cols w1 = (Inr (), w2)" "CreateInBatches cfg ins_nft mrows w2 = (Inr (), w3)"
      "upsert_transferred cfg trows w3 = (Inr (), w4)" "delete_burned E N addr_of (burnMap m) w4 = (Inr (), w5)"
      "update_counts E cs w5 = (Inr (), w6)" "tx_nft_edges E N cfg h txs w6 = (Inr (), w7)" "Collect_pairs E N cfg block w7 = (Inr (), w8)"
    and mint: "rows_of (\<lambda>k r. \<exists>v. map_of (mintMap m) k = Some v \<and> owned E w8 r (vf k v)) mks mrows" "set mks = fst ` set (mintMap m)"
    and move: "rows_of (\<lambda>k r. \<exists>o'. map_of (transferMap m) k = Some o' \<and> owned E w8 r (o', [])) tks trows" "set tks = fst ` set (transferMap m)"
    and addr: "\<And>k b. k \<in> set (burnMap m) \<Longrightarrow> fst k = BytesToHexWithPrefix b \<Longrightarrow> addr_of (fst k) = Inr b"
  shows "represents E w8 (t_nft (w_db w8)) (fold (ledger_step vf) (map snd ps) L)"
proof -
  have "distinct (burnMap m)" using maps_of_wf [of ps] by (simp add: maps_wf_def m_def)
  note st = nft_statements [OF E this s]
  have "set (t_account_dict (w_db w)) \<subseteq> set (t_account_dict (w_db w8))" using w1(2) st(2) by blast
  note L' = represents_mono [OF this L]
  have burn: "\<exists>b. fst k = BytesToHexWithPrefix b \<and> addr_of (fst k) = Inr b" if k: "k \<in> set (burnMap m)" for k
  proof -
    obtain b where "fst k = BytesToHexWithPrefix b" using maps_of_key [OF ok] keys_in_maps(3) k unfolding m_def by blast
    with addr [OF k] show ?thesis by blast
  qed
  have "represents E w8 (t_nft (w_db w8)) (ledger_of vf m L)"
    unfolding st(1) w1(1) by (rule represents_block [OF L' mint move burn])
  moreover have "ledger_of vf m L = fold (ledger_step vf) (map snd ps) L"
    unfolding m_def maps_of_def by (rule maps_give_ledger) (use ok in \<open>simp_all add: block_ok_def\<close>)
  ultimately show ?thesis by simp
qed

end
