(* ===== verification/Wasm_Nft.thy ===== *)
theory Wasm_Nft
  imports Nft_Common
begin

text \<open>The NFT submodule of a Wasm chain: \<open>src/indexer/collector/wasm-nft\<close>.\<close>

section \<open>Prepare: prepare.go\<close>

definition IsValidCollectionEvent :: "(string \<rightharpoonup> string) \<Rightarrow> bool" where
  "IsValidCollectionEvent attrMap \<longleftrightarrow>
     attrMap ''minter'' \<noteq> None \<and> (attrMap ''creator'' \<noteq> None \<or> attrMap ''owner'' \<noteq> None)"

definition filterCollectionAddrs :: "env \<Rightarrow> ScrapedBlock \<Rightarrow> string list" where
  "filterCollectionAddrs E block =
     (case ExtractEvents E block ''wasm'' of
        Inl e \<Rightarrow> []
      | Inr events \<Rightarrow> fold (\<lambda>p addrs. case pe_AttrMap p ''_contract_address'' of
            None \<Rightarrow> addrs
          | Some c \<Rightarrow> if IsValidCollectionEvent (pe_AttrMap p) then key_put c addrs else addrs) events [])"

text \<open>\<open>parseErrRegex\<close>: a type name without a colon between two fixed texts, anywhere in the error.\<close>

definition parse_err_at :: "string \<Rightarrow> bool" where
  "parse_err_at s \<longleftrightarrow> has_prefix s ''Error parsing into type '' \<and>
     (let rest = drop (length ''Error parsing into type '') s; name = takeWhile (\<lambda>c. c \<noteq> CHR '':'') rest in
      name \<noteq> [] \<and> has_prefix (drop (length name) rest) ''::msg::QueryMsg: unknown variant'')"

fun parse_err_in :: "string \<Rightarrow> bool" where
  "parse_err_in [] \<longleftrightarrow> False"
| "parse_err_in (c # s) \<longleftrightarrow> parse_err_at (c # s) \<or> parse_err_in s"

text \<open>The querier's two requests (\<open>src/util/querier/wasm.go\<close>): the name of the collection and its creator.\<close>

definition GetCollectionData :: "nft_env \<Rightarrow> string \<Rightarrow> int \<Rightarrow> err + string \<times> string" where
  "GetCollectionData N addr height =
     (case query_contract_info N addr height of
        Inl e \<Rightarrow> Inl (Wrapped ''failed to query contract info'' e)
      | Inr name \<Rightarrow> (case query_wasm_contract N addr height of
            Inl e \<Rightarrow> Inl (Wrapped ''failed to query wasm contract info'' e)
          | Inr creator \<Rightarrow> Inr (name, creator)))"

text \<open>
  The goroutines of an \<open>errgroup\<close> without a context all run to their end, in an order of the
  runtime, and the first error is returned. The querier is a pointer of the submodule, which
  \<open>New\<close> leaves \<open>nil\<close>; a method that reads a field of a \<open>nil\<close> pointer panics.
\<close>

definition New_wasm_querier :: "nft_env option" where
  "New_wasm_querier = None"

definition fetch_collection :: "nft_env \<Rightarrow> nft_env option \<Rightarrow> int \<Rightarrow> string \<Rightarrow>
    (string, CollectionInfo) gomap \<times> err option \<Rightarrow> (world, (string, CollectionInfo) gomap \<times> err option) act" where
  "fetch_collection N q height addr = (\<lambda>(colInfos, first).
     bnd (IsBlacklisted addr) (\<lambda>black. if black then ret (colInfos, first)
     else case q of
       None \<Rightarrow> throw (Panic ''nil pointer dereference'')
     | Some Q \<Rightarrow> (case GetCollectionData Q addr height of
           Inr (name, creator) \<Rightarrow> ret (map_put addr \<lparr>ci_Name = name, ci_Creator = creator\<rparr> colInfos, first)
         | Inl e \<Rightarrow> if parse_err_in (err_text N e) then bnd (AddToBlacklist N addr) (\<lambda>_. ret (colInfos, first))
                  else ret (colInfos, if first = None then Some e else first))))"

definition prepare_wasm :: "nft_env option \<Rightarrow> nft_env \<Rightarrow> env \<Rightarrow> ScrapedBlock \<Rightarrow> (world, unit) act" where
  "prepare_wasm q N E block =
     bnd (foreach (fetch_collection N q (sb_Height block)) (map_order E (filterCollectionAddrs E block)) ([], None)) (\<lambda>(colInfos, first).
     case first of
       Some e \<Rightarrow> throw e
     | None \<Rightarrow> modify (\<lambda>w. w\<lparr>wasmNftCache := (wasmNftCache w)(sb_Height block \<mapsto> colInfos)\<rparr>))"


section \<open>Collect: collect.go\<close>

text \<open>One event: a mint with its owner and token URI, a transfer, or a burn.\<close>

definition wasm_event :: "env \<Rightarrow> ParsedEvent \<Rightarrow> (string \<times> string) nft_maps \<Rightarrow> err + (string \<times> string) nft_maps" where
  "wasm_event E p m =
     (let attr = pe_AttrMap p in
      case attr ''_contract_address'' of
        None \<Rightarrow> Inr m
      | Some c \<Rightarrow> rbind (AccAddressFromString (from_bech32 E) c) (\<lambda>b.
          let collectionAddr = BytesToHexWithPrefix b in
          case attr ''action'' of
            None \<Rightarrow> Inr m
          | Some action \<Rightarrow>
              if action = ''mint'' then
                (case (attr ''token_id'', attr ''owner'') of
                   (Some tok, Some ownr) \<Rightarrow>
                     Inr (touch_nft (pe_TxHash p) (collectionAddr, tok) (mint_nft (collectionAddr, tok)
                       (ownr, case attr ''token_uri'' of None \<Rightarrow> [] | Some u \<Rightarrow> u) m))
                 | _ \<Rightarrow> Inr m)
              else if action = ''transfer_nft'' \<or> action = ''send_nft'' then
                (case (attr ''token_id'', attr ''recipient'') of
                   (Some tok, Some recipient) \<Rightarrow>
                     Inr (touch_nft (pe_TxHash p) (collectionAddr, tok) (transfer_nft (collectionAddr, tok) recipient m))
                 | _ \<Rightarrow> Inr m)
              else if action = ''burn'' then
                (case attr ''token_id'' of
                   Some tok \<Rightarrow> Inr (touch_nft (pe_TxHash p) (collectionAddr, tok) (burn_nft (collectionAddr, tok) m))
                 | None \<Rightarrow> Inr m)
              else Inr m))"

definition wasm_addresses :: "env \<Rightarrow> nft_env \<Rightarrow> (string, CollectionInfo) gomap \<Rightarrow> (string \<times> string) nft_maps \<Rightarrow> string list" where
  "wasm_addresses E N colInfos m =
     map (\<lambda>c. ci_Creator (map_get colInfos c \<lparr>ci_Name = [], ci_Creator = []\<rparr>)) (map_order E (map_keys colInfos)) @
     map (\<lambda>k. fst (map_get (mintMap m) k ([], []))) (key_order N (map_keys (mintMap m))) @
     map (\<lambda>k. map_get (transferMap m) k []) (key_order N (map_keys (transferMap m)))"

definition wasm_collection :: "env \<Rightarrow> ScrapedBlock \<Rightarrow> (string \<rightharpoonup> int) \<Rightarrow> (string, CollectionInfo) gomap \<Rightarrow> string \<Rightarrow>
    err + CollectedNftCollection" where
  "wasm_collection E block ids colInfos c =
     (let info = map_get colInfos c \<lparr>ci_Name = [], ci_Creator = []\<rparr> in
      rbind (AccAddressFromString (from_bech32 E) c) (\<lambda>addrBytes.
      Inr \<lparr>nc_Addr = addrBytes, nc_Height = sb_Height block, nc_Timestamp = sb_Timestamp block, nc_Name = ci_Name info,
           nc_OriginName = [], nc_CreatorId = id_of ids (ci_Creator info), nc_NftCount = 0\<rparr>))"

definition wasm_minted :: "env \<Rightarrow> ScrapedBlock \<Rightarrow> (string \<rightharpoonup> int) \<Rightarrow> (NftKey, string \<times> string) gomap \<Rightarrow> NftKey \<Rightarrow> err + CollectedNft" where
  "wasm_minted E block ids minted k =
     rbind (AccAddressFromString (from_bech32 E) (fst k)) (\<lambda>collectionAddr.
     let (ownr, uri) = map_get minted k ([], []) in
     Inr \<lparr>nft_CollectionAddr = collectionAddr, nft_TokenId = snd k, nft_Addr = [], nft_Height = sb_Height block,
          nft_Timestamp = sb_Timestamp block, nft_OwnerId = id_of ids ownr, nft_Uri = uri\<rparr>)"

definition wasm_transferred :: "env \<Rightarrow> ScrapedBlock \<Rightarrow> (string \<rightharpoonup> int) \<Rightarrow> (NftKey, string) gomap \<Rightarrow> NftKey \<Rightarrow> err + CollectedNft" where
  "wasm_transferred E block ids transferred k =
     rbind (AccAddressFromString (from_bech32 E) (fst k)) (\<lambda>collectionAddr.
     Inr \<lparr>nft_CollectionAddr = collectionAddr, nft_TokenId = snd k, nft_Addr = [], nft_Height = sb_Height block,
          nft_Timestamp = sb_Timestamp block, nft_OwnerId = id_of ids (map_get transferred k []), nft_Uri = []\<rparr>)"

definition collect_wasm :: "nft_env \<Rightarrow> env \<Rightarrow> config \<Rightarrow> ScrapedBlock \<Rightarrow> (world, unit) act" where
  "collect_wasm N E cfg block =
     bnd (take_cached wasmNftCache (\<lambda>c w. w\<lparr>wasmNftCache := c\<rparr>) (sb_Height block)) (\<lambda>colInfos.
     bnd (lift_res (ExtractEvents E block ''wasm'')) (\<lambda>events.
     bnd (lift_res (rfold (wasm_event E) events no_nfts)) (\<lambda>m.
     bnd (GetOrCreateAccountIds E (wasm_addresses E N colInfos m) True) (\<lambda>ids.
     bnd (lift_res (map_res (wasm_collection E block ids colInfos) (map_order E (map_keys colInfos)))) (\<lambda>createdCols.
     bnd (CreateInBatches cfg ins_nc createdCols) (\<lambda>_.
     bnd (lift_res (map_res (wasm_minted E block ids (mintMap m)) (key_order N (map_keys (mintMap m))))) (\<lambda>mintedNfts.
     bnd (CreateInBatches cfg ins_nft mintedNfts) (\<lambda>_.
     bnd (lift_res (map_res (wasm_transferred E block ids (transferMap m)) (key_order N (map_keys (transferMap m))))) (\<lambda>transferredNfts.
     bnd (upsert_transferred cfg transferredNfts) (\<lambda>_.
     bnd (delete_burned E N (AccAddressFromString (from_bech32 E)) (burnMap m)) (\<lambda>_.
     bnd (update_counts E (updateCountMap m)) (\<lambda>_.
     bnd (tx_nft_edges E N cfg (sb_Height block) (nftTxMap m)) (\<lambda>_.
     Collect_pairs E N cfg block)))))))))))))"

end
