(* ===== verification/Evm_Nft.thy ===== *)
theory Evm_Nft
  imports Nft_Common
begin

text \<open>The NFT submodule of an EVM chain: \<open>src/indexer/collector/evm-nft\<close>.\<close>

section \<open>Logs: util.go\<close>

definition EvmEmptyAddress :: string where
  "EvmEmptyAddress = ''0x'' @ replicate 64 (CHR ''0'')"

definition EvmTransferTopic :: string where
  "EvmTransferTopic = ''0xddf252ad1be2c89b69c2b068fc378daa952ba7f163c4a11628f55a4df523b3ef''"

definition isEvmNftLog :: "string list \<Rightarrow> string \<Rightarrow> bool" where
  "isEvmNftLog topics data \<longleftrightarrow> length topics = 4 \<and> topics ! 0 = EvmTransferTopic \<and> data = ''0x''"

definition convertHexStringToDecString :: "string \<Rightarrow> err + string" where
  "convertHexStringToDecString hex =
     (case big_hex (trim_prefix hex ''0x'') of
        None \<Rightarrow> Inl (Err ''failed to convert hex to dec'')
      | Some n \<Rightarrow> Inr (Itoa n))"

fun contains :: "string \<Rightarrow> string \<Rightarrow> bool" where
  "contains [] sub \<longleftrightarrow> sub = []"
| "contains (c # s) sub \<longleftrightarrow> has_prefix (c # s) sub \<or> contains s sub"

definition isEvmRevertError :: "nft_env \<Rightarrow> err \<Rightarrow> bool" where
  "isEvmRevertError N e \<longleftrightarrow> contains (err_text N e) ''Reverted''"

text \<open>
  Who created a collection and when, as far as the database tells: the signer, height and block
  time of the first stored transaction that has an edge to the contract.
\<close>

record CollectionCreationInfo =
  cc_Height :: int
  cc_Timestamp :: int
  cc_Creator :: string

definition getCollectionCreationInfo :: "env \<Rightarrow> string \<Rightarrow> string \<Rightarrow> (world, CollectionCreationInfo) act" where
  "getCollectionCreationInfo E chainId addr =
     bnd (lift_res (AccAddressFromString (from_bech32 E) addr)) (\<lambda>bechAddr.
     bnd (first_row (\<lambda>d. filter (\<lambda>r. snd r = bechAddr) (t_account_dict d))) (\<lambda>accountDict.
     bnd (first_row (\<lambda>d. order_asc ta_Sequence (filter (\<lambda>r. ta_AccountId r = fst accountDict) (t_tx_accounts d)))) (\<lambda>ctxa.
     bnd (first_row (\<lambda>d. filter (\<lambda>r. tx_Sequence r = ta_Sequence ctxa) (t_tx d))) (\<lambda>ctx.
     bnd (first_row (\<lambda>d. filter (\<lambda>r. fst r = tx_SignerId ctx) (t_account_dict d))) (\<lambda>signerAccount.
     bnd (first_row (\<lambda>d. filter (\<lambda>r. blk_ChainId r = chainId \<and> blk_Height r = tx_Height ctx) (t_block d))) (\<lambda>block.
     ret \<lparr>cc_Height = tx_Height ctx, cc_Timestamp = blk_Timestamp block, cc_Creator = to_bech32 E (snd signerAccount)\<rparr>))))))"


section \<open>Prepare: prepare.go\<close>

text \<open>The tokens minted in a block and not burned after that, by collection.\<close>

definition filter_log :: "env \<Rightarrow> nft_env \<Rightarrow> attribute \<Rightarrow> (string, string list) gomap \<Rightarrow> err + (string, string list) gomap" where
  "filter_log E N attr targets =
     (if akey attr \<noteq> ''log'' then Inr targets
      else rbind (unmarshal_log E (aval attr)) (\<lambda>(address, topics).
        if \<not> isEvmNftLog topics (log_Data N (aval attr)) then Inr targets
        else rbind (convertHexStringToDecString (topics ! 3)) (\<lambda>tokenId.
          let collectionAddr = to_lower address; from = topics ! 1; to = topics ! 2; tokens = map_get targets collectionAddr [] in
          if from = EvmEmptyAddress \<and> to \<noteq> EvmEmptyAddress then Inr (map_put collectionAddr (key_put tokenId tokens) targets)
          else if from \<noteq> EvmEmptyAddress \<and> to = EvmEmptyAddress \<and> map_of targets collectionAddr \<noteq> None then
            Inr (map_put collectionAddr (removeAll tokenId tokens) targets)
          else Inr targets)))"

definition filterEvmData :: "env \<Rightarrow> nft_env \<Rightarrow> ScrapedBlock \<Rightarrow> err + (string, string list) gomap" where
  "filterEvmData E N block =
     rbind (ExtractEvents E block ''evm'') (\<lambda>events.
     rfold (\<lambda>p. rfold (filter_log E N) (eattrs (pe_Event p))) events [])"

text \<open>The goroutines all run to their end; the first error is returned.\<close>

definition fetch_uri :: "nft_env \<Rightarrow> int \<Rightarrow> string \<Rightarrow> string \<Rightarrow> EvmNftData \<times> err option \<Rightarrow> EvmNftData \<times> err option" where
  "fetch_uri N height addr tok = (\<lambda>(data, first).
     case query_token_uri N addr tok height of
       Inr uri \<Rightarrow> (let uris = (case en_TokenUris data addr of None \<Rightarrow> Map.empty | Some m \<Rightarrow> m) in
           (data\<lparr>en_TokenUris := (en_TokenUris data)(addr \<mapsto> uris(tok \<mapsto> uri))\<rparr>, first))
     | Inl e \<Rightarrow> (data, if isEvmRevertError N e \<or> first \<noteq> None then first else Some e))"

definition fetch_names :: "env \<Rightarrow> nft_env \<Rightarrow> int \<Rightarrow> (string, string list) gomap \<Rightarrow> string \<Rightarrow> EvmNftData \<times> err option \<Rightarrow>
    (world, EvmNftData \<times> err option) act" where
  "fetch_names E N height targets addr = (\<lambda>(data, first).
     bnd (IsBlacklisted addr) (\<lambda>black. if black then ret (data, first)
     else bnd (case query_collection_name N addr height of
          Inr name \<Rightarrow> ret (data\<lparr>en_ColNames := (en_ColNames data)(addr \<mapsto> name)\<rparr>, first)
        | Inl e \<Rightarrow> if isEvmRevertError N e then bnd (AddToBlacklist N addr) (\<lambda>_. ret (data, first))
            else ret (data, if first = None then Some e else first)) (\<lambda>acc.
       ret (fold (fetch_uri N height addr) (map_order E (map_get targets addr [])) acc))))"

definition prepare_evm :: "env \<Rightarrow> nft_env \<Rightarrow> ScrapedBlock \<Rightarrow> (world, unit) act" where
  "prepare_evm E N block =
     bnd (lift_res (filterEvmData E N block)) (\<lambda>targets.
     bnd (foreach (fetch_names E N (sb_Height block) targets) (map_order E (map_keys targets))
           (\<lparr>en_ColNames = Map.empty, en_TokenUris = Map.empty\<rparr>, None)) (\<lambda>(data, first).
     case first of
       Some e \<Rightarrow> throw e
     | None \<Rightarrow> modify (\<lambda>w. w\<lparr>evmNftCache := (evmNftCache w)(sb_Height block \<mapsto> data)\<rparr>)))"


section \<open>Collect: collect.go\<close>

text \<open>One log: a mint has no sender, a burn no receiver, a transfer both.\<close>

definition evm_log :: "env \<Rightarrow> nft_env \<Rightarrow> string \<Rightarrow> attribute \<Rightarrow> string nft_maps \<Rightarrow> err + string nft_maps" where
  "evm_log E N txHash attr m =
     (if akey attr \<noteq> ''log'' then Inr m
      else rbind (unmarshal_log E (aval attr)) (\<lambda>(address, topics).
        if \<not> isEvmNftLog topics (log_Data N (aval attr)) then Inr m
        else let collectionAddr = to_lower address; from = topics ! 1; to = topics ! 2 in
          rbind (AccAddressFromString (from_bech32 E) to) (\<lambda>toAddr.
          rbind (convertHexStringToDecString (topics ! 3)) (\<lambda>tokenId.
          let key = (collectionAddr, tokenId) in
          if from = EvmEmptyAddress \<and> to \<noteq> EvmEmptyAddress then Inr (touch_nft txHash key (mint_nft key (to_bech32 E toAddr) m))
          else if from \<noteq> EvmEmptyAddress \<and> to \<noteq> EvmEmptyAddress then
            Inr (touch_nft txHash key (transfer_nft key (to_bech32 E toAddr) m))
          else if from \<noteq> EvmEmptyAddress \<and> to = EvmEmptyAddress then Inr (touch_nft txHash key (burn_nft key m))
          else Inr m))))"

definition evm_event :: "env \<Rightarrow> nft_env \<Rightarrow> ParsedEvent \<Rightarrow> string nft_maps \<Rightarrow> err + string nft_maps" where
  "evm_event E N p = rfold (evm_log E N (pe_TxHash p)) (eattrs (pe_Event p))"

definition parse_owner :: "env \<Rightarrow> string \<Rightarrow> err + string" where
  "parse_owner E ownr = rbind (AccAddressFromString (from_bech32 E) ownr) (\<lambda>b. Inr (to_bech32 E b))"

definition evm_addresses_of :: "env \<Rightarrow> nft_env \<Rightarrow> string nft_maps \<Rightarrow> err + string list" where
  "evm_addresses_of E N m =
     rbind (map_res (\<lambda>k. parse_owner E (map_get (mintMap m) k [])) (key_order N (map_keys (mintMap m)))) (\<lambda>owners.
     rbind (map_res (\<lambda>k. parse_owner E (map_get (transferMap m) k [])) (key_order N (map_keys (transferMap m)))) (\<lambda>receivers.
     Inr (owners @ receivers)))"

definition evm_creation :: "env \<Rightarrow> ScrapedBlock \<Rightarrow> EvmNftData \<Rightarrow> string \<Rightarrow> (string \<rightharpoonup> CollectionCreationInfo) \<times> string list \<Rightarrow>
    (world, (string \<rightharpoonup> CollectionCreationInfo) \<times> string list) act" where
  "evm_creation E block data c = (\<lambda>(infos, addrs).
     case en_ColNames data c of
       None \<Rightarrow> bnd (IsBlacklisted c) (\<lambda>black. if black then ret (infos, addrs) else throw (NotFoundErr ''collection name info''))
     | Some name \<Rightarrow> bnd (getCollectionCreationInfo E (sb_ChainId block) c) (\<lambda>info.
         ret (infos(c \<mapsto> info), addrs @ [cc_Creator info])))"

definition evm_minted :: "env \<Rightarrow> ScrapedBlock \<Rightarrow> EvmNftData \<Rightarrow> (string \<rightharpoonup> int) \<Rightarrow> (NftKey, string) gomap \<Rightarrow> byte list \<Rightarrow>
    NftKey \<Rightarrow> err + CollectedNft" where
  "evm_minted E block data ids minted addrBytes k =
     rbind (parse_owner E (map_get minted k [])) (\<lambda>ownr.
     Inr \<lparr>nft_CollectionAddr = addrBytes, nft_TokenId = snd k, nft_Addr = [], nft_Height = sb_Height block,
          nft_Timestamp = sb_Timestamp block, nft_OwnerId = id_of ids ownr,
          nft_Uri = (case en_TokenUris data (fst k) of None \<Rightarrow> [] | Some uris \<Rightarrow> (case uris (snd k) of None \<Rightarrow> [] | Some u \<Rightarrow> u))\<rparr>)"

definition evm_collection :: "env \<Rightarrow> ScrapedBlock \<Rightarrow> EvmNftData \<Rightarrow> (string \<rightharpoonup> int) \<Rightarrow> (NftKey, string) gomap \<Rightarrow>
    (string \<rightharpoonup> CollectionCreationInfo) \<Rightarrow> (string, string list) gomap \<Rightarrow> string \<Rightarrow>
    CollectedNftCollection list \<times> CollectedNft list \<Rightarrow> (world, CollectedNftCollection list \<times> CollectedNft list) act" where
  "evm_collection E block data ids minted infos groups c = (\<lambda>(cols, nfts).
     case en_ColNames data c of
       None \<Rightarrow> bnd (IsBlacklisted c) (\<lambda>_. ret (cols, nfts))
     | Some name \<Rightarrow>
         bnd (lift_res (HexToBytes c)) (\<lambda>addrBytes.
         let info = (case infos c of None \<Rightarrow> \<lparr>cc_Height = 0, cc_Timestamp = 0, cc_Creator = []\<rparr> | Some i \<Rightarrow> i) in
         bnd (lift_res (map_res (\<lambda>t. evm_minted E block data ids minted addrBytes (c, t)) (map_get groups c []))) (\<lambda>rows.
         ret (cols @ [\<lparr>nc_Addr = addrBytes, nc_Height = cc_Height info, nc_Timestamp = cc_Timestamp info, nc_Name = name,
                nc_OriginName = [], nc_CreatorId = id_of ids (cc_Creator info), nc_NftCount = 0\<rparr>], nfts @ rows))))"

definition evm_transferred :: "env \<Rightarrow> ScrapedBlock \<Rightarrow> (string \<rightharpoonup> int) \<Rightarrow> (NftKey, string) gomap \<Rightarrow> NftKey \<Rightarrow> err + CollectedNft" where
  "evm_transferred E block ids transferred k =
     rbind (HexToBytes (fst k)) (\<lambda>addrBytes.
     rbind (parse_owner E (map_get transferred k [])) (\<lambda>ownr.
     Inr \<lparr>nft_CollectionAddr = addrBytes, nft_TokenId = snd k, nft_Addr = [], nft_Height = sb_Height block,
          nft_Timestamp = sb_Timestamp block, nft_OwnerId = id_of ids ownr, nft_Uri = []\<rparr>))"

definition collect_evm_nft :: "nft_env \<Rightarrow> env \<Rightarrow> config \<Rightarrow> ScrapedBlock \<Rightarrow> (world, unit) act" where
  "collect_evm_nft N E cfg block =
     bnd (take_cached evmNftCache (\<lambda>c w. w\<lparr>evmNftCache := c\<rparr>) (sb_Height block)) (\<lambda>data.
     bnd (lift_res (ExtractEvents E block ''evm'')) (\<lambda>events.
     bnd (lift_res (rfold (evm_event E N) events no_nfts)) (\<lambda>m.
     let groups = group_tokens (key_order N (map_keys (mintMap m))) in
     bnd (lift_res (evm_addresses_of E N m)) (\<lambda>owners.
     bnd (foreach (evm_creation E block data) (map_order E (map_keys groups)) (Map.empty, owners)) (\<lambda>(infos, allAddresses).
     bnd (GetOrCreateAccountIds E allAddresses True) (\<lambda>ids.
     bnd (foreach (evm_collection E block data ids (mintMap m) infos groups) (map_order E (map_keys groups)) ([], [])) (\<lambda>(mintedCols, mintedNfts).
     bnd (CreateInBatches cfg ins_nc mintedCols) (\<lambda>_.
     bnd (CreateInBatches cfg ins_nft mintedNfts) (\<lambda>_.
     bnd (lift_res (map_res (evm_transferred E block ids (transferMap m)) (key_order N (map_keys (transferMap m))))) (\<lambda>transferredNfts.
     bnd (upsert_transferred cfg transferredNfts) (\<lambda>_.
     bnd (delete_burned E N HexToBytes (burnMap m)) (\<lambda>_.
     bnd (update_counts E (updateCountMap m)) (\<lambda>_.
     bnd (tx_nft_edges E N cfg (sb_Height block) (nftTxMap m)) (\<lambda>_.
     Collect_pairs E N cfg block))))))))))))))"

end
