(* ===== verification/Move_Nft.thy ===== *)
theory Move_Nft
  imports Nft_Common
begin

text \<open>The NFT submodule of a Move chain: \<open>src/indexer/collector/move-nft\<close>.\<close>

section \<open>Events and resources: types.go\<close>

definition dec_CreateCollectionEvent :: "json \<Rightarrow> string \<times> string \<times> string \<Rightarrow> err + string \<times> string \<times> string" where
  "dec_CreateCollectionEvent = dec_struct (\<lambda>kvs (collection, creator, name).
     rbind (dec_field ''collection'' dec_string kvs collection) (\<lambda>collection.
     rbind (dec_field ''creator'' dec_string kvs creator) (\<lambda>creator.
     rbind (dec_field ''name'' dec_string kvs name) (\<lambda>name. Inr (collection, creator, name)))))"

definition dec_NftMintAndBurnEvent :: "json \<Rightarrow> string \<times> string \<times> string \<Rightarrow> err + string \<times> string \<times> string" where
  "dec_NftMintAndBurnEvent = dec_struct (\<lambda>kvs (collection, index, nft).
     rbind (dec_field ''collection'' dec_string kvs collection) (\<lambda>collection.
     rbind (dec_field ''index'' dec_string kvs index) (\<lambda>index.
     rbind (dec_field ''nft'' dec_string kvs nft) (\<lambda>nft. Inr (collection, index, nft)))))"

definition dec_NftTransferEvent :: "json \<Rightarrow> string \<times> string \<times> string \<Rightarrow> err + string \<times> string \<times> string" where
  "dec_NftTransferEvent = dec_struct (\<lambda>kvs (object, from, to).
     rbind (dec_field ''object'' dec_string kvs object) (\<lambda>object.
     rbind (dec_field ''from'' dec_string kvs from) (\<lambda>from.
     rbind (dec_field ''to'' dec_string kvs to) (\<lambda>to. Inr (object, from, to)))))"

definition dec_NftMutationEvent :: "json \<Rightarrow> string \<times> string \<times> string \<times> string \<Rightarrow> err + string \<times> string \<times> string \<times> string" where
  "dec_NftMutationEvent = dec_struct (\<lambda>kvs (nft, field, old, new).
     rbind (dec_field ''nft'' dec_string kvs nft) (\<lambda>nft.
     rbind (dec_field ''mutated_field_name'' dec_string kvs field) (\<lambda>field.
     rbind (dec_field ''old_value'' dec_string kvs old) (\<lambda>old.
     rbind (dec_field ''new_value'' dec_string kvs new) (\<lambda>new. Inr (nft, field, old, new))))))"

text \<open>A resource: its type, and of its data the collection, the description, the token id and the URI.\<close>

record NftResource =
  nr_Type :: string
  nr_Inner :: string
  nr_Description :: string
  nr_TokenId :: string
  nr_Uri :: string

definition dec_NftResource :: "json \<Rightarrow> NftResource \<Rightarrow> err + NftResource" where
  "dec_NftResource = dec_struct (\<lambda>kvs r.
     rbind (dec_field ''type'' dec_string kvs (nr_Type r)) (\<lambda>ty.
     dec_field ''data'' (dec_struct (\<lambda>kvs r.
       rbind (dec_field ''collection'' (dec_struct (dec_field ''inner'' dec_string)) kvs (nr_Inner r)) (\<lambda>inner.
       rbind (dec_field ''description'' dec_string kvs (nr_Description r)) (\<lambda>description.
       rbind (dec_field ''token_id'' dec_string kvs (nr_TokenId r)) (\<lambda>tokenId.
       rbind (dec_field ''uri'' dec_string kvs (nr_Uri r)) (\<lambda>uri.
       Inr (r\<lparr>nr_Inner := inner, nr_Description := description, nr_TokenId := tokenId, nr_Uri := uri\<rparr>))))))) kvs (r\<lparr>nr_Type := ty\<rparr>)))"

definition Trim :: "NftResource \<Rightarrow> NftResource" where
  "Trim r = r\<lparr>nr_Inner := replace_all nul [] (nr_Inner r), nr_Description := replace_all nul [] (nr_Description r),
     nr_TokenId := replace_all nul [] (nr_TokenId r), nr_Uri := replace_all nul [] (nr_Uri r)\<rparr>"

definition no_resource :: NftResource where
  "no_resource = \<lparr>nr_Type = [], nr_Inner = [], nr_Description = [], nr_TokenId = [], nr_Uri = []\<rparr>"


section \<open>Prepare: prepare.go\<close>

definition filter_move :: "ParsedEvent \<Rightarrow> string list \<Rightarrow> err + string list" where
  "filter_move p addrs =
     (case (pe_AttrMap p ''type_tag'', pe_AttrMap p ''data'') of
        (Some typeTag, Some data) \<Rightarrow>
          if typeTag = ''0x1::collection::MintEvent'' then
            rbind (Unmarshal dec_NftMintAndBurnEvent data ([], [], [])) (\<lambda>(collection, index, nft). Inr (key_put nft addrs))
          else if typeTag = ''0x1::collection::BurnEvent'' then
            rbind (Unmarshal dec_NftMintAndBurnEvent data ([], [], [])) (\<lambda>(collection, index, nft). Inr (removeAll nft addrs))
          else Inr addrs
      | _ \<Rightarrow> Inr addrs)"

definition filterMoveData :: "env \<Rightarrow> ScrapedBlock \<Rightarrow> err + string list" where
  "filterMoveData E block =
     rbind (ExtractEvents E block ''move'') (\<lambda>events.
     rbind (rfold filter_move events []) (\<lambda>addrs. Inr (map_order E addrs)))"

text \<open>
  The goroutines of an \<open>errgroup\<close> with a context: the first error cancels the others and is
  returned. \<open>order\<close> is the order in which they end.
\<close>

definition prepare_move :: "(string list \<Rightarrow> string list) \<Rightarrow> env \<Rightarrow> nft_env \<Rightarrow> ScrapedBlock \<Rightarrow> (world, unit) act" where
  "prepare_move order E N block =
     bnd (lift_res (filterMoveData E block)) (\<lambda>nftAddrs.
     bnd (lift_res (rfold (\<lambda>addr res. rbind (query_move_resource N addr (sb_Height block)) (\<lambda>resource. Inr (res(addr \<mapsto> resource))))
       (order nftAddrs) Map.empty)) (\<lambda>nftResources.
     modify (\<lambda>w. w\<lparr>moveNftCache := (moveNftCache w)(sb_Height block \<mapsto> nftResources)\<rparr>)))"


section \<open>Collect: collect.go and util.go\<close>

record move_maps =
  mv_collections :: "(string \<times> string \<times> string) list"
  mv_mint :: "(string, string list) gomap"
  mv_transfer :: "(string, string) gomap"
  mv_mut :: "(string, string) gomap"
  mv_burn :: "string list"
  mv_count :: "string list"

definition no_move :: move_maps where
  "no_move = \<lparr>mv_collections = [], mv_mint = [], mv_transfer = [], mv_mut = [], mv_burn = [], mv_count = []\<rparr>"

definition move_mint :: "string \<Rightarrow> string \<Rightarrow> move_maps \<Rightarrow> move_maps" where
  "move_mint collection nft m = m\<lparr>mv_mint := map_put collection (key_put nft (map_get (mv_mint m) collection [])) (mv_mint m),
     mv_burn := removeAll nft (mv_burn m), mv_count := key_put collection (mv_count m)\<rparr>"

text \<open>\<open>delete\<close> on the missing inner map of a collection without mints does nothing.\<close>

definition move_burn :: "string \<Rightarrow> string \<Rightarrow> move_maps \<Rightarrow> move_maps" where
  "move_burn collection nft m = m\<lparr>mv_burn := key_put nft (mv_burn m),
     mv_mint := (case map_of (mv_mint m) collection of None \<Rightarrow> mv_mint m | Some ns \<Rightarrow> map_put collection (removeAll nft ns) (mv_mint m)),
     mv_transfer := map_delete nft (mv_transfer m), mv_mut := map_delete nft (mv_mut m),
     mv_count := key_put collection (mv_count m)\<rparr>"

definition move_event :: "env \<Rightarrow> ParsedEvent \<Rightarrow> move_maps \<Rightarrow> err + move_maps" where
  "move_event E p m =
     (case (pe_AttrMap p ''type_tag'', pe_AttrMap p ''data'') of
        (Some typeTag, Some data) \<Rightarrow>
          if typeTag = ''0x1::collection::CreateCollectionEvent'' then
            rbind (Unmarshal dec_CreateCollectionEvent data ([], [], [])) (\<lambda>ev. Inr (m\<lparr>mv_collections := mv_collections m @ [ev]\<rparr>))
          else if typeTag = ''0x1::collection::MintEvent'' then
            rbind (Unmarshal dec_NftMintAndBurnEvent data ([], [], [])) (\<lambda>(collection, index, nft). Inr (move_mint collection nft m))
          else if typeTag = ''0x1::object::TransferEvent'' then
            rbind (Unmarshal dec_NftTransferEvent data ([], [], [])) (\<lambda>(object, from, to).
            rbind (AccAddressFromString (from_bech32 E) to) (\<lambda>toAddr.
            Inr (m\<lparr>mv_transfer := map_put object (to_bech32 E toAddr) (mv_transfer m)\<rparr>)))
          else if typeTag = ''0x1::nft::MutationEvent'' then
            rbind (Unmarshal dec_NftMutationEvent data ([], [], [], [])) (\<lambda>(nft, field, old, new).
            Inr (if field = ''uri'' then m\<lparr>mv_mut := map_put nft new (mv_mut m)\<rparr> else m))
          else if typeTag = ''0x1::collection::BurnEvent'' then
            rbind (Unmarshal dec_NftMintAndBurnEvent data ([], [], [])) (\<lambda>(collection, index, nft). Inr (move_burn collection nft m))
          else Inr m
      | _ \<Rightarrow> Inr m)"

definition move_creator :: "env \<Rightarrow> string \<times> string \<times> string \<Rightarrow> err + string" where
  "move_creator E = (\<lambda>(collection, creator, name).
     rbind (AccAddressFromString (from_bech32 E) creator) (\<lambda>b. Inr (to_bech32 E b)))"

definition move_collection :: "env \<Rightarrow> ScrapedBlock \<Rightarrow> (string \<rightharpoonup> int) \<Rightarrow> string \<times> string \<times> string \<Rightarrow> err + CollectedNftCollection" where
  "move_collection E block ids ev =
     rbind (move_creator E ev) (\<lambda>creator.
     rbind (HexToBytes (fst ev)) (\<lambda>collectionAddr.
     Inr \<lparr>nc_Addr = collectionAddr, nc_Height = sb_Height block, nc_Timestamp = sb_Timestamp block, nc_Name = snd (snd ev),
          nc_OriginName = [], nc_CreatorId = id_of ids creator, nc_NftCount = 0\<rparr>))"

definition getCollectionCreatorId :: "string \<Rightarrow> (world, int) act" where
  "getCollectionCreatorId addr =
     bnd (lift_res (HexToBytes addr)) (\<lambda>addrBytes.
     bnd (first_row (\<lambda>d. filter (\<lambda>r. nc_Addr r = addrBytes) (t_nft_collection d))) (\<lambda>collection.
     ret (nc_CreatorId collection)))"

definition move_minted :: "ScrapedBlock \<Rightarrow> (string \<rightharpoonup> string) \<Rightarrow> string \<Rightarrow> int \<Rightarrow> string \<Rightarrow> err + CollectedNft" where
  "move_minted block resources collectionAddr creatorId nftAddr =
     (case resources nftAddr of
        None \<Rightarrow> Inl (NotFoundErr ''move resource'')
      | Some raw \<Rightarrow>
          rbind (Unmarshal dec_NftResource raw no_resource) (\<lambda>r.
          let res = Trim r in
          rbind (HexToBytes collectionAddr) (\<lambda>collectionAddrBytes.
          rbind (HexToBytes nftAddr) (\<lambda>nftAddrBytes.
          Inr \<lparr>nft_CollectionAddr = collectionAddrBytes, nft_TokenId = nr_TokenId res, nft_Addr = nftAddrBytes,
               nft_Height = sb_Height block, nft_Timestamp = sb_Timestamp block, nft_OwnerId = creatorId, nft_Uri = nr_Uri res\<rparr>))))"

definition move_minted_in :: "env \<Rightarrow> ScrapedBlock \<Rightarrow> (string \<rightharpoonup> string) \<Rightarrow> (string, string list) gomap \<Rightarrow> string \<Rightarrow>
    CollectedNft list \<Rightarrow> (world, CollectedNft list) act" where
  "move_minted_in E block resources minted collectionAddr nfts =
     bnd (getCollectionCreatorId collectionAddr) (\<lambda>creatorId.
     bnd (lift_res (map_res (move_minted block resources collectionAddr creatorId)
       (map_order E (map_get minted collectionAddr [])))) (\<lambda>rows. ret (nfts @ rows)))"

definition upd_nft :: "byte list \<Rightarrow> (CollectedNft \<Rightarrow> CollectedNft) \<Rightarrow> db \<Rightarrow> db" where
  "upd_nft a f d = d\<lparr>t_nft := update_where (\<lambda>r. nft_Addr r = a) f (t_nft d)\<rparr>"

definition move_transferred :: "ScrapedBlock \<Rightarrow> (string \<rightharpoonup> int) \<Rightarrow> (string, string) gomap \<Rightarrow> string \<Rightarrow> (world, unit) act" where
  "move_transferred block ids transferred nftAddr =
     bnd (lift_res (HexToBytes nftAddr)) (\<lambda>nftAddrBytes.
     exec (upd_nft nftAddrBytes (\<lambda>r. r\<lparr>nft_Height := sb_Height block, nft_Timestamp := sb_Timestamp block,
       nft_OwnerId := id_of ids (map_get transferred nftAddr [])\<rparr>)))"

definition move_mutated :: "ScrapedBlock \<Rightarrow> (string, string) gomap \<Rightarrow> string \<Rightarrow> (world, unit) act" where
  "move_mutated block mutated nftAddr =
     bnd (lift_res (HexToBytes nftAddr)) (\<lambda>nftAddrBytes.
     exec (upd_nft nftAddrBytes (\<lambda>r. r\<lparr>nft_Height := sb_Height block, nft_Timestamp := sb_Timestamp block,
       nft_Uri := map_get mutated nftAddr []\<rparr>)))"

definition collect_move :: "nft_env \<Rightarrow> env \<Rightarrow> config \<Rightarrow> ScrapedBlock \<Rightarrow> (world, unit) act" where
  "collect_move N E cfg block =
     bnd (take_cached moveNftCache (\<lambda>c w. w\<lparr>moveNftCache := c\<rparr>) (sb_Height block)) (\<lambda>resources.
     bnd (lift_res (ExtractEvents E block ''move'')) (\<lambda>events.
     bnd (lift_res (rfold (move_event E) events no_move)) (\<lambda>m.
     bnd (lift_res (map_res (move_creator E) (mv_collections m))) (\<lambda>creators.
     bnd (GetOrCreateAccountIds E (creators @ map (\<lambda>k. map_get (mv_transfer m) k []) (map_order E (map_keys (mv_transfer m)))) True) (\<lambda>ids.
     bnd (lift_res (map_res (move_collection E block ids) (mv_collections m))) (\<lambda>mintedCols.
     bnd (CreateInBatches cfg ins_nc mintedCols) (\<lambda>_.
     bnd (foreach (move_minted_in E block resources (mv_mint m)) (map_order E (map_keys (mv_mint m))) []) (\<lambda>mintedNfts.
     bnd (CreateInBatches cfg ins_nft mintedNfts) (\<lambda>_.
     bnd (foreach (\<lambda>a _. move_transferred block ids (mv_transfer m) a) (map_order E (map_keys (mv_transfer m))) ()) (\<lambda>_.
     bnd (foreach (\<lambda>a _. move_mutated block (mv_mut m) a) (map_order E (map_keys (mv_mut m))) ()) (\<lambda>_.
     bnd (lift_res (map_res HexToBytes (map_order E (mv_burn m)))) (\<lambda>burnedNfts.
     bnd (exec (del_nfts (\<lambda>r. nft_Addr r \<in> set burnedNfts))) (\<lambda>_.
     bnd (update_counts E (mv_count m)) (\<lambda>_.
     Collect_pairs E N cfg block))))))))))))))"

end
