(* ===== verification/Nft_Submodules.thy ===== *)
theory Nft_Submodules
  imports Nft_Proofs Wasm_Nft Evm_Nft Move_Nft
begin

text \<open>
  The three NFT submodules satisfy the interface the collector relies on: they do not touch the
  block table, and the Move and the EVM submodule keep the dictionaries sound. The Wasm submodule
  asks for the ids of addresses as the attributes spell them, and satisfies the first part only.
\<close>

section \<open>What the submodules leave alone\<close>

lemma keeps_collect_evm:
  assumes "apart E P" "ignores (account_dict E) P"
  shows "keeps P (collect_evm_nft N E cfg block)"
proof -
  note k = keeps_apart [OF assms(1)]
  have t: "keeps P (take_cached evmNftCache (\<lambda>c w. w\<lparr>evmNftCache := c\<rparr>) h)" for h
    by (rule keeps_take_cached) (use apartD(5) [OF assms(1)] in \<open>simp add: stable_caches_def\<close>)
  show ?thesis
    unfolding collect_evm_nft_def evm_creation_def evm_collection_def getCollectionCreationInfo_def Let_def
    by (intro keeps_intros k t keeps_accounts [OF assms(2)]; simp)
qed

lemma keeps_collect_wasm:
  assumes "apart E P" "ignores (account_dict E) P"
  shows "keeps P (collect_wasm N E cfg block)"
proof -
  note k = keeps_apart [OF assms(1)]
  have t: "keeps P (take_cached wasmNftCache (\<lambda>c w. w\<lparr>wasmNftCache := c\<rparr>) h)" for h
    by (rule keeps_take_cached) (use apartD(5) [OF assms(1)] in \<open>simp add: stable_caches_def\<close>)
  show ?thesis
    unfolding collect_wasm_def by (intro keeps_intros k t keeps_accounts [OF assms(2)]; simp)
qed

lemma only_upd [simp]: "only_nft (upd_nft a f)"
  by (auto simp: only_nft_def upd_nft_def)

lemma keeps_collect_move:
  assumes "apart E P" "ignores (account_dict E) P"
  shows "keeps P (collect_move N E cfg block)"
proof -
  note k = keeps_apart [OF assms(1)] keeps_exec_in [OF apartD(1) [OF assms(1)]]
  have t: "keeps P (take_cached moveNftCache (\<lambda>c w. w\<lparr>moveNftCache := c\<rparr>) h)" for h
    by (rule keeps_take_cached) (use apartD(5) [OF assms(1)] in \<open>simp add: stable_caches_def\<close>)
  show ?thesis
    unfolding collect_move_def move_minted_in_def getCollectionCreatorId_def move_transferred_def move_mutated_def
    by (intro keeps_intros k t keeps_accounts [OF assms(2)]; simp)
qed


section \<open>Accounts the EVM and the Move submodule ask for\<close>

lemma keeps_bnd_post:
  assumes "hoare P m (\<lambda>x s. P s \<and> Q x) (\<lambda>_. P)" "\<And>x. Q x \<Longrightarrow> keeps P (f x)"
  shows "keeps P (bnd m f)"
  unfolding keeps_def by (rule hoare_bnd [OF assms(1)]) (use assms(2) in \<open>auto simp: keeps_def hoare_def\<close>)

lemma keeps_lift_post: "(\<And>x. r = Inr x \<Longrightarrow> keeps P (f x)) \<Longrightarrow> keeps P (bnd (lift_res r) f)"
  by (rule keeps_bnd_post [where Q = "\<lambda>x. r = Inr x"]) (auto simp: hoare_def split: sum.splits)

definition canonical_all :: "env \<Rightarrow> string list \<Rightarrow> bool" where
  "canonical_all E as \<longleftrightarrow> (\<forall>a \<in> set as. canonical E a)"

lemma canonical_all_append [simp]: "canonical_all E (as @ bs) \<longleftrightarrow> canonical_all E as \<and> canonical_all E bs"
  by (auto simp: canonical_all_def)

lemma keeps_account_ids:
  assumes E: "env_ok E" and can: "canonical_all E accounts"
  shows "keeps (dict_inv (account_dict E)) (GetOrCreateAccountIds E accounts True)"
  unfolding keeps_def
  by (rule hoare_weaken [OF account_ids [OF E can [unfolded canonical_all_def], of "[]"]]) simp_all

lemma parse_owner_canonical:
  assumes "env_ok E" "parse_owner E s = Inr a"
  shows "canonical E a"
proof -
  obtain b where b: "AccAddressFromString (from_bech32 E) s = Inr b" "a = to_bech32 E b"
    using assms(2) by (auto simp: parse_owner_def rbind_eq_Inr)
  with AccAddress_nonempty [OF env_okD(1) [OF assms(1)] b(1)] show ?thesis by (auto simp: canonical_def)
qed

lemma move_creator_owner: "move_creator E = (\<lambda>ev. parse_owner E (fst (snd ev)))"
  by (rule ext) (simp add: move_creator_def parse_owner_def split: prod.split)

lemma map_owner_canonical:
  assumes "env_ok E" "map_res (\<lambda>k. parse_owner E (g k)) ks = Inr as"
  shows "canonical_all E as"
proof -
  have "list_all2 (\<lambda>k a. parse_owner E (g k) = Inr a) ks as" using assms(2) by (simp add: map_res_Inr)
  then show ?thesis
    unfolding canonical_all_def
    by (induction rule: list_all2_induct) (simp_all add: parse_owner_canonical [OF assms(1)])
qed

lemma evm_owners_canonical: "env_ok E \<Longrightarrow> evm_addresses_of E N m = Inr as \<Longrightarrow> canonical_all E as"
  by (auto simp: evm_addresses_of_def rbind_eq_Inr dest: map_owner_canonical)

text \<open>The receivers of a Move block, as \<open>move_event\<close> writes them.\<close>

definition receivers_ok :: "env \<Rightarrow> move_maps \<Rightarrow> bool" where
  "receivers_ok E m \<longleftrightarrow> distinct (map_keys (mv_transfer m)) \<and> (\<forall>k to. map_of (mv_transfer m) k = Some to \<longrightarrow> canonical E to)"

lemma move_event_receivers:
  assumes "env_ok E" "receivers_ok E m" "move_event E p m = Inr m'"
  shows "receivers_ok E m'"
proof -
  have b: "canonical E (to_bech32 E b)" if "AccAddressFromString (from_bech32 E) s = Inr b" for s b
    using AccAddress_nonempty [OF env_okD(1) [OF assms(1)] that] by (auto simp: canonical_def)
  show ?thesis
    using assms(2,3)
    by (auto simp: move_event_def rbind_eq_Inr receivers_ok_def move_mint_def move_burn_def map_put_keys map_delete_keys b
        split: option.splits if_splits prod.splits)
qed

lemma move_events_receivers:
  assumes "env_ok E"
  shows "receivers_ok E m \<Longrightarrow> rfold (move_event E) ps m = Inr m' \<Longrightarrow> receivers_ok E m'"
  by (induction ps arbitrary: m) (auto simp: rbind_eq_Inr dest: move_event_receivers [OF assms])

lemma receivers_canonical:
  assumes "env_ok E" "receivers_ok E m"
  shows "canonical_all E (map (\<lambda>k. map_get (mv_transfer m) k []) (map_order E (map_keys (mv_transfer m))))"
proof -
  have "canonical E (map_get (mv_transfer m) k [])" if "k \<in> fst ` set (mv_transfer m)" for k
    using that assms(2) by (auto simp: map_of_key receivers_ok_def)
  then show ?thesis using assms by (simp add: canonical_all_def set_map_order receivers_ok_def)
qed

section \<open>The dictionaries stay sound\<close>

text \<open>Who signed the transaction that created a collection is an account of the table.\<close>

lemma creation_info_account:
  assumes "getCollectionCreationInfo E cid c w = (Inr info, w')"
  shows "w_db w' = w_db w \<and> (\<exists>i b. (i, b) \<in> set (t_account_dict (w_db w)) \<and> cc_Creator info = to_bech32 E b)"
proof -
  from assms obtain ba ad u1 ta u2 tx u3 sg u4 blk
    where f: "first_row (\<lambda>d. filter (\<lambda>r. snd r = ba) (t_account_dict d)) w = (Inr ad, u1)"
      "first_row (\<lambda>d. order_asc ta_Sequence (filter (\<lambda>r. ta_AccountId r = fst ad) (t_tx_accounts d))) u1 = (Inr ta, u2)"
      "first_row (\<lambda>d. filter (\<lambda>r. tx_Sequence r = ta_Sequence ta) (t_tx d)) u2 = (Inr tx, u3)"
      "first_row (\<lambda>d. filter (\<lambda>r. fst r = tx_SignerId tx) (t_account_dict d)) u3 = (Inr sg, u4)"
      "first_row (\<lambda>d. filter (\<lambda>r. blk_ChainId r = cid \<and> blk_Height r = tx_Height tx) (t_block d)) u4 = (Inr blk, w')"
    and info: "cc_Creator info = to_bech32 E (snd sg)"
    unfolding getCollectionCreationInfo_def by (auto simp: bnd_eq_Inr)
  note d1 = hoareD [OF hoare_first_row refl f(1)]
  note d2 = hoareD [OF hoare_first_row refl f(2)]
  note d3 = hoareD [OF hoare_first_row refl f(3)]
  note d4 = hoareD [OF hoare_first_row refl f(4)]
  note d5 = hoareD [OF hoare_first_row refl f(5)]
  from d4 obtain rs where "filter (\<lambda>r. fst r = tx_SignerId tx) (t_account_dict (w_db u3)) = sg # rs" by blast
  then have "sg \<in> set (filter (\<lambda>r. fst r = tx_SignerId tx) (t_account_dict (w_db u3)))" by simp
  then have "sg \<in> set (t_account_dict (w_db w))" using d1 d2 d3 by simp
  then have "(fst sg, snd sg) \<in> set (t_account_dict (w_db w))" by simp
  with info d1 d2 d3 d4 d5 show ?thesis by fastforce
qed

lemma keeps_creation: "apart E P \<Longrightarrow> keeps P (evm_creation E block data c acc)"
  unfolding evm_creation_def getCollectionCreationInfo_def
  by (intro keeps_intros keeps_IsBlacklisted; simp add: apartD)

lemma creation_canonical:
  "hoare (\<lambda>w. dict_inv (account_dict E) w \<and> canonical_all E (snd acc)) (evm_creation E block data c acc)
     (\<lambda>acc' w. dict_inv (account_dict E) w \<and> canonical_all E (snd acc')) (\<lambda>_. dict_inv (account_dict E))"
proof (rule hoareI)
  fix w acc' w' assume pre: "dict_inv (account_dict E) w \<and> canonical_all E (snd acc)"
    and run: "evm_creation E block data c acc w = (Inr acc', w')"
  have "canonical_all E (snd acc')"
  proof (cases "en_ColNames data c")
    case None
    with run pre show ?thesis
      by (auto simp: evm_creation_def bnd_eq_Inr split: prod.splits if_splits)
  next
    case (Some name)
    obtain infos addrs where a: "acc = (infos, addrs)" by force
    from run Some obtain info where info: "getCollectionCreationInfo E (sb_ChainId block) c w = (Inr info, w')"
      and acc': "acc' = (infos(c \<mapsto> info), addrs @ [cc_Creator info])"
      by (auto simp: evm_creation_def a bnd_eq_Inr)
    from creation_info_account [OF info] obtain i b
      where b: "(i, b) \<in> set (t_account_dict (w_db w))" "cc_Creator info = to_bech32 E b" by blast
    have "\<forall>r \<in> set (t_account_dict (w_db w)). snd r \<noteq> []"
      using pre unfolding dict_inv_def account_rows account_ok by blast
    with b have "canonical E (cc_Creator info)" by (auto simp: canonical_def)
    with pre acc' a show ?thesis by (simp add: canonical_all_def)
  qed
  with keepsD [OF keeps_creation [OF apart_dicts(1)] conjunct1 [OF pre] run]
  show "dict_inv (account_dict E) w' \<and> canonical_all E (snd acc')" by blast
next
  fix w e w' assume pre: "dict_inv (account_dict E) w \<and> canonical_all E (snd acc)"
    and run: "evm_creation E block data c acc w = (Inl e, w')"
  show "dict_inv (account_dict E) w'" by (rule keepsD [OF keeps_creation [OF apart_dicts(1)] conjunct1 [OF pre] run])
qed

lemma creations_canonical:
  assumes "canonical_all E as"
  shows "hoare (dict_inv (account_dict E)) (foreach (evm_creation E block data) cs (infos, as))
     (\<lambda>acc w. dict_inv (account_dict E) w \<and> canonical_all E (snd acc)) (\<lambda>_. dict_inv (account_dict E))"
  by (rule hoare_pre [OF hoare_foreach [where I = "\<lambda>_ acc w. dict_inv (account_dict E) w \<and> canonical_all E (snd acc)",
        OF creation_canonical]]) (use assms in simp)

lemma keeps_accounts_evm:
  assumes E: "env_ok E"
  shows "keeps (dict_inv (account_dict E)) (collect_evm_nft N E cfg block)"
proof -
  note k = keeps_apart [OF apart_dicts(1)]
  have t: "keeps (dict_inv (account_dict E)) (take_cached evmNftCache (\<lambda>c w. w\<lparr>evmNftCache := c\<rparr>) h)" for h
    by (rule keeps_take_cached) (use apartD(5) [OF apart_dicts(1)] in \<open>simp add: stable_caches_def\<close>)
  have c: "keeps (dict_inv (account_dict E)) (bnd (foreach (evm_creation E block data) cs (infos, as)) f)"
    if "canonical_all E as" "\<And>infos bs. canonical_all E bs \<Longrightarrow> keeps (dict_inv (account_dict E)) (f (infos, bs))" for data cs infos as f
    by (rule keeps_bnd_post [OF creations_canonical [OF that(1)]]) (use that(2) in force)
  show ?thesis
    unfolding collect_evm_nft_def Let_def
    apply (rule keeps_bnd [OF t], rule keeps_bnd [OF keeps_lift], rule keeps_bnd [OF keeps_lift], rule keeps_lift_post)
    apply (rule c, erule evm_owners_canonical [OF E], simp only: prod.case)
    apply (rule keeps_bnd, erule keeps_account_ids [OF E])
    unfolding evm_collection_def Let_def
    by (intro keeps_intros k; simp)
qed

lemma keeps_accounts_move:
  assumes E: "env_ok E"
  shows "keeps (dict_inv (account_dict E)) (collect_move N E cfg block)"
proof -
  note k = keeps_apart [OF apart_dicts(1)] keeps_exec_in [OF apartD(1) [OF apart_dicts(1)]]
  have t: "keeps (dict_inv (account_dict E)) (take_cached moveNftCache (\<lambda>c w. w\<lparr>moveNftCache := c\<rparr>) h)" for h
    by (rule keeps_take_cached) (use apartD(5) [OF apart_dicts(1)] in \<open>simp add: stable_caches_def\<close>)
  have c: "canonical_all E (creators @ map (\<lambda>k. map_get (mv_transfer m) k []) (map_order E (map_keys (mv_transfer m))))"
    if "rfold (move_event E) evs no_move = Inr m" "map_res (move_creator E) (mv_collections m) = Inr creators" for evs m creators
  proof -
    have "receivers_ok E m"
      by (rule move_events_receivers [OF E _ that(1)]) (simp add: receivers_ok_def no_move_def)
    moreover have "canonical_all E creators"
      by (rule map_owner_canonical [OF E, where g = "\<lambda>ev. fst (snd ev)" and ks = "mv_collections m"]) (use that(2) in \<open>simp add: move_creator_owner\<close>)
    ultimately show ?thesis by (simp add: receivers_canonical [OF E])
  qed
  show ?thesis
    unfolding collect_move_def Let_def
    apply (rule keeps_bnd [OF t], rule keeps_bnd [OF keeps_lift], rule keeps_lift_post, rule keeps_lift_post)
    apply (rule keeps_bnd, erule (1) keeps_account_ids [OF E c])
    unfolding move_minted_in_def getCollectionCreatorId_def move_transferred_def move_mutated_def
    by (intro keeps_intros k; simp)
qed


section \<open>The interface\<close>

lemma block_table_alone: "t_block (w_db w') = t_block (w_db w) \<Longrightarrow> only_block b (w_db w) (w_db w')"
  by (simp add: only_block_def)

interpretation wasm_sub: block_submodule "collect_wasm N" for N
  by unfold_locales (rule block_table_alone, erule keepsD [OF keeps_collect_wasm [OF apart_block ignores_block(1)] refl])

interpretation evm_sub: submodule "collect_evm_nft N" for N
proof
  fix E cfg w b w'
  assume run: "collect_evm_nft N E cfg b w = (Inr (), w')"
  show "only_block b (w_db w) (w_db w')"
    by (rule block_table_alone, rule keepsD [OF keeps_collect_evm [OF apart_block ignores_block(1)] refl run])
  show "dict_invs E w'" if "ready E cfg" "dict_invs E w"
    using that run unfolding dict_invs_def ready_def
    by (blast intro: keepsD [OF keeps_accounts_evm] keepsD [OF keeps_collect_evm [OF apart_dicts(2) ignores_dict_inv(4)]]
        keepsD [OF keeps_collect_evm [OF apart_dicts(3) ignores_dict_inv(6)]])
qed

interpretation move_sub: submodule "collect_move N" for N
proof
  fix E cfg w b w'
  assume run: "collect_move N E cfg b w = (Inr (), w')"
  show "only_block b (w_db w) (w_db w')"
    by (rule block_table_alone, rule keepsD [OF keeps_collect_move [OF apart_block ignores_block(1)] refl run])
  show "dict_invs E w'" if "ready E cfg" "dict_invs E w"
    using that run unfolding dict_invs_def ready_def
    by (blast intro: keepsD [OF keeps_accounts_move] keepsD [OF keeps_collect_move [OF apart_dicts(2) ignores_dict_inv(4)]]
        keepsD [OF keeps_collect_move [OF apart_dicts(3) ignores_dict_inv(6)]])
qed

text \<open>\<open>New\<close> in \<open>collector.go\<close> picks the submodule of the chain's VM.\<close>

definition nft_submodule :: "nft_env \<Rightarrow> collect_fn" where
  "nft_submodule N E cfg block = (case cfg_VmType cfg of
     MoveVM \<Rightarrow> collect_move N E cfg block
   | WasmVM \<Rightarrow> collect_wasm N E cfg block
   | EVM \<Rightarrow> collect_evm_nft N E cfg block)"

interpretation nft_sub: block_submodule "nft_submodule N" for N
proof
  fix E cfg b w w'
  assume run: "nft_submodule N E cfg b w = (Inr (), w')"
  show "only_block b (w_db w) (w_db w')"
    by (cases "cfg_VmType cfg"; insert run; simp add: nft_submodule_def wasm_sub.collect_only evm_sub.collect_only move_sub.collect_only)
qed

end
