(* ===== verification/Evm_Ledger.thy ===== *)
theory Evm_Ledger
  imports Nft_Rows Nft_Submodules
begin

text \<open>
  The EVM submodule against the ledger: the operations the transfer logs of a block stand for, and
  the rows \<open>collect\<close> writes for them.
\<close>

section \<open>The operations of a block\<close>

text \<open>A transfer log of a token contract, with the id of the token in the fourth topic.\<close>

definition evm_op :: "env \<Rightarrow> nft_env \<Rightarrow> attribute \<Rightarrow> string nft_op option" where
  "evm_op E N attr =
     (if akey attr \<noteq> ''log'' then None
      else case unmarshal_log E (aval attr) of
        Inr (address, [topic, from, to, tokenId]) \<Rightarrow>
          if topic \<noteq> EvmTransferTopic \<or> log_Data N (aval attr) \<noteq> ''0x'' then None
          else (case (AccAddressFromString (from_bech32 E) to, convertHexStringToDecString tokenId) of
            (Inr receiver, Inr n) \<Rightarrow>
              let key = (to_lower address, n) in
              if from = EvmEmptyAddress then if to = EvmEmptyAddress then None else Some (Mint key (to_bech32 E receiver))
              else if to = EvmEmptyAddress then Some (Burn key) else Some (Transfer key (to_bech32 E receiver))
          | _ \<Rightarrow> None)
      | _ \<Rightarrow> None)"

definition event_ops :: "env \<Rightarrow> nft_env \<Rightarrow> ParsedEvent \<Rightarrow> (string \<times> string nft_op) list" where
  "event_ops E N p = map (Pair (pe_TxHash p)) (List.map_filter (evm_op E N) (eattrs (pe_Event p)))"

definition evm_ops :: "env \<Rightarrow> nft_env \<Rightarrow> ScrapedBlock \<Rightarrow> (string \<times> string nft_op) list" where
  "evm_ops E N block = (case ExtractEvents E block ''evm'' of Inl e \<Rightarrow> [] | Inr events \<Rightarrow> concat (map (event_ops E N) events))"

lemma four_topics: "isEvmNftLog topics data \<longleftrightarrow> (\<exists>t from to n. topics = [t, from, to, n] \<and> t = EvmTransferTopic \<and> data = ''0x'')"
proof (cases "length topics = 4")
  case True
  then obtain t from' to n where "topics = [t, from', to, n]" by (auto simp: numeral_eq_Suc length_Suc_conv)
  then show ?thesis by (simp add: isEvmNftLog_def)
qed (auto simp: isEvmNftLog_def)

lemma evm_log_op:
  assumes "evm_log E N h attr m = Inr m'"
  shows "m' = (case evm_op E N attr of None \<Rightarrow> m | Some op \<Rightarrow> track_in (h, op) m)"
proof (cases "akey attr = ''log''")
  case True
  then obtain address topics where u: "unmarshal_log E (aval attr) = Inr (address, topics)"
    using assms by (cases "unmarshal_log E (aval attr)") (auto simp: evm_log_def)
  show ?thesis
  proof (cases "isEvmNftLog topics (log_Data N (aval attr))")
    case False
    then have "evm_op E N attr = None"
      by (auto simp: evm_op_def u four_topics split: list.split)
    with assms True u False show ?thesis by (simp add: evm_log_def)
  next
    case nft: True
    then obtain from' to n where t: "topics = [EvmTransferTopic, from', to, n]" "log_Data N (aval attr) = ''0x''"
      by (auto simp: four_topics)
    with assms True u nft obtain b tok where b: "AccAddressFromString (from_bech32 E) to = Inr b" "convertHexStringToDecString n = Inr tok"
      by (auto simp: evm_log_def rbind_eq_Inr)
    show ?thesis
      using assms True u nft t b
      by (cases "from' = EvmEmptyAddress"; cases "to = EvmEmptyAddress") (simp_all add: evm_log_def evm_op_def track_in_def Let_def)
  qed
qed (use assms in \<open>simp add: evm_log_def evm_op_def\<close>)

lemma evm_logs_ops:
  "rfold (evm_log E N h) attrs m = Inr m' \<Longrightarrow> m' = fold track_in (map (Pair h) (List.map_filter (evm_op E N) attrs)) m"
proof (induction attrs arbitrary: m)
  case (Cons a attrs)
  then obtain u where u: "evm_log E N h a m = Inr u" "rfold (evm_log E N h) attrs u = Inr m'" by (auto simp: rbind_eq_Inr)
  from Cons.IH [OF u(2)] evm_log_op [OF u(1)] show ?case by (simp add: List.map_filter_simps split: option.splits)
qed (simp add: List.map_filter_simps)

lemma evm_events_ops:
  "rfold (evm_event E N) events m = Inr m' \<Longrightarrow> m' = fold track_in (concat (map (event_ops E N) events)) m"
proof (induction events arbitrary: m)
  case (Cons p ps)
  then obtain u where u: "evm_event E N p m = Inr u" "rfold (evm_event E N) ps u = Inr m'" by (auto simp: rbind_eq_Inr)
  from Cons.IH [OF u(2)] evm_logs_ops [OF u(1) [unfolded evm_event_def]] show ?case by (simp add: event_ops_def)
qed simp

text \<open>The owners in the maps are as the SDK writes them, so parsing them again changes nothing.\<close>

definition op_canonical :: "env \<Rightarrow> string nft_op \<Rightarrow> bool" where
  "op_canonical E op = (case op of Mint k v \<Rightarrow> canonical E v | Transfer k o' \<Rightarrow> canonical E o' | Burn k \<Rightarrow> True)"

lemma acc_canonical: "env_ok E \<Longrightarrow> AccAddressFromString (from_bech32 E) s = Inr b \<Longrightarrow> canonical E (to_bech32 E b)"
  using AccAddress_nonempty [OF env_okD(1)] by (auto simp: canonical_def)

lemma evm_op_canonical: "env_ok E \<Longrightarrow> evm_op E N attr = Some op \<Longrightarrow> op_canonical E op"
  by (auto simp: evm_op_def op_canonical_def Let_def acc_canonical split: if_splits sum.splits list.splits)

lemma evm_ops_canonical:
  assumes "env_ok E" "op \<in> snd ` set (evm_ops E N block)"
  shows "op_canonical E op"
  using assms(2) evm_op_canonical [OF assms(1)]
  by (force simp: evm_ops_def event_ops_def List.map_filter_def split: sum.splits)

lemma parse_canonical: "env_ok E \<Longrightarrow> canonical E a \<Longrightarrow> parse_owner E a = Inr a"
  by (auto simp: parse_owner_def canonical_def AccAddress_bech32 env_okD(1))


section \<open>The rows of a block\<close>

definition minted_as :: "EvmNftData \<Rightarrow> NftKey \<Rightarrow> string \<Rightarrow> string \<times> string" where
  "minted_as data k ownr = (ownr, case en_TokenUris data (fst k) of None \<Rightarrow> []
     | Some uris \<Rightarrow> (case uris (snd k) of None \<Rightarrow> [] | Some u \<Rightarrow> u))"

definition tokens_by :: "NftKey list \<Rightarrow> string list \<Rightarrow> NftKey list" where
  "tokens_by ks cs = concat (map (\<lambda>c. map (Pair c) (map_get (group_tokens ks) c [])) cs)"

lemma tokens_of: "map (Pair c) (map_get (group_tokens ks) c []) = filter (\<lambda>k. fst k = c) ks"
  unfolding map_get_group map_map by (rule map_idI) auto

lemma distinct_tokens:
  "distinct ks \<Longrightarrow> distinct cs \<Longrightarrow> distinct (tokens_by ks cs)"
  unfolding tokens_by_def tokens_of by (induction cs) auto

lemma set_tokens: "set cs = fst ` set ks \<Longrightarrow> set (tokens_by ks cs) = set ks"
  unfolding tokens_by_def tokens_of by auto

lemma evm_collection_rows:
  assumes "evm_collection E block data ids minted infos (group_tokens ks) c (cols0, nfts0) w = (Inr (cols, nfts), w')"
    "en_ColNames data c \<noteq> None"
  shows "w' = w" "\<exists>b rows. HexToBytes c = Inr b \<and> nfts = nfts0 @ rows \<and>
    list_all2 (\<lambda>k r. evm_minted E block data ids minted b k = Inr r) (filter (\<lambda>k. fst k = c) ks) rows"
proof -
  from assms obtain b rows where r: "HexToBytes c = Inr b" "w' = w" "nfts = nfts0 @ rows"
    "map_res (\<lambda>t. evm_minted E block data ids minted b (c, t)) (map_get (group_tokens ks) c []) = Inr rows"
    by (auto simp: evm_collection_def bnd_eq_Inr Let_def)
  show "w' = w" by (rule r(2))
  from r(4) have "list_all2 (\<lambda>t r. evm_minted E block data ids minted b (c, t) = Inr r) (map_get (group_tokens ks) c []) rows"
    by (simp add: map_res_Inr)
  then have "list_all2 (\<lambda>k r. evm_minted E block data ids minted b k = Inr r) (map (Pair c) (map_get (group_tokens ks) c [])) rows"
    by (simp add: list_all2_map1)
  with r(1,3) show "\<exists>b rows. HexToBytes c = Inr b \<and> nfts = nfts0 @ rows \<and>
    list_all2 (\<lambda>k r. evm_minted E block data ids minted b k = Inr r) (filter (\<lambda>k. fst k = c) ks) rows"
    unfolding tokens_of by blast
qed

lemma evm_collections_rows:
  assumes "foreach (evm_collection E block data ids minted infos (group_tokens ks)) cs (cols0, nfts0) w = (Inr (cols, nfts), w')"
    "\<forall>c \<in> set cs. en_ColNames data c \<noteq> None"
  shows "w' = w \<and> (\<exists>rows. nfts = nfts0 @ rows \<and>
    list_all2 (\<lambda>k r. \<exists>b. HexToBytes (fst k) = Inr b \<and> evm_minted E block data ids minted b k = Inr r) (tokens_by ks cs) rows)"
  using assms
proof (induction cs arbitrary: cols0 nfts0 w)
  case Nil
  then show ?case by (simp add: tokens_by_def)
next
  case (Cons c cs)
  from Cons.prems(1) obtain cols1 nfts1 w1 where
    r: "evm_collection E block data ids minted infos (group_tokens ks) c (cols0, nfts0) w = (Inr (cols1, nfts1), w1)"
      "foreach (evm_collection E block data ids minted infos (group_tokens ks)) cs (cols1, nfts1) w1 = (Inr (cols, nfts), w')"
    by (auto simp: bnd_eq_Inr)
  have "en_ColNames data c \<noteq> None" using Cons.prems(2) by simp
  note one = evm_collection_rows [OF r(1) this]
  from one(2) obtain b rows where b: "HexToBytes c = Inr b" "nfts1 = nfts0 @ rows"
    "list_all2 (\<lambda>k r. evm_minted E block data ids minted b k = Inr r) (filter (\<lambda>k. fst k = c) ks) rows" by blast
  from Cons.IH [OF r(2)] Cons.prems(2) obtain rows' where r': "w' = w1" "nfts = nfts1 @ rows'"
    "list_all2 (\<lambda>k r. \<exists>b. HexToBytes (fst k) = Inr b \<and> evm_minted E block data ids minted b k = Inr r) (tokens_by ks cs) rows'" by auto
  have "list_all2 (\<lambda>k r. \<exists>b. HexToBytes (fst k) = Inr b \<and> evm_minted E block data ids minted b k = Inr r) (filter (\<lambda>k. fst k = c) ks) rows"
    by (rule list.rel_mono_strong [OF b(3)]) (use b(1) in auto)
  with r'(3) have l: "list_all2 (\<lambda>k r. \<exists>b. HexToBytes (fst k) = Inr b \<and> evm_minted E block data ids minted b k = Inr r)
      (tokens_by ks (c # cs)) (rows @ rows')"
    by (simp add: tokens_by_def tokens_of list_all2_appendI)
  show ?case
    by (intro conjI exI [of _ "rows @ rows'"] l) (simp_all add: one(1) b(2) r'(1,2))
qed

text \<open>The addresses of the creators come after those of the owners.\<close>

lemma evm_creations_addresses:
  assumes "foreach (evm_creation E block data) cs (infos, as) w = (Inr (infos', bs), w')"
  shows "set as \<subseteq> set bs" "w_db w' = w_db w"
proof -
  have one: "set (snd acc) \<subseteq> set (snd acc') \<and> w_db w' = w_db w"
    if "evm_creation E block data c acc w = (Inr acc', w')" for c acc acc' w w'
    using that
    by (cases acc; cases acc')
      (auto simp: evm_creation_def bnd_eq_Inr IsBlacklisted_def dest!: creation_info_account split: option.splits if_splits prod.splits)
  have "set as \<subseteq> set (snd (infos', bs)) \<and> w_db w' = w_db w"
  proof (rule foreach_Inr [OF assms, where I = "\<lambda>_ acc u. set as \<subseteq> set (snd acc) \<and> w_db u = w_db w"])
    fix acc u acc' v c assume "set as \<subseteq> set (snd acc) \<and> w_db u = w_db w" "evm_creation E block data c acc u = (Inr acc', v)"
    with one [of c acc u acc' v] show "set as \<subseteq> set (snd acc') \<and> w_db v = w_db w" by auto
  qed simp
  then show "set as \<subseteq> set bs" "w_db w' = w_db w" by simp_all
qed


text \<open>A row that a mint or a transfer of the maps writes belongs to the owner the ledger says.\<close>

lemma evm_minted_row:
  assumes E: "env_ok E" and v: "map_of minted k = Some v" "canonical E v" "ids v = Some i" "has_account E w v i"
    and k: "fst k = BytesToHexWithPrefix b" and r: "evm_minted E block data ids minted b k = Inr r"
  shows "named k r \<and> owned E w r (minted_as data k v)"
  using r v k parse_canonical [OF E v(2)]
  by (cases k) (auto simp: evm_minted_def named_def owned_def minted_as_def id_of_def)

lemma evm_moved_row:
  assumes E: "env_ok E" and v: "map_of moved k = Some v" "canonical E v" "ids v = Some i" "has_account E w v i"
    and k: "fst k = BytesToHexWithPrefix b" and r: "evm_transferred E block ids moved k = Inr r"
  shows "named k r \<and> owned E w r (v, [])"
  using r v k parse_canonical [OF E v(2)]
  by (cases k) (auto simp: evm_transferred_def named_def owned_def id_of_def HexToBytes_prefix)


section \<open>The block\<close>

lemma map_owner_in:
  assumes "env_ok E" "map_res (\<lambda>k. parse_owner E (map_get m k [])) ks = Inr as" "k \<in> set ks" "map_of m k = Some v" "canonical E v"
  shows "v \<in> set as"
proof -
  have "list_all2 (\<lambda>k a. parse_owner E (map_get m k []) = Inr a) ks as" using assms(2) by (simp add: map_res_Inr)
  then have "\<forall>k \<in> set ks. \<exists>a \<in> set as. parse_owner E (map_get m k []) = Inr a" by (induction rule: list_all2_induct) auto
  then obtain a where "a \<in> set as" "parse_owner E (map_get m k []) = Inr a" using assms(3) by blast
  with assms(4) parse_canonical [OF assms(1,5)] show ?thesis by simp
qed

lemma evm_op_owner:
  assumes E: "env_ok E" and v: "map_of (mintMap (maps_of (evm_ops E N block))) k = Some v \<or> map_of (transferMap (maps_of (evm_ops E N block))) k = Some v"
  shows "canonical E v"
proof -
  have "Mint k v \<in> snd ` set (evm_ops E N block) \<or> Transfer k v \<in> snd ` set (evm_ops E N block)"
    using v by (elim disjE) (erule maps_from_mint [OF maps_of_from, THEN disjI1] maps_from_transfer [OF maps_of_from, THEN disjI2])+
  then have "op_canonical E (Mint k v) \<or> op_canonical E (Transfer k v)"
    by (elim disjE) (simp_all only: evm_ops_canonical [OF E] simp_thms)
  then show ?thesis by (simp add: op_canonical_def)
qed

lemma evm_owners_in:
  assumes E: "env_ok E" "nft_env_ok N" and r: "evm_addresses_of E N (maps_of (evm_ops E N block)) = Inr owners"
    and v: "map_of (mintMap (maps_of (evm_ops E N block))) k = Some v \<or> map_of (transferMap (maps_of (evm_ops E N block))) k = Some v"
  shows "v \<in> set owners"
proof -
  define m where "m = maps_of (evm_ops E N block)"
  from r obtain os ts where o: "map_res (\<lambda>k. parse_owner E (map_get (mintMap m) k [])) (key_order N (map_keys (mintMap m))) = Inr os"
    "map_res (\<lambda>k. parse_owner E (map_get (transferMap m) k [])) (key_order N (map_keys (transferMap m))) = Inr ts" "owners = os @ ts"
    by (auto simp: evm_addresses_of_def rbind_eq_Inr m_def)
  note keys = maps_of_keys(3,4) [OF E(2), of "evm_ops E N block", folded m_def]
  have "k \<in> set (key_order N (map_keys (mintMap m))) \<and> map_of (mintMap m) k = Some v \<or>
      k \<in> set (key_order N (map_keys (transferMap m))) \<and> map_of (transferMap m) k = Some v"
    using v unfolding keys m_def [symmetric] by (auto simp: map_of_key)
  then show ?thesis unfolding o(3) set_append
    using map_owner_in [OF E(1) o(1) _ _ evm_op_owner [OF E(1) v], of k] map_owner_in [OF E(1) o(2) _ _ evm_op_owner [OF E(1) v], of k] by blast
qed

text \<open>A collect that succeeds ran all its statements.\<close>

lemma collect_evm_steps:
  assumes "collect_evm_nft N E cfg block w = (Inr (), w')"
  obtains data m owners acc ids p trows w1 w2 w3 w4 w5 w6 w7 w8 w9 w10
  where "evmNftCache w (sb_Height block) = Some data" "w1 = w\<lparr>evmNftCache := (evmNftCache w)(sb_Height block := None)\<rparr>"
    "m = maps_of (evm_ops E N block)" "evm_addresses_of E N m = Inr owners"
    "foreach (evm_creation E block data) (map_order E (map_keys (group_tokens (key_order N (map_keys (mintMap m)))))) (Map.empty, owners) w1 = (Inr acc, w2)"
    "GetOrCreateAccountIds E (snd acc) True w2 = (Inr ids, w3)"
    "foreach (evm_collection E block data ids (mintMap m) (fst acc) (group_tokens (key_order N (map_keys (mintMap m)))))
       (map_order E (map_keys (group_tokens (key_order N (map_keys (mintMap m)))))) ([], []) w3 = (Inr p, w4)"
    "CreateInBatches cfg ins_nc (fst p) w4 = (Inr (), w5)" "CreateInBatches cfg ins_nft (snd p) w5 = (Inr (), w6)"
    "map_res (evm_transferred E block ids (transferMap m)) (key_order N (map_keys (transferMap m))) = Inr trows"
    "upsert_transferred cfg trows w6 = (Inr (), w7)" "delete_burned E N HexToBytes (burnMap m) w7 = (Inr (), w8)"
    "update_counts E (updateCountMap m) w8 = (Inr (), w9)" "tx_nft_edges E N cfg (sb_Height block) (nftTxMap m) w9 = (Inr (), w10)"
    "Collect_pairs E N cfg block w10 = (Inr (), w')"
proof -
  have m: "m = maps_of (evm_ops E N block)" if "ExtractEvents E block ''evm'' = Inr events" "rfold (evm_event E N) events no_nfts = Inr m" for events m
    using evm_events_ops [OF that(2)] that(1) by (simp add: maps_of_def evm_ops_def)
  show thesis
    using assms unfolding collect_evm_nft_def Let_def case_prod_beta
    by (elim bndLiftE bndUnitE bndE) (rule that; (erule (1) m | assumption | (drule take_cached_Inr, simp)))
qed

lemma evm_collect_ledger:
  assumes E: "env_ok E" "nft_env_ok N" "valid_config cfg" and inv: "dict_inv (account_dict E) w"
    and L: "represents E w (t_nft (w_db w)) L" and data: "evmNftCache w (sb_Height block) = Some data"
    and ok: "block_ok (minted_as data) L (evm_ops E N block)"
    and named: "\<And>k v. Mint k v \<in> snd ` set (evm_ops E N block) \<Longrightarrow> en_ColNames data (fst k) \<noteq> None"
    and run: "collect_evm_nft N E cfg block w = (Inr (), w')"
  shows "represents E w' (t_nft (w_db w')) (fold (ledger_step (minted_as data)) (map snd (evm_ops E N block)) L)"
proof -
  from collect_evm_steps [OF run] obtain data' m owners acc ids p trows w1 w2 w3 w4 w5 w6 w7 w8 w9 w10
    where c: "evmNftCache w (sb_Height block) = Some data'" "w1 = w\<lparr>evmNftCache := (evmNftCache w)(sb_Height block := None)\<rparr>"
      "m = maps_of (evm_ops E N block)" "evm_addresses_of E N m = Inr owners"
      "foreach (evm_creation E block data') (map_order E (map_keys (group_tokens (key_order N (map_keys (mintMap m)))))) (Map.empty, owners) w1 = (Inr acc, w2)"
      "GetOrCreateAccountIds E (snd acc) True w2 = (Inr ids, w3)"
      "foreach (evm_collection E block data' ids (mintMap m) (fst acc) (group_tokens (key_order N (map_keys (mintMap m)))))
         (map_order E (map_keys (group_tokens (key_order N (map_keys (mintMap m)))))) ([], []) w3 = (Inr p, w4)"
    and s: "CreateInBatches cfg ins_nc (fst p) w4 = (Inr (), w5)" "CreateInBatches cfg ins_nft (snd p) w5 = (Inr (), w6)"
      "map_res (evm_transferred E block ids (transferMap m)) (key_order N (map_keys (transferMap m))) = Inr trows"
      "upsert_transferred cfg trows w6 = (Inr (), w7)" "delete_burned E N HexToBytes (burnMap m) w7 = (Inr (), w8)"
      "update_counts E (updateCountMap m) w8 = (Inr (), w9)" "tx_nft_edges E N cfg (sb_Height block) (nftTxMap m) w9 = (Inr (), w10)"
      "Collect_pairs E N cfg block w10 = (Inr (), w')" .
  define mks where "mks = key_order N (map_keys (mintMap m))"
  define tks where "tks = key_order N (map_keys (transferMap m))"
  define cs where "cs = map_order E (map_keys (group_tokens mks))"
  have data': "data' = data" and m: "m = maps_of (evm_ops E N block)" using c(1,3) data by simp_all
  note keys = maps_of_keys [OF E(2), of "evm_ops E N block", folded m, folded mks_def tks_def]
  have cs: "distinct cs" "set cs = fst ` set mks"
    using E(1) by (simp_all add: cs_def distinct_map_order set_map_order distinct_groups keys_group)
  note c = c [unfolded data', folded mks_def tks_def, folded cs_def]
  have w1: "w_db w1 = w_db w" "dict_inv (account_dict E) w1"
    using apartD(5) [OF apart_dicts(1)] inv by (simp_all add: c(2) stable_caches_def)
  have own: "canonical_all E owners" by (rule evm_owners_canonical [OF E(1) c(4)])
  have w2: "dict_inv (account_dict E) w2" "canonical_all E (snd acc)" "set owners \<subseteq> set (snd acc)" "w_db w2 = w_db w1"
    using hoareD [OF creations_canonical [OF own] w1(2) c(5)] evm_creations_addresses [of E block data cs Map.empty owners w1 "fst acc" "snd acc" w2] c(5)
    by simp_all
  note ids = hoareD [OF account_ids [OF E(1) w2(2) [unfolded canonical_all_def], of "t_account_dict (w_db w2)"] _ c(6)]
  have w3: "t_nft (w_db w3) = t_nft (w_db w)" "set (t_account_dict (w_db w)) \<subseteq> set (t_account_dict (w_db w3))"
    "\<And>v. v \<in> set owners \<Longrightarrow> \<exists>i. ids v = Some i \<and> has_account E w3 v i"
    using keepsD [OF keeps_accounts [OF ignores_nft_rows(2)] refl c(6)] ids w1(1) w2 by auto
  have names: "\<forall>c \<in> set cs. en_ColNames data c \<noteq> None"
  proof
    fix c assume "c \<in> set cs"
    then obtain k where k: "k \<in> fst ` set (mintMap m)" "c = fst k" unfolding cs(2) keys(3) by (rule imageE)
    then obtain v where "map_of (mintMap m) k = Some v" by (auto simp: map_of_key)
    from named [OF maps_from_mint [OF maps_of_from this [unfolded m]]] k(2) show "en_ColNames data c \<noteq> None" by simp
  qed
  have "foreach (evm_collection E block data ids (mintMap m) (fst acc) (group_tokens mks)) cs ([], []) w3 = (Inr (fst p, snd p), w4)"
    using c(7) by simp
  note col = evm_collections_rows [OF this names]
  have w4: "w4 = w3" using col by blast
  have got: "\<exists>i. ids v = Some i \<and> has_account E w' v i" if v: "map_of (mintMap m) k = Some v \<or> map_of (transferMap m) k = Some v" for k v
  proof -
    obtain i where "ids v = Some i" "has_account E w3 v i"
      using w3(3) [OF evm_owners_in [OF E(1,2) c(4) [unfolded m] v [unfolded m]]] by (elim exE conjE)
    with has_account_rows [OF _ nft_statements(2) [OF E(2,1,3) keys(5) s(1,2,4-8)]] show ?thesis unfolding w4 by simp
  qed
  have sub: "fst ` set (mintMap m) \<subseteq> nft_keys (maps_of (evm_ops E N block))" "fst ` set (transferMap m) \<subseteq> nft_keys (maps_of (evm_ops E N block))"
    unfolding m by (rule keys_in_maps)+
  have mint: "rows_of (\<lambda>k r. \<exists>v. map_of (mintMap m) k = Some v \<and> owned E w' r (minted_as data k v)) (tokens_by mks cs) (snd p)"
  proof (rule rows_of_map [OF ok distinct_tokens [OF keys(1) cs(1)] _ sub(1)])
    show "list_all2 (\<lambda>k r. \<exists>b. HexToBytes (fst k) = Inr b \<and> evm_minted E block data ids (mintMap m) b k = Inr r) (tokens_by mks cs) (snd p)"
      using col by auto
  next
    fix k v b r assume k: "map_of (mintMap m) k = Some v" "fst k = BytesToHexWithPrefix b"
      and r: "\<exists>b. HexToBytes (fst k) = Inr b \<and> evm_minted E block data ids (mintMap m) b k = Inr r"
    from got k(1) obtain i where i: "ids v = Some i" "has_account E w' v i" by blast
    have "evm_minted E block data ids (mintMap m) b k = Inr r" using r k(2) by (simp add: HexToBytes_prefix)
    from evm_minted_row [OF E(1) k(1) evm_op_owner [OF E(1) disjI1 [OF k(1) [unfolded m]]] i k(2) this] k(1)
    show "named k r \<and> owned E w' r (minted_as data k v)" by blast
  qed (simp add: set_tokens [OF cs(2)] keys(3))
  have move: "rows_of (\<lambda>k r. \<exists>o'. map_of (transferMap m) k = Some o' \<and> owned E w' r (o', [])) tks trows"
  proof (rule rows_of_map [OF ok keys(2,4) sub(2)])
    show "list_all2 (\<lambda>k r. evm_transferred E block ids (transferMap m) k = Inr r) tks trows"
      using s(3) by (simp add: map_res_Inr tks_def)
  next
    fix k v b r assume k: "map_of (transferMap m) k = Some v" "fst k = BytesToHexWithPrefix b"
      and r: "evm_transferred E block ids (transferMap m) k = Inr r"
    from got k(1) obtain i where i: "ids v = Some i" "has_account E w' v i" by blast
    from evm_moved_row [OF E(1) k(1) evm_op_owner [OF E(1) disjI2 [OF k(1) [unfolded m]]] i k(2) r] k(1)
    show "named k r \<and> owned E w' r (v, [])" by blast
  qed
  show ?thesis
    by (rule block_ledger [OF E(2,1,3) ok L _ _ s(1,2,4,5) [unfolded m] s(6-8) mint [unfolded m] _ move [unfolded m] keys(4) [unfolded m]])
      (simp_all add: w4 w3 set_tokens [OF cs(2)] keys(3) HexToBytes_prefix m [symmetric])
qed

end
