(* ===== verification/Nft_Counts.thy ===== *)
theory Nft_Counts
  imports Evm_Ledger
begin

text \<open>
  The token counts of the collections: what \<open>update_counts\<close> writes, and that the EVM submodule
  keeps the count of every collection that has tokens.
\<close>

section \<open>Counts\<close>

definition tokens_in :: "byte list \<Rightarrow> db \<Rightarrow> int" where
  "tokens_in a d = rows_affected (\<lambda>r. nft_CollectionAddr r = a) (t_nft d)"

definition counted :: "byte list list \<Rightarrow> db \<Rightarrow> CollectedNftCollection \<Rightarrow> CollectedNftCollection" where
  "counted addrs d r = (if nc_Addr r \<in> set addrs \<and> 0 < tokens_in (nc_Addr r) d then r\<lparr>nc_NftCount := tokens_in (nc_Addr r) d\<rparr> else r)"

text \<open>The count of a collection with tokens is their number.\<close>

definition counts_ok :: "db \<Rightarrow> bool" where
  "counts_ok d \<longleftrightarrow> (\<forall>r \<in> set (t_nft_collection d). tokens_in (nc_Addr r) d = 0 \<or> nc_NftCount r = tokens_in (nc_Addr r) d)"

lemma rows_affected_pos: "0 < rows_affected P t \<longleftrightarrow> (\<exists>r \<in> set t. P r)"
  by (auto simp: rows_affected_def filter_empty_conv)

lemma tokens_in_nonneg [simp]: "0 \<le> tokens_in a d"
  by (simp add: tokens_in_def rows_affected_def)

lemma counted_addr [simp]: "nc_Addr (counted addrs d r) = nc_Addr r"
  by (simp add: counted_def)

lemma count_groups: "distinct (map fst (count_nfts addrs d))"
    "map_of (count_nfts addrs d) a = (if a \<in> set addrs \<and> 0 < tokens_in a d then Some (tokens_in a d) else None)"
  by (auto simp: count_nfts_def tokens_in_def rows_affected_pos comp_def map_of_map_restrict restrict_map_def)

lemma set_counts:
  "distinct (map fst cs) \<Longrightarrow> foreach (\<lambda>c _. exec (set_count c)) cs () w = (Inr (), w') \<Longrightarrow>
     w_db w' = (w_db w)\<lparr>t_nft_collection := map (\<lambda>r. case map_of cs (nc_Addr r) of None \<Rightarrow> r | Some n \<Rightarrow> r\<lparr>nc_NftCount := n\<rparr>) (t_nft_collection (w_db w))\<rparr>"
proof (induction cs arbitrary: w)
  case (Cons c cs)
  obtain a n where c: "c = (a, n)" by force
  from Cons.prems(2) obtain u where u: "exec (set_count c) w = (Inr (), u)" "foreach (\<lambda>c _. exec (set_count c)) cs () u = (Inr (), w')"
    by (auto simp: bnd_eq_Inr)
  have "map_of cs a = None" using Cons.prems(1) by (simp add: c map_of_eq_None_iff)
  then show ?case
    using Cons.IH [OF _ u(2)] Cons.prems(1) exec_db [OF u(1)] by (simp add: c set_count_def update_where_def comp_def if_distrib cong: if_cong)
qed (simp add: ret_def)

lemma update_counts_db:
  assumes "update_counts E cs w = (Inr (), w')"
  shows "\<exists>addrs. map_res HexToBytes (map_order E cs) = Inr addrs \<and>
    w_db w' = (w_db w)\<lparr>t_nft_collection := map (counted addrs (w_db w)) (t_nft_collection (w_db w))\<rparr>"
proof -
  from assms obtain addrs counts u where u: "map_res HexToBytes (map_order E cs) = Inr addrs"
    "query (count_nfts addrs) w = (Inr counts, u)" "foreach (\<lambda>c _. exec (set_count c)) counts () u = (Inr (), w')"
    unfolding update_counts_def by (auto simp: bnd_eq_Inr)
  have q: "w_db u = w_db w" "counts = count_nfts addrs (w_db w)" using hoareD [OF hoare_query refl u(2)] by simp_all
  have "(\<lambda>r. case map_of counts (nc_Addr r) of None \<Rightarrow> r | Some n \<Rightarrow> r\<lparr>nc_NftCount := n\<rparr>) = counted addrs (w_db w)"
    by (rule ext) (simp add: q(2) count_groups counted_def)
  with set_counts [OF _ u(3)] u(1) q show ?thesis by (simp add: count_groups)
qed

lemma counted_ok:
  assumes "\<And>r. r \<in> set t \<Longrightarrow> nc_Addr r \<notin> set addrs \<Longrightarrow> tokens_in (nc_Addr r) d = 0 \<or> nc_NftCount r = tokens_in (nc_Addr r) d"
    "r \<in> set (map (counted addrs d) t)"
  shows "tokens_in (nc_Addr r) d = 0 \<or> nc_NftCount r = tokens_in (nc_Addr r) d"
proof -
  obtain s where s: "s \<in> set t" "r = counted addrs d s" using assms(2) by auto
  have "0 \<le> tokens_in (nc_Addr s) d" by simp
  then show ?thesis using assms(1) [OF s(1)] unfolding s(2) counted_def by (auto simp: order_le_less)
qed


section \<open>Counts after a block\<close>

text \<open>The pairs of collections change origin names only.\<close>

lemma keeps_pairs_counts:
  "keeps (\<lambda>w. t_nft (w_db w) = T \<and> (\<forall>r \<in> set (t_nft_collection (w_db w)). F (nc_Addr r) (nc_NftCount r))) (Collect_pairs E N cfg block)"
  unfolding Collect_pairs_def
  by (intro keeps_intros keeps_exec) (auto simp: fault_free_def set_origin_def update_where_def)

lemma tokens_in_eq: "t_nft d = t_nft d' \<Longrightarrow> tokens_in a d = tokens_in a d'"
  by (simp add: tokens_in_def)

text \<open>
  Collections outside of the update list keep their tokens, and the collections that are inserted are
  on the list: then the counts stay right.
\<close>

lemma block_counts:
  assumes E: "nft_env_ok N" "env_ok E" "valid_config cfg" and d: "distinct burned" "distinct cs"
    and s: "CreateInBatches cfg ins_nc cols w1 = (Inr (), w2)" "CreateInBatches cfg ins_nft mrows w2 = (Inr (), w3)"
      "upsert_transferred cfg trows w3 = (Inr (), w4)" "delete_burned E N addr_of burned w4 = (Inr (), w5)"
      "update_counts E cs w5 = (Inr (), w6)" "tx_nft_edges E N cfg h txs w6 = (Inr (), w7)" "Collect_pairs E N cfg block w7 = (Inr (), w8)"
    and ok: "counts_ok (w_db w1)" and new: "\<And>r. r \<in> set cols \<Longrightarrow> \<exists>c \<in> set cs. HexToBytes c = Inr (nc_Addr r)"
    and same: "\<And>b. (\<And>c. c \<in> set cs \<Longrightarrow> HexToBytes c \<noteq> Inr b) \<Longrightarrow> tokens_in b (w_db w8) = tokens_in b (w_db w1)"
  shows "counts_ok (w_db w8)"
proof -
  obtain addrs where a: "map_res HexToBytes (map_order E cs) = Inr addrs"
    "w_db w6 = (w_db w5)\<lparr>t_nft_collection := map (counted addrs (w_db w5)) (t_nft_collection (w_db w5))\<rparr>"
    using update_counts_db [OF s(5)] by blast
  have addrs: "b \<in> set addrs \<longleftrightarrow> (\<exists>c \<in> set cs. HexToBytes c = Inr b)" for b
  proof -
    have "list_all2 (\<lambda>c b. HexToBytes c = Inr b) (map_order E cs) addrs" using a(1) by (simp add: map_res_Inr)
    then have "b \<in> set addrs \<longleftrightarrow> (\<exists>c \<in> set (map_order E cs). HexToBytes c = Inr b)"
      by (induction rule: list_all2_induct) auto
    then show ?thesis by (simp add: set_map_order [OF E(2) d(2)])
  qed
  have "w_db w2 = ins_nc cols (w_db w1)" by (rule hoareD [OF hoare_batches [OF E(3) additive_nft(2)] refl s(1)])
  moreover have "w_db w3 = ins_nft mrows (w_db w2)" by (rule hoareD [OF hoare_batches [OF E(3) additive_nft(1)] refl s(2)])
  ultimately have c5: "t_nft_collection (w_db w5) = insert_rows nc_Addr cols (t_nft_collection (w_db w1))"
    using upsert_transferred_db [OF E(3) s(3)] delete_burned_db [OF E(1,2) d(1) s(4)] by (simp add: ins_nc_def ins_nft_def)
  have t7: "t_nft (w_db w7) = t_nft (w_db w5) \<and> t_nft_collection (w_db w7) = t_nft_collection (w_db w6)"
  proof -
    have "ignores (nft_dict E) (\<lambda>w. t_nft_collection (w_db w) = C)" "stable only_tn (\<lambda>w. t_nft_collection (w_db w) = C)" for C
      by (simp_all add: ignores_def fault_free_def nft_dict_def stable_def only_tables)
    from keepsD [OF keeps_tx_nft_edges [OF this] refl s(6)]
      keepsD [OF keeps_tx_nft_edges [OF ignores_nft_rows(1) stable_nft_rows(2)] refl s(6)] a(2) show ?thesis by simp
  qed
  have t8: "t_nft (w_db w8) = t_nft (w_db w5)"
    using keepsD [OF keeps_pairs [OF stable_nft_rows(1)] refl s(7)] t7 by simp
  note tok = tokens_in_eq [OF t8]
  define F where "F = (\<lambda>b n. tokens_in b (w_db w5) = 0 \<or> n = tokens_in b (w_db w5))"
  have old: "F (nc_Addr r) (nc_NftCount r)" if r: "r \<in> set (t_nft_collection (w_db w5))" "nc_Addr r \<notin> set addrs" for r
  proof -
    have "\<exists>u. insert_rows nc_Addr cols (t_nft_collection (w_db w1)) = t_nft_collection (w_db w1) @ u \<and> set u \<subseteq> set cols"
      by (rule insert_rows_extends)
    then have "r \<in> set (t_nft_collection (w_db w1)) \<or> r \<in> set cols" using r(1) unfolding c5 by auto
    then have "r \<in> set (t_nft_collection (w_db w1))" using new r(2) addrs by blast
    moreover have "tokens_in (nc_Addr r) (w_db w8) = tokens_in (nc_Addr r) (w_db w1)"
      by (rule same) (use r(2) addrs in blast)
    ultimately show ?thesis using ok tok [of "nc_Addr r"] by (simp add: counts_ok_def F_def)
  qed
  have "\<forall>r \<in> set (t_nft_collection (w_db w6)). F (nc_Addr r) (nc_NftCount r)"
  proof
    fix r assume "r \<in> set (t_nft_collection (w_db w6))"
    then have "r \<in> set (map (counted addrs (w_db w5)) (t_nft_collection (w_db w5)))" by (simp add: a(2))
    from counted_ok [OF old [unfolded F_def] this] show "F (nc_Addr r) (nc_NftCount r)" by (simp add: F_def)
  qed
  then have "t_nft (w_db w7) = t_nft (w_db w5) \<and> (\<forall>r \<in> set (t_nft_collection (w_db w7)). F (nc_Addr r) (nc_NftCount r))"
    using t7 by simp
  from keepsD [OF keeps_pairs_counts this s(7)] show ?thesis by (simp add: counts_ok_def F_def tok)
qed

text \<open>The tokens of a collection are those the ledger holds.\<close>

lemma tokens_of_ledger:
  assumes "unique_key nft_key (t_nft d)" "represents E w (t_nft d) L"
  shows "tokens_in b d = int (card {tok. L (BytesToHexWithPrefix b, tok) \<noteq> None})"
proof -
  define R where "R = filter (\<lambda>r. nft_CollectionAddr r = b) (t_nft d)"
  have k: "distinct (map nft_key R)" using assms(1) by (simp add: R_def unique_key_def distinct_map_filter_fst)
  then have "inj_on nft_TokenId (set R)" "distinct R" by (auto simp: distinct_map inj_on_def nft_key_def R_def)
  then have "length R = card (nft_TokenId ` set R)" by (simp add: card_image distinct_card)
  moreover have "nft_TokenId ` set R = {tok. (b, tok) \<in> nft_key ` set (t_nft d)}"
    by (force simp: R_def nft_key_def image_iff)
  moreover have "(b, tok) \<in> nft_key ` set (t_nft d) \<longleftrightarrow> L (BytesToHexWithPrefix b, tok) \<noteq> None" for tok
  proof -
    have "rel_option (owned E w) (row_at nft_key (t_nft d) (b, tok)) (L (BytesToHexWithPrefix b, tok))"
      using assms(2) by (simp add: represents_def)
    then have "row_at nft_key (t_nft d) (b, tok) = None \<longleftrightarrow> L (BytesToHexWithPrefix b, tok) = None"
      by (cases "row_at nft_key (t_nft d) (b, tok)"; cases "L (BytesToHexWithPrefix b, tok)") auto
    then show ?thesis by (auto simp: row_at_None)
  qed
  ultimately show ?thesis by (simp add: tokens_in_def rows_affected_def R_def [symmetric])
qed

text \<open>Transfers of existing tokens change neither side.\<close>

lemma legal_tokens:
  "legal vf L ops \<Longrightarrow> (\<And>op. op \<in> set ops \<Longrightarrow> fst (op_nft op) = c \<Longrightarrow> \<exists>k o'. op = Transfer k o') \<Longrightarrow>
     fold (ledger_step vf) ops L (c, tok) \<noteq> None \<longleftrightarrow> L (c, tok) \<noteq> None"
proof (induction ops arbitrary: L)
  case (Cons op ops)
  have "ledger_step vf op L (c, tok) \<noteq> None \<longleftrightarrow> L (c, tok) \<noteq> None"
  proof (cases "fst (op_nft op) = c")
    case True
    then obtain k o' where "op = Transfer k o'" using Cons.prems(2) [of op] by auto
    then show ?thesis using Cons.prems(1) by auto
  next
    case False
    then show ?thesis by (cases op) auto
  qed
  with Cons.IH [of "ledger_step vf op L"] Cons.prems show ?case by simp
qed simp


section \<open>The EVM submodule\<close>

lemma evm_collections_addrs:
  assumes "foreach (evm_collection E block data ids minted infos groups) cs (cols0, nfts0) w = (Inr (cols, nfts), w')" "r \<in> set cols"
  shows "r \<in> set cols0 \<or> (\<exists>c \<in> set cs. HexToBytes c = Inr (nc_Addr r))"
  using assms(1)
proof (induction cs arbitrary: cols0 nfts0 w)
  case Nil
  then show ?case using assms(2) by (simp add: ret_def)
next
  case (Cons c cs)
  then obtain cols1 nfts1 w1 where
    f: "evm_collection E block data ids minted infos groups c (cols0, nfts0) w = (Inr (cols1, nfts1), w1)"
      "foreach (evm_collection E block data ids minted infos groups) cs (cols1, nfts1) w1 = (Inr (cols, nfts), w')"
    by (auto simp: bnd_eq_Inr)
  have "r \<in> set cols1 \<Longrightarrow> r \<in> set cols0 \<or> HexToBytes c = Inr (nc_Addr r)"
    using f(1) by (auto simp: evm_collection_def bnd_eq_Inr Let_def split: option.splits)
  with Cons.IH [OF f(2)] show ?case by auto
qed

lemma unique_nft_statements:
  assumes "unique_key nft_key t"
  shows "unique_key nft_key (delete_where Q (fold upsert_owner trows (insert_rows nft_key mrows t)))"
  using assms by (simp add: unique_upserts)

text \<open>A mint or a burn puts its collection on the list of counts.\<close>

lemma counted_collections:
  "set (updateCountMap (maps_of ps)) = {c. \<exists>op \<in> snd ` set ps. c = fst (op_nft op) \<and> (\<nexists>k o'. op = Transfer k o')}"
proof -
  have "set (updateCountMap (maps_of ps)) = {c. \<exists>(h, op) \<in> set ps. c = fst (op_nft op) \<and> (\<nexists>k o'. op = Transfer k o')}"
    using maps_of_from [of ps] unfolding maps_from_def by (elim conjE)
  then show ?thesis by (auto simp: image_iff split_beta)
qed

lemma evm_keeps_counts:
  assumes E: "env_ok E" "nft_env_ok N" "valid_config cfg" and inv: "dict_inv (account_dict E) w" "unique_key nft_key (t_nft (w_db w))"
    and L: "represents E w (t_nft (w_db w)) L" and data: "evmNftCache w (sb_Height block) = Some data"
    and ok: "block_ok (minted_as data) L (evm_ops E N block)"
    and named: "\<And>k v. Mint k v \<in> snd ` set (evm_ops E N block) \<Longrightarrow> en_ColNames data (fst k) \<noteq> None"
    and counts: "counts_ok (w_db w)" and run: "collect_evm_nft N E cfg block w = (Inr (), w')"
  shows "counts_ok (w_db w')" "unique_key nft_key (t_nft (w_db w'))"
proof -
  define ps where "ps = evm_ops E N block"
  note L' = evm_collect_ledger [OF E inv(1) L data ok named run, folded ps_def]
  from collect_evm_steps [OF run] obtain data' m owners acc ids p trows w1 w2 w3 w4 w5 w6 w7 w8 w9 w10
    where c: "w1 = w\<lparr>evmNftCache := (evmNftCache w)(sb_Height block := None)\<rparr>" "m = maps_of (evm_ops E N block)"
      "foreach (evm_creation E block data') (map_order E (map_keys (group_tokens (key_order N (map_keys (mintMap m)))))) (Map.empty, owners) w1 = (Inr acc, w2)"
      "GetOrCreateAccountIds E (snd acc) True w2 = (Inr ids, w3)"
      "foreach (evm_collection E block data' ids (mintMap m) (fst acc) (group_tokens (key_order N (map_keys (mintMap m)))))
         (map_order E (map_keys (group_tokens (key_order N (map_keys (mintMap m)))))) ([], []) w3 = (Inr p, w4)"
    and s: "CreateInBatches cfg ins_nc (fst p) w4 = (Inr (), w5)" "CreateInBatches cfg ins_nft (snd p) w5 = (Inr (), w6)"
      "upsert_transferred cfg trows w6 = (Inr (), w7)" "delete_burned E N HexToBytes (burnMap m) w7 = (Inr (), w8)"
      "update_counts E (updateCountMap m) w8 = (Inr (), w9)" "tx_nft_edges E N cfg (sb_Height block) (nftTxMap m) w9 = (Inr (), w10)"
      "Collect_pairs E N cfg block w10 = (Inr (), w')" .
  note m = c(2) [folded ps_def]
  note wf = maps_of_wf [of ps, unfolded maps_wf_def, folded m]
  have w4: "t_nft (w_db w4) = t_nft (w_db w) \<and> t_nft_collection (w_db w4) = t_nft_collection (w_db w)"
  proof -
    have "w_db w2 = w_db w1" using evm_creations_addresses(2) c(3) by (metis prod.collapse)
    moreover have "ignores (account_dict E) (\<lambda>w. t_nft (w_db w) = T \<and> t_nft_collection (w_db w) = C)" for T C
      by (simp add: ignores_def fault_free_def account_dict_def)
    from keepsD [OF keeps_accounts [OF this] _ c(4)] have "t_nft (w_db w3) = t_nft (w_db w2) \<and> t_nft_collection (w_db w3) = t_nft_collection (w_db w2)"
      by simp
    moreover have "keeps (\<lambda>u. w_db u = w_db w3) (foreach (evm_collection E block data' ids mt info gr) cs a)" for mt info gr cs a
      unfolding evm_collection_def Let_def by (intro keeps_intros keeps_IsBlacklisted) (simp_all add: stable_caches_def)
    from keepsD [OF this refl c(5)] have "w_db w4 = w_db w3" .
    ultimately show ?thesis using c(1) by simp
  qed
  have bd: "distinct (burnMap m)" "distinct (updateCountMap m)" using wf by simp_all
  note st = nft_statements(1) [OF E(2,1,3) bd(1) s]
  show u: "unique_key nft_key (t_nft (w_db w'))" unfolding st using inv(2) w4 by (simp add: unique_nft_statements)
  have upd: "fst k \<in> set (updateCountMap m)" if "k \<in> fst ` set (mintMap m)" for k
  proof -
    from that obtain v where "map_of (mintMap m) k = Some v" by (auto simp: map_of_key)
    with maps_from_mint [OF maps_of_from, of ps k v] have "Mint k v \<in> snd ` set ps" by (simp add: m)
    then show ?thesis unfolding m counted_collections by force
  qed
  show "counts_ok (w_db w')"
  proof (rule block_counts [OF E(2,1,3) bd s])
    show "counts_ok (w_db w4)" using counts w4 by (simp add: counts_ok_def tokens_in_def)
  next
    fix r assume "r \<in> set (fst p)"
    moreover have "foreach (evm_collection E block data' ids (mintMap m) (fst acc) (group_tokens (key_order N (map_keys (mintMap m)))))
        (map_order E (map_keys (group_tokens (key_order N (map_keys (mintMap m)))))) ([], []) w3 = (Inr (fst p, snd p), w4)"
      using c(5) by simp
    ultimately obtain d where d: "d \<in> set (map_order E (map_keys (group_tokens (key_order N (map_keys (mintMap m))))))"
      "HexToBytes d = Inr (nc_Addr r)" using evm_collections_addrs by fastforce
    have "d \<in> fst ` fst ` set (mintMap m)"
      using d(1) maps_of_keys(3) [OF E(2), of ps, folded m] by (simp add: set_map_order [OF E(1)] distinct_groups keys_group)
    then obtain k where "d = fst k" "k \<in> fst ` set (mintMap m)" by (rule imageE)
    note d(2) [unfolded this(1)] this(2)
    with upd show "\<exists>c \<in> set (updateCountMap m). HexToBytes c = Inr (nc_Addr r)" by blast
  next
    fix b assume b: "\<And>c. c \<in> set (updateCountMap m) \<Longrightarrow> HexToBytes c \<noteq> Inr b"
    have "BytesToHexWithPrefix b \<notin> set (updateCountMap m)" using b [of "BytesToHexWithPrefix b"] HexToBytes_prefix by blast
    then have moves: "\<exists>k o'. op = Transfer k o'" if "op \<in> set (map snd ps)" "fst (op_nft op) = BytesToHexWithPrefix b" for op
      using that unfolding m counted_collections by auto
    have "legal (minted_as data) L (map snd ps)" using ok by (simp add: block_ok_def ps_def)
    note same = legal_tokens [OF this moves]
    have "tokens_in b (w_db w') = int (card {tok. fold (ledger_step (minted_as data)) (map snd ps) L (BytesToHexWithPrefix b, tok) \<noteq> None})"
      by (rule tokens_of_ledger [OF u L'])
    also have "\<dots> = int (card {tok. L (BytesToHexWithPrefix b, tok) \<noteq> None})" by (simp only: same)
    also have "\<dots> = tokens_in b (w_db w)" by (rule tokens_of_ledger [OF inv(2) L, symmetric])
    also have "tokens_in b (w_db w) = tokens_in b (w_db w4)" using w4 by (simp add: tokens_in_def)
    finally show "tokens_in b (w_db w') = tokens_in b (w_db w4)" .
  qed
qed

end
