(* ===== verification/Wasm_Ledger.thy ===== *)
theory Wasm_Ledger
  imports Nft_Rows Nft_Submodules
begin

text \<open>
  The Wasm submodule against the ledger: the operations the contract events of a block stand for,
  and the rows \<open>collect\<close> writes for them.
\<close>

section \<open>The operations of a block\<close>

definition wasm_op :: "env \<Rightarrow> (string \<rightharpoonup> string) \<Rightarrow> (string \<times> string) nft_op option" where
  "wasm_op E attr =
     (case (attr ''_contract_address'', attr ''action'', attr ''token_id'') of
        (Some c, Some action, Some tok) \<Rightarrow>
          (case AccAddressFromString (from_bech32 E) c of
             Inl e \<Rightarrow> None
           | Inr b \<Rightarrow> let key = (BytesToHexWithPrefix b, tok) in
               if action = ''mint'' then
                 map_option (\<lambda>ownr. Mint key (ownr, case attr ''token_uri'' of None \<Rightarrow> [] | Some u \<Rightarrow> u)) (attr ''owner'')
               else if action \<in> {''transfer_nft'', ''send_nft''} then map_option (Transfer key) (attr ''recipient'')
               else if action = ''burn'' then Some (Burn key) else None)
      | _ \<Rightarrow> None)"

definition wasm_ops :: "env \<Rightarrow> ScrapedBlock \<Rightarrow> (string \<times> (string \<times> string) nft_op) list" where
  "wasm_ops E block = (case ExtractEvents E block ''wasm'' of
     Inl e \<Rightarrow> []
   | Inr events \<Rightarrow> List.map_filter (\<lambda>p. map_option (Pair (pe_TxHash p)) (wasm_op E (pe_AttrMap p))) events)"

lemma wasm_event_op:
  assumes "wasm_event E p m = Inr m'"
  shows "m' = (case wasm_op E (pe_AttrMap p) of None \<Rightarrow> m | Some op \<Rightarrow> track_in (pe_TxHash p, op) m)"
proof (cases "pe_AttrMap p ''_contract_address''")
  case None
  with assms show ?thesis by (simp add: wasm_event_def wasm_op_def)
next
  case (Some c)
  with assms obtain b where b: "AccAddressFromString (from_bech32 E) c = Inr b"
    by (cases "AccAddressFromString (from_bech32 E) c") (auto simp: wasm_event_def)
  show ?thesis
    using assms
    by (cases "pe_AttrMap p ''action''"; cases "pe_AttrMap p ''token_id''")
      (auto simp: wasm_event_def wasm_op_def Some b Let_def track_in_def split: if_splits option.splits)
qed

lemma wasm_events_ops:
  "rfold (wasm_event E) events m = Inr m' \<Longrightarrow>
     m' = fold track_in (List.map_filter (\<lambda>p. map_option (Pair (pe_TxHash p)) (wasm_op E (pe_AttrMap p))) events) m"
proof (induction events arbitrary: m)
  case (Cons p ps)
  then obtain u where u: "wasm_event E p m = Inr u" "rfold (wasm_event E) ps u = Inr m'" by (auto simp: rbind_eq_Inr)
  from Cons.IH [OF u(2)] wasm_event_op [OF u(1)] show ?case by (simp add: List.map_filter_simps split: option.splits)
qed (simp add: List.map_filter_simps)

text \<open>Addresses the SDK wrote: owners, receivers, and a contract whose hex form reads back.\<close>

definition wasm_op_ok :: "env \<Rightarrow> (string \<times> string) nft_op \<Rightarrow> bool" where
  "wasm_op_ok E op \<longleftrightarrow> (\<exists>b. fst (op_nft op) = BytesToHexWithPrefix b \<and> AccAddressFromString (from_bech32 E) (BytesToHexWithPrefix b) = Inr b) \<and>
     (case op of Mint k v \<Rightarrow> canonical E (fst v) | Transfer k o' \<Rightarrow> canonical E o' | Burn k \<Rightarrow> True)"

lemma wasm_mint_ok: "\<forall>op \<in> snd ` set ps. wasm_op_ok E op \<Longrightarrow> map_of (mintMap (maps_of ps)) k = Some v \<Longrightarrow> wasm_op_ok E (Mint k v)"
  by (drule maps_from_mint [OF maps_of_from]) blast

lemma wasm_transfer_ok: "\<forall>op \<in> snd ` set ps. wasm_op_ok E op \<Longrightarrow> map_of (transferMap (maps_of ps)) k = Some v \<Longrightarrow> wasm_op_ok E (Transfer k v)"
  by (drule maps_from_transfer [OF maps_of_from]) blast

text \<open>A key of the burn map was burned in the block.\<close>

lemma burn_from: "k \<in> set (burnMap (fold track_in ps m)) \<Longrightarrow> k \<in> set (burnMap m) \<or> (\<exists>h. (h, Burn k) \<in> set ps)"
proof (induction ps arbitrary: m)
  case (Cons p ps)
  obtain h op where p: "p = (h, op)" by force
  from Cons.IH [of "track_in p m"] Cons.prems have "k \<in> set (burnMap (track_in p m)) \<or> (\<exists>h. (h, Burn k) \<in> set ps)" by simp
  moreover have "k \<in> set (burnMap (track_in p m)) \<Longrightarrow> k \<in> set (burnMap m) \<or> op = Burn k"
    by (cases op) (auto simp: p track_in_def mint_nft_def transfer_nft_def burn_nft_def)
  ultimately show ?case by (auto simp: p)
qed simp


section \<open>The rows of a block\<close>

definition infos_ok :: "env \<Rightarrow> (string, CollectionInfo) gomap \<Rightarrow> bool" where
  "infos_ok E colInfos \<longleftrightarrow> distinct (map_keys colInfos) \<and> (\<forall>(c, i) \<in> set colInfos. canonical E (ci_Creator i))"

lemma wasm_addresses_canonical:
  assumes E: "env_ok E" "nft_env_ok N" and ok: "infos_ok E colInfos" "\<forall>op \<in> snd ` set ps. wasm_op_ok E op"
  shows "canonical_all E (wasm_addresses E N colInfos (maps_of ps))"
proof -
  have "canonical E (ci_Creator (map_get colInfos c z))" if "c \<in> fst ` set colInfos" for c z
    using that ok(1) by (auto simp: infos_ok_def map_of_key dest!: map_of_SomeD)
  moreover have "canonical E (fst (map_get (mintMap (maps_of ps)) k z))" if "k \<in> fst ` set (mintMap (maps_of ps))" for k z
    using that wasm_mint_ok [OF ok(2), of k] by (auto simp: map_of_key wasm_op_ok_def)
  moreover have "canonical E (map_get (transferMap (maps_of ps)) k z)" if "k \<in> fst ` set (transferMap (maps_of ps))" for k z
    using that wasm_transfer_ok [OF ok(2), of k] by (auto simp: map_of_key wasm_op_ok_def)
  moreover have "distinct (map_keys colInfos)" using ok(1) by (simp add: infos_ok_def)
  ultimately show ?thesis
    by (simp add: canonical_all_def wasm_addresses_def ball_Un set_map_order [OF E(1)] maps_of_keys(3,4) [OF E(2)])
qed

lemma wasm_owner_in:
  assumes E: "env_ok E" "nft_env_ok N"
  shows "map_of (mintMap (maps_of ps)) k = Some v \<Longrightarrow> fst v \<in> set (wasm_addresses E N colInfos (maps_of ps))"
    "map_of (transferMap (maps_of ps)) k = Some o' \<Longrightarrow> o' \<in> set (wasm_addresses E N colInfos (maps_of ps))"
proof -
  assume v: "map_of (mintMap (maps_of ps)) k = Some v"
  then have "k \<in> set (key_order N (map_keys (mintMap (maps_of ps))))" unfolding maps_of_keys(3) [OF E(2)] by (auto simp: map_of_key)
  then have "fst (map_get (mintMap (maps_of ps)) k ([], [])) \<in> set (wasm_addresses E N colInfos (maps_of ps))"
    unfolding wasm_addresses_def set_append set_map by blast
  with v show "fst v \<in> set (wasm_addresses E N colInfos (maps_of ps))" by simp
next
  assume v: "map_of (transferMap (maps_of ps)) k = Some o'"
  then have "k \<in> set (key_order N (map_keys (transferMap (maps_of ps))))" unfolding maps_of_keys(4) [OF E(2)] by (auto simp: map_of_key)
  then have "map_get (transferMap (maps_of ps)) k [] \<in> set (wasm_addresses E N colInfos (maps_of ps))"
    unfolding wasm_addresses_def set_append set_map by blast
  with v show "o' \<in> set (wasm_addresses E N colInfos (maps_of ps))" by simp
qed

text \<open>A collect that succeeds ran all its statements.\<close>

lemma collect_wasm_steps:
  assumes "collect_wasm N E cfg block w = (Inr (), w')"
  obtains colInfos m ids cols mrows trows w1 w2 w3 w4 w5 w6 w7 w8
  where "wasmNftCache w (sb_Height block) = Some colInfos" "w1 = w\<lparr>wasmNftCache := (wasmNftCache w)(sb_Height block := None)\<rparr>"
    "m = maps_of (wasm_ops E block)" "GetOrCreateAccountIds E (wasm_addresses E N colInfos m) True w1 = (Inr ids, w2)"
    "map_res (wasm_collection E block ids colInfos) (map_order E (map_keys colInfos)) = Inr cols" "CreateInBatches cfg ins_nc cols w2 = (Inr (), w3)"
    "map_res (wasm_minted E block ids (mintMap m)) (key_order N (map_keys (mintMap m))) = Inr mrows"
    "CreateInBatches cfg ins_nft mrows w3 = (Inr (), w4)"
    "map_res (wasm_transferred E block ids (transferMap m)) (key_order N (map_keys (transferMap m))) = Inr trows"
    "upsert_transferred cfg trows w4 = (Inr (), w5)" "delete_burned E N (AccAddressFromString (from_bech32 E)) (burnMap m) w5 = (Inr (), w6)"
    "update_counts E (updateCountMap m) w6 = (Inr (), w7)" "tx_nft_edges E N cfg (sb_Height block) (nftTxMap m) w7 = (Inr (), w8)"
    "Collect_pairs E N cfg block w8 = (Inr (), w')"
proof -
  have m: "m = maps_of (wasm_ops E block)" if "ExtractEvents E block ''wasm'' = Inr events" "rfold (wasm_event E) events no_nfts = Inr m" for events m
    using wasm_events_ops [OF that(2)] that(1) by (simp add: maps_of_def wasm_ops_def)
  show thesis
    using assms unfolding collect_wasm_def
    by (elim bndLiftE bndUnitE bndE) (rule that; (erule (1) m | assumption | (drule take_cached_Inr, simp)))
qed

lemma wasm_collect_ledger:
  assumes E: "env_ok E" "nft_env_ok N" "valid_config cfg" and inv: "dict_inv (account_dict E) w"
    and L: "represents E w (t_nft (w_db w)) L"
    and infos: "\<And>colInfos. wasmNftCache w (sb_Height block) = Some colInfos \<Longrightarrow> infos_ok E colInfos"
    and legal: "legal (\<lambda>k v. v) L (map snd (wasm_ops E block))" "fresh_mints L (map snd (wasm_ops E block))"
    and addrs: "\<forall>op \<in> snd ` set (wasm_ops E block). wasm_op_ok E op"
    and run: "collect_wasm N E cfg block w = (Inr (), w')"
  shows "represents E w' (t_nft (w_db w')) (fold (ledger_step (\<lambda>k v. v)) (map snd (wasm_ops E block)) L)"
proof -
  from collect_wasm_steps [OF run] obtain colInfos m ids cols mrows trows w1 w2 w3 w4 w5 w6 w7 w8
    where c: "wasmNftCache w (sb_Height block) = Some colInfos" "w1 = w\<lparr>wasmNftCache := (wasmNftCache w)(sb_Height block := None)\<rparr>"
      "m = maps_of (wasm_ops E block)" "GetOrCreateAccountIds E (wasm_addresses E N colInfos m) True w1 = (Inr ids, w2)"
    and s: "CreateInBatches cfg ins_nc cols w2 = (Inr (), w3)" "map_res (wasm_minted E block ids (mintMap m)) (key_order N (map_keys (mintMap m))) = Inr mrows"
      "CreateInBatches cfg ins_nft mrows w3 = (Inr (), w4)"
      "map_res (wasm_transferred E block ids (transferMap m)) (key_order N (map_keys (transferMap m))) = Inr trows"
      "upsert_transferred cfg trows w4 = (Inr (), w5)" "delete_burned E N (AccAddressFromString (from_bech32 E)) (burnMap m) w5 = (Inr (), w6)"
      "update_counts E (updateCountMap m) w6 = (Inr (), w7)" "tx_nft_edges E N cfg (sb_Height block) (nftTxMap m) w7 = (Inr (), w8)"
      "Collect_pairs E N cfg block w8 = (Inr (), w')" .
  note m = c(3)
  have ok: "block_ok (\<lambda>k v. v) L (wasm_ops E block)" using legal addrs unfolding block_ok_def wasm_op_ok_def by blast
  note keys = maps_of_keys [OF E(2), of "wasm_ops E block", folded m]
  have w1: "w_db w1 = w_db w" "dict_inv (account_dict E) w1"
    using apartD(5) [OF apart_dicts(1)] inv by (simp_all add: c(2) stable_caches_def)
  have can: "canonical_all E (wasm_addresses E N colInfos m)"
    unfolding m by (rule wasm_addresses_canonical [OF E(1,2) infos [OF c(1)] addrs])
  note ids = hoareD [OF account_ids [OF E(1) can [unfolded canonical_all_def], of "t_account_dict (w_db w1)"] _ c(4)]
  have w2: "t_nft (w_db w2) = t_nft (w_db w)" "set (t_account_dict (w_db w)) \<subseteq> set (t_account_dict (w_db w2))"
    "\<And>v. v \<in> set (wasm_addresses E N colInfos m) \<Longrightarrow> \<exists>i. ids v = Some i \<and> has_account E w2 v i"
    using keepsD [OF keeps_accounts [OF ignores_nft_rows(2)] refl c(4)] ids w1 by auto
  have got: "\<exists>i. ids v = Some i \<and> has_account E w' v i" if "v \<in> set (wasm_addresses E N colInfos m)" for v
    using w2(3) [OF that] has_account_rows [OF _ nft_statements(2) [OF E(2,1,3) keys(5) s(1,3,5-9)]] by (elim exE conjE) simp
  have addr: "AccAddressFromString (from_bech32 E) (BytesToHexWithPrefix b) = Inr b"
    if "wasm_op_ok E op" "fst (op_nft op) = BytesToHexWithPrefix b" for op b
    using that by (auto simp: wasm_op_ok_def inj_hex_prefix)
  have sub: "fst ` set (mintMap m) \<subseteq> nft_keys (maps_of (wasm_ops E block))" "fst ` set (transferMap m) \<subseteq> nft_keys (maps_of (wasm_ops E block))"
    unfolding m by (rule keys_in_maps)+
  have mint: "rows_of (\<lambda>k r. \<exists>v. map_of (mintMap m) k = Some v \<and> owned E w' r v) (key_order N (map_keys (mintMap m))) mrows"
  proof (rule rows_of_map [OF ok keys(1,3) sub(1) s(2) [unfolded map_res_Inr]])
    fix k v b r assume k: "map_of (mintMap m) k = Some v" "fst k = BytesToHexWithPrefix b" "wasm_minted E block ids (mintMap m) k = Inr r"
    from got [OF wasm_owner_in(1) [OF E(1,2) k(1) [unfolded m], folded m]] obtain i where "ids (fst v) = Some i" "has_account E w' (fst v) i" by blast
    with k addr [OF wasm_mint_ok [OF addrs k(1) [unfolded m]]] show "named k r \<and> owned E w' r v"
      by (cases k; cases v) (auto simp: wasm_minted_def named_def owned_def id_of_def)
  qed
  have move: "rows_of (\<lambda>k r. \<exists>o'. map_of (transferMap m) k = Some o' \<and> owned E w' r (o', [])) (key_order N (map_keys (transferMap m))) trows"
  proof (rule rows_of_map [OF ok keys(2,4) sub(2) s(4) [unfolded map_res_Inr]])
    fix k v b r assume k: "map_of (transferMap m) k = Some v" "fst k = BytesToHexWithPrefix b" "wasm_transferred E block ids (transferMap m) k = Inr r"
    from got [OF wasm_owner_in(2) [OF E(1,2) k(1) [unfolded m], folded m]] obtain i where "ids v = Some i" "has_account E w' v i" by blast
    with k addr [OF wasm_transfer_ok [OF addrs k(1) [unfolded m]]] show "named k r \<and> owned E w' r (v, [])"
      by (cases k) (auto simp: wasm_transferred_def named_def owned_def id_of_def)
  qed
  have burned: "AccAddressFromString (from_bech32 E) (fst k) = Inr b" if k: "k \<in> set (burnMap m)" "fst k = BytesToHexWithPrefix b" for k b
  proof -
    obtain h where "(h, Burn k) \<in> set (wasm_ops E block)" using burn_from [of k "wasm_ops E block" no_nfts] k(1) by (auto simp: m maps_of_def no_nfts_def)
    then have "wasm_op_ok E (Burn k)" using addrs by force
    with addr [of "Burn k" b] k(2) show ?thesis by simp
  qed
  show ?thesis
    by (rule block_ledger [OF E(2,1,3) ok L _ _ s(1,3,5,6) [unfolded m] s(7-9) mint [unfolded m] _ move [unfolded m] keys(4) [unfolded m]];
      (erule (1) burned [unfolded m] | simp add: w2 keys(3) m [symmetric]))
qed

end
