(* ===== verification/Demo_Nft.thy ===== *)
theory Demo_Nft
  imports Demo Evm_Ledger Wasm_Ledger
begin

text \<open>
  Blocks and databases for the NFT submodules: a collection that holds token 2, and a block that
  mints token 1, moves it and burns token 2, once as Wasm events and once as EVM logs. A Move
  block without NFT events serves the collector.
\<close>

definition demo_nft_env :: nft_env where
  "demo_nft_env = \<lparr>key_order = (\<lambda>ks. rev ks), evict_blacklist = (\<lambda>c. take 3 c), GetPrefixedClassId = (\<lambda>p c i. p @ c @ i),
     GetNftTransferClassId = (\<lambda>p c i. p @ c @ i), log_Data = (\<lambda>s. ''0x''), err_text = (\<lambda>e. ''Reverted''),
     query_move_resource = (\<lambda>a h. Inr ''{}''), query_contract_info = (\<lambda>a h. Inr ''n''), query_wasm_contract = (\<lambda>a h. Inr ''c''),
     query_collection_name = (\<lambda>a h. Inr ''n''), query_token_uri = (\<lambda>a t h. Inr ''u'')\<rparr>"

lemma demo_nft_env_ok: "nft_env_ok demo_nft_env"
  by (simp add: nft_env_ok_def demo_nft_env_def)

text \<open>The contract, two accounts, and the operations of the block.\<close>

definition demo_contract :: "byte list" where
  "demo_contract = replicate 20 17"

definition demo_account :: string where
  "demo_account = ''init1'' @ hex_encode [1]"

definition demo_receiver :: string where
  "demo_receiver = ''init1'' @ hex_encode [2]"

definition demo_nft_db :: db where
  "demo_nft_db = empty_db\<lparr>t_account_dict := [(1, [1])],
     t_nft_collection := [\<lparr>nc_Addr = demo_contract, nc_Height = 1, nc_Timestamp = 0, nc_Name = ''n'', nc_OriginName = [],
       nc_CreatorId = 1, nc_NftCount = 1\<rparr>],
     t_nft := [\<lparr>nft_CollectionAddr = demo_contract, nft_TokenId = ''2'', nft_Addr = [], nft_Height = 1, nft_Timestamp = 0,
       nft_OwnerId = 1, nft_Uri = ''u''\<rparr>]\<rparr>"

definition demo_ledger :: ledger where
  "demo_ledger = [(BytesToHexWithPrefix demo_contract, ''2'') \<mapsto> (demo_account, ''u'')]"

definition wasm_attrs :: "string \<Rightarrow> string \<Rightarrow> (string \<times> string) list \<Rightarrow> event" where
  "wasm_attrs action tok rest = \<lparr>etype = ''wasm'', eattrs = map (\<lambda>(k, v). \<lparr>akey = k, aval = v\<rparr>)
     ([(''_contract_address'', ''init1'' @ hex_encode demo_contract), (''action'', action), (''token_id'', tok)] @ rest)\<rparr>"

definition demo_wasm_block :: ScrapedBlock where
  "demo_wasm_block = demo_block\<lparr>sb_Txs := [], sb_TxResults := [], sb_EndBlock :=
     [wasm_attrs ''mint'' ''1'' [(''owner'', demo_account), (''token_uri'', ''v'')],
      wasm_attrs ''transfer_nft'' ''1'' [(''recipient'', demo_receiver)], wasm_attrs ''burn'' ''2'' []]\<rparr>"

definition demo_wasm_world :: world where
  "demo_wasm_world = (world_of demo_nft_db)\<lparr>serial_account := 1, wasmNftCache := [1 \<mapsto> []]\<rparr>"

lemma demo_nft_represents: "w_db w = demo_nft_db \<Longrightarrow> represents demo_env w (t_nft demo_nft_db) demo_ledger"
  by (auto simp: represents_def demo_nft_db_def demo_ledger_def nft_key_def owned_def has_account_def empty_db_def demo_account_def demo_env_def
      inj_hex_prefix)

lemma demo_nft_dicts: "dict_inv (account_dict demo_env) demo_wasm_world"
  by (simp add: dict_inv_def account_dict_def demo_wasm_world_def world_of_def demo_nft_db_def empty_db_def)

lemma demo_wasm_ops: "wasm_ops demo_env demo_wasm_block =
    [([], Mint (BytesToHexWithPrefix demo_contract, ''1'') (demo_account, ''v'')),
     ([], Transfer (BytesToHexWithPrefix demo_contract, ''1'') demo_receiver), ([], Burn (BytesToHexWithPrefix demo_contract, ''2''))]"
  by code_simp

lemma demo_canonical: "canonical demo_env demo_account" "canonical demo_env demo_receiver"
  by (auto simp: canonical_def demo_env_def demo_account_def demo_receiver_def intro: exI [of _ "[1]"] exI [of _ "[2]"])

lemma demo_wasm_runs: "fst (collect_wasm demo_nft_env demo_env (demo_cfg\<lparr>cfg_VmType := WasmVM\<rparr>) demo_wasm_block demo_wasm_world) = Inr ()"
  by code_simp

section \<open>The same as EVM logs\<close>

text \<open>The contract is that of the word 17, in short hexadecimal form.\<close>

definition evm_contract :: "byte list" where
  "evm_contract = [17]"

definition demo_evm_log :: "string \<Rightarrow> err + string \<times> string list" where
  "demo_evm_log s = Inr (''0x11'',
     if s = ''m'' then [EvmTransferTopic, EvmEmptyAddress, ''0x1'', ''0x1'']
     else if s = ''t'' then [EvmTransferTopic, ''0x1'', ''0x2'', ''0x1'']
     else [EvmTransferTopic, ''0x1'', EvmEmptyAddress, ''0x2''])"

definition demo_evm_env :: env where
  "demo_evm_env = demo_env\<lparr>unmarshal_log := demo_evm_log\<rparr>"

definition demo_evm_block :: ScrapedBlock where
  "demo_evm_block = demo_block\<lparr>sb_Txs := [], sb_TxResults := [], sb_EndBlock :=
     [\<lparr>etype = ''evm'', eattrs = [\<lparr>akey = ''log'', aval = ''m''\<rparr>, \<lparr>akey = ''log'', aval = ''t''\<rparr>, \<lparr>akey = ''log'', aval = ''b''\<rparr>]\<rparr>]\<rparr>"

definition demo_evm_data :: EvmNftData where
  "demo_evm_data = \<lparr>en_ColNames = [''0x11'' \<mapsto> ''n''], en_TokenUris = [''0x11'' \<mapsto> [''1'' \<mapsto> ''v'']]\<rparr>"

definition evm_ledger :: ledger where
  "evm_ledger = [(''0x11'', ''2'') \<mapsto> (demo_account, ''u'')]"

text \<open>The contract was created by the transaction with sequence 1, in block 1.\<close>

definition demo_evm_db :: db where
  "demo_evm_db = empty_db\<lparr>t_account_dict := [(1, [1]), (2, replicate 19 0 @ [17])],
     t_nft_collection := [\<lparr>nc_Addr = evm_contract, nc_Height = 1, nc_Timestamp = 0, nc_Name = ''n'', nc_OriginName = [],
       nc_CreatorId = 1, nc_NftCount = 1\<rparr>],
     t_nft := [\<lparr>nft_CollectionAddr = evm_contract, nft_TokenId = ''2'', nft_Addr = [], nft_Height = 1, nft_Timestamp = 0,
       nft_OwnerId = 1, nft_Uri = ''u''\<rparr>],
     t_tx_accounts := [\<lparr>ta_AccountId = 2, ta_Sequence = 1, ta_Signer = False\<rparr>],
     t_tx := [\<lparr>tx_Hash = [7], tx_Height = 1, tx_Sequence = 1, tx_SignerId = 1, tx_Data = []\<rparr>],
     t_block := [\<lparr>blk_ChainId = ''c'', blk_Height = 1, blk_Hash = [], blk_Timestamp = 0, blk_BlockTime = 0, blk_Proposer = [],
       blk_GasUsed = 0, blk_GasWanted = 0, blk_TxCount = 1, blk_TotalFee = []\<rparr>]\<rparr>"

definition demo_evm_world :: world where
  "demo_evm_world = (world_of demo_evm_db)\<lparr>serial_account := 2, evmNftCache := [1 \<mapsto> demo_evm_data]\<rparr>"

lemma evm_contract_hex: "BytesToHexWithPrefix evm_contract = ''0x11''"
  by code_simp

lemma demo_evm_env_ok: "env_ok demo_evm_env"
  using demo_env_ok
  by (simp add: env_ok_def bech32_ok_def backfill_ok_def demo_evm_env_def)

lemma demo_evm_represents: "represents demo_evm_env demo_evm_world (t_nft (w_db demo_evm_world)) evm_ledger"
proof -
  have "represents demo_evm_env demo_evm_world (t_nft (w_db demo_evm_world)) [(BytesToHexWithPrefix evm_contract, ''2'') \<mapsto> (demo_account, ''u'')]"
    by (auto simp: represents_def demo_evm_world_def world_of_def demo_evm_db_def nft_key_def owned_def
        has_account_def empty_db_def demo_account_def demo_evm_env_def demo_env_def inj_hex_prefix)
  then show ?thesis by (simp add: evm_contract_hex evm_ledger_def)
qed

lemma demo_evm_dicts: "dict_inv (account_dict demo_evm_env) demo_evm_world"
  by (auto simp: dict_inv_def account_dict_def demo_evm_world_def world_of_def demo_evm_db_def empty_db_def
      dest: arg_cong [of _ _ length])

lemma evm_topics: "EvmEmptyAddress \<noteq> ''0x1''" "EvmEmptyAddress \<noteq> ''0x2''" "''0x1'' \<noteq> EvmEmptyAddress" "''0x2'' \<noteq> EvmEmptyAddress"
  by (auto simp: EvmEmptyAddress_def dest: arg_cong [of _ _ length])

lemma evm_receivers:
  "AccAddressFromString (from_bech32 demo_evm_env) EvmEmptyAddress = Inr (replicate 20 0)"
  "AccAddressFromString (from_bech32 demo_evm_env) ''0x1'' = Inr (replicate 19 0 @ [1])"
  "AccAddressFromString (from_bech32 demo_evm_env) ''0x2'' = Inr (replicate 19 0 @ [2])"
  "convertHexStringToDecString ''0x1'' = Inr ''1''" "convertHexStringToDecString ''0x2'' = Inr ''2''"
  "to_lower ''0x11'' = ''0x11''"
  by code_simp+

lemma demo_evm_events: "ExtractEvents demo_evm_env demo_evm_block ''evm'' = Inr [parseEvent
    \<lparr>etype = ''evm'', eattrs = [\<lparr>akey = ''log'', aval = ''m''\<rparr>, \<lparr>akey = ''log'', aval = ''t''\<rparr>, \<lparr>akey = ''log'', aval = ''b''\<rparr>]\<rparr> []]"
  by (simp add: ExtractEvents_def demo_evm_block_def demo_block_def parseEvents_def)

lemma demo_evm_ops: "evm_ops demo_evm_env demo_nft_env demo_evm_block =
    [([], Mint (''0x11'', ''1'') (''init1'' @ hex_encode (replicate 19 0 @ [1]))),
     ([], Transfer (''0x11'', ''1'') (''init1'' @ hex_encode (replicate 19 0 @ [2]))), ([], Burn (''0x11'', ''2''))]"
proof -
  have "to_bech32 demo_evm_env b = ''init1'' @ hex_encode b" for b by (simp add: demo_evm_env_def demo_env_def)
  moreover have "unmarshal_log demo_evm_env = demo_evm_log" "log_Data demo_nft_env s = ''0x''" for s by (simp_all add: demo_evm_env_def demo_nft_env_def)
  ultimately show ?thesis
    by (simp add: evm_ops_def demo_evm_events event_ops_def parseEvent_def evm_op_def demo_evm_log_def evm_topics evm_receivers List.map_filter_simps)
qed


lemma demo_evm_runs: "fst (collect_evm_nft demo_nft_env demo_evm_env (demo_cfg\<lparr>cfg_VmType := EVM\<rparr>) demo_evm_block demo_evm_world) = Inr ()"
  by code_simp

section \<open>A Move block for the collector\<close>

definition demo_move_world :: world where
  "demo_move_world = demo_world\<lparr>moveNftCache := [1 \<mapsto> Map.empty]\<rparr>"

end
