(* ===== verification/Nft_Properties.thy ===== *)
theory Nft_Properties
  imports Nft_Counts Demo_Nft
begin

text \<open>
  Properties of the NFT submodules: the table of tokens follows the ledger of mints, transfers and
  burns, the counts of collections stay right, and what a Wasm chain's prepare step does.
\<close>

text \<open>C4.
  A successful \<open>collect\<close> of the EVM submodule takes a table of tokens that shows a ledger to a table that shows
  the ledger after the mints, transfers and burns of the block's transfer logs, one after the other:
  each token has one row, with the account id of its owner and the URI it was minted with, and burned tokens have none.
  This is so when the logs are legal, no token that was there before is minted in the block, and the minted collections
  have names.
\<close>

theorem evm_nft_ledger:
  assumes "env_ok E" "nft_env_ok N" "valid_config cfg" "dict_inv (account_dict E) w"
    and "represents E w (t_nft (w_db w)) L" "evmNftCache w (sb_Height block) = Some data"
    and "block_ok (minted_as data) L (evm_ops E N block)"
    and "\<And>k v. Mint k v \<in> snd ` set (evm_ops E N block) \<Longrightarrow> en_ColNames data (fst k) \<noteq> None"
    and "collect_evm_nft N E cfg block w = (Inr (), w')"
  shows "represents E w' (t_nft (w_db w')) (fold (ledger_step (minted_as data)) (map snd (evm_ops E N block)) L)"
  by (rule evm_collect_ledger [OF assms])

definition demo_evm_cfg :: config where
  "demo_evm_cfg = demo_cfg\<lparr>cfg_VmType := EVM\<rparr>"

lemma demo_evm_valid: "valid_config demo_evm_cfg"
  using demo_valid by (simp add: valid_config_def demo_evm_cfg_def)

lemma demo_evm_ok: "block_ok (minted_as demo_evm_data) evm_ledger (evm_ops demo_evm_env demo_nft_env demo_evm_block)"
  by (auto simp: block_ok_def demo_evm_ops fresh_mints_def evm_ledger_def evm_contract_hex [symmetric])

lemma demo_evm_named: "Mint k v \<in> snd ` set (evm_ops demo_evm_env demo_nft_env demo_evm_block) \<Longrightarrow> en_ColNames demo_evm_data (fst k) \<noteq> None"
  by (auto simp: demo_evm_ops demo_evm_data_def)

lemma demo_evm_cached: "evmNftCache demo_evm_world (sb_Height demo_evm_block) = Some demo_evm_data"
  by (simp add: demo_evm_world_def demo_evm_block_def demo_block_def)

lemma demo_evm_collect: "collect_evm_nft demo_nft_env demo_evm_env demo_evm_cfg demo_evm_block demo_evm_world =
    (Inr (), snd (collect_evm_nft demo_nft_env demo_evm_env demo_evm_cfg demo_evm_block demo_evm_world))"
  using demo_evm_runs unfolding demo_evm_cfg_def by (metis prod.collapse)

theorem evm_nft_ledger_witness:
  "\<exists>w'. collect_evm_nft demo_nft_env demo_evm_env demo_evm_cfg demo_evm_block demo_evm_world = (Inr (), w') \<and>
     represents demo_evm_env w' (t_nft (w_db w'))
       [(''0x11'', ''1'') \<mapsto> (''init1'' @ hex_encode (replicate 19 0 @ [2]), ''v'')]"
proof -
  have "fold (ledger_step (minted_as demo_evm_data)) (map snd (evm_ops demo_evm_env demo_nft_env demo_evm_block)) evm_ledger =
      [(''0x11'', ''1'') \<mapsto> (''init1'' @ hex_encode (replicate 19 0 @ [2]), ''v'')]"
    unfolding demo_evm_ops by (auto simp: evm_ledger_def minted_as_def demo_evm_data_def)
  with evm_nft_ledger [OF demo_evm_env_ok demo_nft_env_ok demo_evm_valid demo_evm_dicts demo_evm_represents demo_evm_cached
      demo_evm_ok demo_evm_named demo_evm_collect] show ?thesis using demo_evm_collect by auto
qed

text \<open>C11.
  The EVM submodule keeps the token counts: when every collection with tokens has their number as its count before a
  block, it has it after the block, whatever the block mints, moves and burns. A collection whose last token is burned
  is the exception the code makes: its count stays what it was.
\<close>

theorem evm_nft_counts:
  assumes "env_ok E" "nft_env_ok N" "valid_config cfg" "dict_inv (account_dict E) w" "unique_key nft_key (t_nft (w_db w))"
    and "represents E w (t_nft (w_db w)) L" "evmNftCache w (sb_Height block) = Some data"
    and "block_ok (minted_as data) L (evm_ops E N block)"
    and "\<And>k v. Mint k v \<in> snd ` set (evm_ops E N block) \<Longrightarrow> en_ColNames data (fst k) \<noteq> None"
    and "counts_ok (w_db w)" "collect_evm_nft N E cfg block w = (Inr (), w')"
  shows "counts_ok (w_db w')"
  by (rule evm_keeps_counts(1) [OF assms])

theorem evm_nft_counts_witness:
  "counts_ok (w_db (snd (collect_evm_nft demo_nft_env demo_evm_env demo_evm_cfg demo_evm_block demo_evm_world)))"
proof -
  have "counts_ok (w_db demo_evm_world)" "unique_key nft_key (t_nft (w_db demo_evm_world))"
    by (simp_all add: counts_ok_def tokens_in_def rows_affected_def unique_key_def demo_evm_world_def world_of_def demo_evm_db_def)
  from evm_nft_counts [OF demo_evm_env_ok demo_nft_env_ok demo_evm_valid demo_evm_dicts this(2) demo_evm_represents demo_evm_cached
      demo_evm_ok demo_evm_named this(1) demo_evm_collect] show ?thesis .
qed

text \<open>The count of a collection without tokens is not written, so the last burn leaves the old count.\<close>

lemma last_burn_keeps_count:
  assumes "update_counts E cs w = (Inr (), w')" "tokens_in (nc_Addr r) (w_db w) = 0" "r \<in> set (t_nft_collection (w_db w))"
  shows "r \<in> set (t_nft_collection (w_db w'))"
proof -
  obtain addrs where "w_db w' = (w_db w)\<lparr>t_nft_collection := map (counted addrs (w_db w)) (t_nft_collection (w_db w))\<rparr>"
    using update_counts_db [OF assms(1)] by blast
  moreover have "counted addrs (w_db w) r = r" using assms(2) by (simp add: counted_def)
  ultimately show ?thesis using assms(3) by (auto simp: image_iff intro!: bexI [of _ r])
qed

text \<open>
  A token that is burned and minted again in one block ends up in the mint map only. The insert does
  nothing for a key that is stored, so the row of the old owner stays.
\<close>

lemma remint_keeps_owner: "L k = Some x \<Longrightarrow> ledger_of vf (maps_of [(h, Burn k), (h', Mint k v)]) L k = Some x"
  by (simp add: maps_of_def track_in_def ledger_of_def base_of_def no_nfts_def burn_nft_def mint_nft_def touch_nft_def)

text \<open>C19.
  A successful \<open>collect\<close> of the Wasm submodule takes a table of tokens that shows a ledger to one that shows the ledger after
  the mints, transfers and burns of the block's contract events, when these are legal, mint no token that was there
  before, and spell addresses the way the SDK does.
\<close>

theorem wasm_nft_ledger:
  assumes "env_ok E" "nft_env_ok N" "valid_config cfg" "dict_inv (account_dict E) w"
    and "represents E w (t_nft (w_db w)) L"
    and "\<And>colInfos. wasmNftCache w (sb_Height block) = Some colInfos \<Longrightarrow> infos_ok E colInfos"
    and "legal (\<lambda>k v. v) L (map snd (wasm_ops E block))" "fresh_mints L (map snd (wasm_ops E block))"
    and "\<forall>op \<in> snd ` set (wasm_ops E block). wasm_op_ok E op"
    and "collect_wasm N E cfg block w = (Inr (), w')"
  shows "represents E w' (t_nft (w_db w')) (fold (ledger_step (\<lambda>k v. v)) (map snd (wasm_ops E block)) L)"
  by (rule wasm_collect_ledger [OF assms])

definition demo_wasm_cfg :: config where
  "demo_wasm_cfg = demo_cfg\<lparr>cfg_VmType := WasmVM\<rparr>"

lemma demo_wasm_addrs: "\<forall>op \<in> snd ` set (wasm_ops demo_env demo_wasm_block). wasm_op_ok demo_env op"
proof -
  have "AccAddressFromString (from_bech32 demo_env) (BytesToHexWithPrefix demo_contract) = Inr demo_contract" by code_simp
  then show ?thesis using demo_canonical unfolding demo_wasm_ops by (auto simp: wasm_op_ok_def)
qed

theorem wasm_nft_ledger_witness:
  "\<exists>w'. collect_wasm demo_nft_env demo_env demo_wasm_cfg demo_wasm_block demo_wasm_world = (Inr (), w') \<and>
     represents demo_env w' (t_nft (w_db w')) [(BytesToHexWithPrefix demo_contract, ''1'') \<mapsto> (demo_receiver, ''v'')]"
proof -
  define w' where "w' = snd (collect_wasm demo_nft_env demo_env demo_wasm_cfg demo_wasm_block demo_wasm_world)"
  have run: "collect_wasm demo_nft_env demo_env demo_wasm_cfg demo_wasm_block demo_wasm_world = (Inr (), w')"
    using demo_wasm_runs unfolding demo_wasm_cfg_def w'_def by (metis prod.collapse)
  have "valid_config demo_wasm_cfg" using demo_valid by (simp add: valid_config_def demo_wasm_cfg_def)
  moreover have "represents demo_env demo_wasm_world (t_nft (w_db demo_wasm_world)) demo_ledger"
    using demo_nft_represents [of demo_wasm_world] by (simp add: demo_wasm_world_def world_of_def)
  moreover have "wasmNftCache demo_wasm_world (sb_Height demo_wasm_block) = Some cs \<Longrightarrow> infos_ok demo_env cs" for cs
    by (simp add: demo_wasm_world_def demo_wasm_block_def demo_block_def infos_ok_def)
  moreover have "legal (\<lambda>k v. v) demo_ledger (map snd (wasm_ops demo_env demo_wasm_block))"
    "fresh_mints demo_ledger (map snd (wasm_ops demo_env demo_wasm_block))"
    by (auto simp: demo_wasm_ops fresh_mints_def demo_ledger_def)
  ultimately have "represents demo_env w' (t_nft (w_db w')) (fold (ledger_step (\<lambda>k v. v)) (map snd (wasm_ops demo_env demo_wasm_block)) demo_ledger)"
    using wasm_nft_ledger [OF demo_env_ok demo_nft_env_ok _ demo_nft_dicts _ _ _ _ demo_wasm_addrs run] by blast
  moreover have "fold (ledger_step (\<lambda>k v. v)) (map snd (wasm_ops demo_env demo_wasm_block)) demo_ledger =
      [(BytesToHexWithPrefix demo_contract, ''1'') \<mapsto> (demo_receiver, ''v'')]"
    unfolding demo_wasm_ops by (auto simp: demo_ledger_def)
  ultimately show ?thesis using run by auto
qed

text \<open>C28.
  On a Wasm chain a block with an event that looks like a collection's, a minter next to a creator or an owner, never
  gets past \<open>Prepare\<close>: the querier of the submodule is a nil pointer, since \<open>New\<close> does not set it, and the first query panics,
  unless all the contracts of such events are blacklisted, which only an answered query does.
\<close>

theorem wasm_prepare_panics:
  assumes "env_ok E" "filterCollectionAddrs E block \<noteq> []" "nftBlacklist w = []"
  shows "fst (prepare_wasm New_wasm_querier N E block w) = Inl (Panic ''nil pointer dereference'')"
proof -
  have "distinct (filterCollectionAddrs E block)"
  proof -
    have step: "distinct as \<Longrightarrow> distinct (fold (\<lambda>p addrs. case pe_AttrMap p ''_contract_address'' of None \<Rightarrow> addrs
        | Some c \<Rightarrow> if IsValidCollectionEvent (pe_AttrMap p) then key_put c addrs else addrs) ps as)" for ps as
      by (induction ps arbitrary: as) (auto simp: distinct_key_put split: option.split)
    show ?thesis
      by (cases "ExtractEvents E block ''wasm''") (simp_all add: filterCollectionAddrs_def step [OF distinct.simps(1) [THEN iffD2]])
  qed
  then have "set (map_order E (filterCollectionAddrs E block)) = set (filterCollectionAddrs E block)" using assms(1) by (simp add: set_map_order)
  then obtain a as where "map_order E (filterCollectionAddrs E block) = a # as"
    using assms(2) by (cases "map_order E (filterCollectionAddrs E block)") auto
  then show ?thesis
    using assms(3) by (simp add: prepare_wasm_def bnd_def fetch_collection_def IsBlacklisted_def lru_Get_def New_wasm_querier_def throw_def)
qed

theorem wasm_prepare_panics_witness:
  "fst (prepare_wasm New_wasm_querier demo_nft_env demo_env
     (demo_block\<lparr>sb_EndBlock := [wasm_attrs ''instantiate'' [] [(''minter'', ''m''), (''owner'', ''o'')]]\<rparr>) demo_world)
   = Inl (Panic ''nil pointer dereference'')"
  by (rule wasm_prepare_panics [OF demo_env_ok]) code_simp+

end
