(* ===== verification/Float64.thy ===== *)
theory Float64
  imports Decimal
begin

text \<open>
  Numbers of a JSON text as Go's \<open>encoding/json\<close> stores them in an \<open>any\<close>: a \<open>float64\<close>, the value
  of the literal rounded to 53 significant bits, half to even. A finite non-negative \<open>float64\<close> is
  a pair of a mantissa and a binary exponent.
\<close>

section \<open>Rounding\<close>

fun bitlen :: "nat \<Rightarrow> nat" where
  "bitlen n = (if n = 0 then 0 else Suc (bitlen (n div 2)))"

declare bitlen.simps [simp del]

definition round_div :: "nat \<Rightarrow> nat \<Rightarrow> nat" where
  "round_div n d = (let q = n div d; r = n mod d in if 2 * r < d \<or> (2 * r = d \<and> even q) then q else Suc q)"

text \<open>\<open>n / (d * 2 ^ e)\<close> as a fraction.\<close>

definition scale :: "nat \<Rightarrow> nat \<Rightarrow> int \<Rightarrow> nat \<times> nat" where
  "scale n d e = (if 0 \<le> e then (n, d * 2 ^ nat e) else (n * 2 ^ nat (- e), d))"

definition float_round :: "nat \<Rightarrow> nat \<Rightarrow> nat \<times> int" where
  "float_round n d =
     (if n = 0 then (0, 0)
      else let l = int (bitlen n) - int (bitlen d); (a, b) = scale n d (l - 53);
        e = max (if a < 2 ^ 53 * b then l - 53 else l - 52) (- 1074); (x, y) = scale n d e in (round_div x y, e))"

text \<open>The value of a \<open>float64\<close>, when it is a whole number.\<close>

definition whole :: "nat \<times> int \<Rightarrow> nat option" where
  "whole f = (let (m, e) = f in
     if 0 \<le> e then Some (m * 2 ^ nat e) else if m mod 2 ^ nat (- e) = 0 then Some (m div 2 ^ nat (- e)) else None)"

lemma bitlen_one [simp]: "bitlen (Suc 0) = Suc 0"
  by (simp add: bitlen.simps [of "Suc 0"] bitlen.simps [of 0])

lemma bitlen_bounds: "0 < n \<Longrightarrow> 2 ^ (bitlen n - 1) \<le> n \<and> n < 2 ^ bitlen n \<and> 0 < bitlen n"
proof (induction n rule: bitlen.induct)
  case (1 n)
  show ?case
  proof (cases "n div 2 = 0")
    case True
    with 1 have "n = 1" by auto
    then show ?thesis by simp
  next
    case False
    with 1 have ih: "2 ^ (bitlen (n div 2) - 1) \<le> n div 2" "n div 2 < 2 ^ bitlen (n div 2)" "0 < bitlen (n div 2)" by auto
    have l: "bitlen n = Suc (bitlen (n div 2))" using 1(2) by (simp add: bitlen.simps [of n])
    obtain k where k: "bitlen (n div 2) = Suc k" using ih(3) by (cases "bitlen (n div 2)") auto
    have "2 * 2 ^ k \<le> 2 * (n div 2)" "2 * (n div 2) + 2 \<le> 2 * 2 ^ Suc k" using ih(1,2) by (simp_all add: k)
    then show ?thesis by (auto simp: l k)
  qed
qed

lemma round_div_exact: "0 < d \<Longrightarrow> round_div (q * d) d = q"
  by (simp add: round_div_def)

text \<open>Whole numbers up to \<open>2 ^ 53\<close> are \<open>float64\<close> values.\<close>

lemma float_exact:
  assumes n: "n \<le> 2 ^ 53"
  shows "whole (float_round n 1) = Some n"
proof (cases "n = 0")
  case True
  then show ?thesis by (simp add: float_round_def whole_def)
next
  case False
  then have b: "2 ^ (bitlen n - 1) \<le> n" "n < 2 ^ bitlen n" "0 < bitlen n" using bitlen_bounds [of n] by auto
  have d: "bitlen 1 = 1" by simp
  define l where "l = bitlen n - 1"
  have l: "bitlen n = Suc l" using b(3) by (simp add: l_def)
  have l53: "l \<le> 53"
  proof (rule ccontr)
    assume "\<not> l \<le> 53"
    then have "(2 :: nat) ^ 54 \<le> 2 ^ l" by (intro power_increasing) auto
    with b(1) n show False by (simp add: l)
  qed
  show ?thesis
  proof (cases "l = 53")
    case True
    have e: "n = 2 ^ 53" using b(1) n by (simp add: l True)
    have "bitlen (2 ^ 53) = 54" using l unfolding e [symmetric] True by simp
    then show ?thesis
      using round_div_exact [of 2 "2 ^ 52"] by (simp add: float_round_def e scale_def whole_def Let_def)
  next
    case False
    with l53 have lt: "l < 53" by simp
    have p: "2 ^ l * 2 ^ (53 - l) = (2 :: nat) ^ 53" using lt by (simp flip: power_add)
    have "(2 :: nat) ^ 53 \<le> n * 2 ^ (53 - l)"
      using mult_le_mono1 [OF b(1), of "2 ^ (53 - l)"] by (simp add: l p)
    moreover have "nat (53 - int l) = 53 - l" "nat (52 - int l) = 52 - l" using lt by auto
    ultimately have "float_round n 1 = (n * 2 ^ (52 - l), int l - 52)"
      using False lt \<open>n \<noteq> 0\<close> round_div_exact [of 1]
      by (auto simp: float_round_def d l scale_def Let_def)
    moreover have "nat (52 - int l) = 52 - l" by simp
    ultimately show ?thesis using lt by (auto simp: whole_def)
  qed
qed


section \<open>Literals\<close>

text \<open>The sign, the numerator and the denominator of a literal.\<close>

definition exponent :: "string \<Rightarrow> int" where
  "exponent s = (case s of [] \<Rightarrow> 0 | c # r \<Rightarrow> let (neg, ds) = split_sign r in if neg then - atoi ds else atoi ds)"

definition number_value :: "string \<Rightarrow> bool \<times> nat \<times> nat" where
  "number_value s =
     (let u = trim_prefix s ''-''; ds = takeWhile is_digit u; rest = dropWhile is_digit u;
        frac = (if has_prefix rest ''.'' then takeWhile is_digit (tl rest) else []);
        e = exponent (if has_prefix rest ''.'' then dropWhile is_digit (tl rest) else rest) - int (length frac);
        n = nat (atoi (ds @ frac))
      in (has_prefix s ''-'', if 0 \<le> e then n * 10 ^ nat e else n, if 0 \<le> e then 1 else 10 ^ nat (- e)))"

text \<open>\<open>ParseFloat\<close> refuses a number that rounds to \<open>2 ^ 1024\<close> or more.\<close>

definition float_range :: "string \<Rightarrow> bool" where
  "float_range s = (let (neg, n, d) = number_value s; (m, e) = float_round n d in m = 0 \<or> e < 971 \<or> m * 2 ^ nat e < 2 ^ 1024)"

text \<open>
  The conversion \<open>int64(v)\<close> with the check \<open>v = float64(int64(v))\<close>, which no value outside of the
  range of \<open>int64\<close> passes on the platforms where the conversion gives the least integer.
\<close>

definition float_int64 :: "string \<Rightarrow> int option" where
  "float_int64 s = (let (neg, n, d) = number_value s in case whole (float_round n d) of
     None \<Rightarrow> None
   | Some v \<Rightarrow> let i = (if neg then - int v else int v) in if int64_range i then Some i else None)"

text \<open>The conversion \<open>int64(v)\<close> alone cuts the fraction off.\<close>

definition float_trunc :: "string \<Rightarrow> int" where
  "float_trunc s = (let (neg, n, d) = number_value s; (m, e) = float_round n d;
       v = (if 0 \<le> e then m * 2 ^ nat e else m div 2 ^ nat (- e)); i = (if neg then - int v else int v)
     in if int64_range i then i else - (2 ^ 63))"

lemma no_dash: "is_digit c \<Longrightarrow> c \<noteq> CHR ''-''" "is_digit c \<Longrightarrow> c \<noteq> CHR ''.''"
  by (auto simp: is_digit_def)

lemma digits_number:
  assumes "ds \<noteq> []" "list_all is_digit ds"
  shows "number_value ds = (False, nat (atoi ds), 1)" "number_value (CHR ''-'' # ds) = (True, nat (atoi ds), 1)"
proof -
  obtain c r where c: "ds = c # r" "is_digit c" using assms by (cases ds) auto
  have w: "takeWhile is_digit ds = ds" "dropWhile is_digit ds = []" using assms(2) by (auto simp: list_all_iff)
  have "\<not> has_prefix ds ''-''" using c no_dash by (auto simp: has_prefix_def)
  moreover have "has_prefix (CHR ''-'' # ds) ''-''" "\<not> has_prefix [] ''.''" by (simp_all add: has_prefix_def)
  ultimately show "number_value ds = (False, nat (atoi ds), 1)" "number_value (CHR ''-'' # ds) = (True, nat (atoi ds), 1)"
    by (simp_all add: number_value_def trim_prefix_def exponent_def Let_def w)
qed

text \<open>What \<open>Itoa\<close> prints reads back, up to \<open>2 ^ 53\<close>.\<close>

lemma float_int64_Itoa:
  assumes "\<bar>n\<bar> \<le> 2 ^ 53"
  shows "float_int64 (Itoa n) = Some n" "float_range (Itoa n)"
proof -
  define k where "k = nat \<bar>n\<bar>"
  have k: "k \<le> 2 ^ 53" using assms by (simp add: k_def)
  have v: "number_value (Itoa n) = (n < 0, k, 1)"
    using digits_number [of "nat_digits k"] nat_digits_props [of k] by (cases "n < 0") (simp_all add: Itoa_def k_def)
  then show "float_int64 (Itoa n) = Some n"
    using float_exact [OF k] assms by (auto simp: float_int64_def k_def int64_range_def)
  show "float_range (Itoa n)"
  proof -
    obtain m e where f: "float_round k (Suc 0) = (m, e)" by force
    show ?thesis
    proof (cases "971 \<le> e")
      case True
      then have "whole (m, e) = Some (m * 2 ^ nat e)" by (simp add: whole_def)
      with float_exact [OF k] f have "m * 2 ^ nat e \<le> 2 ^ 53" using k by simp
      also have "\<dots> < (2 :: nat) ^ 1024" by (rule power_strict_increasing) simp_all
      finally show ?thesis by (simp add: float_range_def v f)
    qed (simp add: float_range_def v f)
  qed
qed

text \<open>\<open>Itoa\<close> prints a JSON number.\<close>

lemma nat_digits_zero: "nat_digits n = CHR ''0'' # r \<Longrightarrow> n = 0"
proof (induction n arbitrary: r rule: nat_digits.induct)
  case (1 n)
  show ?case
  proof (cases "n < 10")
    case True
    with "1.prems" have "digit_char n = CHR ''0''" by (simp add: nat_digits.simps [of n])
    then have "(of_char (digit_char n) :: nat) = of_char (CHR ''0'')" by simp
    then show ?thesis using True by (simp add: of_digit_char)
  next
    case False
    obtain c s where "nat_digits (n div 10) = c # s" using nat_digits_hd by blast
    with 1 False have "n div 10 = 0" by (simp add: nat_digits.simps [of n])
    with False show ?thesis by simp
  qed
qed

lemma valid_digits: "valid_number (nat_digits n)" "valid_number (CHR ''-'' # nat_digits n)"
proof -
  note p = nat_digits_props [of n]
  obtain c r where c: "nat_digits n = c # r" "is_digit c" using nat_digits_hd by blast
  have w: "takeWhile is_digit (nat_digits n) = nat_digits n" "dropWhile is_digit (nat_digits n) = []" using p by (auto simp: list_all_iff)
  have t: "trim_prefix (nat_digits n) ''-'' = nat_digits n" "trim_prefix (CHR ''-'' # nat_digits n) ''-'' = nat_digits n"
    using c no_dash by (auto simp: trim_prefix_def has_prefix_def)
  have "hd (nat_digits n) = CHR ''0'' \<longrightarrow> length (nat_digits n) = 1"
    using nat_digits_zero [of n r] by (auto simp: c(1)) (simp add: nat_digits.simps [of 0] c(1))
  then show "valid_number (nat_digits n)" "valid_number (CHR ''-'' # nat_digits n)"
    using p by (simp_all add: valid_number_def digits1_def valid_frac_def Let_def w t)
qed

lemma printable_Itoa [simp]: "printable (JNum (Itoa n))"
proof -
  have "list_all num_char (nat_digits k)" for k
    using nat_digits_props [of k] by (auto simp: list_all_iff num_char_def)
  then show ?thesis by (auto simp: Itoa_def valid_digits) (simp add: num_char_def)
qed

end
