(* ===== verification/Pagination.thy ===== *)
theory Pagination
  imports Float64 Schema
begin

text \<open>
  Pages of the API: \<open>src/util/common-handler/common/pagination.go\<close> and the cursors of the rows in
  \<open>src/types/table.go\<close>. A query on a table is the list of the rows it selects; an order that
  leaves ties open takes them as the list has them.
\<close>

section \<open>Requests\<close>

text \<open>The query parameters as the web framework's accessors return them, with their defaults.\<close>

record page_query =
  q_limit :: int
  q_key :: string
  q_offset :: int
  q_count_total :: bool
  q_reverse :: bool

datatype CursorType = CursorTypeUnset | CursorTypeOffset | CursorTypeSequence | CursorTypeHeight | CursorTypeComposite

record Pagination =
  p_Limit :: int
  p_Offset :: int
  p_Order :: string
  p_CountTotal :: bool
  p_CursorType :: CursorType
  p_CursorValue :: "string \<rightharpoonup> json"

definition MaxLimit :: int where
  "MaxLimit = 1000"

definition OrderDesc :: string where
  "OrderDesc = ''DESC''"

definition OrderAsc :: string where
  "OrderAsc = ''ASC''"

definition UseCursor :: "Pagination \<Rightarrow> bool" where
  "UseCursor p \<longleftrightarrow> p_CursorType p \<noteq> CursorTypeOffset \<and> p_CursorType p \<noteq> CursorTypeUnset"

definition getOrder :: "page_query \<Rightarrow> string" where
  "getOrder q = (if q_reverse q then OrderDesc else OrderAsc)"

definition detectCursorType :: "(string \<rightharpoonup> json) \<Rightarrow> CursorType" where
  "detectCursorType data =
     (if data ''sequence'' \<noteq> None then CursorTypeSequence
      else if data ''height'' \<noteq> None then if data ''token_id'' \<noteq> None then CursorTypeComposite else CursorTypeHeight
      else CursorTypeOffset)"

text \<open>\<open>json.Unmarshal\<close> into a \<open>map[string]any\<close>: the last of equal keys wins, and every number has to be a \<open>float64\<close>.\<close>

fun floats_ok :: "json \<Rightarrow> bool" where
  "floats_ok (JNum s) \<longleftrightarrow> float_range s"
| "floats_ok (JArr js) \<longleftrightarrow> list_all floats_ok js"
| "floats_ok (JObj kvs) \<longleftrightarrow> list_all (\<lambda>p. floats_ok (snd p)) kvs"
| "floats_ok _ \<longleftrightarrow> True"

definition unmarshal_map :: "string \<Rightarrow> err + (string \<rightharpoonup> json)" where
  "unmarshal_map s = rbind (parse_json s) (\<lambda>j. case j of
     JObj kvs \<Rightarrow> if floats_ok j then Inr (map_of (rev kvs)) else Inl type_error
   | JNull \<Rightarrow> Inr Map.empty
   | _ \<Rightarrow> Inl type_error)"

definition parseIntegerCursor :: "string \<Rightarrow> Pagination \<Rightarrow> err + Pagination" where
  "parseIntegerCursor s p = (case Atoi s of
     Inr n \<Rightarrow> if n < 0 then Inl (Err ''pagination.key must decode to a nonnegative integer'') else Inr (p\<lparr>p_Offset := n\<rparr>)
   | Inl e \<Rightarrow> Inl (Err ''pagination.key must decode to a nonnegative integer''))"

definition parseJSONCursor :: "string \<Rightarrow> Pagination \<Rightarrow> err + Pagination" where
  "parseJSONCursor s p = (case unmarshal_map s of
     Inr data \<Rightarrow> Inr (p\<lparr>p_CursorValue := data, p_CursorType := detectCursorType data\<rparr>)
   | Inl e \<Rightarrow> (case Atoi s of
       Inr n \<Rightarrow> if n < 0 then Inl (Err ''invalid pagination.key format'') else Inr (p\<lparr>p_Offset := n\<rparr>)
     | Inl e \<Rightarrow> Inl (Err ''invalid pagination.key format'')))"

text \<open>\<open>bytes.TrimSpace\<close>, of which the code looks at the first byte only: leading white space of Unicode.\<close>

definition space_rune :: "nat \<Rightarrow> bool" where
  "space_rune r \<longleftrightarrow> r \<in> {9, 10, 11, 12, 13, 32, 133, 160, 5760, 8232, 8233, 8239, 8287, 12288} \<or> 8192 \<le> r \<and> r \<le> 8202"

fun trim_left_space :: "nat \<Rightarrow> string \<Rightarrow> string" where
  "trim_left_space 0 s = s"
| "trim_left_space (Suc n) s = (case s of [] \<Rightarrow> []
   | c # cs \<Rightarrow> (let (r, k) = DecodeRune s in if space_rune r then trim_left_space n (drop k s) else s))"

definition parsePaginationKey :: "string \<Rightarrow> Pagination \<Rightarrow> err + Pagination" where
  "parsePaginationKey key p = (case DecodeString key of
     Inl e \<Rightarrow> Inl (Err ''pagination.key must be a valid base64 encoded string'')
   | Inr bs \<Rightarrow> let decoded = string_of_bytes bs in
       if has_prefix (trim_left_space (length decoded) decoded) ''{'' then parseJSONCursor decoded p
       else parseIntegerCursor decoded p)"

definition ParsePagination :: "page_query \<Rightarrow> CursorType \<Rightarrow> err + Pagination" where
  "ParsePagination q defaultCursorType =
     (if q_limit q < 1 \<or> q_limit q > MaxLimit then Inl (Err ''pagination.limit must be between 1 and 1000'')
      else if q_offset q < 0 then Inl (Err ''pagination.offset cannot be negative'')
      else let p = \<lparr>p_Limit = q_limit q, p_Offset = q_offset q, p_Order = getOrder q, p_CountTotal = q_count_total q,
                    p_CursorType = defaultCursorType, p_CursorValue = Map.empty\<rparr>
        in if q_key q \<noteq> [] then parsePaginationKey (q_key q) p else Inr p)"


section \<open>Cursors\<close>

definition safeGetInt64 :: "Pagination \<Rightarrow> string \<Rightarrow> err + int" where
  "safeGetInt64 p field = (case p_CursorValue p field of
     None \<Rightarrow> Inl (NotFoundErr ''cursor field'')
   | Some (JNum s) \<Rightarrow> (case float_int64 s of None \<Rightarrow> Inl (Err ''non-integer value'') | Some n \<Rightarrow> Inr n)
   | Some _ \<Rightarrow> Inl (Err ''unsupported type''))"

definition safeGetString :: "Pagination \<Rightarrow> string \<Rightarrow> err + string" where
  "safeGetString p field = (case p_CursorValue p field of
     None \<Rightarrow> Inl (NotFoundErr ''cursor field'')
   | Some (JStr s) \<Rightarrow> Inr s
   | Some _ \<Rightarrow> Inl (Err ''not a string''))"

text \<open>The cursor of a row, as the entries of the map in the order \<open>json.Marshal\<close> writes them.\<close>

type_synonym cursor = "(string \<times> json) list"

definition sequence_cursor :: "int \<Rightarrow> cursor" where
  "sequence_cursor n = [(''sequence'', JNum (Itoa n))]"

definition height_cursor :: "int \<Rightarrow> cursor" where
  "height_cursor h = [(''height'', JNum (Itoa h))]"

definition GetCursorData_tx :: "CollectedTx \<Rightarrow> cursor" where
  "GetCursorData_tx t = sequence_cursor (tx_Sequence t)"

definition GetCursorData_evm_tx :: "CollectedEvmTx \<Rightarrow> cursor" where
  "GetCursorData_evm_tx t = sequence_cursor (etx_Sequence t)"

definition GetCursorData_internal_tx :: "CollectedEvmInternalTx \<Rightarrow> cursor" where
  "GetCursorData_internal_tx t = sequence_cursor (ei_Sequence t)"

definition GetCursorData_block :: "CollectedBlock \<Rightarrow> cursor" where
  "GetCursorData_block b = height_cursor (blk_Height b)"

definition GetCursorData_collection :: "CollectedNftCollection \<Rightarrow> cursor" where
  "GetCursorData_collection c = height_cursor (nc_Height c)"

definition GetCursorData_nft :: "CollectedNft \<Rightarrow> cursor" where
  "GetCursorData_nft n = [(''height'', JNum (Itoa (nft_Height n))), (''token_id'', JStr (nft_TokenId n))]"


section \<open>Pages\<close>

definition ordered :: "Pagination \<Rightarrow> ('r \<Rightarrow> 'c::linorder) \<Rightarrow> 'r list \<Rightarrow> 'r list" where
  "ordered p c t = (if p_Order p = OrderDesc then rev (sort_key c t) else sort_key c t)"

definition limited :: "Pagination \<Rightarrow> 'r list \<Rightarrow> 'r list" where
  "limited p t = take (nat (p_Limit p)) t"

definition offset_page :: "Pagination \<Rightarrow> 'r list \<Rightarrow> 'r list" where
  "offset_page p t = limited p (drop (nat (p_Offset p)) t)"

definition beyond :: "Pagination \<Rightarrow> 'c::linorder \<Rightarrow> 'c \<Rightarrow> bool" where
  "beyond p n x \<longleftrightarrow> (if p_Order p = OrderDesc then x < n else x > n)"

definition ApplySequence :: "('r \<Rightarrow> int) \<Rightarrow> Pagination \<Rightarrow> 'r list \<Rightarrow> 'r list" where
  "ApplySequence seqn p t = (case p_CursorType p of
     CursorTypeSequence \<Rightarrow> (case safeGetInt64 p ''sequence'' of
         Inl e \<Rightarrow> offset_page p (ordered p seqn t)
       | Inr n \<Rightarrow> limited p (ordered p seqn (filter (\<lambda>r. beyond p n (seqn r)) t)))
   | _ \<Rightarrow> offset_page p (ordered p seqn t))"

definition ApplyToBlock :: "Pagination \<Rightarrow> CollectedBlock list \<Rightarrow> CollectedBlock list" where
  "ApplyToBlock p t = (case p_CursorType p of
     CursorTypeHeight \<Rightarrow> (case safeGetInt64 p ''height'' of
         Inl e \<Rightarrow> offset_page p (ordered p blk_Height t)
       | Inr n \<Rightarrow> limited p (ordered p blk_Height (filter (\<lambda>r. beyond p n (blk_Height r)) t)))
   | _ \<Rightarrow> offset_page p (ordered p blk_Height t))"

definition ApplyToNftCollection :: "Pagination \<Rightarrow> CollectedNftCollection list \<Rightarrow> CollectedNftCollection list" where
  "ApplyToNftCollection p t = (case p_CursorType p of
     CursorTypeHeight \<Rightarrow> (case safeGetInt64 p ''height'' of
         Inl e \<Rightarrow> offset_page p (ordered p nc_Height t)
       | Inr n \<Rightarrow> limited p (ordered p nc_Height (filter (\<lambda>r. beyond p n (nc_Height r)) t)))
   | _ \<Rightarrow> offset_page p (ordered p nc_Height t))"

text \<open>
  Token ids are compared in the collation of the database, given by its sort keys. An order on
  two columns sorts by the second one first, stably.
\<close>

definition nft_ordered :: "(string \<Rightarrow> 'c::linorder) \<Rightarrow> Pagination \<Rightarrow> string \<Rightarrow> CollectedNft list \<Rightarrow> CollectedNft list" where
  "nft_ordered coll p orderBy t =
     (let s = (if orderBy = ''token_id'' then sort_key (\<lambda>r. coll (nft_TokenId r)) (sort_key nft_Height t)
               else sort_key nft_Height (sort_key (\<lambda>r. coll (nft_TokenId r)) t))
      in if p_Order p = OrderDesc then rev s else s)"

definition getNftFallbackOrder :: "(string \<Rightarrow> 'c::linorder) \<Rightarrow> Pagination \<Rightarrow> string \<Rightarrow> CollectedNft list \<Rightarrow> CollectedNft list" where
  "getNftFallbackOrder coll p orderBy t = offset_page p (nft_ordered coll p orderBy t)"

definition pair_beyond :: "Pagination \<Rightarrow> 'a::linorder \<Rightarrow> 'b::linorder \<Rightarrow> 'a \<Rightarrow> 'b \<Rightarrow> bool" where
  "pair_beyond p m n x y \<longleftrightarrow> beyond p m x \<or> (x = m \<and> beyond p n y)"

definition ApplyToNft :: "(string \<Rightarrow> 'c::linorder) \<Rightarrow> Pagination \<Rightarrow> string \<Rightarrow> CollectedNft list \<Rightarrow> CollectedNft list" where
  "ApplyToNft coll p orderBy t = (case p_CursorType p of
     CursorTypeComposite \<Rightarrow>
       (case (safeGetInt64 p ''height'', safeGetString p ''token_id'') of
          (Inr height, Inr tokenId) \<Rightarrow>
            limited p (nft_ordered coll p orderBy (filter (\<lambda>r.
              if orderBy = ''token_id'' then pair_beyond p (coll tokenId) height (coll (nft_TokenId r)) (nft_Height r)
              else pair_beyond p height (coll tokenId) (nft_Height r) (coll (nft_TokenId r))) t))
        | _ \<Rightarrow> getNftFallbackOrder coll p orderBy t)
   | CursorTypeHeight \<Rightarrow>
       (case safeGetInt64 p ''height'' of
          Inl e \<Rightarrow> getNftFallbackOrder coll p orderBy t
        | Inr h \<Rightarrow> getNftFallbackOrder coll p orderBy (filter (\<lambda>r. beyond p h (nft_Height r)) t))
   | _ \<Rightarrow> getNftFallbackOrder coll p orderBy t)"


section \<open>Responses\<close>

record PaginationResponse =
  previous_key :: "string option"
  next_key :: "string option"
  total :: string

definition encode_key :: "string \<Rightarrow> string" where
  "encode_key s = EncodeToString (bytes_of_string s)"

definition ToResponse :: "Pagination \<Rightarrow> int \<Rightarrow> bool \<Rightarrow> PaginationResponse" where
  "ToResponse p tot hasMore =
     \<lparr>previous_key = (if p_Offset p > 0 \<and> p_Offset p \<ge> p_Limit p then Some (encode_key (Itoa (p_Offset p - p_Limit p))) else None),
      next_key = (if hasMore then Some (encode_key (Itoa (wrap64 (p_Offset p + p_Limit p)))) else None),
      total = Itoa tot\<rparr>"

text \<open>The last record of the page, when there is one, by the data of its cursor.\<close>

definition ToResponseWithLastRecord :: "Pagination \<Rightarrow> int \<Rightarrow> bool \<Rightarrow> cursor option \<Rightarrow> PaginationResponse" where
  "ToResponseWithLastRecord p tot hasMore lastRecord =
     (case lastRecord of
        Some nextCursor \<Rightarrow>
          if UseCursor p \<and> nextCursor \<noteq> []
          then \<lparr>previous_key = None, next_key = Some (encode_key (print_json (JObj nextCursor))), total = Itoa tot\<rparr>
          else ToResponse p tot hasMore
      | None \<Rightarrow> ToResponse p tot hasMore)"

definition last_record :: "('r \<Rightarrow> cursor) \<Rightarrow> 'r list \<Rightarrow> cursor option" where
  "last_record data rows = (if rows = [] then None else Some (data (last rows)))"

text \<open>What a handler answers: the rows of the page and the keys of the neighbouring pages.\<close>

definition answer :: "('r \<Rightarrow> cursor) \<Rightarrow> Pagination \<Rightarrow> int \<Rightarrow> 'r list \<Rightarrow> 'r list \<times> PaginationResponse" where
  "answer data p tot rows = (rows, ToResponseWithLastRecord p tot (int (length rows) = p_Limit p) (last_record data rows))"

end
