(* ===== verification/Page_Walk.thy ===== *)
theory Page_Walk
  imports Pagination
begin

text \<open>
  Following the \<open>next_key\<close> of page after page: every row that was there at the first request is
  on exactly one page, in order, also when rows are added in front of the first page meanwhile.
\<close>

section \<open>Orders\<close>

definition before :: "Pagination \<Rightarrow> ('r \<Rightarrow> int) \<Rightarrow> 'r \<Rightarrow> 'r \<Rightarrow> bool" where
  "before p key r s \<longleftrightarrow> beyond p (key r) (key s)"

lemma ordered_strict:
  assumes "distinct (map key t)"
  shows "sorted_wrt (before p key) (ordered p key t)"
proof -
  have "distinct (map key (sort_key key t))" using assms by (metis distinct_map distinct_sort mset_map mset_sort mset_eq_imp_distinct_iff)
  then have "sorted_wrt (<) (map key (sort_key key t))" by (simp add: strict_sorted_iff)
  then have "sorted_wrt (\<lambda>r s. key r < key s) (sort_key key t)" by (simp add: sorted_wrt_map)
  then show ?thesis
    by (auto simp: ordered_def sorted_wrt_rev before_def beyond_def elim: sorted_wrt_mono_rel [rotated])
qed

lemma set_ordered [simp]: "set (ordered p key t) = set t" and length_ordered [simp]: "length (ordered p key t) = length t"
  by (simp_all add: ordered_def)

lemma ordered_filter: "ordered p key (filter P t) = filter P (ordered p key t)"
  by (simp add: ordered_def flip: filter_sort rev_filter)

lemma ordered_cong:
  assumes "mset s = mset t" "distinct (map key t)"
  shows "ordered p key s = ordered p key t"
proof -
  have "inj_on key (set s)" using assms mset_eq_setD [OF assms(1)] by (simp add: distinct_map)
  then have "sort_key key s = sort_key key t" by (intro sort_key_inj_key_eq) (simp_all add: assms(1))
  then show ?thesis by (simp add: ordered_def)
qed

lemma beyond_irrefl [simp]: "\<not> beyond p x x"
  by (simp add: beyond_def)

lemma beyond_asym: "beyond p x y \<Longrightarrow> \<not> beyond p y x"
  by (auto simp: beyond_def split: if_splits)

lemma fst_answer [simp]: "fst (answer data p t rs) = rs"
  by (simp add: answer_def)

text \<open>What lies beyond the last row of a page is the rest of the list.\<close>

lemma beyond_last:
  assumes s: "sorted_wrt (before p key) S" and n: "0 < n" and ne: "S \<noteq> []"
  shows "filter (\<lambda>r. beyond p (key (last (take n S))) (key r)) S = drop n S"
proof -
  define l where "l = last (take n S)"
  have tk: "take n S = butlast (take n S) @ [l]" using n ne by (simp add: l_def)
  have S: "S = (butlast (take n S) @ [l]) @ drop n S" by (metis append_take_drop_id tk)
  have wrt: "sorted_wrt (before p key) ((butlast (take n S) @ [l]) @ drop n S)" using s S by simp
  then have "\<forall>r \<in> set (drop n S). before p key l r" "\<forall>r \<in> set (butlast (take n S)). before p key r l"
    by (auto simp: sorted_wrt_append)
  then have "filter (\<lambda>r. beyond p (key l) (key r)) (drop n S) = drop n S"
    "filter (\<lambda>r. beyond p (key l) (key r)) (butlast (take n S) @ [l]) = []"
    by (auto simp: before_def beyond_def filter_empty_conv split: if_splits)
  then have "filter (\<lambda>r. beyond p (key l) (key r)) ((butlast (take n S) @ [l]) @ drop n S) = drop n S" by simp
  then show ?thesis unfolding l_def [symmetric] by (simp only: S [symmetric])
qed


section \<open>Keys of pages\<close>

lemma encode_key_nonempty: "s \<noteq> [] \<Longrightarrow> encode_key s \<noteq> []"
  by (simp add: encode_key_def bytes_of_string_def)

lemma decode_key [simp]: "DecodeString (encode_key s) = Inr (bytes_of_string s)"
  by (simp add: encode_key_def)

definition query_page :: "page_query \<Rightarrow> CursorType \<Rightarrow> (string \<rightharpoonup> json) \<Rightarrow> Pagination" where
  "query_page q ty data = \<lparr>p_Limit = q_limit q, p_Offset = q_offset q, p_Order = getOrder q, p_CountTotal = q_count_total q,
     p_CursorType = ty, p_CursorValue = data\<rparr>"

definition good_query :: "page_query \<Rightarrow> bool" where
  "good_query q \<longleftrightarrow> 1 \<le> q_limit q \<and> q_limit q \<le> MaxLimit \<and> 0 \<le> q_offset q"

lemma parse_no_key: "good_query q \<Longrightarrow> q_key q = [] \<Longrightarrow> ParsePagination q ty = Inr (query_page q ty Map.empty)"
  by (simp add: ParsePagination_def good_query_def query_page_def)

lemma object_prefix: "has_prefix (trim_left_space n (CHR ''{'' # s)) ''{''"
  by (cases n) (simp_all add: has_prefix_def DecodeRune_def code_def space_rune_def)

text \<open>The key of a cursor with one number reads back as that cursor.\<close>

lemma parse_cursor_key:
  assumes q: "good_query q" and f: "ascii field" and n: "\<bar>n\<bar> \<le> 2 ^ 53"
    and key: "q_key q = encode_key (print_json (JObj [(field, JNum (Itoa n))]))"
  shows "ParsePagination q ty = Inr (query_page q (detectCursorType [field \<mapsto> JNum (Itoa n)]) [field \<mapsto> JNum (Itoa n)])"
proof -
  define s where "s = print_json (JObj [(field, JNum (Itoa n))])"
  have "parse_json s = Inr (JObj [(field, JNum (Itoa n))])" unfolding s_def
    by (rule parse_print) (use f printable_Itoa in simp)
  then have u: "unmarshal_map s = Inr [field \<mapsto> JNum (Itoa n)]"
    using float_int64_Itoa [OF n] by (simp add: unmarshal_map_def)
  obtain r where r: "s = CHR ''{'' # r" by (simp add: s_def)
  have "has_prefix (trim_left_space (length s) s) ''{''" unfolding r by (rule object_prefix)
  moreover have "q_key q \<noteq> []" "DecodeString (q_key q) = Inr (bytes_of_string s)"
    using encode_key_nonempty [of s] r by (simp_all only: key s_def [symmetric] decode_key) simp
  ultimately show ?thesis
    using q u by (simp add: ParsePagination_def parsePaginationKey_def parseJSONCursor_def good_query_def query_page_def)
qed


section \<open>Walking\<close>

text \<open>
  \<open>serve i p\<close> answers the \<open>i\<close>-th request; the walk goes on while there is a next key, with the
  other parameters unchanged, and fails when \<open>n\<close> requests are not enough.
\<close>

fun walk :: "nat \<Rightarrow> (nat \<Rightarrow> Pagination \<Rightarrow> 'r list \<times> PaginationResponse) \<Rightarrow> CursorType \<Rightarrow> nat \<Rightarrow> page_query \<Rightarrow> err + 'r list list" where
  "walk 0 serve ty i q = Inl (Err ''more pages'')"
| "walk (Suc n) serve ty i q =
     rbind (ParsePagination q ty) (\<lambda>p. let (rows, res) = serve i p in
       case next_key res of
         None \<Rightarrow> Inr [rows]
       | Some k \<Rightarrow> rbind (walk n serve ty (Suc i) (q\<lparr>q_key := k\<rparr>)) (\<lambda>pages. Inr (rows # pages)))"

text \<open>The same against a handler that reads the query itself.\<close>

fun follow :: "nat \<Rightarrow> (nat \<Rightarrow> page_query \<Rightarrow> err + 'r list \<times> PaginationResponse) \<Rightarrow> nat \<Rightarrow> page_query \<Rightarrow> err + 'r list list" where
  "follow 0 request i q = Inl (Err ''more pages'')"
| "follow (Suc n) request i q =
     rbind (request i q) (\<lambda>(rows, res). case next_key res of
         None \<Rightarrow> Inr [rows]
       | Some k \<Rightarrow> rbind (follow n request (Suc i) (q\<lparr>q_key := k\<rparr>)) (\<lambda>pages. Inr (rows # pages)))"

lemma follow_walk:
  assumes "\<And>i q. request i q = rbind (ParsePagination q ty) (\<lambda>p. Inr (serve i p))"
  shows "follow n request i q = walk n serve ty i q"
proof -
  have r: "request = (\<lambda>i q. rbind (ParsePagination q ty) (\<lambda>p. Inr (serve i p)))" by (intro ext assms)
  show ?thesis unfolding r
  proof (induction n arbitrary: i q)
    case (Suc n)
    show ?case
      by (cases "ParsePagination q ty") (simp_all add: Suc case_prod_beta Let_def cong: option.case_cong)
  qed simp
qed

text \<open>
  What the walk relies on of an endpoint with a cursor of one column: the first page is the start
  of the ordered rows, the page of a cursor the start of the rows beyond it, and the cursor of a
  row holds the column.
\<close>

locale cursor_endpoint =
  fixes ty :: CursorType and field :: string and key :: "'r \<Rightarrow> int" and data :: "'r \<Rightarrow> cursor"
    and rows :: "'d \<Rightarrow> 'r list" and page :: "Pagination \<Rightarrow> 'd \<Rightarrow> 'r list" and ok :: "'d \<Rightarrow> bool"
  assumes kind: "ty = CursorTypeSequence \<and> field = ''sequence'' \<or> ty = CursorTypeHeight \<and> field = ''height''"
    and data: "data r = [(field, JNum (Itoa (key r)))]"
    and unique: "ok d \<Longrightarrow> distinct (map key (rows d))"
    and first: "ok d \<Longrightarrow> p_CursorType p = ty \<Longrightarrow> p_CursorValue p = Map.empty \<Longrightarrow> p_Offset p = 0 \<Longrightarrow>
      page p d = limited p (ordered p key (rows d))"
    and further: "ok d \<Longrightarrow> p_CursorType p = ty \<Longrightarrow> safeGetInt64 p field = Inr n \<Longrightarrow>
      page p d = limited p (ordered p key (filter (\<lambda>r. beyond p n (key r)) (rows d)))"
begin

lemma field_ascii: "ascii field"
  using kind by (auto simp: ascii_def)

lemma detect [simp]: "detectCursorType [field \<mapsto> x] = ty"
  using kind by (auto simp: detectCursorType_def)

lemma use [simp]: "p_CursorType p = ty \<Longrightarrow> UseCursor p"
  using kind by (auto simp: UseCursor_def)

lemma query_page_sel [simp]: "p_CursorType (query_page q c m) = c" "p_CursorValue (query_page q c m) = m" "p_Limit (query_page q c m) = q_limit q"
    "p_Offset (query_page q c m) = q_offset q" "p_Order (query_page q c m) = getOrder q"
  by (simp_all add: query_page_def)

text \<open>The answer holds a next key unless the page is empty.\<close>

lemma answer_next:
  assumes "p_CursorType p = ty" "1 \<le> p_Limit p"
  shows "next_key (snd (answer data p tot rs)) =
    (if rs = [] then None else Some (encode_key (print_json (JObj [(field, JNum (Itoa (key (last rs))))]))))"
  using assms by (simp add: answer_def ToResponseWithLastRecord_def last_record_def data ToResponse_def)

text \<open>Rows added while the walk is under way come before all rows of the first snapshot.\<close>

definition grows_in_front :: "page_query \<Rightarrow> (nat \<Rightarrow> 'd) \<Rightarrow> bool" where
  "grows_in_front q D \<longleftrightarrow> (\<forall>i. ok (D i) \<and> (\<exists>new. mset (rows (D i)) = mset (rows (D 0) @ new) \<and>
     (\<forall>r \<in> set new. \<forall>s \<in> set (rows (D 0)). before (query_page q ty Map.empty) key r s)))"

lemma beyond_order: "getOrder q = p_Order p \<Longrightarrow> beyond (query_page q c m) = beyond p"
  by (intro ext) (simp add: beyond_def)

lemma rows_beyond:
  assumes D: "grows_in_front q D" and c: "\<exists>s \<in> set (rows (D 0)). key s = n"
  shows "ordered p key (filter (\<lambda>r. beyond (query_page q ty m) n (key r)) (rows (D i))) =
    ordered p key (filter (\<lambda>r. beyond (query_page q ty m) n (key r)) (rows (D 0)))"
proof (rule ordered_cong)
  let ?P = "\<lambda>r. beyond (query_page q ty m) n (key r)"
  obtain new where new: "mset (rows (D i)) = mset (rows (D 0) @ new)"
    "\<forall>r \<in> set new. \<forall>s \<in> set (rows (D 0)). before (query_page q ty Map.empty) key r s"
    using D unfolding grows_in_front_def by blast
  have "\<not> ?P r" if "r \<in> set new" for r
  proof -
    obtain s where s: "s \<in> set (rows (D 0))" "key s = n" using c by blast
    with new(2) that have "beyond (query_page q ty Map.empty) (key r) n" by (auto simp: before_def)
    then show ?thesis by (auto simp: beyond_def split: if_splits)
  qed
  then have "filter ?P new = []" by (simp add: filter_empty_conv)
  then have "mset (filter ?P (rows (D 0) @ new)) = mset (filter ?P (rows (D 0)))" by simp
  then show "mset (filter ?P (rows (D i))) = mset (filter ?P (rows (D 0)))" by (metis new(1) mset_filter)
  have "ok (D 0)" using D by (simp add: grows_in_front_def)
  then show "distinct (map key (filter ?P (rows (D 0))))" by (intro distinct_map_filter_fst unique)
qed

lemma walk_from:
  assumes D: "grows_in_front q0 D" and small: "\<forall>r \<in> set (rows (D 0)). \<bar>key r\<bar> \<le> 2 ^ 53"
  shows "good_query q \<Longrightarrow> getOrder q = getOrder q0 \<Longrightarrow> (\<exists>s \<in> set (rows (D 0)). key s = c) \<Longrightarrow>
    q_key q = encode_key (print_json (JObj [(field, JNum (Itoa c))])) \<Longrightarrow>
    length (filter (\<lambda>r. beyond (query_page q0 ty Map.empty) c (key r)) (rows (D 0))) < n \<Longrightarrow>
    \<exists>pages. walk n (\<lambda>i p. answer data p (tot i p) (page p (D i))) ty i q = Inr pages \<and>
      concat pages = ordered (query_page q0 ty Map.empty) key (filter (\<lambda>r. beyond (query_page q0 ty Map.empty) c (key r)) (rows (D 0)))"
proof (induction n arbitrary: i q c)
  case (Suc n)
  define p where "p = query_page q ty [field \<mapsto> JNum (Itoa c)]"
  define R where "R = filter (\<lambda>r. beyond p c (key r)) (rows (D 0))"
  define S where "S = ordered p key R"
  have order: "beyond (query_page q0 ty Map.empty) = beyond p" "ordered (query_page q0 ty Map.empty) key R = S"
    using Suc.prems(2) by (simp_all add: beyond_order p_def S_def ordered_def beyond_def fun_eq_iff)
  have c: "\<bar>c\<bar> \<le> 2 ^ 53" using Suc.prems(3) small by blast
  have parse: "ParsePagination q ty = Inr p"
    unfolding p_def using parse_cursor_key [OF Suc.prems(1) field_ascii c Suc.prems(4)] by simp
  have ok: "ok (D i)" "ok (D 0)" using D by (simp_all add: grows_in_front_def)
  have "safeGetInt64 p field = Inr c" using float_int64_Itoa [OF c] by (simp add: safeGetInt64_def p_def)
  from further [OF ok(1) _ this] have "page p (D i) = limited p (ordered p key (filter (\<lambda>r. beyond p c (key r)) (rows (D i))))"
    by (simp add: p_def)
  also have "\<dots> = take (nat (q_limit q)) S"
    using rows_beyond [OF D Suc.prems(3), where m = Map.empty and p = p and i = i]
    by (simp add: order(1) limited_def S_def R_def) (simp add: p_def)
  finally have page: "page p (D i) = take (nat (q_limit q)) S" .
  have lim: "1 \<le> p_Limit p" "0 < nat (q_limit q)" using Suc.prems(1) by (simp_all add: p_def good_query_def)
  have dR: "distinct (map key R)" unfolding R_def by (intro distinct_map_filter_fst unique ok)
  have res: "walk (Suc n) (\<lambda>i p. answer data p (tot i p) (page p (D i))) ty i q =
      (case next_key (snd (answer data p (tot i p) (page p (D i)))) of None \<Rightarrow> Inr [page p (D i)]
       | Some k \<Rightarrow> rbind (walk n (\<lambda>i p. answer data p (tot i p) (page p (D i))) ty (Suc i) (q\<lparr>q_key := k\<rparr>)) (\<lambda>pages. Inr (page p (D i) # pages)))"
    by (simp add: parse case_prod_beta Let_def cong: option.case_cong)
  note nxt = answer_next [of p, OF _ lim(1), unfolded p_def query_page_sel, folded p_def, OF refl]
  show ?case
  proof (cases "S = []")
    case True
    then show ?thesis
      unfolding order(1) R_def [symmetric] order(2) res nxt by (simp add: page)
  next
    case False
    then have ne: "take (nat (q_limit q)) S \<noteq> []" using lim(2) by simp
    define l where "l = last (take (nat (q_limit q)) S)"
    have lS: "l \<in> set S" using ne unfolding l_def by (metis last_in_set in_set_takeD)
    then have l0: "l \<in> set (rows (D 0))" "beyond p c (key l)" by (simp_all add: S_def R_def)
    have rest: "filter (\<lambda>r. beyond p (key l) (key r)) S = drop (nat (q_limit q)) S"
      unfolding l_def by (rule beyond_last [OF _ lim(2) False]) (simp add: S_def ordered_strict dR)
    have "filter (\<lambda>r. beyond p (key l) (key r)) R = filter (\<lambda>r. beyond p (key l) (key r)) (rows (D 0))"
      using l0(2) by (auto simp: R_def beyond_def intro!: filter_cong split: if_splits)
    then have ord: "ordered p key (filter (\<lambda>r. beyond p (key l) (key r)) (rows (D 0))) = drop (nat (q_limit q)) S"
      using rest by (simp add: S_def ordered_filter [symmetric])
    then have "length (filter (\<lambda>r. beyond p (key l) (key r)) (rows (D 0))) = length S - nat (q_limit q)"
      by (metis length_drop length_ordered)
    also have "\<dots> < n"
    proof -
      have "length S < Suc n" using Suc.prems(5) by (simp add: order(1) S_def R_def)
      moreover have "length S \<noteq> 0" using False by simp
      ultimately show ?thesis using lim(2) by linarith
    qed
    finally have less: "length (filter (\<lambda>r. beyond (query_page q0 ty Map.empty) (key l) (key r)) (rows (D 0))) < n" by (simp add: order(1))
    define k where "k = encode_key (print_json (JObj [(field, JNum (Itoa (key l)))]))"
    have "good_query (q\<lparr>q_key := k\<rparr>)" "getOrder (q\<lparr>q_key := k\<rparr>) = getOrder q0"
      using Suc.prems(1,2) by (simp_all add: good_query_def getOrder_def)
    from Suc.IH [OF this _ _ less] l0(1) obtain pages where
      w: "walk n (\<lambda>i p. answer data p (tot i p) (page p (D i))) ty (Suc i) (q\<lparr>q_key := k\<rparr>) = Inr pages"
        "concat pages = drop (nat (q_limit q)) S"
      using ord Suc.prems(2) by (auto simp: k_def order(1) ordered_def p_def)
    have "walk (Suc n) (\<lambda>i p. answer data p (tot i p) (page p (D i))) ty i q = Inr (take (nat (q_limit q)) S # pages)"
      unfolding res nxt page l_def [symmetric] k_def [symmetric] using ne w(1) by simp
    with w(2) show ?thesis unfolding order(1) R_def [symmetric] order(2) by simp
  qed
qed simp

text \<open>The walk from a request without a key.\<close>

lemma walk_all:
  assumes D: "grows_in_front q D" and small: "\<forall>r \<in> set (rows (D 0)). \<bar>key r\<bar> \<le> 2 ^ 53"
    and q: "good_query q" "q_key q = []" "q_offset q = 0" and n: "length (rows (D 0)) + 1 < n"
  shows "\<exists>pages. walk n (\<lambda>i p. answer data p (tot i p) (page p (D i))) ty 0 q = Inr pages \<and>
    concat pages = ordered (query_page q ty Map.empty) key (rows (D 0))"
proof -
  define p where "p = query_page q ty Map.empty"
  define S where "S = ordered p key (rows (D 0))"
  have ok: "ok (D 0)" using D by (simp add: grows_in_front_def)
  have page: "page p (D 0) = take (nat (q_limit q)) S"
    using first [OF ok, of p] q(3) by (simp add: p_def limited_def S_def)
  have lim: "1 \<le> p_Limit p" "0 < nat (q_limit q)" using q(1) by (simp_all add: p_def good_query_def)
  obtain m where m: "n = Suc m" using n by (cases n) auto
  have res: "walk n (\<lambda>i p. answer data p (tot i p) (page p (D i))) ty 0 q =
      (case next_key (snd (answer data p (tot 0 p) (page p (D 0)))) of None \<Rightarrow> Inr [page p (D 0)]
       | Some k \<Rightarrow> rbind (walk m (\<lambda>i p. answer data p (tot i p) (page p (D i))) ty (Suc 0) (q\<lparr>q_key := k\<rparr>)) (\<lambda>pages. Inr (page p (D 0) # pages)))"
    by (simp add: m parse_no_key [OF q(1,2)] p_def [symmetric] case_prod_beta Let_def cong: option.case_cong)
  note nxt = answer_next [of p, OF _ lim(1), unfolded p_def query_page_sel, folded p_def, OF refl]
  show ?thesis
  proof (cases "S = []")
    case True
    then show ?thesis unfolding res nxt p_def [symmetric] S_def [symmetric] by (simp add: page)
  next
    case False
    then have ne: "take (nat (q_limit q)) S \<noteq> []" using lim(2) by simp
    define l where "l = last (take (nat (q_limit q)) S)"
    have lS: "l \<in> set (rows (D 0))" using ne unfolding l_def S_def by (metis last_in_set in_set_takeD set_ordered)
    have rest: "ordered p key (filter (\<lambda>r. beyond p (key l) (key r)) (rows (D 0))) = drop (nat (q_limit q)) S"
      unfolding ordered_filter S_def [symmetric] l_def by (rule beyond_last [OF _ lim(2) False]) (simp add: S_def ordered_strict unique ok)
    then have "length (filter (\<lambda>r. beyond p (key l) (key r)) (rows (D 0))) < m"
      using n lim(2) by (metis S_def length_drop length_ordered m diff_le_self le_less_trans less_SucE Suc_eq_plus1 Suc_lessD not_less_eq)
    define k where "k = encode_key (print_json (JObj [(field, JNum (Itoa (key l)))]))"
    have "good_query (q\<lparr>q_key := k\<rparr>)" "getOrder (q\<lparr>q_key := k\<rparr>) = getOrder q" using q(1) by (simp_all add: good_query_def getOrder_def)
    from walk_from [OF D small this, of "key l" m tot "Suc 0"] lS \<open>_ < m\<close> rest obtain pages where
      w: "walk m (\<lambda>i p. answer data p (tot i p) (page p (D i))) ty (Suc 0) (q\<lparr>q_key := k\<rparr>) = Inr pages" "concat pages = drop (nat (q_limit q)) S"
      by (auto simp: k_def p_def)
    have "walk n (\<lambda>i p. answer data p (tot i p) (page p (D i))) ty 0 q = Inr (take (nat (q_limit q)) S # pages)"
      unfolding res nxt page l_def [symmetric] k_def [symmetric] using ne w(1) by simp
    with w(2) show ?thesis unfolding p_def [symmetric] S_def [symmetric] by simp
  qed
qed

end

end
