(* ===== verification/Tx_Api.thy ===== *)
theory Tx_Api
  imports Page_Walk Dict_Ids
begin

text \<open>
  The lists of blocks and transactions the API serves: \<open>src/api/handler/block/block.go\<close>,
  \<open>src/api/handler/tx/tx.go\<close> with \<open>query_helpers.go\<close>, and the counts of
  \<open>src/util/common-handler/common/count.go\<close>. The JSON of the rows is not modelled: a handler
  answers the rows and the pagination.
\<close>

section \<open>Ids of parameters: handler.go and param.go\<close>

definition found_ids :: "string list \<Rightarrow> (string \<rightharpoonup> int) \<Rightarrow> int list" where
  "found_ids xs m = concat (map (\<lambda>x. case m x of None \<Rightarrow> [] | Some i \<Rightarrow> [i]) xs)"

definition GetAccountIds :: "env \<Rightarrow> string list \<Rightarrow> (world, int list) act" where
  "GetAccountIds E accounts = bnd (GetOrCreateAccountIds E accounts False) (\<lambda>idMap. ret (found_ids accounts idMap))"

definition GetMsgTypeIds :: "env \<Rightarrow> string list \<Rightarrow> (world, int list) act" where
  "GetMsgTypeIds E msgs = bnd (GetOrCreateMsgTypeIds E msgs False) (\<lambda>idMap. ret (found_ids msgs idMap))"

definition GetParams :: "string \<Rightarrow> err + string" where
  "GetParams value = (if value = [] then Inl (Err ''missing parameter'') else Inr value)"

definition GetHeightParam :: "string \<Rightarrow> err + int" where
  "GetHeightParam height = rbind (GetParams height) (\<lambda>value.
     case Atoi value of
       Inl e \<Rightarrow> Inl (InvalidValue ''height'' value ''must be a valid integer'')
     | Inr n \<Rightarrow> if n < 1 then Inl (InvalidValue ''height'' (Itoa n) ''must be a positive integer'') else Inr n)"

definition GetAccountParam :: "env \<Rightarrow> string \<Rightarrow> err + string" where
  "GetAccountParam E account = rbind (GetParams account) (\<lambda>value.
     case AccAddressFromString (from_bech32 E) value of
       Inl e \<Rightarrow> Inl (InvalidValue ''account'' value ''invalid address format'')
     | Inr b \<Rightarrow> Inr (to_bech32 E b))"


section \<open>Counts: count.go\<close>

text \<open>\<open>slow\<close>: the count ran into the statement timeout of five seconds.\<close>

definition GetCountWithTimeout :: "bool \<Rightarrow> int \<Rightarrow> bool \<Rightarrow> int" where
  "GetCountWithTimeout slow n countTotal = (if \<not> countTotal then 0 else if slow then - 1 else n)"

definition getCountByMax :: "('r \<Rightarrow> int) \<Rightarrow> bool \<Rightarrow> 'r list \<Rightarrow> int" where
  "getCountByMax field countTotal t = (if \<not> countTotal then 0 else coalesce_max field t)"

text \<open>\<open>estimate\<close> is what the catalogue of Postgres holds for the table.\<close>

definition getCountByPgClass :: "int \<Rightarrow> bool \<Rightarrow> bool \<Rightarrow> 'r list \<Rightarrow> int" where
  "getCountByPgClass estimate slow countTotal t =
     (if \<not> countTotal then 0 else if estimate = 0 then GetCountWithTimeout slow (int (length t)) countTotal else estimate)"


section \<open>Queries: query_helpers.go\<close>

definition with_msg_types :: "int list \<Rightarrow> db \<Rightarrow> int \<Rightarrow> bool" where
  "with_msg_types msgTypeIds d s \<longleftrightarrow>
     msgTypeIds = [] \<or> (\<exists>m \<in> set (t_tx_msg_types d). tm_Sequence m = s \<and> tm_MsgTypeId m \<in> set msgTypeIds)"

definition account_sequences :: "int \<Rightarrow> bool \<Rightarrow> int list \<Rightarrow> db \<Rightarrow> int list" where
  "account_sequences accountID isSigner msgTypeIds d = dedup (map ta_Sequence (filter (\<lambda>a. ta_AccountId a = accountID \<and>
     (isSigner \<longrightarrow> ta_Signer a) \<and> with_msg_types msgTypeIds d (ta_Sequence a)) (t_tx_accounts d)))"

definition buildSequenceQueryWithMsgTypeFilter :: "int list \<Rightarrow> db \<Rightarrow> int list" where
  "buildSequenceQueryWithMsgTypeFilter msgTypeIds d =
     dedup (map tm_Sequence (filter (\<lambda>m. msgTypeIds = [] \<or> tm_MsgTypeId m \<in> set msgTypeIds) (t_tx_msg_types d)))"

definition buildSequenceQueryWithHeightAndMsgTypeFilter :: "int \<Rightarrow> int list \<Rightarrow> db \<Rightarrow> int list" where
  "buildSequenceQueryWithHeightAndMsgTypeFilter height msgTypeIds d =
     dedup (map tx_Sequence (filter (\<lambda>t. tx_Height t = height \<and> with_msg_types msgTypeIds d (tx_Sequence t)) (t_tx d)))"

text \<open>The transactions of a page of sequences.\<close>

definition txs_page :: "Pagination \<Rightarrow> int list \<Rightarrow> db \<Rightarrow> CollectedTx list" where
  "txs_page p seqs d = ordered p tx_Sequence (filter (\<lambda>t. tx_Sequence t \<in> set (ApplySequence id p seqs)) (t_tx d))"

definition buildTxEdgeQuery :: "bool \<Rightarrow> int \<Rightarrow> bool \<Rightarrow> int list \<Rightarrow> Pagination \<Rightarrow> db \<Rightarrow> CollectedTx list \<times> int" where
  "buildTxEdgeQuery slow accountID isSigner msgTypeIds p d =
     (let seqs = account_sequences accountID isSigner msgTypeIds d in
      (txs_page p seqs d, GetCountWithTimeout slow (int (length seqs)) (p_CountTotal p)))"

definition buildEdgeQueryForGetTxs :: "bool \<Rightarrow> int list \<Rightarrow> Pagination \<Rightarrow> db \<Rightarrow> CollectedTx list \<times> int" where
  "buildEdgeQueryForGetTxs slow msgTypeIds p d =
     (let seqs = buildSequenceQueryWithMsgTypeFilter msgTypeIds d in
      (txs_page p seqs d,
       if msgTypeIds = [] \<and> p_CountTotal p then getCountByMax tm_Sequence (p_CountTotal p) (t_tx_msg_types d)
       else GetCountWithTimeout slow (int (length seqs)) (p_CountTotal p)))"

definition buildEdgeQueryForGetTxsByHeight :: "bool \<Rightarrow> int \<Rightarrow> int list \<Rightarrow> Pagination \<Rightarrow> db \<Rightarrow> CollectedTx list \<times> int" where
  "buildEdgeQueryForGetTxsByHeight slow height msgTypeIds p d =
     (let seqs = buildSequenceQueryWithHeightAndMsgTypeFilter height msgTypeIds d in
      (txs_page p seqs d,
       if msgTypeIds = [] \<and> p_CountTotal p
       then GetCountWithTimeout slow (int (length (filter (\<lambda>t. tx_Height t = height) (t_tx d)))) (p_CountTotal p)
       else GetCountWithTimeout slow (int (length seqs)) (p_CountTotal p)))"


section \<open>Handlers: tx.go and block.go\<close>

definition msg_filter :: "env \<Rightarrow> string list \<Rightarrow> (world, int list) act" where
  "msg_filter E msgs = (if msgs = [] then ret [] else GetMsgTypeIds E msgs)"

definition GetTxs :: "env \<Rightarrow> bool \<Rightarrow> page_query \<Rightarrow> string list \<Rightarrow> (world, CollectedTx list \<times> PaginationResponse) act" where
  "GetTxs E slow q msgs =
     bnd (lift_res (ParsePagination q CursorTypeSequence)) (\<lambda>p.
     bnd (msg_filter E msgs) (\<lambda>msgTypeIds.
     bnd (query (buildEdgeQueryForGetTxs slow msgTypeIds p)) (\<lambda>(txs, tot).
     ret (answer GetCursorData_tx p tot txs))))"

definition GetTxsByAccount :: "env \<Rightarrow> bool \<Rightarrow> page_query \<Rightarrow> string \<Rightarrow> bool \<Rightarrow> string list \<Rightarrow>
    (world, CollectedTx list \<times> PaginationResponse) act" where
  "GetTxsByAccount E slow q account isSigner msgs =
     bnd (lift_res (GetAccountParam E account)) (\<lambda>acc.
     bnd (lift_res (ParsePagination q CursorTypeSequence)) (\<lambda>p.
     bnd (GetAccountIds E [acc]) (\<lambda>accountIds.
     case accountIds of
       [] \<Rightarrow> ret ([], ToResponse p 0 False)
     | accountId # _ \<Rightarrow>
         bnd (msg_filter E msgs) (\<lambda>msgTypeIds.
         bnd (query (buildTxEdgeQuery slow accountId isSigner msgTypeIds p)) (\<lambda>(txs, tot).
         ret (answer GetCursorData_tx p tot txs))))))"

definition GetTxsByHeight :: "env \<Rightarrow> bool \<Rightarrow> page_query \<Rightarrow> string \<Rightarrow> string list \<Rightarrow>
    (world, CollectedTx list \<times> PaginationResponse) act" where
  "GetTxsByHeight E slow q height msgs =
     bnd (lift_res (GetHeightParam height)) (\<lambda>h.
     bnd (lift_res (ParsePagination q CursorTypeSequence)) (\<lambda>p.
     bnd (msg_filter E msgs) (\<lambda>msgTypeIds.
     bnd (query (buildEdgeQueryForGetTxsByHeight slow h msgTypeIds p)) (\<lambda>(txs, tot).
     ret (answer GetCursorData_tx p tot txs)))))"

definition GetTxByHash :: "string \<Rightarrow> (world, CollectedTx) act" where
  "GetTxByHash hash =
     bnd (lift_res (GetParams hash)) (\<lambda>hash.
     bnd (lift_res (HexToBytes hash)) (\<lambda>hashBytes.
     first_row (\<lambda>d. filter (\<lambda>t. tx_Hash t = hashBytes) (t_tx d))))"

definition base_blocks :: "string \<Rightarrow> db \<Rightarrow> CollectedBlock list" where
  "base_blocks chainId d = filter (\<lambda>b. blk_ChainId b = chainId) (t_block d)"

definition GetBlocks :: "string \<Rightarrow> page_query \<Rightarrow> (world, CollectedBlock list \<times> PaginationResponse) act" where
  "GetBlocks chainId q =
     bnd (lift_res (ParsePagination q CursorTypeHeight)) (\<lambda>p.
     bnd (query (\<lambda>d. take 1 (rev (sort_key blk_Height (base_blocks chainId d))))) (\<lambda>lastBlock.
     bnd (query (\<lambda>d. ApplyToBlock p (base_blocks chainId d))) (\<lambda>blocks.
     ret (answer GetCursorData_block p (case lastBlock of [] \<Rightarrow> 0 | b # _ \<Rightarrow> blk_Height b) blocks))))"

definition GetBlockByHeight :: "string \<Rightarrow> string \<Rightarrow> (world, CollectedBlock) act" where
  "GetBlockByHeight chainId height =
     bnd (lift_res (GetHeightParam height)) (\<lambda>h. first_row (\<lambda>d. filter (\<lambda>b. blk_Height b = h) (base_blocks chainId d)))"


section \<open>The endpoints have a cursor\<close>

text \<open>A page of keys selects a page of rows.\<close>

lemma map_sort_key: "map key (sort_key key xs) = sort (map key xs)"
  by (rule properties_for_sort [symmetric]) simp_all

lemma filter_taken:
  assumes "distinct (map key R)"
  shows "filter (\<lambda>r. key r \<in> set (take n (map key R))) R = take n R"
proof -
  have "distinct (map key (A @ B)) \<Longrightarrow> filter (\<lambda>r. key r \<in> key ` set A) (A @ B) = A" for A B
  proof -
    assume d: "distinct (map key (A @ B))"
    have "filter (\<lambda>r. key r \<in> key ` set A) A = A" by simp
    moreover have "filter (\<lambda>r. key r \<in> key ` set A) B = []" using d by (auto simp: filter_empty_conv)
    ultimately show "filter (\<lambda>r. key r \<in> key ` set A) (A @ B) = A" by simp
  qed
  from this [of "take n R" "drop n R"] assms show ?thesis unfolding append_take_drop_id take_map set_map by simp
qed

lemma limited_ordered_mem:
  assumes d: "distinct (map key t)" and S: "distinct S" "set S \<subseteq> key ` set t"
  shows "ordered p key (filter (\<lambda>r. key r \<in> set (limited p (ordered p id S))) t) = limited p (ordered p key (filter (\<lambda>r. key r \<in> set S) t))"
proof -
  define R where "R = ordered p key (filter (\<lambda>r. key r \<in> set S) t)"
  have dR: "distinct (map key (filter (\<lambda>r. key r \<in> set S) t))" using d by (rule distinct_map_filter_fst)
  have "set (map key (filter (\<lambda>r. key r \<in> set S) t)) = set S" using S(2) by auto
  with dR S(1) have "mset (map key (filter (\<lambda>r. key r \<in> set S) t)) = mset S" by (metis set_eq_iff_mset_eq_distinct)
  then have "sort (map key (filter (\<lambda>r. key r \<in> set S) t)) = sort S" by (metis properties_for_sort mset_sort sorted_sort)
  then have keys: "map key R = ordered p id S"
    by (simp add: R_def ordered_def rev_map [symmetric] map_sort_key id_def)
  have "distinct (map key R)" unfolding keys by (simp add: ordered_def S(1))
  note taken = filter_taken [OF this, of "nat (p_Limit p)", unfolded keys]
  have "ordered p key (filter (\<lambda>r. key r \<in> set (limited p (ordered p id S))) t) = filter (\<lambda>r. key r \<in> set (limited p (ordered p id S))) R"
    unfolding R_def ordered_filter filter_filter
    by (rule filter_cong [OF refl]) (auto simp: limited_def dest: in_set_takeD)
  with taken show ?thesis by (simp add: limited_def R_def)
qed

lemma txs_page_first:
  assumes "p_CursorType p = CursorTypeSequence" "p_CursorValue p = Map.empty" "p_Offset p = 0"
    "distinct (map tx_Sequence (t_tx d))" "distinct S" "set S \<subseteq> tx_Sequence ` set (t_tx d)"
  shows "txs_page p S d = limited p (ordered p tx_Sequence (filter (\<lambda>t. tx_Sequence t \<in> set S) (t_tx d)))"
  using limited_ordered_mem [OF assms(4-6)] assms(1-3)
  by (simp add: txs_page_def ApplySequence_def safeGetInt64_def offset_page_def)

lemma txs_page_further:
  assumes "p_CursorType p = CursorTypeSequence" "safeGetInt64 p ''sequence'' = Inr n"
    "distinct (map tx_Sequence (t_tx d))" "distinct S" "set S \<subseteq> tx_Sequence ` set (t_tx d)"
  shows "txs_page p S d = limited p (ordered p tx_Sequence (filter (\<lambda>t. beyond p n (tx_Sequence t)) (filter (\<lambda>t. tx_Sequence t \<in> set S) (t_tx d))))"
proof -
  have "distinct (filter (\<lambda>r. beyond p n (id r)) S)" "set (filter (\<lambda>r. beyond p n (id r)) S) \<subseteq> tx_Sequence ` set (t_tx d)"
    using assms(4,5) by auto
  from limited_ordered_mem [OF assms(3) this, of p] assms(1,2) show ?thesis
    by (simp add: txs_page_def ApplySequence_def conj_commute)
qed

text \<open>A query for sequences whose transactions are all stored, once each.\<close>

definition sequences_ok :: "(db \<Rightarrow> int list) \<Rightarrow> db \<Rightarrow> bool" where
  "sequences_ok seqs d \<longleftrightarrow> distinct (map tx_Sequence (t_tx d)) \<and> distinct (seqs d) \<and> set (seqs d) \<subseteq> tx_Sequence ` set (t_tx d)"

interpretation tx_pages: cursor_endpoint CursorTypeSequence "''sequence''" tx_Sequence GetCursorData_tx
  "\<lambda>d. filter (\<lambda>t. tx_Sequence t \<in> set (seqs d)) (t_tx d)" "\<lambda>p d. txs_page p (seqs d) d" "sequences_ok seqs" for seqs
  by unfold_locales
    (simp_all add: sequences_ok_def GetCursorData_tx_def sequence_cursor_def distinct_map_filter_fst txs_page_first txs_page_further)

interpretation block_pages: cursor_endpoint CursorTypeHeight "''height''" blk_Height GetCursorData_block
  "base_blocks c" "\<lambda>p d. ApplyToBlock p (base_blocks c d)" "\<lambda>d. unique_key block_key (t_block d)" for c
proof
  fix d :: db assume u: "unique_key block_key (t_block d)"
  have "distinct (map block_key (base_blocks c d))"
    unfolding base_blocks_def by (rule distinct_map_filter_fst) (use u in \<open>simp add: unique_key_def\<close>)
  then show "distinct (map blk_Height (base_blocks c d))"
    by (auto simp: distinct_map inj_on_def block_key_def base_blocks_def)
qed (simp_all add: GetCursorData_block_def height_cursor_def ApplyToBlock_def safeGetInt64_def offset_page_def)

text \<open>The other tables with a sequence are paged directly.\<close>

lemma sequence_endpoint:
  assumes "\<And>r. data r = sequence_cursor (key r)" "\<And>d. ok d \<Longrightarrow> distinct (map key (rows d))"
  shows "cursor_endpoint CursorTypeSequence ''sequence'' key data rows (\<lambda>p d. ApplySequence key p (rows d)) ok"
  by unfold_locales (simp_all add: assms sequence_cursor_def ApplySequence_def safeGetInt64_def offset_page_def)

end
