(* ===== verification/Evm_Api.thy ===== *)
theory Evm_Api
  imports Tx_Api
begin

text \<open>
  The lists of EVM transactions and of internal transactions: \<open>src/api/handler/tx/evmtx.go\<close>,
  \<open>internaltx.go\<close> and \<open>util.go\<close>.
\<close>

section \<open>EVM transactions: evmtx.go\<close>

definition GetEvmTxs :: "page_query \<Rightarrow> (world, CollectedEvmTx list \<times> PaginationResponse) act" where
  "GetEvmTxs q =
     bnd (lift_res (ParsePagination q CursorTypeSequence)) (\<lambda>p.
     bnd (query (\<lambda>d. getCountByMax etx_Sequence (p_CountTotal p) (t_evm_tx d))) (\<lambda>tot.
     bnd (query (\<lambda>d. ApplySequence etx_Sequence p (t_evm_tx d))) (\<lambda>txs.
     ret (answer GetCursorData_evm_tx p tot txs))))"

definition evm_account_sequences :: "int \<Rightarrow> bool \<Rightarrow> db \<Rightarrow> int list" where
  "evm_account_sequences accountID isSigner d = dedup (map eta_Sequence (filter (\<lambda>a. eta_AccountId a = accountID \<and>
     (isSigner \<longrightarrow> eta_Signer a)) (t_evm_tx_accounts d)))"

definition buildEvmTxEdgeQuery :: "bool \<Rightarrow> int \<Rightarrow> bool \<Rightarrow> Pagination \<Rightarrow> db \<Rightarrow> CollectedEvmTx list \<times> int" where
  "buildEvmTxEdgeQuery slow accountID isSigner p d =
     (let seqs = evm_account_sequences accountID isSigner d in
      (ordered p etx_Sequence (filter (\<lambda>t. etx_Sequence t \<in> set (ApplySequence id p seqs)) (t_evm_tx d)),
       GetCountWithTimeout slow (int (length seqs)) (p_CountTotal p)))"

definition GetEvmTxsByAccount :: "env \<Rightarrow> bool \<Rightarrow> page_query \<Rightarrow> string \<Rightarrow> bool \<Rightarrow> (world, CollectedEvmTx list \<times> PaginationResponse) act" where
  "GetEvmTxsByAccount E slow q account isSigner =
     bnd (lift_res (GetAccountParam E account)) (\<lambda>acc.
     bnd (lift_res (ParsePagination q CursorTypeSequence)) (\<lambda>p.
     bnd (GetAccountIds E [acc]) (\<lambda>accountIds.
     case accountIds of
       [] \<Rightarrow> ret ([], ToResponse p 0 False)
     | accountId # _ \<Rightarrow>
         bnd (query (buildEvmTxEdgeQuery slow accountId isSigner p)) (\<lambda>(txs, tot).
         ret (answer GetCursorData_evm_tx p tot txs)))))"

definition GetEvmTxsByHeight :: "bool \<Rightarrow> page_query \<Rightarrow> string \<Rightarrow> (world, CollectedEvmTx list \<times> PaginationResponse) act" where
  "GetEvmTxsByHeight slow q height =
     bnd (lift_res (GetHeightParam height)) (\<lambda>h.
     bnd (lift_res (ParsePagination q CursorTypeSequence)) (\<lambda>p.
     bnd (query (\<lambda>d. GetCountWithTimeout slow (int (length (filter (\<lambda>t. etx_Height t = h) (t_evm_tx d)))) (p_CountTotal p))) (\<lambda>tot.
     bnd (query (\<lambda>d. ApplySequence etx_Sequence p (filter (\<lambda>t. etx_Height t = h) (t_evm_tx d)))) (\<lambda>txs.
     ret (answer GetCursorData_evm_tx p tot txs)))))"

definition GetEvmTxByHash :: "string \<Rightarrow> (world, CollectedEvmTx) act" where
  "GetEvmTxByHash hash =
     bnd (lift_res (GetParams hash)) (\<lambda>hash.
     bnd (lift_res (HexToBytes hash)) (\<lambda>hashBytes.
     first_row (\<lambda>d. filter (\<lambda>t. etx_Hash t = hashBytes) (t_evm_tx d))))"


section \<open>Internal transactions: internaltx.go and util.go\<close>

text \<open>The bytes of the accounts and the hashes the rows refer to; ids that are not positive refer to none.\<close>

definition dict_map :: "int set \<Rightarrow> (int \<times> byte list) list \<Rightarrow> int \<rightharpoonup> byte list" where
  "dict_map ids t = map_of (rev (filter (\<lambda>r. fst r \<in> ids) t))"

definition getAccounts :: "CollectedEvmInternalTx list \<Rightarrow> (world, int \<rightharpoonup> byte list) act" where
  "getAccounts txs =
     (let ids = {i \<in> set (map ei_FromId txs) \<union> set (map ei_ToId txs). i > 0} in
      if ids = {} then ret Map.empty else query (\<lambda>d. dict_map ids (t_account_dict d)))"

definition getHashes :: "CollectedEvmInternalTx list \<Rightarrow> (world, int \<rightharpoonup> byte list) act" where
  "getHashes txs =
     (let ids = {i \<in> set (map ei_HashId txs). i > 0} in
      if ids = {} then ret Map.empty else query (\<lambda>d. dict_map ids (t_evm_tx_hash_dict d)))"

type_synonym itx_answer = "(CollectedEvmInternalTx list \<times> (int \<rightharpoonup> byte list) \<times> (int \<rightharpoonup> byte list)) \<times> PaginationResponse"

definition itx_answer_of :: "Pagination \<Rightarrow> int \<Rightarrow> CollectedEvmInternalTx list \<Rightarrow> (world, itx_answer) act" where
  "itx_answer_of p tot txs =
     bnd (getAccounts txs) (\<lambda>accounts.
     bnd (getHashes txs) (\<lambda>hashes.
     ret ((txs, accounts, hashes), snd (answer GetCursorData_internal_tx p tot txs))))"

definition GetEvmInternalTxs :: "page_query \<Rightarrow> (world, itx_answer) act" where
  "GetEvmInternalTxs q =
     bnd (lift_res (ParsePagination q CursorTypeSequence)) (\<lambda>p.
     bnd (query (\<lambda>d. getCountByMax ei_Sequence (p_CountTotal p) (t_evm_internal_tx d))) (\<lambda>tot.
     bnd (query (\<lambda>d. ApplySequence ei_Sequence p (t_evm_internal_tx d))) (itx_answer_of p tot)))"

definition buildEvmInternalTxEdgeQuery :: "bool \<Rightarrow> int \<Rightarrow> Pagination \<Rightarrow> db \<Rightarrow> CollectedEvmInternalTx list \<times> int" where
  "buildEvmInternalTxEdgeQuery slow accountID p d =
     (let seqs = dedup (map eia_Sequence (filter (\<lambda>a. eia_AccountId a = accountID) (t_evm_internal_tx_accounts d))) in
      (ordered p ei_Sequence (filter (\<lambda>t. ei_Sequence t \<in> set (ApplySequence id p seqs)) (t_evm_internal_tx d)),
       GetCountWithTimeout slow (int (length seqs)) (p_CountTotal p)))"

definition GetEvmInternalTxsByAccount :: "env \<Rightarrow> bool \<Rightarrow> page_query \<Rightarrow> string \<Rightarrow> (world, itx_answer) act" where
  "GetEvmInternalTxsByAccount E slow q account =
     bnd (lift_res (GetAccountParam E account)) (\<lambda>acc.
     bnd (lift_res (ParsePagination q CursorTypeSequence)) (\<lambda>p.
     bnd (GetAccountIds E [acc]) (\<lambda>accountIds.
     case accountIds of
       [] \<Rightarrow> ret (([], Map.empty, Map.empty), ToResponse p 0 False)
     | accountId # _ \<Rightarrow>
         bnd (query (buildEvmInternalTxEdgeQuery slow accountId p)) (\<lambda>(txs, tot). itx_answer_of p tot txs))))"

definition GetEvmInternalTxsByHeight :: "bool \<Rightarrow> page_query \<Rightarrow> string \<Rightarrow> (world, itx_answer) act" where
  "GetEvmInternalTxsByHeight slow q height =
     bnd (lift_res (GetHeightParam height)) (\<lambda>h.
     bnd (lift_res (ParsePagination q CursorTypeSequence)) (\<lambda>p.
     bnd (query (\<lambda>d. GetCountWithTimeout slow (int (length (filter (\<lambda>t. ei_Height t = h) (t_evm_internal_tx d)))) (p_CountTotal p))) (\<lambda>tot.
     bnd (query (\<lambda>d. ApplySequence ei_Sequence p (filter (\<lambda>t. ei_Height t = h) (t_evm_internal_tx d)))) (itx_answer_of p tot))))"

definition GetEvmInternalTxsByHash :: "bool \<Rightarrow> page_query \<Rightarrow> string \<Rightarrow> (world, itx_answer) act" where
  "GetEvmInternalTxsByHash slow q hash =
     bnd (lift_res (GetParams hash)) (\<lambda>hash.
     bnd (lift_res (ParsePagination q CursorTypeSequence)) (\<lambda>p.
     bnd (lift_res (HexToBytes hash)) (\<lambda>hashBytes.
     bnd (first_row (\<lambda>d. filter (\<lambda>r. snd r = hashBytes) (t_evm_tx_hash_dict d))) (\<lambda>hashDict.
     bnd (query (\<lambda>d. GetCountWithTimeout slow (int (length (filter (\<lambda>t. ei_HashId t = fst hashDict) (t_evm_internal_tx d)))) (p_CountTotal p))) (\<lambda>tot.
     bnd (query (\<lambda>d. ApplySequence ei_Sequence p (filter (\<lambda>t. ei_HashId t = fst hashDict) (t_evm_internal_tx d)))) (itx_answer_of p tot))))))"

interpretation evm_tx_pages: cursor_endpoint CursorTypeSequence "''sequence''" etx_Sequence GetCursorData_evm_tx
  t_evm_tx "\<lambda>p d. ApplySequence etx_Sequence p (t_evm_tx d)" "\<lambda>d. distinct (map etx_Sequence (t_evm_tx d))"
  by (rule sequence_endpoint) (simp_all add: GetCursorData_evm_tx_def)

interpretation internal_tx_pages: cursor_endpoint CursorTypeSequence "''sequence''" ei_Sequence GetCursorData_internal_tx
  t_evm_internal_tx "\<lambda>p d. ApplySequence ei_Sequence p (t_evm_internal_tx d)" "\<lambda>d. distinct (map ei_Sequence (t_evm_internal_tx d))"
  by (rule sequence_endpoint) (simp_all add: GetCursorData_internal_tx_def)

end
