(* ===== verification/Nft_Api.thy ===== *)
theory Nft_Api
  imports Evm_Api Evm_Nft
begin

text \<open>
  The lists of NFT collections, tokens and their transactions: \<open>src/api/handler/nft\<close>. The API process
  has two caches of collections, one by address with a time to live, one by name that only grows.
\<close>

section \<open>Answers: types.go and util.go\<close>

record Collection =
  col_Address :: string
  col_Creator :: string
  col_Name :: string
  col_OriginName :: string
  col_Length :: int
  col_Height :: int
  col_Timestamp :: int

record NftAnswer =
  na_CollectionAddr :: string
  na_CollectionName :: string
  na_CollectionOriginName :: string
  na_ObjectAddr :: string
  na_Owner :: string
  na_TokenId :: string
  na_Uri :: string
  na_Height :: int
  na_Timestamp :: int

text \<open>\<open>AccAddress.String\<close>: an empty address is the empty string.\<close>

definition acc_string :: "env \<Rightarrow> byte list \<Rightarrow> string" where
  "acc_string E b = (if b = [] then [] else to_bech32 E b)"

definition account_of :: "(int \<rightharpoonup> byte list) \<Rightarrow> int \<Rightarrow> byte list" where
  "account_of m i = (case m i of None \<Rightarrow> [] | Some b \<Rightarrow> b)"

definition ToCollectionResponse :: "env \<Rightarrow> CollectedNftCollection \<Rightarrow> byte list \<Rightarrow> Collection" where
  "ToCollectionResponse E col creatorAccount =
     \<lparr>col_Address = BytesToHexWithPrefixIfPresent (nc_Addr col), col_Creator = acc_string E creatorAccount, col_Name = nc_Name col,
      col_OriginName = nc_OriginName col, col_Length = nc_NftCount col, col_Height = nc_Height col, col_Timestamp = nc_Timestamp col\<rparr>"

definition ToCollectionsResponse :: "env \<Rightarrow> CollectedNftCollection list \<Rightarrow> (int \<rightharpoonup> byte list) \<Rightarrow> Collection list" where
  "ToCollectionsResponse E cols creatorAccounts = map (\<lambda>c. ToCollectionResponse E c (account_of creatorAccounts (nc_CreatorId c))) cols"

definition ToNftResponse :: "env \<Rightarrow> string \<Rightarrow> string \<Rightarrow> CollectedNft \<Rightarrow> byte list \<Rightarrow> NftAnswer" where
  "ToNftResponse E name originName nft ownerAccount =
     \<lparr>na_CollectionAddr = BytesToHexWithPrefixIfPresent (nft_CollectionAddr nft), na_CollectionName = name,
      na_CollectionOriginName = originName, na_ObjectAddr = BytesToHexWithPrefixIfPresent (nft_Addr nft),
      na_Owner = acc_string E ownerAccount, na_TokenId = nft_TokenId nft, na_Uri = nft_Uri nft, na_Height = nft_Height nft,
      na_Timestamp = nft_Timestamp nft\<rparr>"

definition getAccountIdMap :: "int list \<Rightarrow> (world, int \<rightharpoonup> byte list) act" where
  "getAccountIdMap accountIds = query (\<lambda>d. dict_map (set accountIds) (t_account_dict d))"

definition getCollectionCreatorIdMap :: "CollectedNftCollection list \<Rightarrow> (world, int \<rightharpoonup> byte list) act" where
  "getCollectionCreatorIdMap collections = getAccountIdMap (map nc_CreatorId collections)"

definition getNftOwnerIdMap :: "CollectedNft list \<Rightarrow> (world, int \<rightharpoonup> byte list) act" where
  "getNftOwnerIdMap nfts = getAccountIdMap (map nft_OwnerId nfts)"


section \<open>Caches: cache.go\<close>

text \<open>
  The cache by name holds each collection with its names in normal form. The normal form depends on
  the tables of Unicode, letters, marks and digits in lower case, and is the argument \<open>norm\<close>.
\<close>

record name_cache =
  collectionCacheByName :: "(CollectedNftCollection \<times> string \<times> string) list"
  lastUpdatedHeight :: int

definition cached_col :: "(string \<Rightarrow> string) \<Rightarrow> CollectedNftCollection \<Rightarrow> CollectedNftCollection \<times> string \<times> string" where
  "cached_col norm c = (c, norm (nc_Name c), norm (nc_OriginName c))"

text \<open>\<open>cols\<close> is the answer of the query for collections above the last height, in ascending order.\<close>

definition newer_collections :: "name_cache \<Rightarrow> db \<Rightarrow> CollectedNftCollection list" where
  "newer_collections C d = sort_key nc_Height (filter (\<lambda>r. nc_Height r > lastUpdatedHeight C) (t_nft_collection d))"

definition add_collections :: "(string \<Rightarrow> string) \<Rightarrow> CollectedNftCollection list \<Rightarrow> name_cache \<Rightarrow> name_cache" where
  "add_collections norm cols C =
     (if cols = [] then C
      else C\<lparr>collectionCacheByName := collectionCacheByName C @ map (cached_col norm) cols, lastUpdatedHeight := nc_Height (last cols)\<rparr>)"

definition updateCollectionCache :: "(string \<Rightarrow> string) \<Rightarrow> name_cache \<Rightarrow> (world, name_cache) act" where
  "updateCollectionCache norm C = (\<lambda>w. case query (newer_collections C) w of
     (Inl e, w') \<Rightarrow> (Inr C, w')
   | (Inr cols, w') \<Rightarrow> (Inr (add_collections norm cols C), w'))"

text \<open>\<open>due\<close>: the polling interval has passed and no other request is updating.\<close>

definition tryUpdateCollectionCache :: "(string \<Rightarrow> string) \<Rightarrow> bool \<Rightarrow> name_cache \<Rightarrow> (world, name_cache) act" where
  "tryUpdateCollectionCache norm due C = (if due then updateCollectionCache norm C else ret C)"

definition named_like :: "string \<Rightarrow> CollectedNftCollection \<times> string \<times> string \<Rightarrow> bool" where
  "named_like name c \<longleftrightarrow> contains (fst (snd c)) name \<or> contains (snd (snd c)) name"

definition name_page :: "Pagination \<Rightarrow> CollectedNftCollection list \<Rightarrow> CollectedNftCollection list" where
  "name_page p results =
     (if p_Offset p \<ge> int (length results) then []
      else let rest = drop (nat (p_Offset p)) results in
        if p_Limit p > 0 \<and> int (length rest) > p_Limit p then take (nat (p_Limit p)) rest else rest)"

definition getCollectionByNameFromCache :: "(string \<Rightarrow> string) \<Rightarrow> bool \<Rightarrow> name_cache \<Rightarrow> string \<Rightarrow> Pagination \<Rightarrow>
    (world, (CollectedNftCollection list \<times> int) \<times> name_cache) act" where
  "getCollectionByNameFromCache norm due C name p =
     bnd (tryUpdateCollectionCache norm due C) (\<lambda>C'.
     let found = map fst (filter (named_like (norm name)) (collectionCacheByName C'));
         results = (if p_Order p = OrderDesc then rev found else found)
     in ret ((name_page p results, int (length results)), C'))"

text \<open>The cache by address: \<open>drops\<close> is what the time to live and the size leave of it.\<close>

type_synonym addr_cache = "string \<rightharpoonup> CollectedNftCollection"

definition getCollectionByAddr :: "(addr_cache \<Rightarrow> addr_cache) \<Rightarrow> addr_cache \<Rightarrow> string \<Rightarrow> (world, CollectedNftCollection \<times> addr_cache) act" where
  "getCollectionByAddr drops A collectionAddr =
     (case drops A collectionAddr of
        Some c \<Rightarrow> ret (c, drops A)
      | None \<Rightarrow>
          bnd (lift_res (HexToBytes collectionAddr)) (\<lambda>b.
          bnd (first_row (\<lambda>d. filter (\<lambda>r. nc_Addr r = b) (t_nft_collection d))) (\<lambda>c.
          ret (c, (drops A)(collectionAddr \<mapsto> c)))))"

definition ToNftsResponse :: "env \<Rightarrow> (addr_cache \<Rightarrow> addr_cache) \<Rightarrow> CollectedNft list \<Rightarrow> (int \<rightharpoonup> byte list) \<Rightarrow> addr_cache \<Rightarrow>
    (world, NftAnswer list \<times> addr_cache) act" where
  "ToNftsResponse E drops nfts ownerAccounts A =
     foreach (\<lambda>nft (res, A). bnd (getCollectionByAddr drops A (BytesToHexWithPrefixIfPresent (nft_CollectionAddr nft))) (\<lambda>(c, A').
        ret (res @ [ToNftResponse E (nc_Name c) (nc_OriginName c) nft (account_of ownerAccounts (nft_OwnerId nft))], A')))
      nfts ([], A)"


section \<open>Collections: collection.go\<close>

type_synonym cols_answer = "Collection list \<times> PaginationResponse"

definition cols_answer_of :: "env \<Rightarrow> Pagination \<Rightarrow> int \<Rightarrow> CollectedNftCollection list \<Rightarrow> (world, cols_answer) act" where
  "cols_answer_of E p tot cols =
     bnd (getCollectionCreatorIdMap cols) (\<lambda>creators.
     ret (ToCollectionsResponse E cols creators, snd (answer GetCursorData_collection p tot cols)))"

definition GetCollections :: "env \<Rightarrow> int \<Rightarrow> bool \<Rightarrow> page_query \<Rightarrow> (world, cols_answer) act" where
  "GetCollections E estimate slow q =
     bnd (lift_res (ParsePagination q CursorTypeOffset)) (\<lambda>p.
     bnd (query (\<lambda>d. getCountByPgClass estimate slow (p_CountTotal p) (t_nft_collection d))) (\<lambda>tot.
     bnd (query (\<lambda>d. ApplyToNftCollection p (t_nft_collection d))) (cols_answer_of E p tot)))"

text \<open>The collections of which the account owns a token.\<close>

definition owned_collections :: "int \<Rightarrow> db \<Rightarrow> CollectedNftCollection list" where
  "owned_collections ownerId d =
     dedup (filter (\<lambda>c. \<exists>n \<in> set (t_nft d). nft_CollectionAddr n = nc_Addr c \<and> nft_OwnerId n = ownerId) (t_nft_collection d))"

text \<open>
  \<open>CursorValue["height"].(float64)\<close> panics when the height of the key is no number; \<open>int64\<close> cuts the
  fraction off.
\<close>

definition height_assertion :: "Pagination \<Rightarrow> err + int" where
  "height_assertion p = (case p_CursorValue p ''height'' of
     Some (JNum s) \<Rightarrow> Inr (float_trunc s)
   | _ \<Rightarrow> Inl (Panic ''interface conversion''))"

definition account_collections :: "Pagination \<Rightarrow> err + (CollectedNftCollection list \<Rightarrow> CollectedNftCollection list)" where
  "account_collections p = (case p_CursorType p of
     CursorTypeHeight \<Rightarrow>
       rbind (height_assertion p) (\<lambda>h. Inr (\<lambda>t. limited p (ordered p nc_Height (filter (\<lambda>r. beyond p h (nc_Height r)) t))))
   | _ \<Rightarrow> Inr (\<lambda>t. offset_page p (ordered p nc_Height t)))"

definition GetCollectionsByAccount :: "env \<Rightarrow> page_query \<Rightarrow> string \<Rightarrow> (world, cols_answer) act" where
  "GetCollectionsByAccount E q account =
     bnd (lift_res (GetAccountParam E account)) (\<lambda>acc.
     bnd (lift_res (ParsePagination q CursorTypeOffset)) (\<lambda>p.
     bnd (GetAccountIds E [acc]) (\<lambda>accountIds.
     case accountIds of
       [] \<Rightarrow> ret ([], ToResponse p 0 False)
     | accountId # _ \<Rightarrow>
         bnd (if p_CountTotal p then query (\<lambda>d. int (length (dedup (map nc_Addr (owned_collections accountId d))))) else ret 0) (\<lambda>tot.
         bnd (lift_res (account_collections p)) (\<lambda>page.
         bnd (query (\<lambda>d. page (owned_collections accountId d))) (cols_answer_of E p tot))))))"

definition GetCollectionsByName :: "env \<Rightarrow> (string \<Rightarrow> string) \<Rightarrow> bool \<Rightarrow> name_cache \<Rightarrow> page_query \<Rightarrow> string \<Rightarrow>
    (world, cols_answer \<times> name_cache) act" where
  "GetCollectionsByName E norm due C q name =
     bnd (lift_res (GetParams name)) (\<lambda>name.
     bnd (lift_res (ParsePagination q CursorTypeOffset)) (\<lambda>p.
     bnd (getCollectionByNameFromCache norm due C name p) (\<lambda>((cols, tot), C').
     bnd (cols_answer_of E p tot cols) (\<lambda>a. ret (a, C')))))"

definition GetCollectionByCollectionAddr :: "env \<Rightarrow> string \<Rightarrow> (world, Collection) act" where
  "GetCollectionByCollectionAddr E collectionAddr =
     bnd (lift_res (GetParams collectionAddr)) (\<lambda>value.
     bnd (lift_res (AccAddressFromString (from_bech32 E) value)) (\<lambda>b.
     bnd (first_row (\<lambda>d. filter (\<lambda>r. nc_Addr r = b) (t_nft_collection d))) (\<lambda>c.
     bnd (first_row (\<lambda>d. filter (\<lambda>r. fst r = nc_CreatorId c) (t_account_dict d))) (\<lambda>creator.
     ret (ToCollectionResponse E c (snd creator))))))"


section \<open>Tokens: token.go\<close>

text \<open>
  \<open>TrimSpace\<close> cuts white space at both ends. Of the letters beyond ASCII \<open>ToLower\<close> makes two into ASCII ones, the
  dotted capital I and the Kelvin sign.
\<close>

fun trim_right_space :: "nat \<Rightarrow> string \<Rightarrow> string" where
  "trim_right_space 0 s = s"
| "trim_right_space (Suc n) s = (if s = [] then [] else
     let (r, k) = DecodeRune s; rest = trim_right_space n (drop k s)
     in if rest = [] \<and> space_rune r then [] else take k s @ rest)"

definition TrimSpace :: "string \<Rightarrow> string" where
  "TrimSpace s = (let t = trim_left_space (length s) s in trim_right_space (length t) t)"

definition lower_text :: "string \<Rightarrow> string" where
  "lower_text s = to_lower (replace_all (map char_of [0xC4, 0xB0 :: nat]) ''i'' (replace_all (map char_of [0xE2, 0x84, 0xAA :: nat]) ''k'' s))"

definition normalizeOrderBy :: "string \<Rightarrow> err + string" where
  "normalizeOrderBy orderBy = (let v = lower_text (TrimSpace orderBy) in
     if v = [] then Inr ''token_id'' else if v = ''token_id'' \<or> v = ''height'' then Inr v
     else Inl (Err ''invalid order_by value''))"

type_synonym nfts_answer = "NftAnswer list \<times> PaginationResponse"

definition getTokensWithFilters :: "env \<Rightarrow> (string \<Rightarrow> 'c::linorder) \<Rightarrow> (addr_cache \<Rightarrow> addr_cache) \<Rightarrow> bool \<Rightarrow> (CollectedNft \<Rightarrow> bool) \<Rightarrow>
    Pagination \<Rightarrow> string \<Rightarrow> addr_cache \<Rightarrow> (world, nfts_answer \<times> addr_cache) act" where
  "getTokensWithFilters E coll drops slow base p orderBy A =
     bnd (query (\<lambda>d. GetCountWithTimeout slow (int (length (filter base (t_nft d)))) (p_CountTotal p))) (\<lambda>tot.
     bnd (query (\<lambda>d. ApplyToNft coll p orderBy (filter base (t_nft d)))) (\<lambda>nfts.
     bnd (getNftOwnerIdMap nfts) (\<lambda>owners.
     bnd (ToNftsResponse E drops nfts owners A) (\<lambda>(res, A').
     ret ((res, snd (answer GetCursorData_nft p tot nfts)), A')))))"

definition GetTokensByAccount :: "env \<Rightarrow> (string \<Rightarrow> 'c::linorder) \<Rightarrow> (addr_cache \<Rightarrow> addr_cache) \<Rightarrow> bool \<Rightarrow> addr_cache \<Rightarrow> page_query \<Rightarrow>
    string \<Rightarrow> string \<Rightarrow> string \<Rightarrow> string \<Rightarrow> (world, nfts_answer \<times> addr_cache) act" where
  "GetTokensByAccount E coll drops slow A q account collectionAddr tokenId order =
     bnd (lift_res (GetAccountParam E account)) (\<lambda>acc.
     bnd (lift_res (if collectionAddr = [] then Inr None
       else rbind (AccAddressFromString (from_bech32 E) collectionAddr) (\<lambda>b. Inr (Some b)))) (\<lambda>col.
     bnd (lift_res (ParsePagination q CursorTypeOffset)) (\<lambda>p.
     bnd (lift_res (normalizeOrderBy order)) (\<lambda>orderBy.
     bnd (GetAccountIds E [acc]) (\<lambda>accountIds.
     case accountIds of
       [] \<Rightarrow> ret (([], ToResponse p 0 False), A)
     | accountId # _ \<Rightarrow> getTokensWithFilters E coll drops slow (\<lambda>r. nft_OwnerId r = accountId \<and>
           (case col of None \<Rightarrow> True | Some b \<Rightarrow> nft_CollectionAddr r = b) \<and> (tokenId \<noteq> [] \<longrightarrow> nft_TokenId r = tokenId)) p orderBy A)))))"

definition GetTokensByCollectionAddr :: "env \<Rightarrow> (string \<Rightarrow> 'c::linorder) \<Rightarrow> (addr_cache \<Rightarrow> addr_cache) \<Rightarrow> bool \<Rightarrow> addr_cache \<Rightarrow> page_query \<Rightarrow>
    string \<Rightarrow> string \<Rightarrow> string \<Rightarrow> (world, nfts_answer \<times> addr_cache) act" where
  "GetTokensByCollectionAddr E coll drops slow A q collectionAddr tokenId order =
     bnd (lift_res (GetParams collectionAddr)) (\<lambda>value.
     bnd (lift_res (AccAddressFromString (from_bech32 E) value)) (\<lambda>b.
     bnd (lift_res (ParsePagination q CursorTypeOffset)) (\<lambda>p.
     bnd (lift_res (normalizeOrderBy order)) (\<lambda>orderBy.
     getTokensWithFilters E coll drops slow (\<lambda>r. nft_CollectionAddr r = b \<and> (tokenId \<noteq> [] \<longrightarrow> nft_TokenId r = tokenId)) p orderBy A))))"


section \<open>Transactions of a token: tx.go\<close>

text \<open>
  The sequences of the transactions that touched a token: on a Move chain those of the account of the
  token's object, otherwise those of its edges; \<open>None\<close> when the dictionary does not know it.
\<close>

definition nft_sequences :: "env \<Rightarrow> config \<Rightarrow> CollectedNft \<Rightarrow> (world, (db \<Rightarrow> int list) option) act" where
  "nft_sequences E cfg nft = (case cfg_VmType cfg of
     MoveVM \<Rightarrow> bnd (GetAccountIds E [acc_string E (nft_Addr nft)]) (\<lambda>accountIds. case accountIds of
         [] \<Rightarrow> ret None
       | i # _ \<Rightarrow> ret (Some (\<lambda>d. map ta_Sequence (filter (\<lambda>a. ta_AccountId a = i) (t_tx_accounts d)))))
   | _ \<Rightarrow>
       (let key = (BytesToHexWithPrefixIfPresent (nft_CollectionAddr nft), nft_TokenId nft) in
        bnd (GetOrCreateNftIds E [key] False) (\<lambda>idMap. case idMap key of
          None \<Rightarrow> ret None
        | Some i \<Rightarrow> ret (Some (\<lambda>d. map tn_Sequence (filter (\<lambda>e. tn_NftId e = i) (t_tx_nfts d)))))))"

definition GetNftTxs :: "env \<Rightarrow> config \<Rightarrow> bool \<Rightarrow> page_query \<Rightarrow> string \<Rightarrow> string \<Rightarrow> (world, CollectedTx list \<times> PaginationResponse) act" where
  "GetNftTxs E cfg slow q collectionAddr tokenId =
     bnd (lift_res (GetParams collectionAddr)) (\<lambda>value.
     bnd (lift_res (AccAddressFromString (from_bech32 E) value)) (\<lambda>b.
     bnd (lift_res (GetParams tokenId)) (\<lambda>tokenId.
     bnd (lift_res (ParsePagination q CursorTypeSequence)) (\<lambda>p.
     bnd (query (\<lambda>d. filter (\<lambda>r. nft_CollectionAddr r = b \<and> nft_TokenId r = tokenId) (t_nft d))) (\<lambda>found.
     case found of
       [] \<Rightarrow> ret ([], ToResponse p 0 False)
     | nft # _ \<Rightarrow> bnd (nft_sequences E cfg nft) (\<lambda>seqs. case seqs of
           None \<Rightarrow> ret ([], ToResponse p 0 False)
         | Some s \<Rightarrow>
             bnd (query (\<lambda>d. GetCountWithTimeout slow (int (length (filter (\<lambda>t. tx_Sequence t \<in> set (s d)) (t_tx d)))) (p_CountTotal p))) (\<lambda>tot.
             bnd (query (\<lambda>d. ApplySequence tx_Sequence p (filter (\<lambda>t. tx_Sequence t \<in> set (s d)) (t_tx d)))) (\<lambda>txs.
             ret (answer GetCursorData_tx p tot txs)))))))))"

text \<open>A query that nothing disturbs.\<close>

lemma run_query [simp]: "w_faults w = [] \<Longrightarrow> query f w = (Inr (f (w_db w)), w)"
  by (simp add: query_def stmt_def gets_def)

end
