(* ===== verification/Api_Properties.thy ===== *)
theory Api_Properties
  imports Nft_Api Demo_Nft
begin

text \<open>
  Properties of the lists the API serves: a client that follows the keys of the pages sees every
  row once, what a key means, the bounds of a request, and where an answer is not what was asked.
\<close>


definition demo_row :: "int \<Rightarrow> CollectedBlock" where
  "demo_row h = \<lparr>blk_ChainId = ''c'', blk_Height = h, blk_Hash = [], blk_Timestamp = h, blk_BlockTime = 1, blk_Proposer = [],
     blk_GasUsed = 0, blk_GasWanted = 0, blk_TxCount = 0, blk_TotalFee = []\<rparr>"


definition demo_query :: page_query where
  "demo_query = \<lparr>q_limit = 2, q_key = [], q_offset = 0, q_count_total = True, q_reverse = True\<rparr>"


text \<open>C21.
  Transactions: a client that follows \<open>GetTxs\<close> down from the newest transaction gets every transaction with a message
  type exactly once, newest first, when new transactions get higher sequences than all before them.
\<close>

theorem tx_pages_complete:
  assumes "good_query q" "q_key q = []" "q_offset q = 0" "q_reverse q"
    and "\<And>i. w_faults (W i) = [] \<and> sequences_ok (buildSequenceQueryWithMsgTypeFilter []) (w_db (W i))"
    and "listed = (\<lambda>i. filter (\<lambda>t. tx_Sequence t \<in> tm_Sequence ` set (t_tx_msg_types (w_db (W i)))) (t_tx (w_db (W i))))"
    and "\<And>i. \<exists>new. mset (listed i) = mset (listed 0 @ new) \<and> (\<forall>r \<in> set new. \<forall>s \<in> set (listed 0). tx_Sequence s < tx_Sequence r)"
    and "\<And>r. r \<in> set (listed 0) \<Longrightarrow> \<bar>tx_Sequence r\<bar> \<le> 2 ^ 53" "length (listed 0) + 1 < n"
  shows "\<exists>pages. follow n (\<lambda>i q. fst (GetTxs E slow q [] (W i))) 0 q = Inr pages \<and> concat pages = rev (sort_key tx_Sequence (listed 0))"
proof -
  define S where "S = buildSequenceQueryWithMsgTypeFilter []"
  define D where "D = (\<lambda>i. w_db (W i))"
  have rows: "filter (\<lambda>t. tx_Sequence t \<in> set (S (D i))) (t_tx (D i)) = listed i" for i
    by (simp add: S_def buildSequenceQueryWithMsgTypeFilter_def assms(6) D_def)
  define tot where "tot = (\<lambda>i p. snd (buildEdgeQueryForGetTxs slow [] p (D i)))"
  define serve where "serve = (\<lambda>i p. answer GetCursorData_tx p (tot i p) (txs_page p (S (D i)) (D i)))"
  have req: "fst (GetTxs E slow q [] (W i)) = rbind (ParsePagination q CursorTypeSequence) (\<lambda>p. Inr (serve i p))" for i q
    using assms(5) [of i] by (cases "ParsePagination q CursorTypeSequence")
      (simp_all add: GetTxs_def bnd_def lift_res_def msg_filter_def serve_def tot_def D_def S_def buildEdgeQueryForGetTxs_def Let_def)
  have before: "before (query_page q CursorTypeSequence Map.empty) tx_Sequence r s" if "tx_Sequence s < tx_Sequence r" for r s
    using that assms(4) by (simp add: before_def beyond_def query_page_def getOrder_def)
  have "tx_pages.grows_in_front S q D"
    unfolding tx_pages.grows_in_front_def rows
  proof (intro allI conjI)
    fix i
    show "sequences_ok S (D i)" using assms(5) by (simp add: S_def D_def)
    obtain new where "mset (listed i) = mset (listed 0 @ new)" "\<forall>r \<in> set new. \<forall>s \<in> set (listed 0). tx_Sequence s < tx_Sequence r"
      using assms(7) by blast
    then show "\<exists>new. mset (listed i) = mset (listed 0 @ new) \<and>
        (\<forall>r \<in> set new. \<forall>s \<in> set (listed 0). before (query_page q CursorTypeSequence Map.empty) tx_Sequence r s)"
      using before by blast
  qed
  from tx_pages.walk_all [OF this _ assms(1-3), of n tot, unfolded rows] assms(8,9)
  obtain pages where "walk n serve CursorTypeSequence 0 q = Inr pages"
    "concat pages = ordered (query_page q CursorTypeSequence Map.empty) tx_Sequence (listed 0)" unfolding serve_def by blast
  then show ?thesis
    using follow_walk [of "\<lambda>i q. fst (GetTxs E slow q [] (W i))" CursorTypeSequence serve n 0 q, OF req] assms(4)
    by (simp add: ordered_def query_page_def getOrder_def)
qed

definition demo_tx :: "int \<Rightarrow> CollectedTx" where
  "demo_tx s = \<lparr>tx_Hash = [], tx_Height = 1, tx_Sequence = s, tx_SignerId = 1, tx_Data = []\<rparr>"

definition demo_txs :: "nat \<Rightarrow> world" where
  "demo_txs i = (let ss = [1, 2, 3] @ (if i = 0 then [] else [4]) in
     world_of (empty_db\<lparr>t_tx := map demo_tx ss, t_tx_msg_types := map (\<lambda>s. \<lparr>tm_MsgTypeId = 1, tm_Sequence = s\<rparr>) ss\<rparr>))"

theorem tx_pages_complete_witness:
  "\<exists>pages. follow 5 (\<lambda>i q. fst (GetTxs demo_env False q [] (demo_txs i))) 0 demo_query = Inr pages \<and>
     concat pages = map demo_tx [3, 2, 1]"
proof -
  define listed where "listed = (\<lambda>i. filter (\<lambda>t. tx_Sequence t \<in> tm_Sequence ` set (t_tx_msg_types (w_db (demo_txs i)))) (t_tx (w_db (demo_txs i))))"
  have l: "listed i = map demo_tx ([1, 2, 3] @ (if i = 0 then [] else [4]))" for i
    by (simp add: listed_def demo_txs_def world_of_def demo_tx_def)
  have "\<exists>pages. follow 5 (\<lambda>i q. fst (GetTxs demo_env False q [] (demo_txs i))) 0 demo_query = Inr pages \<and>
     concat pages = rev (sort_key tx_Sequence (listed 0))"
  proof (rule tx_pages_complete [OF _ _ _ _ _ listed_def])
    fix i
    show "w_faults (demo_txs i) = [] \<and> sequences_ok (buildSequenceQueryWithMsgTypeFilter []) (w_db (demo_txs i))"
      by (auto simp: demo_txs_def world_of_def sequences_ok_def buildSequenceQueryWithMsgTypeFilter_def demo_tx_def Let_def empty_db_def)
    show "\<exists>new. mset (listed i) = mset (listed 0 @ new) \<and> (\<forall>r \<in> set new. \<forall>s \<in> set (listed 0). tx_Sequence s < tx_Sequence r)"
      by (rule exI [of _ "map demo_tx (if i = 0 then [] else [4])"]) (simp add: l demo_tx_def)
  qed (auto simp: l good_query_def demo_query_def MaxLimit_def demo_tx_def)
  then show ?thesis by (simp add: l demo_tx_def)
qed

text \<open>C36.
  A request that parses is well formed: its limit is between 1 and 1000, its offset is not negative, its order one of the
  two, and without a key its cursor is the default of the endpoint and empty. No page of blocks, collections, tokens
  or transactions is longer than the limit.
\<close>

theorem pagination_well_formed:
  assumes "ParsePagination q ty = Inr p"
  shows "1 \<le> p_Limit p \<and> p_Limit p \<le> MaxLimit \<and> 0 \<le> p_Offset p \<and> p_Order p \<in> {OrderAsc, OrderDesc} \<and>
    (q_key q = [] \<longrightarrow> p_CursorType p = ty \<and> p_CursorValue p = Map.empty) \<and>
    (\<forall>blocks collections tokens seqs orderBy (coll :: string \<Rightarrow> nat). int (length (ApplyToBlock p blocks)) \<le> p_Limit p \<and>
      int (length (ApplyToNftCollection p collections)) \<le> p_Limit p \<and>
      int (length (ApplyToNft coll p orderBy tokens)) \<le> p_Limit p \<and>
      int (length (ApplySequence id p seqs)) \<le> p_Limit p)"
proof -
  have p: "1 \<le> p_Limit p \<and> p_Limit p \<le> MaxLimit \<and> 0 \<le> p_Offset p \<and> p_Order p \<in> {OrderAsc, OrderDesc} \<and>
    (q_key q = [] \<longrightarrow> p_CursorType p = ty \<and> p_CursorValue p = Map.empty)"
    using assms
    by (auto simp: ParsePagination_def getOrder_def parsePaginationKey_def parseJSONCursor_def parseIntegerCursor_def Let_def
        split: if_splits sum.splits)
  then have l: "int (length (limited p t)) \<le> p_Limit p" for t :: "'r list" by (simp add: limited_def min_def) linarith
  have o: "int (length (offset_page p t)) \<le> p_Limit p" for t :: "'r list" unfolding offset_page_def by (rule l)
  have "int (length (ApplyToBlock p t)) \<le> p_Limit p" for t
    unfolding ApplyToBlock_def by (simp add: l o split: CursorType.split sum.split)
  moreover have "int (length (ApplyToNftCollection p t)) \<le> p_Limit p" for t
    unfolding ApplyToNftCollection_def by (simp add: l o split: CursorType.split sum.split)
  moreover have "int (length (ApplyToNft coll p orderBy t)) \<le> p_Limit p" for coll :: "string \<Rightarrow> nat" and orderBy t
    unfolding ApplyToNft_def getNftFallbackOrder_def by (simp add: l o split: CursorType.split sum.split)
  moreover have "int (length (ApplySequence id p t)) \<le> p_Limit p" for t
    unfolding ApplySequence_def by (simp add: l o split: CursorType.split sum.split)
  ultimately show ?thesis using p by blast
qed

theorem pagination_well_formed_witness: "\<exists>p. ParsePagination demo_query CursorTypeHeight = Inr p \<and> p_Limit p = 2 \<and> 0 \<le> p_Offset p"
proof -
  have "ParsePagination demo_query CursorTypeHeight = Inr (query_page demo_query CursorTypeHeight Map.empty)"
    by (rule parse_no_key) (simp_all add: good_query_def demo_query_def MaxLimit_def)
  with pagination_well_formed [OF this] show ?thesis by (simp add: query_page_def demo_query_def)
qed

text \<open>C35.
  The key of a page reads back as the place where the page ended: with the key of an answer to a request for blocks, any
  request has a cursor at the height of the last block of the page, and keeps its own limit and order.
\<close>

theorem next_key_reads_back:
  assumes "good_query q" "p_CursorType p = CursorTypeHeight" "1 \<le> p_Limit p" "rows \<noteq> []" "\<bar>blk_Height (last rows)\<bar> \<le> 2 ^ 53"
  shows "\<exists>k p'. next_key (snd (answer GetCursorData_block p tot rows)) = Some k \<and> ParsePagination (q\<lparr>q_key := k\<rparr>) ty = Inr p' \<and>
    p_CursorType p' = CursorTypeHeight \<and> safeGetInt64 p' ''height'' = Inr (blk_Height (last rows)) \<and>
    p_Limit p' = q_limit q \<and> p_Order p' = getOrder q"
proof -
  define k where "k = encode_key (print_json (JObj [(''height'', JNum (Itoa (blk_Height (last rows))))]))"
  have "next_key (snd (answer GetCursorData_block p tot rows)) = Some k"
    using block_pages.answer_next [OF assms(2,3), of tot rows] assms(4) by (simp add: k_def)
  moreover have "ParsePagination (q\<lparr>q_key := k\<rparr>) ty = Inr (query_page (q\<lparr>q_key := k\<rparr>) CursorTypeHeight [''height'' \<mapsto> JNum (Itoa (blk_Height (last rows)))])"
    using parse_cursor_key [OF _ block_pages.field_ascii assms(5), of "q\<lparr>q_key := k\<rparr>" ty] assms(1)
    by (simp add: k_def good_query_def detectCursorType_def)
  ultimately show ?thesis
    using float_int64_Itoa(1) [OF assms(5)] by (simp add: query_page_def safeGetInt64_def getOrder_def)
qed

theorem next_key_reads_back_witness:
  "\<exists>k p'. next_key (snd (answer GetCursorData_block (query_page demo_query CursorTypeHeight Map.empty) 3 [demo_row 3, demo_row 2])) = Some k \<and>
    ParsePagination (demo_query\<lparr>q_key := k\<rparr>) CursorTypeHeight = Inr p' \<and> safeGetInt64 p' ''height'' = Inr 2"
  using next_key_reads_back [of demo_query "query_page demo_query CursorTypeHeight Map.empty" "[demo_row 3, demo_row 2]" 3 CursorTypeHeight]
  by (auto simp: good_query_def demo_query_def MaxLimit_def query_page_def demo_row_def)

lemma unknown_types:
  assumes "dict_inv (msg_type_dict E) w" "w_faults w = []" "\<forall>m \<in> set msgs. m \<notin> snd ` set (t_msg_type_dict (w_db w))"
  shows "\<exists>w'. GetMsgTypeIds E msgs w = (Inr [], w') \<and> w_db w' = w_db w \<and> w_faults w' = []"
proof -
  let ?D = "msg_type_dict E"
  have cached: "map_of (msgTypeCache w) m = None" if "m \<in> set msgs" for m
  proof (rule ccontr)
    assume "map_of (msgTypeCache w) m \<noteq> None"
    then obtain i where "(m, i) \<in> set (msgTypeCache w)" by (auto dest: map_of_SomeD)
    then have "\<exists>v. (i, v) \<in> set (t_msg_type_dict (w_db w)) \<and> v = m" using assms(1) by (auto simp: dict_inv_def msg_type_dict_def)
    then show False using assms(3) that by force
  qed
  have check: "foreach (\<lambda>q (idMap, uncached). case d_ckey ?D q of Inl e \<Rightarrow> ret (idMap, uncached @ [q])
        | Inr k \<Rightarrow> bnd (cache_Get ?D k) (\<lambda>r. case r of Some i \<Rightarrow> ret (idMap(d_key ?D q \<mapsto> i), uncached) | None \<Rightarrow> ret (idMap, uncached @ [q])))
      ms (Map.empty, us) w = (Inr (Map.empty, us @ ms), w)" if "set ms \<subseteq> set msgs" for ms us
    using that
  proof (induction ms arbitrary: us)
    case (Cons m ms)
    have "cache_Get ?D m w = (Inr None, w)"
      using cached [of m] Cons.prems by (simp add: cache_Get_def lru_Get_def msg_type_dict_def lru_touch_def)
    then show ?case using Cons.IH [of "us @ [m]"] Cons.prems by (simp add: msg_type_dict_def bnd_def)
  qed (simp add: ret_def)
  have fetch: "fetch_rows ?D msgs w = (Inr Map.empty, w)"
  proof -
    have "map_res Inr ms = Inr ms" for ms :: "string list" by (induction ms) simp_all
    moreover have "filter (\<lambda>r. snd r \<in> set msgs) (t_msg_type_dict (w_db w)) = []" using assms(3) by (force simp: filter_empty_conv)
    ultimately show ?thesis using assms(2) by (simp add: fetch_rows_def msg_type_dict_def bnd_def lift_res_def stmt_def gets_def)
  qed
  have upd: "update_cache ?D ms Map.empty m w = (Inr m, w)" for ms m
    unfolding update_cache_def by (induction ms) (simp_all add: msg_type_dict_def bnd_def)
  have "GetOrCreateMsgTypeIds E msgs False w = (Inr Map.empty, w)"
    using check [of msgs "[]"] fetch upd by (simp add: GetOrCreateMsgTypeIds_def get_or_create_def check_cache_def bnd_def)
  then show ?thesis using assms(2) by (simp add: GetMsgTypeIds_def bnd_def found_ids_def concat_eq_Nil_conv)
qed

text \<open>C26.
  A filter on message types of which the database knows none is no filter: \<open>GetTxs\<close> answers with all transactions, as if
  nothing had been asked, since an empty list of ids means that there is no filter.
\<close>

theorem unknown_message_filter:
  assumes "dict_inv (msg_type_dict E) w" "w_faults w = []" "\<forall>m \<in> set msgs. m \<notin> snd ` set (t_msg_type_dict (w_db w))"
  shows "fst (GetTxs E slow q msgs w) = fst (GetTxs E slow q [] w)"
proof -
  obtain w' where w': "GetMsgTypeIds E msgs w = (Inr [], w')" "w_db w' = w_db w" "w_faults w' = []" using unknown_types [OF assms] by blast
  then have "\<exists>w'. msg_filter E msgs w = (Inr [], w') \<and> w_db w' = w_db w \<and> w_faults w' = []"
    using assms(2) by (simp add: msg_filter_def)
  then obtain w'' where w'': "msg_filter E msgs w = (Inr [], w'')" "w_db w'' = w_db w" "w_faults w'' = []" by blast
  show ?thesis
    using w'' assms(2) by (cases "ParsePagination q CursorTypeSequence") (simp_all add: GetTxs_def bnd_def lift_res_def msg_filter_def case_prod_beta)
qed

theorem unknown_message_filter_witness:
  "fst (GetTxs demo_env False demo_query [''no such type''] (demo_txs 0)) = fst (GetTxs demo_env False demo_query [] (demo_txs 0))"
  by (rule unknown_message_filter)
    (simp_all add: demo_txs_def world_of_def dict_inv_def msg_type_dict_def empty_db_def Let_def)

lemma add_collections_height: "lastUpdatedHeight C \<le> lastUpdatedHeight (add_collections norm (newer_collections C d) C)"
proof (cases "newer_collections C d = []")
  case False
  then have "last (newer_collections C d) \<in> set (newer_collections C d)" by simp
  then have "lastUpdatedHeight C < nc_Height (last (newer_collections C d))" by (auto simp: newer_collections_def simp del: last_in_set)
  then show ?thesis using False by (simp add: add_collections_def)
qed (simp add: add_collections_def)

lemma set_name_page: "set (name_page p rs) \<subseteq> set rs"
  by (auto simp: name_page_def Let_def dest: in_set_takeD in_set_dropD)

text \<open>C30.
  The cache behind the search by name never catches up with a collection it has passed over: a collection that is stored with
  a height not above the last one cached, as the EVM submodule does with the height a contract was created at, is in the answer of
  no later search, whatever updates follow.
\<close>

theorem passed_collection_never_found:
  assumes "nc_Height r \<le> lastUpdatedHeight C" "r \<notin> fst ` set (collectionCacheByName C)"
    and "C' = fold (\<lambda>d C. add_collections norm (newer_collections C d) C) ds C"
    and "getCollectionByNameFromCache norm due C' name p w = (Inr ((found, tot), C''), w')"
  shows "r \<notin> set found"
proof -
  have step: "nc_Height r \<le> lastUpdatedHeight (add_collections norm (newer_collections C d) C) \<and>
      r \<notin> fst ` set (collectionCacheByName (add_collections norm (newer_collections C d) C))"
    if "nc_Height r \<le> lastUpdatedHeight C" "r \<notin> fst ` set (collectionCacheByName C)" for C d
    using that add_collections_height [of C norm d]
    by (auto simp: add_collections_def newer_collections_def cached_col_def image_iff)
  have "nc_Height r \<le> lastUpdatedHeight C' \<and> r \<notin> fst ` set (collectionCacheByName C')"
    unfolding assms(3) using assms(1,2) by (induction ds arbitrary: C) (use step in auto)
  note C' = this
  obtain C1 w1 where u: "tryUpdateCollectionCache norm due C' w = (Inr C1, w1)"
    and f: "found = name_page p ((if p_Order p = OrderDesc then rev else id) (map fst (filter (named_like (norm name)) (collectionCacheByName C1))))"
    using assms(4) by (auto simp: getCollectionByNameFromCache_def bnd_eq_Inr Let_def)
  have sub: "set found \<subseteq> fst ` set (collectionCacheByName C1)"
    using set_name_page unfolding f by (rule order_trans) auto
  have "C1 = C' \<or> (\<exists>d. C1 = add_collections norm (newer_collections C' d) C')"
    using u by (auto simp: tryUpdateCollectionCache_def updateCollectionCache_def query_def stmt_def gets_def split: if_splits prod.splits sum.splits list.splits option.splits)
  then have "r \<notin> fst ` set (collectionCacheByName C1)"
  proof
    assume "\<exists>d. C1 = add_collections norm (newer_collections C' d) C'"
    then obtain d where "C1 = add_collections norm (newer_collections C' d) C'" by blast
    with step [of C' d] C' show ?thesis by (elim conjE) (simp only: not_False_eq_True simp_thms)
  qed (use C' in simp)
  with sub show ?thesis by blast
qed

definition demo_passed :: CollectedNftCollection where
  "demo_passed = \<lparr>nc_Addr = [1], nc_Height = 3, nc_Timestamp = 0, nc_Name = ''n'', nc_OriginName = [], nc_CreatorId = 1, nc_NftCount = 1\<rparr>"

theorem passed_collection_never_found_witness:
  "demo_passed \<in> set (t_nft_collection (empty_db\<lparr>t_nft_collection := [demo_passed]\<rparr>)) \<and>
   (\<exists>found tot C w. getCollectionByNameFromCache (\<lambda>s. s) True \<lparr>collectionCacheByName = [], lastUpdatedHeight = 5\<rparr> ''n''
      (query_page demo_query CursorTypeOffset Map.empty) (world_of (empty_db\<lparr>t_nft_collection := [demo_passed]\<rparr>)) = (Inr ((found, tot), C), w) \<and>
      demo_passed \<notin> set found)"
proof -
  let ?C = "\<lparr>collectionCacheByName = [], lastUpdatedHeight = 5\<rparr> :: name_cache"
  let ?w = "world_of (empty_db\<lparr>t_nft_collection := [demo_passed]\<rparr>)"
  have "\<exists>x w. getCollectionByNameFromCache (\<lambda>s. s) True ?C ''n'' (query_page demo_query CursorTypeOffset Map.empty) ?w = (Inr x, w)"
    by (simp add: getCollectionByNameFromCache_def tryUpdateCollectionCache_def updateCollectionCache_def world_of_def newer_collections_def
        demo_passed_def bnd_def Let_def)
  then obtain found tot C w where r: "getCollectionByNameFromCache (\<lambda>s. s) True ?C ''n'' (query_page demo_query CursorTypeOffset Map.empty) ?w =
      (Inr ((found, tot), C), w)" by auto
  have "demo_passed \<notin> set found"
    by (rule passed_collection_never_found [where ds = "[]", OF _ _ _ r]) (simp_all add: demo_passed_def)
  with r show ?thesis by auto
qed

end
