(* ===== verification/Rich_List.thy ===== *)
theory Rich_List
  imports Evm_Nft Edge_Cleanup
begin

text \<open>
  The rich list: \<open>src/indexer/extension/richlist\<close>. The extension walks over the stored blocks, a few behind the
  newest one, derives from the events of their transactions by how much the balance of every account changed,
  and adds that to the table of balances.
\<close>

section \<open>Data: utils/types.go\<close>

record BalanceChangeKey =
  bck_Denom :: string
  bck_Addr :: string

record AddressWithID =
  awi_BechAddress :: string
  awi_HexAddress :: string
  awi_Id :: int

record JSONRPCResponse =
  rpc_Result :: string
  rpc_Error :: "(int \<times> string) option"
  rpc_ID :: int

type_synonym changes = "(BalanceChangeKey, int) gomap"

text \<open>
  \<open>change_order\<close> and \<open>holder_order\<close> are the orders in which a \<open>range\<close> visits the two maps. The integers are the
  SDK's \<open>math.Int\<close>, which holds 256 bits: making one and adding two panic beyond that, reading one fails.
  The event types are those of the SDK's bank module; the \<open>query\<close> fields are the answers of the node.
\<close>

record rich_env =
  change_order :: "BalanceChangeKey list \<Rightarrow> BalanceChangeKey list"
  holder_order :: "AddressWithID list \<Rightarrow> AddressWithID list"
  int_FromBigInt :: "int \<Rightarrow> err + int"
  int_Add :: "int \<Rightarrow> int \<Rightarrow> err + int"
  int_FromString :: "string \<Rightarrow> int option"
  ParseCoinsNormalized :: "string \<Rightarrow> err + coin list"
  EventTypeCoinMint :: string
  EventTypeCoinBurn :: string
  EventTypeTransfer :: string
  query_evm_contract :: "string \<Rightarrow> err + string"
  query_move_denom :: "string \<Rightarrow> err + string"
  query_erc20 :: "string \<Rightarrow> string list \<Rightarrow> int \<Rightarrow> err + JSONRPCResponse list"
  query_balances :: "byte list \<Rightarrow> int \<Rightarrow> err + coin list"
  query_accounts :: "int \<Rightarrow> err + byte list list"


section \<open>Changes: utils/utils.go\<close>

text \<open>
  The pause before an attempt, in nanoseconds. A float beyond 64 bits is converted to an integer as the processor
  does it: \<open>conv\<close>.
\<close>

definition ExponentialBackoff_delay :: "(int \<Rightarrow> int) \<Rightarrow> nat \<Rightarrow> int" where
  "ExponentialBackoff_delay conv attempt =
     (let p = 2 ^ attempt; duration = (if int64_range p then p else conv p) in
      min (wrap64 (duration * 100000000)) 5000000000)"

definition ParseHexAmountToSDKInt :: "rich_env \<Rightarrow> string \<Rightarrow> err + int option" where
  "ParseHexAmountToSDKInt R data =
     (if length data < 2 \<or> \<not> has_prefix data ''0x'' then Inr None
      else case big_hex (drop 2 data) of
        None \<Rightarrow> Inr None
      | Some n \<Rightarrow> rbind (int_FromBigInt R n) (\<lambda>i. Inr (Some i)))"

definition NewAddressWithID :: "env \<Rightarrow> byte list \<Rightarrow> int \<Rightarrow> AddressWithID" where
  "NewAddressWithID E address i = \<lparr>awi_BechAddress = to_bech32 E address, awi_HexAddress = BytesToHexWithPrefix address, awi_Id = i\<rparr>"

definition NewBalanceChangeKey :: "env \<Rightarrow> string \<Rightarrow> byte list \<Rightarrow> BalanceChangeKey" where
  "NewBalanceChangeKey E denom addr = \<lparr>bck_Denom = denom, bck_Addr = to_bech32 E addr\<rparr>"

definition ApplyBalanceChange :: "env \<Rightarrow> rich_env \<Rightarrow> string \<Rightarrow> byte list \<Rightarrow> int \<Rightarrow> changes \<Rightarrow> err + changes" where
  "ApplyBalanceChange E R denom addr amount balanceMap =
     (let key = NewBalanceChangeKey E denom addr in
      case map_of balanceMap key of
        None \<Rightarrow> Inr (map_put key amount balanceMap)
      | Some balance \<Rightarrow> rbind (int_Add R balance amount) (\<lambda>s. Inr (map_put key s balanceMap)))"

definition ParseCoinsNormalizedDenom :: "rich_env \<Rightarrow> config \<Rightarrow> string \<Rightarrow> err + coin list" where
  "ParseCoinsNormalizedDenom R cfg amount =
     rbind (ParseCoinsNormalized R amount) (\<lambda>coins. Inr (map (\<lambda>c.
       let denom = to_lower (coin_Denom c) in
       if cfg_VmType cfg = EVM then
         (case query_evm_contract R denom of Inl e \<Rightarrow> c | Inr contract \<Rightarrow> c\<lparr>coin_Denom := contract\<rparr>)
       else c\<lparr>coin_Denom := denom\<rparr>) coins))"

definition ContainsAddress :: "byte list list \<Rightarrow> byte list \<Rightarrow> bool" where
  "ContainsAddress addresses target \<longleftrightarrow> target \<in> set addresses"

text \<open>A transaction whose events do not decode is skipped.\<close>

definition ForEachTxEvents :: "env \<Rightarrow> (event list \<Rightarrow> changes \<Rightarrow> err + changes) \<Rightarrow> CollectedTx list \<Rightarrow> changes \<Rightarrow> err + changes" where
  "ForEachTxEvents E handle txs = rfold (\<lambda>tx m.
     case unmarshal_tx_events E (tx_Data tx) of Inl e \<Rightarrow> Inr m | Inr events \<Rightarrow> handle events m) txs"


section \<open>EVM: evmrichlist/processor.go\<close>

definition dec_EvmEventLog :: "json \<Rightarrow> string \<times> string list \<times> string \<Rightarrow> err + string \<times> string list \<times> string" where
  "dec_EvmEventLog = dec_struct (\<lambda>kvs (address, topics, data).
     rbind (dec_field ''address'' dec_string kvs address) (\<lambda>address'.
     rbind (dec_field ''topics'' (dec_list dec_string []) kvs topics) (\<lambda>topics'.
     rbind (dec_field ''data'' dec_string kvs data) (\<lambda>data'. Inr (address', topics', data')))))"

definition credit_topic :: "env \<Rightarrow> rich_env \<Rightarrow> string \<Rightarrow> string \<Rightarrow> int \<Rightarrow> changes \<Rightarrow> err + changes" where
  "credit_topic E R denom topic amount m =
     (case AccAddressFromString (from_bech32 E) topic of
        Inr addr \<Rightarrow> if topic \<noteq> EvmEmptyAddress then ApplyBalanceChange E R denom addr amount m else Inr m
      | Inl e \<Rightarrow> Inr m)"

definition evm_transfer_log :: "env \<Rightarrow> rich_env \<Rightarrow> attribute \<Rightarrow> changes \<Rightarrow> err + changes" where
  "evm_transfer_log E R attr m =
     (if akey attr \<noteq> ''log'' then Inr m
      else case Unmarshal dec_EvmEventLog (aval attr) ([], [], []) of
        Inl e \<Rightarrow> Inr m
      | Inr (address, topics, data) \<Rightarrow>
          if length topics \<noteq> 3 \<or> topics ! 0 \<noteq> EvmTransferTopic then Inr m
          else rbind (ParseHexAmountToSDKInt R data) (\<lambda>a. case a of
              None \<Rightarrow> Inr m
            | Some amount \<Rightarrow>
                rbind (credit_topic E R (to_lower address) (topics ! 1) (- amount) m)
                  (credit_topic E R (to_lower address) (topics ! 2) amount)))"

definition processEvmTransferEvents :: "env \<Rightarrow> rich_env \<Rightarrow> event list \<Rightarrow> changes \<Rightarrow> err + changes" where
  "processEvmTransferEvents E R = rfold (\<lambda>event. rfold (evm_transfer_log E R) (eattrs event))"


section \<open>Move: moverichlist/processor.go\<close>

definition MoveDepositEventTypeTag :: string where
  "MoveDepositEventTypeTag = ''0x1::fungible_asset::DepositEvent''"

definition MoveDepositOwnerEventTypeTag :: string where
  "MoveDepositOwnerEventTypeTag = ''0x1::fungible_asset::DepositOwnerEvent''"

definition MoveWithdrawEventTypeTag :: string where
  "MoveWithdrawEventTypeTag = ''0x1::fungible_asset::WithdrawEvent''"

definition MoveWithdrawOwnerEventTypeTag :: string where
  "MoveWithdrawOwnerEventTypeTag = ''0x1::fungible_asset::WithdrawOwnerEvent''"

text \<open>\<open>MoveDepositEvent\<close> and \<open>MoveWithdrawEvent\<close> have the same fields, as have the two owner events.\<close>

definition dec_MoveAmountEvent :: "json \<Rightarrow> string \<times> string \<times> string \<Rightarrow> err + string \<times> string \<times> string" where
  "dec_MoveAmountEvent = dec_struct (\<lambda>kvs (store, metadata, amount).
     rbind (dec_field ''store_addr'' dec_string kvs store) (\<lambda>store'.
     rbind (dec_field ''metadata_addr'' dec_string kvs metadata) (\<lambda>metadata'.
     rbind (dec_field ''amount'' dec_string kvs amount) (\<lambda>amount'. Inr (store', metadata', amount')))))"

definition dec_MoveOwnerEvent :: "json \<Rightarrow> string \<Rightarrow> err + string" where
  "dec_MoveOwnerEvent = dec_struct (\<lambda>kvs. dec_field ''owner'' dec_string kvs)"

text \<open>What a pair of events says: who, which denom, how much. Anything that does not parse is logged.\<close>

definition move_amount :: "env \<Rightarrow> rich_env \<Rightarrow> string \<Rightarrow> string \<Rightarrow> err + byte list \<times> string \<times> int" where
  "move_amount E R amountEvent ownerEvent =
     rbind (Unmarshal dec_MoveAmountEvent amountEvent ([], [], [])) (\<lambda>(store, metadata, amount).
     rbind (Unmarshal dec_MoveOwnerEvent ownerEvent []) (\<lambda>ownr.
     rbind (AccAddressFromString (from_bech32 E) ownr) (\<lambda>addr.
     rbind (query_move_denom R metadata) (\<lambda>denom.
     case int_FromString R amount of None \<Rightarrow> Inl (Err ''failed to parse coin'') | Some n \<Rightarrow> Inr (addr, denom, n)))))"

definition move_change :: "env \<Rightarrow> rich_env \<Rightarrow> byte list list \<Rightarrow> bool \<Rightarrow> string \<Rightarrow> string \<Rightarrow> changes \<Rightarrow> err + changes" where
  "move_change E R moduleAccounts deposit amountEvent ownerEvent m =
     (case move_amount E R amountEvent ownerEvent of
        Inl e \<Rightarrow> Inr m
      | Inr (addr, denom, n) \<Rightarrow>
          if ContainsAddress moduleAccounts addr then Inr m
          else ApplyBalanceChange E R denom addr (if deposit then n else - n) m)"

definition typed_event :: "event \<Rightarrow> bool" where
  "typed_event e \<longleftrightarrow> 2 \<le> length (eattrs e) \<and> akey (eattrs e ! 0) = ''type_tag''"

definition move_pair :: "env \<Rightarrow> rich_env \<Rightarrow> byte list list \<Rightarrow> event \<Rightarrow> event \<Rightarrow> changes \<Rightarrow> err + changes" where
  "move_pair E R moduleAccounts event after m =
     (if etype event \<noteq> ''move'' \<or> \<not> typed_event event \<or> \<not> typed_event after then Inr m
      else let tag = aval (eattrs event ! 0); tag' = aval (eattrs after ! 0);
               change = (\<lambda>d. move_change E R moduleAccounts d (aval (eattrs event ! 1)) (aval (eattrs after ! 1))) in
        rbind (if tag = MoveDepositEventTypeTag \<and> tag' = MoveDepositOwnerEventTypeTag then change True m else Inr m) (\<lambda>m'.
        if tag = MoveWithdrawEventTypeTag \<and> tag' = MoveWithdrawOwnerEventTypeTag then change False m' else Inr m'))"

fun processMoveTransferEvents :: "env \<Rightarrow> rich_env \<Rightarrow> byte list list \<Rightarrow> event list \<Rightarrow> changes \<Rightarrow> err + changes" where
  "processMoveTransferEvents E R mods (e # e' # es) m =
     rbind (move_pair E R mods e e' m) (processMoveTransferEvents E R mods (e' # es))"
| "processMoveTransferEvents E R mods es m = Inr m"


section \<open>Wasm: wasmrichlist/processor.go\<close>

text \<open>An address that does not parse is logged and left empty.\<close>

definition acc_or_empty :: "env \<Rightarrow> string \<Rightarrow> byte list" where
  "acc_or_empty E s = (case AccAddressFromString (from_bech32 E) s of Inl e \<Rightarrow> [] | Inr b \<Rightarrow> b)"

text \<open>The party named \<open>key\<close> and the coins of an event; the last attribute of a name counts.\<close>

definition one_party :: "env \<Rightarrow> rich_env \<Rightarrow> config \<Rightarrow> string \<Rightarrow> event \<Rightarrow> err + byte list \<times> coin list" where
  "one_party E R cfg key event = rfold (\<lambda>attr (who, coins).
     if akey attr = key then Inr (acc_or_empty E (aval attr), coins)
     else if akey attr = ''amount'' then rbind (ParseCoinsNormalizedDenom R cfg (aval attr)) (\<lambda>cs. Inr (who, cs))
     else Inr (who, coins)) (eattrs event) ([], [])"

definition processCosmosMintEvent :: "env \<Rightarrow> rich_env \<Rightarrow> config \<Rightarrow> event \<Rightarrow> changes \<Rightarrow> err + changes" where
  "processCosmosMintEvent E R cfg event m =
     (case one_party E R cfg ''minter'' event of
        Inl e \<Rightarrow> Inr m
      | Inr (minter, coins) \<Rightarrow>
          if minter = [] then Inr m
          else rfold (\<lambda>coin. ApplyBalanceChange E R (coin_Denom coin) minter (coin_Amount coin)) coins m)"

definition processCosmosBurnEvent :: "env \<Rightarrow> rich_env \<Rightarrow> config \<Rightarrow> event \<Rightarrow> changes \<Rightarrow> err + changes" where
  "processCosmosBurnEvent E R cfg event m =
     (case one_party E R cfg ''burner'' event of
        Inl e \<Rightarrow> Inr m
      | Inr (burner, coins) \<Rightarrow>
          if burner = [] then Inr m
          else rfold (\<lambda>coin. ApplyBalanceChange E R (coin_Denom coin) burner (- coin_Amount coin)) coins m)"

definition transfer_parties :: "env \<Rightarrow> rich_env \<Rightarrow> config \<Rightarrow> event \<Rightarrow> err + byte list \<times> byte list \<times> coin list" where
  "transfer_parties E R cfg event = rfold (\<lambda>attr (recipient, sender, coins).
     if akey attr = ''recipient'' then Inr (acc_or_empty E (aval attr), sender, coins)
     else if akey attr = ''sender'' then Inr (recipient, acc_or_empty E (aval attr), coins)
     else if akey attr = ''amount'' then rbind (ParseCoinsNormalizedDenom R cfg (aval attr)) (\<lambda>cs. Inr (recipient, sender, cs))
     else Inr (recipient, sender, coins)) (eattrs event) ([], [], [])"

definition processCosmosTransferEvent :: "env \<Rightarrow> rich_env \<Rightarrow> config \<Rightarrow> byte list list \<Rightarrow> event \<Rightarrow> changes \<Rightarrow> err + changes" where
  "processCosmosTransferEvent E R cfg moduleAccounts event m =
     (case transfer_parties E R cfg event of
        Inl e \<Rightarrow> Inr m
      | Inr (recipient, sender, coins) \<Rightarrow>
          if recipient = [] \<or> sender = [] then Inr m
          else rfold (\<lambda>coin m.
            rbind (if \<not> ContainsAddress moduleAccounts sender
                   then ApplyBalanceChange E R (coin_Denom coin) sender (- coin_Amount coin) m else Inr m) (\<lambda>m'.
            if \<not> ContainsAddress moduleAccounts recipient
            then ApplyBalanceChange E R (coin_Denom coin) recipient (coin_Amount coin) m' else Inr m')) coins m)"

definition wasm_bank_event :: "env \<Rightarrow> rich_env \<Rightarrow> config \<Rightarrow> byte list list \<Rightarrow> event \<Rightarrow> changes \<Rightarrow> err + changes" where
  "wasm_bank_event E R cfg mods event m =
     (if etype event = EventTypeCoinMint R then processCosmosMintEvent E R cfg event m
      else if etype event = EventTypeCoinBurn R then processCosmosBurnEvent E R cfg event m
      else if etype event = EventTypeTransfer R then processCosmosTransferEvent E R cfg mods event m
      else Inr m)"

definition ProcessBalanceChanges :: "env \<Rightarrow> rich_env \<Rightarrow> config \<Rightarrow> byte list list \<Rightarrow> CollectedTx list \<Rightarrow> err + changes" where
  "ProcessBalanceChanges E R cfg mods txs =
     ForEachTxEvents E (case cfg_VmType cfg of
         MoveVM \<Rightarrow> processMoveTransferEvents E R mods
       | EVM \<Rightarrow> processEvmTransferEvents E R
       | WasmVM \<Rightarrow> rfold (wasm_bank_event E R cfg mods)) txs []"


section \<open>The tables: utils/db.go\<close>

definition RICH_LIST_BLOCK_DELAY :: int where
  "RICH_LIST_BLOCK_DELAY = 5"

definition latest_block :: "string \<Rightarrow> db \<Rightarrow> int option" where
  "latest_block chainId d =
     (case map blk_Height (filter (\<lambda>b. blk_ChainId b = chainId) (t_block d)) of [] \<Rightarrow> None | h # hs \<Rightarrow> Some (fold max hs h))"

definition GetLatestCollectedBlock :: "string \<Rightarrow> (world, int) act" where
  "GetLatestCollectedBlock chainId =
     bnd (query (latest_block chainId)) (\<lambda>h. case h of None \<Rightarrow> throw RecordNotFound | Some n \<Rightarrow> ret n)"

text \<open>
  Waiting for a block that is five behind the newest one. \<open>sleeps\<close> is what the rest of the program does during
  the pauses of \<open>ExponentialBackoff\<close>, one entry per pause; when they are used up the result is \<open>None\<close>: still
  waiting.
\<close>

fun GetCollectedBlock :: "string \<Rightarrow> int \<Rightarrow> (world \<Rightarrow> world) list \<Rightarrow> (world, CollectedBlock option) act" where
  "GetCollectedBlock chainId height sleeps =
     (let again = (case sleeps of [] \<Rightarrow> ret None
        | others # rest \<Rightarrow> bnd (modify others) (\<lambda>_. bnd ctx_check (\<lambda>_. GetCollectedBlock chainId height rest))) in
      bnd ctx_check (\<lambda>_ w.
      case first_row (\<lambda>d. filter (\<lambda>b. blk_ChainId b = chainId \<and> blk_Height b = height) (t_block d)) w of
        (Inl e, w') \<Rightarrow> if errors_is e RecordNotFound then again w' else (Inl e, w')
      | (Inr block, w') \<Rightarrow>
          (case GetLatestCollectedBlock chainId w' of
             (Inl e, w'') \<Rightarrow> again w''
           | (Inr latestHeight, w'') \<Rightarrow>
               if wrap64 (latestHeight - height) \<ge> RICH_LIST_BLOCK_DELAY then (Inr (Some block), w'') else again w'')))"

declare GetCollectedBlock.simps [simp del]

definition GetBlockCollectedTxs :: "int \<Rightarrow> (world, CollectedTx list) act" where
  "GetBlockCollectedTxs height = query (\<lambda>d. order_asc tx_Sequence (filter (\<lambda>t. tx_Height t = height) (t_tx d)))"

text \<open>\<open>INSERT ... ON CONFLICT (id, denom) DO UPDATE SET amount = rich_list.amount + EXCLUDED.amount RETURNING amount\<close>.\<close>

definition add_amount :: "int \<times> string \<Rightarrow> int \<Rightarrow> CollectedRichList list \<Rightarrow> CollectedRichList list" where
  "add_amount k n t =
     (if k \<in> rl_key ` set t then map (\<lambda>r. if rl_key r = k then r\<lparr>rl_Amount := rl_Amount r + n\<rparr> else r) t
      else t @ [\<lparr>rl_Id = fst k, rl_Denom = snd k, rl_Amount = n\<rparr>])"

definition amount_at :: "CollectedRichList list \<Rightarrow> int \<times> string \<Rightarrow> int" where
  "amount_at t k = (case row_at rl_key t k of None \<Rightarrow> 0 | Some r \<Rightarrow> rl_Amount r)"

definition upsert_amount :: "int \<times> string \<Rightarrow> int \<Rightarrow> (world, int) act" where
  "upsert_amount k n = stmt (\<lambda>w. let t = add_amount k n (t_rich_list (w_db w)) in
     (Inr (amount_at t k), w\<lparr>w_db := (w_db w)\<lparr>t_rich_list := t\<rparr>\<rparr>))"

definition change_balance :: "rich_env \<Rightarrow> (string \<rightharpoonup> int) \<Rightarrow> changes \<Rightarrow> BalanceChangeKey \<Rightarrow> string list \<Rightarrow> (world, string list) act" where
  "change_balance R ids m key negativeDenoms =
     (case ids (bck_Addr key) of
        None \<Rightarrow> throw (Err ''account ID not found for address'')
      | Some accountId \<Rightarrow>
          bnd (wrap_err ''failed to update balance'' (upsert_amount (accountId, bck_Denom key) (map_get m key 0))) (\<lambda>updatedAmount.
          case int_FromString R (Itoa updatedAmount) of
            None \<Rightarrow> throw (Err ''failed to parse amount'')
          | Some amount \<Rightarrow> ret (if amount < 0 then key_put (bck_Denom key) negativeDenoms else negativeDenoms)))"

definition UpdateBalanceChanges :: "env \<Rightarrow> rich_env \<Rightarrow> changes \<Rightarrow> (world, string list) act" where
  "UpdateBalanceChanges E R m =
     (if m = [] then ret []
      else bnd (wrap_err ''failed to get or create account IDs''
          (GetOrCreateAccountIds E (map_order E (dedup (map bck_Addr (map_keys m)))) True)) (\<lambda>accountIdMap.
        bnd (foreach (change_balance R accountIdMap m) (change_order R (map_keys m)) []) (\<lambda>negativeDenoms.
        ret (map_order E negativeDenoms))))"

definition GetAllAddresses :: "env \<Rightarrow> VMType \<Rightarrow> (world, AddressWithID list) act" where
  "GetAllAddresses E vmType =
     bnd (wrap_err ''failed to get addresses from account_dict'' (query t_account_dict)) (\<lambda>accounts.
     ret (map (\<lambda>(i, account). NewAddressWithID E account i)
       (filter (\<lambda>(i, account). \<not> (vmType = EVM \<and> length account > 20)) accounts)))"

definition UpdateBalances :: "rich_env \<Rightarrow> string \<Rightarrow> (AddressWithID, int) gomap \<Rightarrow> (world, unit) act" where
  "UpdateBalances R denom addressBalances = foreach (\<lambda>a _.
     wrap_err ''failed to update balance'' (exec (\<lambda>d. d\<lparr>t_rich_list := upsert_row rl_key
       \<lparr>rl_Id = awi_Id a, rl_Denom = denom, rl_Amount = map_get addressBalances a 0\<rparr> (t_rich_list d)\<rparr>)))
     (holder_order R (map_keys addressBalances)) ()"

text \<open>The ORM leaves out the zero fields of the struct it updates with.\<close>

definition UpdateRichListStatus :: "int \<Rightarrow> (world, unit) act" where
  "UpdateRichListStatus currentHeight = (\<lambda>w.
     case first_row (\<lambda>d. order_asc rls_Height (t_rich_list_status d)) w of
       (Inl e, w') \<Rightarrow>
         if errors_is e RecordNotFound then
           wrap_err ''failed to update rich list status''
             (exec (\<lambda>d. d\<lparr>t_rich_list_status := t_rich_list_status d @ [\<lparr>rls_Height = currentHeight\<rparr>]\<rparr>)) w'
         else (Inl e, w')
     | (Inr status, w') \<Rightarrow>
         if currentHeight = 0 then (Inr (), w')
         else wrap_err ''failed to update rich list status''
           (exec (\<lambda>d. d\<lparr>t_rich_list_status := map (\<lambda>_. \<lparr>rls_Height = currentHeight\<rparr>) (t_rich_list_status d)\<rparr>)) w')"


section \<open>Balances of the node: utils/utils.go, evmrichlist/jsonrpc.go\<close>

definition queryBatchBalances :: "rich_env \<Rightarrow> string \<Rightarrow> AddressWithID list \<Rightarrow> int \<Rightarrow> err + (AddressWithID, int) gomap" where
  "queryBatchBalances R erc20Address batch height =
     rbind (query_erc20 R erc20Address (map awi_HexAddress batch) height) (\<lambda>batchResponses.
     rfold (\<lambda>rpcResp balances.
       if rpc_ID rpcResp = 0 then Inr balances
       else if rpc_ID rpcResp < 1 \<or> int (length batch) < rpc_ID rpcResp then Inl (Err ''received response with unexpected ID'')
       else if rpc_Error rpcResp \<noteq> None then Inl (Err ''JSON-RPC error for address'')
       else rbind (ParseHexAmountToSDKInt R (rpc_Result rpcResp)) (\<lambda>balance. case balance of
           None \<Rightarrow> Inl (Err ''failed to parse balance for address'')
         | Some n \<Rightarrow> Inr (map_put (batch ! nat (rpc_ID rpcResp - 1)) n balances))) batchResponses [])"

text \<open>The goroutines of the batches all end; the batches are merged into one map.\<close>

definition queryERC20Balances :: "rich_env \<Rightarrow> string \<Rightarrow> AddressWithID list \<Rightarrow> int \<Rightarrow> err + (AddressWithID, int) gomap" where
  "queryERC20Balances R erc20Address addresses height = rfold (\<lambda>batch balances.
     case queryBatchBalances R erc20Address batch height of
       Inl e \<Rightarrow> Inl (Wrapped ''failed to query batch'' e)
     | Inr b \<Rightarrow> Inr (fold (\<lambda>(a, n). map_put a n) b balances)) (chunks 500 addresses) []"

definition AfterProcess_evm :: "env \<Rightarrow> rich_env \<Rightarrow> config \<Rightarrow> int \<Rightarrow> string list \<Rightarrow> (world, unit) act" where
  "AfterProcess_evm E R cfg currentHeight negativeDenoms =
     (if negativeDenoms = [] then ret ()
      else bnd (GetAllAddresses E (cfg_VmType cfg)) (\<lambda>addresses.
        foreach (\<lambda>negativeDenom _. bnd (lift_res (queryERC20Balances R negativeDenom addresses currentHeight))
          (UpdateBalances R negativeDenom)) negativeDenoms ()))"

text \<open>On the other machines negative balances stay: Move logs them, Wasm does nothing.\<close>

definition AfterProcess :: "env \<Rightarrow> rich_env \<Rightarrow> config \<Rightarrow> int \<Rightarrow> string list \<Rightarrow> (world, unit) act" where
  "AfterProcess E R cfg currentHeight negativeDenoms =
     (case cfg_VmType cfg of
        EVM \<Rightarrow> AfterProcess_evm E R cfg currentHeight negativeDenoms
      | MoveVM \<Rightarrow> ret ()
      | WasmVM \<Rightarrow> ret ())"

definition FetchAndUpdateBalances :: "env \<Rightarrow> rich_env \<Rightarrow> byte list list \<Rightarrow> int \<Rightarrow> (world, unit) act" where
  "FetchAndUpdateBalances E R accounts height =
     bnd (wrap_err ''failed to get or create account IDs'' (GetOrCreateAccountIds E (map (to_bech32 E) accounts) True)) (\<lambda>accountIdMap.
     bnd (foreach (\<lambda>address balancesByDenom.
         case accountIdMap (to_bech32 E address) of
           None \<Rightarrow> throw (Err ''account ID not found for address'')
         | Some accountID \<Rightarrow>
             bnd (wrap_err ''failed to fetch balances for address'' (lift_res (query_balances R address height))) (\<lambda>balances.
             ret (fold (\<lambda>balance byDenom. if coin_Amount balance = 0 then byDenom
                else map_put (coin_Denom balance) (map_put (NewAddressWithID E address accountID) (coin_Amount balance)
                       (map_get byDenom (coin_Denom balance) [])) byDenom) balances balancesByDenom))) accounts []) (\<lambda>balancesByDenom.
     foreach (\<lambda>denom _. wrap_err ''failed to update balances for denom'' (UpdateBalances R denom (map_get balancesByDenom denom [])))
       (map_order E (map_keys balancesByDenom)) ()))"

definition InitializeBalances :: "env \<Rightarrow> rich_env \<Rightarrow> int \<Rightarrow> (world, unit) act" where
  "InitializeBalances E R height =
     bnd (wrap_err ''failed to fetch accounts'' (lift_res (query_accounts R height))) (\<lambda>accounts.
     if accounts = [] then ret ()
     else bnd (wrap_err ''failed to fetch and accumulate balances'' (FetchAndUpdateBalances E R accounts height)) (\<lambda>_.
       wrap_err ''failed to update rich list status'' (UpdateRichListStatus height)))"


section \<open>The loop: scraper/scraper.go, extension.go\<close>

text \<open>
  The body of the transaction of a turn, after the wait. The wait only reads; it stands before the transaction
  so that undoing a failed turn does not undo what the rest of the program wrote meanwhile.
\<close>

definition rich_body :: "env \<Rightarrow> rich_env \<Rightarrow> config \<Rightarrow> byte list list \<Rightarrow> int \<Rightarrow> (world, unit) act" where
  "rich_body E R cfg mods currentHeight =
     bnd (GetBlockCollectedTxs currentHeight) (\<lambda>cosmosTxs.
     bnd (lift_res (ProcessBalanceChanges E R cfg mods cosmosTxs)) (\<lambda>balanceMap.
     bnd (UpdateBalanceChanges E R balanceMap) (\<lambda>negativeDenoms.
     bnd (AfterProcess E R cfg currentHeight negativeDenoms) (\<lambda>_.
     UpdateRichListStatus currentHeight))))"

definition rich_turn :: "env \<Rightarrow> rich_env \<Rightarrow> config \<Rightarrow> byte list list \<Rightarrow> (world \<Rightarrow> world) list \<Rightarrow> int \<Rightarrow> (world, bool) act" where
  "rich_turn E R cfg mods sleeps currentHeight =
     bnd (GetCollectedBlock (cfg_ChainId cfg) currentHeight sleeps) (\<lambda>block. case block of
         None \<Rightarrow> ret False
       | Some _ \<Rightarrow> bnd (transaction (rich_body E R cfg mods currentHeight)) (\<lambda>_. ret True))"

text \<open>One turn per entry of \<open>turns\<close>, which is what happens while that turn waits.\<close>

fun rich_turns :: "env \<Rightarrow> rich_env \<Rightarrow> config \<Rightarrow> byte list list \<Rightarrow> (world \<Rightarrow> world) list list \<Rightarrow> int \<Rightarrow> (world, int) act" where
  "rich_turns E R cfg mods [] currentHeight = ret currentHeight"
| "rich_turns E R cfg mods (sleeps # turns) currentHeight =
     bnd ctx_check (\<lambda>_. bnd (rich_turn E R cfg mods sleeps currentHeight) (\<lambda>done.
     if done then rich_turns E R cfg mods turns (wrap64 (currentHeight + 1)) else ret currentHeight))"

definition Run_processor :: "env \<Rightarrow> rich_env \<Rightarrow> config \<Rightarrow> (world \<Rightarrow> world) list list \<Rightarrow> int \<Rightarrow> bool \<Rightarrow> byte list list \<Rightarrow> (world, int) act" where
  "Run_processor E R cfg turns startHeight requireInit mods =
     bnd (if requireInit then bnd (transaction (InitializeBalances E R startHeight)) (\<lambda>_. ret (wrap64 (startHeight + 1)))
          else ret startHeight) (rich_turns E R cfg mods turns)"

text \<open>Without a status the list starts at the newest block, and waits for one while there is none.\<close>

fun wait_latest :: "string \<Rightarrow> (world \<Rightarrow> world) list \<Rightarrow> (world, int option) act" where
  "wait_latest chainId sleeps = bnd ctx_check (\<lambda>_ w.
     case GetLatestCollectedBlock chainId w of
       (Inr h, w') \<Rightarrow> (Inr (Some h), w')
     | (Inl e, w') \<Rightarrow>
         if errors_is e RecordNotFound then
           (case sleeps of [] \<Rightarrow> (Inr None, w')
            | others # rest \<Rightarrow> bnd (modify others) (\<lambda>_. bnd ctx_check (\<lambda>_. wait_latest chainId rest)) w')
         else (Inl e, w'))"

declare wait_latest.simps [simp del]

definition Initialize_rich :: "config \<Rightarrow> (world \<Rightarrow> world) list \<Rightarrow> (world, (int \<times> bool) option) act" where
  "Initialize_rich cfg sleeps = (\<lambda>w.
     case first_row (\<lambda>d. order_asc rls_Height (t_rich_list_status d)) w of
       (Inr lastHeight, w') \<Rightarrow> (Inr (Some (wrap64 (rls_Height lastHeight + 1), False)), w')
     | (Inl e, w') \<Rightarrow>
         if errors_is e RecordNotFound then
           bnd (wait_latest (cfg_ChainId cfg) sleeps) (\<lambda>h. ret (map_option (\<lambda>n. (n, True)) h)) w'
         else (Inl e, w'))"

end
