(* ===== verification/Rich_Changes.thy ===== *)
theory Rich_Changes
  imports Rich_List Dict_Ids
begin

text \<open>
  What the events of a block do to the balances: the list of the amounts they add to an account or take from it,
  and the map the code accumulates from them.
\<close>

section \<open>Accumulating amounts\<close>

text \<open>The amount that a list of operations adds under a key.\<close>

definition sum_at :: "'k \<Rightarrow> ('k \<times> int) list \<Rightarrow> int" where
  "sum_at k ops = sum_list (map snd (filter (\<lambda>p. fst p = k) ops))"

lemma sum_at_Nil [simp]: "sum_at k [] = 0"
  and sum_at_Cons [simp]: "sum_at k (p # ops) = (if fst p = k then snd p else 0) + sum_at k ops"
  and sum_at_append [simp]: "sum_at k (xs @ ys) = sum_at k xs + sum_at k ys"
  by (simp_all add: sum_at_def)

text \<open>A store of amounts: adding changes the amount under its key by so much, or fails.\<close>

locale additive_store =
  fixes amount :: "'s \<Rightarrow> 'k \<Rightarrow> int" and add :: "'k \<Rightarrow> int \<Rightarrow> 's \<Rightarrow> err + 's"
  assumes add_amount: "add k n s = Inr s' \<Longrightarrow> amount s' j = amount s j + (if k = j then n else 0)"
begin

lemma add_all: "rfold (\<lambda>(k, n). add k n) ops s = Inr s' \<Longrightarrow> amount s' j = amount s j + sum_at j ops"
proof (induction ops arbitrary: s)
  case (Cons p ops)
  obtain k n where p: "p = (k, n)" by (cases p)
  from Cons.prems obtain u where u: "add k n s = Inr u" "rfold (\<lambda>(k, n). add k n) ops u = Inr s'"
    by (auto simp: p rbind_eq_Inr)
  from Cons.IH [OF u(2)] add_amount [OF u(1), of j] show ?case by (simp add: p)
qed simp

end

text \<open>The table of balances is such a store.\<close>

lemma amount_add: "amount_at (add_amount k n t) j = amount_at t j + (if k = j then n else 0)"
proof (cases "k \<in> rl_key ` set t")
  case False
  have "rl_key \<lparr>rl_Id = fst k, rl_Denom = snd k, rl_Amount = n\<rparr> = k" by (simp add: rl_key_def)
  moreover have "k = j \<Longrightarrow> row_at rl_key t j = None" using False by (simp add: row_at_None)
  ultimately show ?thesis using False by (auto simp: add_amount_def amount_at_def row_at_append split: option.split)
next
  case True
  have "row_at rl_key (map (\<lambda>r. if rl_key r = k then r\<lparr>rl_Amount := rl_Amount r + n\<rparr> else r) t) j =
      map_option (\<lambda>r. if k = j then r\<lparr>rl_Amount := rl_Amount r + n\<rparr> else r) (row_at rl_key t j)"
    by (induction t) (auto simp: rl_key_def)
  moreover have "k = j \<Longrightarrow> row_at rl_key t j \<noteq> None" using True by (simp add: row_at_None)
  ultimately show ?thesis using True by (auto simp: add_amount_def amount_at_def split: option.split)
qed

interpretation balances: additive_store amount_at "\<lambda>k n t. Inr (add_amount k n t)"
  by unfold_locales (simp add: amount_add [symmetric])

text \<open>
  So is the map of changes, if the integers of the SDK are what they are documented to be. Ranging over a map
  visits every key once.
\<close>

definition rich_env_ok :: "rich_env \<Rightarrow> bool" where
  "rich_env_ok R \<longleftrightarrow>
     (\<forall>n i. int_FromBigInt R n = Inr i \<longrightarrow> i = n) \<and> (\<forall>a b s. int_Add R a b = Inr s \<longrightarrow> s = a + b) \<and>
     (\<forall>n i. int_FromString R (Itoa n) = Some i \<longrightarrow> i = n) \<and>
     (\<forall>ks. distinct ks \<longrightarrow> mset (change_order R ks) = mset ks) \<and> (\<forall>hs. distinct hs \<longrightarrow> mset (holder_order R hs) = mset hs)"

lemma rich_env_okD:
  assumes "rich_env_ok R"
  shows "int_FromBigInt R n = Inr i \<Longrightarrow> i = n" "int_Add R a b = Inr s \<Longrightarrow> s = a + b"
    "int_FromString R (Itoa n) = Some i \<Longrightarrow> i = n"
  using assms unfolding rich_env_ok_def by blast+

lemma set_change_order: "rich_env_ok R \<Longrightarrow> distinct ks \<Longrightarrow> set (change_order R ks) = set ks"
  and distinct_change_order: "rich_env_ok R \<Longrightarrow> distinct ks \<Longrightarrow> distinct (change_order R ks)"
  and set_holder_order: "rich_env_ok R \<Longrightarrow> distinct hs \<Longrightarrow> set (holder_order R hs) = set hs"
  by (metis rich_env_ok_def mset_eq_setD mset_eq_imp_distinct_iff)+

definition add_change :: "rich_env \<Rightarrow> BalanceChangeKey \<Rightarrow> int \<Rightarrow> changes \<Rightarrow> err + changes" where
  "add_change R key n m = (case map_of m key of
       None \<Rightarrow> Inr (map_put key n m) | Some b \<Rightarrow> rbind (int_Add R b n) (\<lambda>s. Inr (map_put key s m)))"

lemma Apply_add: "ApplyBalanceChange E R denom addr n m = add_change R (NewBalanceChangeKey E denom addr) n m"
  by (simp add: ApplyBalanceChange_def add_change_def Let_def)

lemma map_get_put: "map_get (map_put k v m) j z = (if j = k then v else map_get m j z)"
  by (simp add: map_get_def)

lemma changes_store: "rich_env_ok R \<Longrightarrow> additive_store (\<lambda>m k. map_get m k 0) (add_change R)"
proof
  fix k n m m' j assume R: "rich_env_ok R" and add: "add_change R k n m = Inr m'"
  show "map_get m' j 0 = map_get m j 0 + (if k = j then n else 0)"
  proof (cases "map_of m k")
    case None
    with add have "m' = map_put k n m" by (simp add: add_change_def)
    with None show ?thesis by (simp add: map_get_put)
  next
    case (Some b)
    with add obtain s where "int_Add R b n = Inr s" "m' = map_put k s m" by (auto simp: add_change_def rbind_eq_Inr)
    with Some rich_env_okD(2) [OF R] show ?thesis by (simp add: map_get_put)
  qed
qed


section \<open>The operations of a block\<close>

definition topic_op :: "env \<Rightarrow> string \<Rightarrow> string \<Rightarrow> int \<Rightarrow> (BalanceChangeKey \<times> int) list" where
  "topic_op E denom topic n =
     (case AccAddressFromString (from_bech32 E) topic of
        Inl e \<Rightarrow> [] | Inr a \<Rightarrow> if topic = EvmEmptyAddress then [] else [(NewBalanceChangeKey E denom a, n)])"

definition evm_balance_ops :: "env \<Rightarrow> rich_env \<Rightarrow> attribute \<Rightarrow> (BalanceChangeKey \<times> int) list" where
  "evm_balance_ops E R attr =
     (if akey attr \<noteq> ''log'' then []
      else case Unmarshal dec_EvmEventLog (aval attr) ([], [], []) of
        Inr (address, [topic, from, to], data) \<Rightarrow>
          if topic \<noteq> EvmTransferTopic then []
          else (case ParseHexAmountToSDKInt R data of
              Inr (Some n) \<Rightarrow> topic_op E (to_lower address) from (- n) @ topic_op E (to_lower address) to n
            | _ \<Rightarrow> [])
      | _ \<Rightarrow> [])"

definition move_op :: "env \<Rightarrow> rich_env \<Rightarrow> byte list list \<Rightarrow> int \<Rightarrow> string \<Rightarrow> string \<Rightarrow> (BalanceChangeKey \<times> int) list" where
  "move_op E R mods sign amountEvent ownerEvent = (case move_amount E R amountEvent ownerEvent of
       Inl e \<Rightarrow> []
     | Inr (addr, denom, n) \<Rightarrow> if addr \<in> set mods then [] else [(NewBalanceChangeKey E denom addr, sign * n)])"

definition move_balance_op :: "env \<Rightarrow> rich_env \<Rightarrow> byte list list \<Rightarrow> event \<Rightarrow> event \<Rightarrow> (BalanceChangeKey \<times> int) list" where
  "move_balance_op E R mods event after =
     (if etype event \<noteq> ''move'' \<or> \<not> typed_event event \<or> \<not> typed_event after then []
      else let tag = aval (eattrs event ! 0); tag' = aval (eattrs after ! 0);
               op = (\<lambda>sign. move_op E R mods sign (aval (eattrs event ! 1)) (aval (eattrs after ! 1))) in
        if tag = MoveDepositEventTypeTag \<and> tag' = MoveDepositOwnerEventTypeTag then op 1
        else if tag = MoveWithdrawEventTypeTag \<and> tag' = MoveWithdrawOwnerEventTypeTag then op (- 1) else [])"

fun move_balance_ops :: "env \<Rightarrow> rich_env \<Rightarrow> byte list list \<Rightarrow> event list \<Rightarrow> (BalanceChangeKey \<times> int) list" where
  "move_balance_ops E R mods (e # e' # es) = move_balance_op E R mods e e' @ move_balance_ops E R mods (e' # es)"
| "move_balance_ops E R mods es = []"

definition coin_ops :: "env \<Rightarrow> byte list \<Rightarrow> int \<Rightarrow> coin list \<Rightarrow> (BalanceChangeKey \<times> int) list" where
  "coin_ops E addr sign coins = map (\<lambda>c. (NewBalanceChangeKey E (coin_Denom c) addr, sign * coin_Amount c)) coins"

definition transfer_ops :: "env \<Rightarrow> byte list list \<Rightarrow> byte list \<Rightarrow> byte list \<Rightarrow> coin \<Rightarrow> (BalanceChangeKey \<times> int) list" where
  "transfer_ops E mods recipient sender c =
     (if sender \<in> set mods then [] else [(NewBalanceChangeKey E (coin_Denom c) sender, - coin_Amount c)]) @
     (if recipient \<in> set mods then [] else [(NewBalanceChangeKey E (coin_Denom c) recipient, coin_Amount c)])"

definition wasm_balance_ops :: "env \<Rightarrow> rich_env \<Rightarrow> config \<Rightarrow> byte list list \<Rightarrow> event \<Rightarrow> (BalanceChangeKey \<times> int) list" where
  "wasm_balance_ops E R cfg mods event =
     (if etype event = EventTypeCoinMint R then
        (case one_party E R cfg ''minter'' event of Inl e \<Rightarrow> [] | Inr (a, coins) \<Rightarrow> if a = [] then [] else coin_ops E a 1 coins)
      else if etype event = EventTypeCoinBurn R then
        (case one_party E R cfg ''burner'' event of Inl e \<Rightarrow> [] | Inr (a, coins) \<Rightarrow> if a = [] then [] else coin_ops E a (- 1) coins)
      else if etype event = EventTypeTransfer R then
        (case transfer_parties E R cfg event of
           Inl e \<Rightarrow> []
         | Inr (recipient, sender, coins) \<Rightarrow>
             if recipient = [] \<or> sender = [] then [] else concat (map (transfer_ops E mods recipient sender) coins))
      else [])"

definition events_ops :: "env \<Rightarrow> rich_env \<Rightarrow> config \<Rightarrow> byte list list \<Rightarrow> event list \<Rightarrow> (BalanceChangeKey \<times> int) list" where
  "events_ops E R cfg mods events = (case cfg_VmType cfg of
       MoveVM \<Rightarrow> move_balance_ops E R mods events
     | EVM \<Rightarrow> concat (map (\<lambda>e. concat (map (evm_balance_ops E R) (eattrs e))) events)
     | WasmVM \<Rightarrow> concat (map (wasm_balance_ops E R cfg mods) events))"

definition balance_ops :: "env \<Rightarrow> rich_env \<Rightarrow> config \<Rightarrow> byte list list \<Rightarrow> CollectedTx list \<Rightarrow> (BalanceChangeKey \<times> int) list" where
  "balance_ops E R cfg mods txs = concat (map (\<lambda>tx.
     case unmarshal_tx_events E (tx_Data tx) of Inl e \<Rightarrow> [] | Inr events \<Rightarrow> events_ops E R cfg mods events) txs)"

abbreviation add_ops :: "rich_env \<Rightarrow> (BalanceChangeKey \<times> int) list \<Rightarrow> changes \<Rightarrow> err + changes" where
  "add_ops R \<equiv> rfold (\<lambda>(k, n). add_change R k n)"

lemma add_ops_append: "add_ops R (xs @ ys) m = rbind (add_ops R xs m) (add_ops R ys)"
  by (rule rfold_append)

text \<open>A loop whose steps apply operations applies all of them.\<close>

lemma ops_of_loop:
  assumes "\<And>x m m'. x \<in> set xs \<Longrightarrow> f x m = Inr m' \<Longrightarrow> add_ops R (g x) m = Inr m'"
  shows "rfold f xs m = Inr m' \<Longrightarrow> add_ops R (concat (map g xs)) m = Inr m'"
  using assms
proof (induction xs arbitrary: m)
  case (Cons x xs)
  from Cons.prems(1) obtain u where u: "f x m = Inr u" "rfold f xs u = Inr m'" by (auto simp: rbind_eq_Inr)
  have "add_ops R (g x) m = Inr u" by (rule Cons.prems(2)) (use u in simp_all)
  moreover have "add_ops R (concat (map g xs)) u = Inr m'" using Cons.IH [OF u(2)] Cons.prems(2) by simp
  ultimately show ?case by (simp add: add_ops_append)
qed simp

lemma rbind_Inr_id [simp]: "rbind r Inr = r"
  by (cases r) simp_all

lemma rbind_cong: "r = r' \<Longrightarrow> (\<And>x. r' = Inr x \<Longrightarrow> f x = g x) \<Longrightarrow> rbind r f = rbind r' g"
  by (cases r') simp_all

lemma rfold_Nil [simp]: "rfold f [] = Inr"
  by (rule ext) simp

lemma rfold_one [simp]: "rfold f [x] = f x"
  by (rule ext) simp

lemma topic_ops: "credit_topic E R denom topic n = add_ops R (topic_op E denom topic n)"
  by (rule ext) (simp add: credit_topic_def topic_op_def Apply_add split: sum.split)

lemma evm_ops_added: "evm_transfer_log E R attr m = Inr m' \<Longrightarrow> add_ops R (evm_balance_ops E R attr) m = Inr m'"
proof (cases "akey attr = ''log''")
  case True
  assume run: "evm_transfer_log E R attr m = Inr m'"
  show ?thesis
  proof (cases "Unmarshal dec_EvmEventLog (aval attr) ([], [], [])")
    case (Inl e)
    with run True show ?thesis by (simp add: evm_transfer_log_def evm_balance_ops_def)
  next
    case (Inr l)
    obtain address topics data where l: "l = (address, topics, data)" by (cases l)
    show ?thesis
    proof (cases "length topics = 3 \<and> topics ! 0 = EvmTransferTopic")
      case False
      with run True Inr l have "m' = m" by (auto simp: evm_transfer_log_def)
      moreover have "evm_balance_ops E R attr = []" using False True Inr l
        by (auto simp: evm_balance_ops_def split: list.split)
      ultimately show ?thesis by simp
    next
      case transfer: True
      then obtain from' to where t: "topics = [EvmTransferTopic, from', to]"
        by (auto simp: numeral_eq_Suc length_Suc_conv)
      from run True Inr l t obtain a where a: "ParseHexAmountToSDKInt R data = Inr a"
        and rest: "(case a of None \<Rightarrow> Inr m | Some amount \<Rightarrow>
            rbind (credit_topic E R (to_lower address) from' (- amount) m) (credit_topic E R (to_lower address) to amount)) = Inr m'"
        by (auto simp: evm_transfer_log_def rbind_eq_Inr split: option.splits)
      from rest show ?thesis using True Inr l t a
        by (cases a) (simp_all add: evm_balance_ops_def add_ops_append topic_ops [symmetric])
    qed
  qed
qed (simp add: evm_transfer_log_def evm_balance_ops_def)

lemma move_change_ops:
  "move_change E R mods d ae oe m = Inr m' \<Longrightarrow> add_ops R (move_op E R mods (if d then 1 else - 1) ae oe) m = Inr m'"
  by (auto simp: move_change_def move_op_def ContainsAddress_def Apply_add split: sum.splits if_splits)

lemma tags_differ: "MoveDepositEventTypeTag \<noteq> MoveWithdrawEventTypeTag"
  by (simp add: MoveDepositEventTypeTag_def MoveWithdrawEventTypeTag_def)

lemma move_op_added: "move_pair E R mods e e' m = Inr m' \<Longrightarrow> add_ops R (move_balance_op E R mods e e') m = Inr m'"
proof (cases "etype e \<noteq> ''move'' \<or> \<not> typed_event e \<or> \<not> typed_event e'")
  case False
  assume run: "move_pair E R mods e e' m = Inr m'"
  let ?tag = "aval (eattrs e ! 0)" and ?tag' = "aval (eattrs e' ! 0)"
  consider (dep) "?tag = MoveDepositEventTypeTag" "?tag' = MoveDepositOwnerEventTypeTag"
    | (wd) "?tag = MoveWithdrawEventTypeTag" "?tag' = MoveWithdrawOwnerEventTypeTag"
    | (no) "\<not> (?tag = MoveDepositEventTypeTag \<and> ?tag' = MoveDepositOwnerEventTypeTag)"
        "\<not> (?tag = MoveWithdrawEventTypeTag \<and> ?tag' = MoveWithdrawOwnerEventTypeTag)"
    by blast
  then show ?thesis
  proof cases
    case dep
    with run False tags_differ have "move_change E R mods True (aval (eattrs e ! 1)) (aval (eattrs e' ! 1)) m = Inr m'"
      by (simp add: move_pair_def Let_def)
    from move_change_ops [OF this] dep False show ?thesis by (simp add: move_balance_op_def Let_def)
  next
    case wd
    with run False tags_differ have "move_change E R mods False (aval (eattrs e ! 1)) (aval (eattrs e' ! 1)) m = Inr m'"
      by (simp add: move_pair_def Let_def)
    from move_change_ops [OF this] wd False tags_differ show ?thesis by (simp add: move_balance_op_def Let_def)
  next
    case no
    from run have "m' = m" by (simp only: move_pair_def Let_def no False if_False rbind.simps sum.inject)
    moreover have "move_balance_op E R mods e e' = []" by (simp only: move_balance_op_def Let_def no False if_False)
    ultimately show ?thesis by simp
  qed
qed (simp add: move_pair_def move_balance_op_def)

lemma move_ops_added:
  "processMoveTransferEvents E R mods es m = Inr m' \<Longrightarrow> add_ops R (move_balance_ops E R mods es) m = Inr m'"
proof (induction es arbitrary: m rule: move_balance_ops.induct)
  case (1 E R mods e e' es)
  from "1.prems" obtain u where u: "move_pair E R mods e e' m = Inr u" "processMoveTransferEvents E R mods (e' # es) u = Inr m'"
    by (auto simp: rbind_eq_Inr)
  from "1.IH" [OF u(2)] move_op_added [OF u(1)] show ?case by (simp add: add_ops_append)
qed simp_all

lemma coins_added:
  "rfold (\<lambda>c. ApplyBalanceChange E R (coin_Denom c) a (sign * coin_Amount c)) coins m = add_ops R (coin_ops E a sign coins) m"
  unfolding Apply_add coin_ops_def by (induction coins arbitrary: m) (simp, simp cong: rbind_cong)

lemma transfer_added:
  "rbind (if \<not> ContainsAddress mods sender then ApplyBalanceChange E R (coin_Denom c) sender (- coin_Amount c) m else Inr m) (\<lambda>m'.
     if \<not> ContainsAddress mods recipient then ApplyBalanceChange E R (coin_Denom c) recipient (coin_Amount c) m' else Inr m') =
   add_ops R (transfer_ops E mods recipient sender c) m"
  by (auto simp: transfer_ops_def ContainsAddress_def Apply_add)

lemma wasm_ops_added: "wasm_bank_event E R cfg mods e m = Inr m' \<Longrightarrow> add_ops R (wasm_balance_ops E R cfg mods e) m = Inr m'"
proof -
  assume run: "wasm_bank_event E R cfg mods e m = Inr m'"
  have party: "add_ops R (case p of Inl e \<Rightarrow> [] | Inr (a, coins) \<Rightarrow> if a = [] then [] else coin_ops E a s coins) m = Inr m'"
    if "(case p of Inl e \<Rightarrow> Inr m | Inr (a, coins) \<Rightarrow> if a = [] then Inr m
        else rfold (\<lambda>c. ApplyBalanceChange E R (coin_Denom c) a (s * coin_Amount c)) coins m) = Inr m'"
    for p :: "err + byte list \<times> coin list" and s
    using that unfolding coins_added by (auto split: sum.splits prod.splits if_splits)
  have trans: "add_ops R (case p of Inl e \<Rightarrow> [] | Inr (recipient, sender, coins) \<Rightarrow>
        if recipient = [] \<or> sender = [] then [] else concat (map (transfer_ops E mods recipient sender) coins)) m = Inr m'"
    if "(case p of Inl e \<Rightarrow> Inr m | Inr (recipient, sender, coins) \<Rightarrow> if recipient = [] \<or> sender = [] then Inr m
        else rfold (\<lambda>c. add_ops R (transfer_ops E mods recipient sender c)) coins m) = Inr m'"
    for p :: "err + byte list \<times> byte list \<times> coin list"
    using that by (auto intro: ops_of_loop split: sum.splits prod.splits if_splits)
  show ?thesis
  proof (cases "etype e = EventTypeCoinMint R")
    case True
    with run party [where s = 1 and p = "one_party E R cfg ''minter'' e", unfolded mult_1] show ?thesis by (simp add: wasm_bank_event_def wasm_balance_ops_def processCosmosMintEvent_def)
  next
    case no_mint: False
    show ?thesis
    proof (cases "etype e = EventTypeCoinBurn R")
      case True
      with run no_mint party [where s = "- 1" and p = "one_party E R cfg ''burner'' e", unfolded mult_minus1] show ?thesis
        by (simp add: wasm_bank_event_def wasm_balance_ops_def processCosmosBurnEvent_def)
    next
      case False
      show ?thesis
      proof (cases "etype e = EventTypeTransfer R")
        case True
        with run no_mint False have "processCosmosTransferEvent E R cfg mods e m = Inr m'" by (simp add: wasm_bank_event_def)
        from trans [OF this [unfolded processCosmosTransferEvent_def transfer_added]] True no_mint False
        show ?thesis by (simp add: wasm_balance_ops_def)
      qed (use run no_mint False in \<open>simp add: wasm_bank_event_def wasm_balance_ops_def\<close>)
    qed
  qed
qed

theorem ProcessBalanceChanges_ops:
  assumes "ProcessBalanceChanges E R cfg mods txs = Inr m"
  shows "add_ops R (balance_ops E R cfg mods txs) [] = Inr m"
proof -
  have events: "add_ops R (events_ops E R cfg mods es) m = Inr m'"
    if "(case cfg_VmType cfg of MoveVM \<Rightarrow> processMoveTransferEvents E R mods | EVM \<Rightarrow> processEvmTransferEvents E R
         | WasmVM \<Rightarrow> rfold (wasm_bank_event E R cfg mods)) es m = Inr m'" for es m m'
  proof (cases "cfg_VmType cfg")
    case MoveVM
    with that move_ops_added show ?thesis by (simp add: events_ops_def)
  next
    case WasmVM
    with that ops_of_loop [OF wasm_ops_added] show ?thesis by (simp add: events_ops_def)
  next
    case EVM
    with that ops_of_loop [OF ops_of_loop [OF evm_ops_added]] show ?thesis
      by (simp add: events_ops_def processEvmTransferEvents_def)
  qed
  show ?thesis
    using assms unfolding ProcessBalanceChanges_def ForEachTxEvents_def balance_ops_def
    by (rule ops_of_loop [rotated]) (auto split: sum.splits intro: events)
qed

text \<open>The map holds under every key the total of the operations on it.\<close>

corollary changes_total:
  assumes "rich_env_ok R" "ProcessBalanceChanges E R cfg mods txs = Inr m"
  shows "map_get m k 0 = sum_at k (balance_ops E R cfg mods txs)"
  using additive_store.add_all [OF changes_store [OF assms(1)] ProcessBalanceChanges_ops [OF assms(2)], of k] by simp

end
