(* ===== verification/Rich_Proofs.thy ===== *)
theory Rich_Proofs
  imports Rich_Changes Tx_Spec
begin

text \<open>
  A turn of the rich list: the balance of every account changes by the total of the operations of the block, and
  the status row names the block.
\<close>

section \<open>Keys of the changes\<close>

lemma add_change_keys:
  assumes "add_change R k n m = Inr m'" "distinct (map_keys m)"
  shows "distinct (map_keys m') \<and> set (map_keys m') = insert k (set (map_keys m))"
proof -
  obtain v where "m' = map_put k v m" using assms(1) by (auto simp: add_change_def rbind_eq_Inr split: option.splits)
  then show ?thesis using assms(2) by (simp only: map_put_keys set_map keys_put simp_thms)
qed

lemma add_ops_keys:
  "add_ops R ops m = Inr m' \<Longrightarrow> distinct (map_keys m) \<Longrightarrow>
   distinct (map_keys m') \<and> set (map_keys m') = fst ` set ops \<union> set (map_keys m)"
proof (induction ops arbitrary: m)
  case (Cons p ops)
  obtain k n where p: "p = (k, n)" by (cases p)
  from Cons.prems obtain u where u: "add_change R k n m = Inr u" "add_ops R ops u = Inr m'" by (auto simp: p rbind_eq_Inr)
  note k = add_change_keys [OF u(1) Cons.prems(2)]
  from Cons.IH [OF u(2)] k show ?case by (auto simp: p)
qed simp

definition keys_canonical :: "env \<Rightarrow> (BalanceChangeKey \<times> int) list \<Rightarrow> bool" where
  "keys_canonical E ops \<longleftrightarrow> (\<forall>p \<in> set ops. canonical E (bck_Addr (fst p)))"

lemma keys_canonical_simps [simp]:
  "keys_canonical E []" "keys_canonical E (xs @ ys) \<longleftrightarrow> keys_canonical E xs \<and> keys_canonical E ys"
  "keys_canonical E (concat xss) \<longleftrightarrow> (\<forall>xs \<in> set xss. keys_canonical E xs)"
  by (auto simp: keys_canonical_def)

lemma key_canonical: "a \<noteq> [] \<Longrightarrow> keys_canonical E [(NewBalanceChangeKey E d a, n)]"
  by (auto simp: keys_canonical_def canonical_def NewBalanceChangeKey_def)

lemma parsed_nonempty: "env_ok E \<Longrightarrow> AccAddressFromString (from_bech32 E) s \<noteq> Inr []"
  using AccAddress_nonempty [OF env_okD(1)] by blast

lemma evm_keys: "env_ok E \<Longrightarrow> keys_canonical E (evm_balance_ops E R attr)"
  by (auto simp: evm_balance_ops_def topic_op_def intro!: key_canonical simp: parsed_nonempty
      split: sum.split list.split option.split)

lemma move_keys: "env_ok E \<Longrightarrow> keys_canonical E (move_balance_op E R mods e e')"
proof -
  assume E: "env_ok E"
  have "keys_canonical E (move_op E R mods s ae oe)" for s ae oe
    by (auto simp: move_op_def move_amount_def rbind_eq_Inr intro!: key_canonical simp: parsed_nonempty [OF E]
        split: sum.split option.splits)
  then show ?thesis by (simp add: move_balance_op_def Let_def)
qed

lemma coin_keys: "a \<noteq> [] \<Longrightarrow> keys_canonical E (coin_ops E a s cs)"
  by (auto simp: keys_canonical_def coin_ops_def canonical_def NewBalanceChangeKey_def)

lemma transfer_keys: "s \<noteq> [] \<Longrightarrow> r \<noteq> [] \<Longrightarrow> keys_canonical E (transfer_ops E mods r s c)"
  by (simp add: transfer_ops_def key_canonical)

lemma wasm_keys: "keys_canonical E (wasm_balance_ops E R cfg mods e)"
  by (auto simp: wasm_balance_ops_def coin_keys transfer_keys split: sum.split)

lemma balance_keys: "env_ok E \<Longrightarrow> keys_canonical E (balance_ops E R cfg mods txs)"
proof -
  assume E: "env_ok E"
  have "keys_canonical E (move_balance_ops E' R mods es)" if "E' = E" for E' es
    using that by (induction E' R mods es rule: move_balance_ops.induct) (simp_all add: move_keys [OF E])
  then have "keys_canonical E (events_ops E R cfg mods es)" for es
    by (auto simp: events_ops_def evm_keys [OF E] wasm_keys split: VMType.split)
  then show ?thesis by (auto simp: balance_ops_def split: sum.split)
qed

section \<open>Accounts and their balances\<close>

text \<open>The balance of an address: what the table has under the id of its account.\<close>

definition account_id_at :: "db \<Rightarrow> byte list \<Rightarrow> int option" where
  "account_id_at d a = map_option fst (find (\<lambda>r. snd r = a) (t_account_dict d))"

definition holding :: "db \<Rightarrow> byte list \<Rightarrow> string \<Rightarrow> int" where
  "holding d a denom = (case account_id_at d a of None \<Rightarrow> 0 | Some i \<Rightarrow> amount_at (t_rich_list d) (i, denom))"

text \<open>Every row of the table belongs to an account of the dictionary.\<close>

definition rich_state :: "env \<Rightarrow> world \<Rightarrow> bool" where
  "rich_state E w \<longleftrightarrow> dict_inv (account_dict E) w \<and>
     rl_Id ` set (t_rich_list (w_db w)) \<subseteq> fst ` set (t_account_dict (w_db w))"

lemma account_rowsD:
  assumes "dict_inv (account_dict E) w"
  shows "distinct (map fst (t_account_dict (w_db w)))" "distinct (map snd (t_account_dict (w_db w)))"
    "(i, a) \<in> set (t_account_dict (w_db w)) \<Longrightarrow> a \<noteq> []"
  using assms unfolding dict_inv_def account_rows account_ok by (blast, blast, force)

lemma account_id_iff:
  assumes "dict_inv (account_dict E) w"
  shows "account_id_at (w_db w) a = Some i \<longleftrightarrow> (i, a) \<in> set (t_account_dict (w_db w))"
proof -
  have "map_option fst (find (\<lambda>r. snd r = a) t) = Some i \<longleftrightarrow> (i, a) \<in> set t" if "distinct (map snd t)" for t :: "CollectedAccountDict list"
    using that by (induction t) (auto, force)
  then show ?thesis using account_rowsD(2) [OF assms] by (simp add: account_id_at_def)
qed

lemma amount_absent: "i \<notin> rl_Id ` set t \<Longrightarrow> amount_at t (i, denom) = 0"
  using row_at_SomeD [of rl_key t "(i, denom)"] by (force simp: amount_at_def rl_key_def split: option.split)

lemma ids_add_amount: "rl_Id ` set (add_amount k n t) \<subseteq> insert (fst k) (rl_Id ` set t)"
  by (auto simp: add_amount_def)


section \<open>Writing the changes\<close>

definition row_of :: "(string \<rightharpoonup> int) \<Rightarrow> BalanceChangeKey \<Rightarrow> int \<times> string" where
  "row_of ids key = (the (ids (bck_Addr key)), bck_Denom key)"

abbreviation row_ops :: "(string \<rightharpoonup> int) \<Rightarrow> changes \<Rightarrow> BalanceChangeKey list \<Rightarrow> ((int \<times> string) \<times> int) list" where
  "row_ops ids m ks \<equiv> map (\<lambda>key. (row_of ids key, map_get m key 0)) ks"

definition put_ops :: "((int \<times> string) \<times> int) list \<Rightarrow> CollectedRichList list \<Rightarrow> CollectedRichList list" where
  "put_ops ops t = fold (\<lambda>(k, n). add_amount k n) ops t"

lemma put_ops_simps [simp]: "put_ops [] t = t" "put_ops (ops @ [(k, n)]) t = add_amount k n (put_ops ops t)"
  by (simp_all add: put_ops_def)

lemma amount_put_ops: "amount_at (put_ops ops t) j = amount_at t j + sum_at j ops"
proof -
  have "rfold (\<lambda>(k, n) t. Inr (add_amount k n t)) ops t = Inr (put_ops ops t)"
    by (induction ops arbitrary: t) (auto simp: put_ops_def)
  then show ?thesis by (rule balances.add_all)
qed

lemma ids_put_ops: "rl_Id ` set (put_ops ops t) \<subseteq> fst ` fst ` set ops \<union> rl_Id ` set t"
proof (induction ops arbitrary: t)
  case (Cons p ops)
  have "put_ops (p # ops) t = put_ops ops (add_amount (fst p) (snd p) t)" by (cases p) (simp add: put_ops_def)
  with Cons [of "add_amount (fst p) (snd p) t"] ids_add_amount [of "fst p" "snd p" t] show ?case
    by (simp only: list.set image_insert) blast
qed simp

lemma sum_at_absent: "k \<notin> fst ` set ops \<Longrightarrow> sum_at k ops = 0"
  by (induction ops) auto

lemma sum_at_row_ops:
  assumes "distinct ks" "\<And>key. key \<in> set ks \<Longrightarrow> row_of ids key = j \<longleftrightarrow> key = k"
  shows "sum_at j (row_ops ids m ks) = (if k \<in> set ks then map_get m k 0 else 0)"
  using assms by (induction ks) auto

text \<open>One statement per key; a denom is negative when a row of it ends below zero.\<close>

definition below_zero :: "(string \<rightharpoonup> int) \<Rightarrow> changes \<Rightarrow> CollectedRichList list \<Rightarrow> BalanceChangeKey list \<Rightarrow> string set" where
  "below_zero ids m t ks = {bck_Denom key |key. key \<in> set ks \<and> amount_at t (row_of ids key) + map_get m key 0 < 0}"

definition in_rich_list :: "env \<Rightarrow> db \<Rightarrow> CollectedRichList list \<Rightarrow> world \<Rightarrow> bool" where
  "in_rich_list E d t w \<longleftrightarrow> dict_inv (account_dict E) w \<and> w_db w = d\<lparr>t_rich_list := t\<rparr>"

lemma in_rich_list_ff [simp]: "fault_free (in_rich_list E d t)"
  by (simp add: fault_free_def in_rich_list_def dict_inv_def account_dict_def)

lemma in_rich_list_put: "in_rich_list E d t w \<Longrightarrow> in_rich_list E d t' (w\<lparr>w_db := (w_db w)\<lparr>t_rich_list := t'\<rparr>\<rparr>)"
proof -
  assume st: "in_rich_list E d t w"
  have "dict_inv (account_dict E) (w\<lparr>w_db := (w_db w)\<lparr>t_rich_list := t'\<rparr>\<rparr>) = dict_inv (account_dict E) w"
    by (simp add: dict_inv_def account_dict_def)
  with st show ?thesis by (simp add: in_rich_list_def)
qed

lemma upsert_amount_spec:
  assumes st: "in_rich_list E d t w" and run: "upsert_amount k n w = (Inr v, w')"
  shows "in_rich_list E d (add_amount k n t) w'" "v = amount_at t k + n"
proof (atomize (full), cases rule: stmt_cases [of w "\<lambda>w. let t = add_amount k n (t_rich_list (w_db w)) in
     (Inr (amount_at t k), w\<lparr>w_db := (w_db w)\<lparr>t_rich_list := t\<rparr>\<rparr>)"])
  case (1 e fs)
  with run show "in_rich_list E d (add_amount k n t) w' \<and> v = amount_at t k + n" by (simp add: upsert_amount_def)
next
  case (2 fs)
  have u: "in_rich_list E d t (w\<lparr>w_faults := fs\<rparr>)" using st by (simp only: fault_freeD [OF in_rich_list_ff])
  from run 2 have r: "v = amount_at (add_amount k n (t_rich_list (w_db w))) k"
    "w' = (w\<lparr>w_faults := fs\<rparr>)\<lparr>w_db := (w_db (w\<lparr>w_faults := fs\<rparr>))\<lparr>t_rich_list := add_amount k n (t_rich_list (w_db w))\<rparr>\<rparr>"
    by (simp_all add: upsert_amount_def Let_def)
  have t: "t_rich_list (w_db w) = t" using st by (simp add: in_rich_list_def)
  show "in_rich_list E d (add_amount k n t) w' \<and> v = amount_at t k + n"
    using in_rich_list_put [OF u] by (simp only: r t amount_add simp_thms if_True)
qed

lemma change_balances_spec:
  assumes R: "rich_env_ok R" and inj: "inj_on (row_of ids) (set ks)" and d: "distinct ks"
    and st: "in_rich_list E db0 t w" and run: "foreach (change_balance R ids m) ks [] w = (Inr negs, w')"
  shows "in_rich_list E db0 (put_ops (row_ops ids m ks) t) w' \<and> set negs = below_zero ids m t ks \<and> distinct negs"
proof (rule foreach_Inr [OF run, of "\<lambda>ys negs w. in_rich_list E db0 (put_ops (row_ops ids m ys) t) w \<and>
    set negs = below_zero ids m t ys \<and> distinct negs"])
  show "in_rich_list E db0 (put_ops (row_ops ids m []) t) w \<and> set [] = below_zero ids m t [] \<and> distinct []"
    using st by (simp add: below_zero_def)
next
  fix ys key zs c u n v
  assume ks: "ks = ys @ key # zs" and step: "change_balance R ids m key c u = (Inr n, v)"
    and inv: "in_rich_list E db0 (put_ops (row_ops ids m ys) t) u \<and> set c = below_zero ids m t ys \<and> distinct c"
  let ?t = "put_ops (row_ops ids m ys) t"
  from step obtain i where i: "ids (bck_Addr key) = Some i" by (auto simp: change_balance_def split: option.splits)
  then have row: "row_of ids key = (i, bck_Denom key)" by (simp add: row_of_def)
  from step i obtain x a where x: "upsert_amount (row_of ids key) (map_get m key 0) u = (Inr x, v)"
    "int_FromString R (Itoa x) = Some a" "n = (if a < 0 then key_put (bck_Denom key) c else c)"
    by (auto simp: change_balance_def bnd_eq_Inr row split: option.splits)
  note up = upsert_amount_spec [OF conjunct1 [OF inv] x(1)]
  have "row_of ids key \<notin> fst ` set (row_ops ids m ys)" using inj d ks by (auto dest: inj_onD)
  then have "x = amount_at t (row_of ids key) + map_get m key 0"
    using up(2) by (simp add: amount_put_ops sum_at_absent)
  then have "a = amount_at t (row_of ids key) + map_get m key 0" using rich_env_okD(3) [OF R x(2)] by simp
  then have "set n = below_zero ids m t (ys @ [key])" using inv x(3) by (auto simp: below_zero_def)
  moreover have "distinct n" using inv x(3) by (simp add: distinct_key_put)
  moreover have "in_rich_list E db0 (put_ops (row_ops ids m (ys @ [key])) t) v" using up(1) by simp
  ultimately show "in_rich_list E db0 (put_ops (row_ops ids m (ys @ [key])) t) v \<and>
    set n = below_zero ids m t (ys @ [key]) \<and> distinct n" by blast
qed

text \<open>Nothing but the two tables of the rich list and the dictionaries differs.\<close>

definition only_rich :: "db \<Rightarrow> db \<Rightarrow> bool" where
  "only_rich d d' \<longleftrightarrow> same_data (d\<lparr>t_rich_list := [], t_rich_list_status := []\<rparr>) (d'\<lparr>t_rich_list := [], t_rich_list_status := []\<rparr>)"

lemma only_rich_refl [simp]: "only_rich d d"
  and only_rich_trans: "only_rich d e \<Longrightarrow> only_rich e f \<Longrightarrow> only_rich d f"
  by (simp_all add: only_rich_def same_data_def)

lemma only_rich_same: "same_data d d' \<Longrightarrow> only_rich d d'"
proof -
  have w: "without_dicts (d\<lparr>t_rich_list := r, t_rich_list_status := s\<rparr>) = (without_dicts d)\<lparr>t_rich_list := r, t_rich_list_status := s\<rparr>" for d r s
    by (simp add: without_dicts_def)
  assume "same_data d d'"
  then show ?thesis by (simp only: only_rich_def same_data_def w)
qed

lemma only_rich_put [simp]: "only_rich d (d'\<lparr>t_rich_list := r\<rparr>) = only_rich d d'" "only_rich d (d'\<lparr>t_rich_list_status := s\<rparr>) = only_rich d d'"
  by (simp_all add: only_rich_def)

lemma only_richD:
  assumes "only_rich d d'"
  shows "t_block d' = t_block d" "t_tx d' = t_tx d"
  using same_dataD(2,3) [OF assms [unfolded only_rich_def]] by simp_all

definition grown :: "world \<Rightarrow> world \<Rightarrow> bool" where
  "grown w w' \<longleftrightarrow> (\<exists>u. t_account_dict (w_db w') = t_account_dict (w_db w) @ u)"

lemma rich_ids:
  assumes E: "env_ok E" and st: "rich_state E w" and can: "\<forall>a \<in> set addrs. canonical E a"
    and run: "GetOrCreateAccountIds E addrs True w = (Inr ids, v)"
  shows "rich_state E v" "grown w v" "same_data (w_db w) (w_db v)"
    and "\<forall>a \<in> set addrs. \<exists>b i. b \<noteq> [] \<and> a = to_bech32 E b \<and> ids a = Some i \<and> (i, b) \<in> set (t_account_dict (w_db v))"
proof -
  have inv: "dict_inv (account_dict E) w" using st by (simp add: rich_state_def)
  note c = GetOrCreateAccountIds_create [OF E inv can run]
  have "keeps (\<lambda>v. same_data (w_db w) (w_db v)) (GetOrCreateAccountIds E addrs True)"
    unfolding GetOrCreateAccountIds_eq by (rule keeps_get_or_create) simp
  from keepsD [OF this _ run] show same: "same_data (w_db w) (w_db v)" by simp
  show g: "grown w v" unfolding grown_def by (rule c(2))
  have "fst ` set (t_account_dict (w_db w)) \<subseteq> fst ` set (t_account_dict (w_db v))"
    using g by (simp only: grown_def) (metis image_mono set_append sup_ge1)
  then have "rl_Id ` set (t_rich_list (w_db w)) \<subseteq> fst ` set (t_account_dict (w_db v))"
    using st by (simp only: rich_state_def) (elim conjE, rule order_trans)
  then show "rich_state E v" using c(1) same_dataD(15) [OF same] by (simp only: rich_state_def simp_thms)
  show "\<forall>a \<in> set addrs. \<exists>b i. b \<noteq> [] \<and> a = to_bech32 E b \<and> ids a = Some i \<and> (i, b) \<in> set (t_account_dict (w_db v))"
    by (rule c(3))
qed

text \<open>A new account holds nothing, so the dictionary may grow.\<close>

lemma holding_grown:
  assumes "rich_state E w" "dict_inv (account_dict E) v" "grown w v" "(i, a) \<in> set (t_account_dict (w_db v))"
  shows "holding (w_db w) a denom = amount_at (t_rich_list (w_db w)) (i, denom)"
proof (cases "account_id_at (w_db w) a")
  case (Some j)
  have inv: "dict_inv (account_dict E) w" using assms(1) by (simp add: rich_state_def)
  from Some have "(j, a) \<in> set (t_account_dict (w_db v))" using assms(3) account_id_iff [OF inv] by (auto simp: grown_def)
  with assms(4) have "j = i" using account_id_iff [OF assms(2)] by (metis option.inject)
  with Some show ?thesis by (simp add: holding_def)
next
  case None
  have inv: "dict_inv (account_dict E) w" using assms(1) by (simp add: rich_state_def)
  have "i \<notin> fst ` set (t_account_dict (w_db w))"
  proof
    assume "i \<in> fst ` set (t_account_dict (w_db w))"
    then obtain b where b: "(i, b) \<in> set (t_account_dict (w_db w))" by auto
    then have "(i, b) \<in> set (t_account_dict (w_db v))" using assms(3) by (auto simp: grown_def)
    then have "a = b" using assms(4) account_rowsD(1) [OF assms(2)] by (metis eq_key_imp_eq_value)
    with b None account_id_iff [OF inv] show False by (metis option.distinct(1))
  qed
  then have "i \<notin> rl_Id ` set (t_rich_list (w_db w))" using assms(1) by (auto simp: rich_state_def)
  then show ?thesis using None by (simp add: holding_def amount_absent)
qed

lemma holding_is: "dict_inv (account_dict E) w \<Longrightarrow> (i, a) \<in> set (t_account_dict (w_db w)) \<Longrightarrow>
   holding (w_db w) a denom = amount_at (t_rich_list (w_db w)) (i, denom)"
  using account_id_iff [of E w a i] by (simp add: holding_def)

lemma key_parts: "key = NewBalanceChangeKey E d b \<longleftrightarrow> bck_Denom key = d \<and> bck_Addr key = to_bech32 E b"
  by (cases key) (auto simp: NewBalanceChangeKey_def)

lemma map_get_absent: "k \<notin> set (map_keys m) \<Longrightarrow> map_get m k z = z"
  by (simp add: map_get_def map_of_eq_None_iff [THEN iffD2])

lemma to_bech32_inj: "env_ok E \<Longrightarrow> a \<noteq> [] \<Longrightarrow> b \<noteq> [] \<Longrightarrow> to_bech32 E a = to_bech32 E b \<longleftrightarrow> a = b"
  using inj_on_bech32 [OF env_okD(1)] by (auto dest: inj_onD)

lemma UpdateBalanceChanges_spec:
  assumes E: "env_ok E" and R: "rich_env_ok R" and st: "rich_state E w" and d: "distinct (map_keys m)"
    and can: "\<forall>key \<in> set (map_keys m). canonical E (bck_Addr key)" and run: "UpdateBalanceChanges E R m w = (Inr negs, w')"
  shows "rich_state E w'" "grown w w'" "only_rich (w_db w) (w_db w')"
    "t_rich_list_status (w_db w') = t_rich_list_status (w_db w)"
    "\<And>a denom. a \<noteq> [] \<Longrightarrow> holding (w_db w') a denom = holding (w_db w) a denom + map_get m (NewBalanceChangeKey E denom a) 0"
    "\<And>denom. denom \<in> set negs \<Longrightarrow> \<exists>b. b \<noteq> [] \<and> holding (w_db w') b denom < 0"
proof (atomize (full), goal_cases)
  case 1
  show ?case
  proof (cases "m = []")
    case True
    with run have "negs = []" "w' = w" by (simp_all add: UpdateBalanceChanges_def)
    with True st show ?thesis by (simp add: grown_def)
  next
    case False
    let ?addrs = "map_order E (dedup (map bck_Addr (map_keys m)))" and ?ks = "change_order R (map_keys m)"
    from run False obtain ids v n where ids: "GetOrCreateAccountIds E ?addrs True w = (Inr ids, v)"
      and loop: "foreach (change_balance R ids m) ?ks [] v = (Inr n, w')" and negs: "negs = map_order E n"
      by (auto simp: UpdateBalanceChanges_def bnd_eq_Inr)
    have addrs: "set ?addrs = bck_Addr ` set (map_keys m)" by (simp only: set_map_order [OF E distinct_dedup] set_dedup set_map)
    have canA: "\<forall>a \<in> set ?addrs. canonical E a" using can unfolding addrs by blast
    note v = rich_ids [OF E st canA ids]
    have inv: "dict_inv (account_dict E) v" using v(1) by (simp add: rich_state_def)
    have same: "t_rich_list (w_db v) = t_rich_list (w_db w)" "t_rich_list_status (w_db v) = t_rich_list_status (w_db w)"
      using same_dataD(15,16) [OF v(3)] by simp_all
    have ks: "set ?ks = set (map_keys m)" "distinct ?ks" by (rule set_change_order [OF R d], rule distinct_change_order [OF R d])
    have key_id: "\<exists>b i. b \<noteq> [] \<and> bck_Addr key = to_bech32 E b \<and> ids (bck_Addr key) = Some i \<and> (i, b) \<in> set (t_account_dict (w_db v))"
      if "key \<in> set (map_keys m)" for key using v(4) that unfolding addrs by blast
    have row: "row_of ids key = (i, denom) \<longleftrightarrow> key = NewBalanceChangeKey E denom a"
      if key: "key \<in> set (map_keys m)" and ia: "(i, a) \<in> set (t_account_dict (w_db v))" for key i a denom
    proof -
      obtain b j where b: "b \<noteq> []" "bck_Addr key = to_bech32 E b" "ids (bck_Addr key) = Some j" "(j, b) \<in> set (t_account_dict (w_db v))"
        using key_id [OF key] by blast
      have "a \<noteq> []" by (rule account_rowsD(3) [OF inv ia])
      have "j = i \<longleftrightarrow> b = a" using ia b(4) account_rowsD(1,2) [OF inv] by (metis account_id_iff inv option.inject eq_key_imp_eq_value)
      then show ?thesis using b(1-3) to_bech32_inj [OF E b(1) \<open>a \<noteq> []\<close>] by (auto simp: row_of_def key_parts)
    qed
    have inj: "inj_on (row_of ids) (set ?ks)"
    proof (rule inj_onI)
      fix k k' assume "k \<in> set ?ks" "k' \<in> set ?ks" and eq: "row_of ids k = row_of ids k'"
      then have in_m: "k \<in> set (map_keys m)" "k' \<in> set (map_keys m)" using ks(1) by blast+
      obtain b i where b: "bck_Addr k = to_bech32 E b" "ids (bck_Addr k) = Some i" "(i, b) \<in> set (t_account_dict (w_db v))"
        using key_id [OF in_m(1)] by blast
      have "row_of ids k = (i, bck_Denom k)" using b(2) by (simp add: row_of_def)
      then have "k' = NewBalanceChangeKey E (bck_Denom k) b" "k = NewBalanceChangeKey E (bck_Denom k) b"
        using row [OF in_m(1) b(3)] row [OF in_m(2) b(3)] eq by simp_all
      then show "k = k'" by simp
    qed
    have at_v: "in_rich_list E (w_db v) (t_rich_list (w_db v)) v" using inv by (simp add: in_rich_list_def)
    note w' = change_balances_spec [OF R inj ks(2) at_v loop]
    have db': "w_db w' = (w_db v)\<lparr>t_rich_list := put_ops (row_ops ids m ?ks) (t_rich_list (w_db v))\<rparr>" and inv': "dict_inv (account_dict E) w'"
      using w' by (simp_all add: in_rich_list_def)
    have dict': "t_account_dict (w_db w') = t_account_dict (w_db v)" by (simp add: db')
    have grow: "grown w w'" using v(2) dict' by (simp add: grown_def)
    have holding': "holding (w_db w') a denom = holding (w_db w) a denom + map_get m (NewBalanceChangeKey E denom a) 0"
      if ia: "(i, a) \<in> set (t_account_dict (w_db v))" for i a denom
    proof -
      let ?k = "NewBalanceChangeKey E denom a"
      have "holding (w_db w') a denom = amount_at (t_rich_list (w_db w')) (i, denom)"
        by (rule holding_is [OF inv' ia [folded dict']])
      also have "\<dots> = amount_at (t_rich_list (w_db w)) (i, denom) + sum_at (i, denom) (row_ops ids m ?ks)"
        by (simp add: db' amount_put_ops same(1))
      also have "sum_at (i, denom) (row_ops ids m ?ks) = (if ?k \<in> set ?ks then map_get m ?k 0 else 0)"
        by (rule sum_at_row_ops [OF ks(2)]) (use row [OF _ ia] ks(1) in blast)
      also have "\<dots> = map_get m ?k 0"
        using ks(1) map_get_absent [of ?k m 0] by simp
      also have "amount_at (t_rich_list (w_db w)) (i, denom) = holding (w_db w) a denom"
        by (rule holding_grown [OF st inv v(2) ia, symmetric])
      finally show ?thesis .
    qed
    have "holding (w_db w') a denom = holding (w_db w) a denom + map_get m (NewBalanceChangeKey E denom a) 0" if a: "a \<noteq> []" for a denom
    proof (cases "account_id_at (w_db v) a")
      case (Some i)
      then show ?thesis using holding' account_id_iff [OF inv] by blast
    next
      case None
      then have no: "(i, a) \<notin> set (t_account_dict (w_db v))" for i using account_id_iff [OF inv] by (metis option.distinct(1))
      have "account_id_at (w_db w) a = None"
      proof (cases "account_id_at (w_db w) a")
        case (Some i)
        then have "(i, a) \<in> set (t_account_dict (w_db v))" using account_id_iff [of E w] st v(2) by (auto simp: rich_state_def grown_def)
        with no show ?thesis by blast
      qed
      moreover have "account_id_at (w_db w') a = None" using None by (simp add: account_id_at_def dict')
      moreover have "NewBalanceChangeKey E denom a \<notin> set (map_keys m)"
      proof
        assume "NewBalanceChangeKey E denom a \<in> set (map_keys m)"
        from key_id [OF this] obtain b i where "b \<noteq> []" "to_bech32 E a = to_bech32 E b" "(i, b) \<in> set (t_account_dict (w_db v))"
          by (auto simp: NewBalanceChangeKey_def)
        with no to_bech32_inj [OF E a] show False by blast
      qed
      then have "map_get m (NewBalanceChangeKey E denom a) 0 = 0"
        by (rule map_get_absent)
      ultimately show ?thesis by (simp add: holding_def)
    qed
    moreover have "\<exists>b. b \<noteq> [] \<and> holding (w_db w') b denom < 0" if "denom \<in> set negs" for denom
    proof -
      have "denom \<in> below_zero ids m (t_rich_list (w_db v)) ?ks" using that negs w' set_map_order [OF E, of n] by simp
      then obtain key where key: "key \<in> set (map_keys m)" "denom = bck_Denom key"
        "amount_at (t_rich_list (w_db v)) (row_of ids key) + map_get m key 0 < 0" using ks(1) by (auto simp: below_zero_def)
      obtain b i where b: "b \<noteq> []" "bck_Addr key = to_bech32 E b" "ids (bck_Addr key) = Some i" "(i, b) \<in> set (t_account_dict (w_db v))"
        using key_id [OF key(1)] by blast
      have "row_of ids key = (i, denom)" "key = NewBalanceChangeKey E denom b" using b key(2) by (simp_all add: row_of_def key_parts)
      with key(3) same(1) have "holding (w_db w') b denom < 0"
        using holding' [OF b(4)] holding_grown [OF st inv v(2) b(4)] by simp
      with b(1) show ?thesis by blast
    qed
    moreover have "rich_state E w'"
    proof -
      have "fst ` fst ` set (row_ops ids m ?ks) \<subseteq> fst ` set (t_account_dict (w_db v))"
        using key_id ks(1) by (force simp: row_of_def)
      moreover have "rl_Id ` set (t_rich_list (w_db v)) \<subseteq> fst ` set (t_account_dict (w_db v))" using v(1) by (simp add: rich_state_def)
      ultimately have "rl_Id ` set (put_ops (row_ops ids m ?ks) (t_rich_list (w_db v))) \<subseteq> fst ` set (t_account_dict (w_db v))"
        by (intro order_trans [OF ids_put_ops] Un_least)
      then have "rl_Id ` set (t_rich_list (w_db w')) \<subseteq> fst ` set (t_account_dict (w_db v))" by (simp add: db')
      with inv' show ?thesis by (simp add: rich_state_def dict')
    qed
    moreover have "only_rich (w_db w) (w_db w')" using only_rich_same [OF v(3)] by (simp add: db')
    moreover have "t_rich_list_status (w_db w') = t_rich_list_status (w_db w)" by (simp add: db' same(2))
    ultimately show ?thesis using grow by blast
  qed
qed

end
