(* ===== verification/Rich_Turn.thy ===== *)
theory Rich_Turn
  imports Rich_Proofs
begin

text \<open>
  Turns of the rich list: what a turn, and a run of turns beside the rest of the program, does to the balances.
\<close>

section \<open>The balances of the node\<close>

definition keys_in :: "'k list \<Rightarrow> ('k, 'v) gomap \<Rightarrow> bool" where
  "keys_in ks m \<longleftrightarrow> distinct (map_keys m) \<and> set (map_keys m) \<subseteq> set ks"

lemma keys_in_put: "keys_in ks m \<Longrightarrow> k \<in> set ks \<Longrightarrow> keys_in ks (map_put k v m)"
  unfolding keys_in_def set_map by (simp only: map_put_keys keys_put insert_subset simp_thms)

lemma batch_keys: "queryBatchBalances R c batch h = Inr b \<Longrightarrow> keys_in batch b"
  unfolding queryBatchBalances_def rbind_eq_Inr
proof (elim exE conjE, erule rfold_inv [of _ _ _ _ "keys_in batch"])
  fix r m m' assume "keys_in batch m" and "(if rpc_ID r = 0 then Inr m
       else if rpc_ID r < 1 \<or> int (length batch) < rpc_ID r then Inl (Err ''received response with unexpected ID'')
       else if rpc_Error r \<noteq> None then Inl (Err ''JSON-RPC error for address'')
       else rbind (ParseHexAmountToSDKInt R (rpc_Result r)) (\<lambda>balance. case balance of
           None \<Rightarrow> Inl (Err ''failed to parse balance for address'')
         | Some n \<Rightarrow> Inr (map_put (batch ! nat (rpc_ID r - 1)) n m))) = Inr m'"
  then show "keys_in batch m'" by (auto simp: rbind_eq_Inr intro!: keys_in_put split: if_splits option.splits)
qed (simp add: keys_in_def)

lemma erc20_keys: "queryERC20Balances R c addrs h = Inr b \<Longrightarrow> keys_in addrs b"
  unfolding queryERC20Balances_def
proof (erule rfold_inv [of _ _ _ _ "keys_in addrs"])
  fix batch m m' assume batch: "batch \<in> set (chunks 500 addrs)" and m: "keys_in addrs m"
    and step: "(case queryBatchBalances R c batch h of Inl e \<Rightarrow> Inl (Wrapped ''failed to query batch'' e)
      | Inr b \<Rightarrow> Inr (fold (\<lambda>(a, n). map_put a n) b m)) = Inr m'"
  have "set batch \<subseteq> set (concat (chunks 500 addrs))" using batch by (simp only: set_concat) blast
  then have sub: "set batch \<subseteq> set addrs" by (simp only: concat_chunks zero_less_numeral)
  from step obtain b where b: "queryBatchBalances R c batch h = Inr b" "m' = fold (\<lambda>(a, n). map_put a n) b m"
    by (auto split: sum.splits)
  have "set (map_keys b) \<subseteq> set addrs" using batch_keys [OF b(1)] sub by (auto simp: keys_in_def)
  then show "keys_in addrs m'" unfolding b(2) using m
    by (induction b arbitrary: m) (auto simp: keys_in_put)
qed (simp add: keys_in_def)


section \<open>After the changes\<close>

text \<open>Only rows of the negative denoms may be replaced, and only those of known accounts.\<close>

definition corrected :: "env \<Rightarrow> db \<Rightarrow> string list \<Rightarrow> world \<Rightarrow> bool" where
  "corrected E d negs w \<longleftrightarrow> (\<exists>t. in_rich_list E d t w \<and> rl_Id ` set t \<subseteq> fst ` set (t_account_dict d) \<and>
     (\<forall>i denom. denom \<notin> set negs \<longrightarrow> amount_at t (i, denom) = amount_at (t_rich_list d) (i, denom)))"

lemma corrected_ff [simp]: "fault_free (corrected E d negs)"
  using fault_freeD [OF in_rich_list_ff] by (simp add: fault_free_def corrected_def)

lemma ids_upsert: "rl_Id ` set (upsert_row rl_key r t) \<subseteq> insert (rl_Id r) (rl_Id ` set t)"
  by (auto simp: upsert_row_def)

lemma corrected_put:
  assumes "corrected E d negs w" "rl_Denom r \<in> set negs" "rl_Id r \<in> fst ` set (t_account_dict d)"
  shows "corrected E d negs (w\<lparr>w_db := (w_db w)\<lparr>t_rich_list := upsert_row rl_key r (t_rich_list (w_db w))\<rparr>\<rparr>)"
proof -
  from assms(1) obtain t where t: "in_rich_list E d t w" "rl_Id ` set t \<subseteq> fst ` set (t_account_dict d)"
    "\<forall>i denom. denom \<notin> set negs \<longrightarrow> amount_at t (i, denom) = amount_at (t_rich_list d) (i, denom)"
    unfolding corrected_def by blast
  have "t_rich_list (w_db w) = t" using t(1) by (simp add: in_rich_list_def)
  moreover have "rl_Id ` set (upsert_row rl_key r t) \<subseteq> fst ` set (t_account_dict d)"
    by (rule order_trans [OF ids_upsert], rule insert_subsetI) (fact assms(3), fact t(2))
  moreover have "amount_at (upsert_row rl_key r t) (i, denom) = amount_at t (i, denom)" if "denom \<notin> set negs" for i denom
    using assms(2) that by (auto simp: amount_at_def row_at_upsert rl_key_def)
  ultimately show ?thesis unfolding corrected_def using in_rich_list_put [OF t(1)] t(3) by metis
qed

lemma keeps_UpdateBalances:
  assumes R: "rich_env_ok R" and b: "keys_in addrs b" and denom: "denom \<in> set negs"
    and ids: "awi_Id ` set addrs \<subseteq> fst ` set (t_account_dict d)"
  shows "keeps (corrected E d negs) (UpdateBalances R denom b)"
  unfolding UpdateBalances_def
proof (intro keeps_foreach keeps_wrap keeps_exec)
  fix a u w assume a: "a \<in> set (holder_order R (map_keys b))" and w: "corrected E d negs w"
  have "a \<in> set addrs" using a b set_holder_order [OF R, of "map_keys b"] by (auto simp: keys_in_def)
  then have "awi_Id a \<in> fst ` set (t_account_dict d)" using ids by blast
  then show "corrected E d negs (w\<lparr>w_db := (w_db w)\<lparr>t_rich_list := upsert_row rl_key
       \<lparr>rl_Id = awi_Id a, rl_Denom = denom, rl_Amount = map_get b a 0\<rparr> (t_rich_list (w_db w))\<rparr>\<rparr>)"
    using denom by (intro corrected_put [OF w]) simp_all
qed simp

lemma keeps_bnd_val:
  assumes "keeps P m" "\<And>x w w'. m w = (Inr x, w') \<Longrightarrow> P w \<Longrightarrow> keeps P (f x)"
  shows "keeps P (bnd m f)"
proof (rule keepsI)
  fix w r w' assume w: "P w" "bnd m f w = (r, w')"
  obtain q u where q: "m w = (q, u)" by fastforce
  with assms(1) w(1) have u: "P u" by (auto dest: keepsD)
  show "P w'"
  proof (cases q)
    case (Inl e)
    with q w(2) u show ?thesis by simp
  next
    case (Inr x)
    with q w(2) have "f x u = (r, w')" by simp
    with assms(2) [OF q [unfolded Inr] w(1)] u show ?thesis by (auto dest: keepsD)
  qed
qed

lemma keeps_AfterProcess:
  assumes R: "rich_env_ok R"
  shows "keeps (corrected E d negs) (AfterProcess_evm E R cfg h negs)"
  unfolding AfterProcess_evm_def
proof (rule keeps_if, rule keeps_ret, rule keeps_bnd_val)
  show "keeps (corrected E d negs) (GetAllAddresses E (cfg_VmType cfg))"
    unfolding GetAllAddresses_def by (intro keeps_intros) simp
next
  fix addrs w w' assume all: "GetAllAddresses E (cfg_VmType cfg) w = (Inr addrs, w')" and w: "corrected E d negs w"
  from all obtain rows u where q: "query t_account_dict w = (Inr rows, u)" and
    addrs: "addrs = map (\<lambda>(i, account). NewAddressWithID E account i)
       (filter (\<lambda>(i, account). \<not> (cfg_VmType cfg = EVM \<and> length account > 20)) rows)"
    by (auto simp: GetAllAddresses_def bnd_eq_Inr)
  have "rows = t_account_dict (w_db w)" using hoareD [OF hoare_query refl q] by blast
  then have "awi_Id ` set addrs \<subseteq> fst ` set (t_account_dict (w_db w))"
    unfolding addrs by (force simp: NewAddressWithID_def)
  moreover have "t_account_dict (w_db w) = t_account_dict d" using w by (auto simp: corrected_def in_rich_list_def)
  ultimately have ids: "awi_Id ` set addrs \<subseteq> fst ` set (t_account_dict d)" by simp
  show "keeps (corrected E d negs) (foreach (\<lambda>negativeDenom _.
      bnd (lift_res (queryERC20Balances R negativeDenom addrs h)) (UpdateBalances R negativeDenom)) negs ())"
    by (intro keeps_foreach keeps_bnd_val keeps_lift) (auto intro: keeps_UpdateBalances [OF R _ _ ids] dest: erc20_keys)
qed

lemma AfterProcess_spec:
  assumes R: "rich_env_ok R" and st: "rich_state E w" and run: "AfterProcess E R cfg h negs w = (Inr (), w')"
  shows "rich_state E w'" "t_account_dict (w_db w') = t_account_dict (w_db w)" "only_rich (w_db w) (w_db w')"
    "t_rich_list_status (w_db w') = t_rich_list_status (w_db w)"
    "\<And>i denom. cfg_VmType cfg \<noteq> EVM \<or> denom \<notin> set negs \<Longrightarrow>
       amount_at (t_rich_list (w_db w')) (i, denom) = amount_at (t_rich_list (w_db w)) (i, denom)"
proof (atomize (full), goal_cases)
  case 1
  show ?case
  proof (cases "cfg_VmType cfg = EVM")
    case False
    with run have "w' = w" by (cases "cfg_VmType cfg") (simp_all add: AfterProcess_def)
    with st show ?thesis by simp
  next
    case True
    with run have run': "AfterProcess_evm E R cfg h negs w = (Inr (), w')" by (simp add: AfterProcess_def)
    have "corrected E (w_db w) negs w" using st by (auto simp: corrected_def in_rich_list_def rich_state_def intro: exI [of _ "t_rich_list (w_db w)"])
    from keepsD [OF keeps_AfterProcess [OF R] this run'] obtain t
      where t: "in_rich_list E (w_db w) t w'" "rl_Id ` set t \<subseteq> fst ` set (t_account_dict (w_db w))"
        "\<forall>i denom. denom \<notin> set negs \<longrightarrow> amount_at t (i, denom) = amount_at (t_rich_list (w_db w)) (i, denom)"
      unfolding corrected_def by blast
    from t(1) have db': "w_db w' = (w_db w)\<lparr>t_rich_list := t\<rparr>" and inv: "dict_inv (account_dict E) w'"
      by (simp_all add: in_rich_list_def)
    show ?thesis using t(2,3) inv True by (simp add: db' rich_state_def)
  qed
qed

lemma status_spec:
  assumes run: "UpdateRichListStatus h w = (Inr (), w')" and st: "rich_state E w"
  shows "rich_state E w'" "\<exists>s. w_db w' = (w_db w)\<lparr>t_rich_list_status := s\<rparr>"
    "h \<noteq> 0 \<Longrightarrow> length (t_rich_list_status (w_db w)) \<le> 1 \<Longrightarrow> t_rich_list_status (w_db w') = [\<lparr>rls_Height = h\<rparr>]"
proof (atomize (full))
  let ?q = "\<lambda>d. order_asc rls_Height (t_rich_list_status d)"
  define P where "P = (\<lambda>v. dict_inv (account_dict E) v)"
  have ff: "fault_free P" unfolding P_def by (rule dict_inv_ff)
  have put: "P v \<Longrightarrow> P (v\<lparr>w_db := (w_db v)\<lparr>t_rich_list_status := s\<rparr>\<rparr>)" for v s
    by (simp add: P_def dict_inv_def account_dict_def)
  obtain r u where f: "first_row ?q w = (r, u)" by fastforce
  have Pu: "P u" using keepsD [OF keeps_first_row [OF ff] _ f] st by (simp add: P_def rich_state_def)
  have "\<exists>s. w_db w' = (w_db w)\<lparr>t_rich_list_status := s\<rparr> \<and> P w' \<and> (h \<noteq> 0 \<longrightarrow> length (t_rich_list_status (w_db w)) \<le> 1 \<longrightarrow> s = [\<lparr>rls_Height = h\<rparr>])"
  proof (cases r)
    case (Inl e)
    note h' = hoareD_err [OF hoare_first_row refl f [unfolded Inl]]
    from run f Inl have nf: "errors_is e RecordNotFound" and
      ex: "exec (\<lambda>d. d\<lparr>t_rich_list_status := t_rich_list_status d @ [\<lparr>rls_Height = h\<rparr>]\<rparr>) u = (Inr (), w')"
      by (auto simp: UpdateRichListStatus_def split: if_splits)
    have "mset (?q (w_db w)) = mset (t_rich_list_status (w_db w))" by simp
    then have "t_rich_list_status (w_db w) = []" using h' nf by simp
    moreover have "w_db w' = (w_db u)\<lparr>t_rich_list_status := t_rich_list_status (w_db u) @ [\<lparr>rls_Height = h\<rparr>]\<rparr>"
      by (rule hoareD [OF hoare_exec refl ex])
    moreover have "P w'" by (rule keepsD [OF keeps_exec [OF ff put] Pu ex])
    ultimately show ?thesis using h' by auto
  next
    case (Inr x)
    note h' = hoareD [OF hoare_first_row refl f [unfolded Inr]]
    show ?thesis
    proof (cases "h = 0")
      case True
      with run f Inr have "w' = u" by (simp add: UpdateRichListStatus_def)
      with h' Pu True show ?thesis by (auto intro: exI [of _ "t_rich_list_status (w_db w)"])
    next
      case False
      with run f Inr have ex: "exec (\<lambda>d. d\<lparr>t_rich_list_status := map (\<lambda>_. \<lparr>rls_Height = h\<rparr>) (t_rich_list_status d)\<rparr>) u = (Inr (), w')"
        by (simp add: UpdateRichListStatus_def)
      have w': "w_db w' = (w_db u)\<lparr>t_rich_list_status := map (\<lambda>_. \<lparr>rls_Height = h\<rparr>) (t_rich_list_status (w_db u))\<rparr>"
        by (rule hoareD [OF hoare_exec refl ex])
      have "set (?q (w_db w)) \<noteq> {}" using h' by fastforce
      then have "t_rich_list_status (w_db w) \<noteq> []" by simp
      then have "length (t_rich_list_status (w_db w)) \<le> 1 \<Longrightarrow> map (\<lambda>_. \<lparr>rls_Height = h\<rparr>) (t_rich_list_status (w_db w)) = [\<lparr>rls_Height = h\<rparr>]"
        by (cases "t_rich_list_status (w_db w)") auto
      moreover have "P w'" by (rule keepsD [OF keeps_exec [OF ff put] Pu ex])
      ultimately show ?thesis using h' w' by auto
    qed
  qed
  then obtain s where s: "w_db w' = (w_db w)\<lparr>t_rich_list_status := s\<rparr>" "P w'"
    "h \<noteq> 0 \<longrightarrow> length (t_rich_list_status (w_db w)) \<le> 1 \<longrightarrow> s = [\<lparr>rls_Height = h\<rparr>]" by blast
  then show "rich_state E w' \<and> (\<exists>s. w_db w' = (w_db w)\<lparr>t_rich_list_status := s\<rparr>) \<and>
    (h \<noteq> 0 \<longrightarrow> length (t_rich_list_status (w_db w)) \<le> 1 \<longrightarrow> t_rich_list_status (w_db w') = [\<lparr>rls_Height = h\<rparr>])"
    using st s by (intro conjI exI [of _ s]) (simp_all add: rich_state_def P_def)
qed

section \<open>A turn\<close>

definition txs_at :: "int \<Rightarrow> db \<Rightarrow> CollectedTx list" where
  "txs_at h d = order_asc tx_Sequence (filter (\<lambda>t. tx_Height t = h) (t_tx d))"

text \<open>By how much the transactions of a block change what an address holds of a denom.\<close>

definition net :: "env \<Rightarrow> rich_env \<Rightarrow> config \<Rightarrow> byte list list \<Rightarrow> db \<Rightarrow> int \<Rightarrow> byte list \<Rightarrow> string \<Rightarrow> int" where
  "net E R cfg mods d h a denom = sum_at (NewBalanceChangeKey E denom a) (balance_ops E R cfg mods (txs_at h d))"

definition turned :: "env \<Rightarrow> rich_env \<Rightarrow> config \<Rightarrow> byte list list \<Rightarrow> int \<Rightarrow> world \<Rightarrow> world \<Rightarrow> bool" where
  "turned E R cfg mods h w w' \<longleftrightarrow> rich_state E w' \<and> grown w w' \<and> only_rich (w_db w) (w_db w') \<and>
     (h \<noteq> 0 \<longrightarrow> length (t_rich_list_status (w_db w)) \<le> 1 \<longrightarrow> t_rich_list_status (w_db w') = [\<lparr>rls_Height = h\<rparr>]) \<and>
     (\<forall>a denom. a \<noteq> [] \<longrightarrow>
        (cfg_VmType cfg = EVM \<longrightarrow> (\<forall>b. b \<noteq> [] \<longrightarrow> 0 \<le> holding (w_db w) b denom + net E R cfg mods (w_db w) h b denom)) \<longrightarrow>
        holding (w_db w') a denom = holding (w_db w) a denom + net E R cfg mods (w_db w) h a denom)"

lemma turnedD: "turned E R cfg mods h w w' \<Longrightarrow> a \<noteq> [] \<Longrightarrow>
   (cfg_VmType cfg = EVM \<longrightarrow> (\<forall>b. b \<noteq> [] \<longrightarrow> 0 \<le> holding (w_db w) b denom + net E R cfg mods (w_db w) h b denom)) \<Longrightarrow>
   holding (w_db w') a denom = holding (w_db w) a denom + net E R cfg mods (w_db w) h a denom"
proof -
  assume t: "turned E R cfg mods h w w'" and a: "a \<noteq> []"
    and pos: "cfg_VmType cfg = EVM \<longrightarrow> (\<forall>b. b \<noteq> [] \<longrightarrow> 0 \<le> holding (w_db w) b denom + net E R cfg mods (w_db w) h b denom)"
  note all = conjunct2 [OF conjunct2 [OF conjunct2 [OF conjunct2 [OF t [unfolded turned_def]]]]]
  show ?thesis by (rule mp [OF mp [OF spec [OF spec [OF all, of a], of denom] a] pos])
qed

lemma holding_cong: "t_account_dict d = t_account_dict d' \<Longrightarrow> (\<And>i. amount_at (t_rich_list d) (i, denom) = amount_at (t_rich_list d') (i, denom)) \<Longrightarrow>
   holding d a denom = holding d' a denom"
  by (simp add: holding_def account_id_at_def split: option.split)

lemma rich_body_spec:
  assumes E: "env_ok E" and R: "rich_env_ok R" and st: "rich_state E w" and run: "rich_body E R cfg mods h w = (Inr (), w')"
  shows "turned E R cfg mods h w w'"
proof -
  from run obtain txs u m v negs x where txs: "GetBlockCollectedTxs h w = (Inr txs, u)"
    and m: "ProcessBalanceChanges E R cfg mods txs = Inr m"
    and up: "UpdateBalanceChanges E R m u = (Inr negs, v)" and after: "AfterProcess E R cfg h negs v = (Inr (), x)"
    and fin: "UpdateRichListStatus h x = (Inr (), w')"
    by (auto simp: rich_body_def bnd_eq_Inr)
  have u: "txs = txs_at h (w_db w)" "w_db u = w_db w"
    using hoareD [OF hoare_query refl txs [unfolded GetBlockCollectedTxs_def]] by (simp_all add: txs_at_def)
  have "keeps (\<lambda>w. dict_inv (account_dict E) w) (GetBlockCollectedTxs h)"
    unfolding GetBlockCollectedTxs_def by (rule keeps_query [OF dict_inv_ff])
  from keepsD [OF this _ txs] st have su: "rich_state E u" by (simp add: rich_state_def u(2))
  have ops: "add_ops R (balance_ops E R cfg mods txs) [] = Inr m" by (rule ProcessBalanceChanges_ops [OF m])
  note keys = add_ops_keys [OF ops, simplified]
  have can: "\<forall>key \<in> set (map_keys m). canonical E (bck_Addr key)"
    using balance_keys [OF E] keys by (simp add: keys_canonical_def)
  note v = UpdateBalanceChanges_spec [OF E R su conjunct1 [OF keys] can up]
  note x = AfterProcess_spec [OF R v(1) after]
  note w' = status_spec [OF fin x(1)]
  obtain s where s: "w_db w' = (w_db x)\<lparr>t_rich_list_status := s\<rparr>" using w'(2) by blast
  have "only_rich (w_db w) (w_db w')"
    using only_rich_trans [OF v(3) x(3)] by (simp add: s u(2))
  moreover have "grown w w'" using v(2) x(2) by (simp add: grown_def s u(2))
  moreover have "t_rich_list_status (w_db w') = [\<lparr>rls_Height = h\<rparr>]"
    if "h \<noteq> 0" "length (t_rich_list_status (w_db w)) \<le> 1"
    using w'(3) [OF that(1)] that(2) by (simp add: x(4) v(4) u(2))
  moreover have "holding (w_db w') a denom = holding (w_db w) a denom + net E R cfg mods (w_db w) h a denom"
    if a: "a \<noteq> []" and pos: "cfg_VmType cfg = EVM \<longrightarrow> (\<forall>b. b \<noteq> [] \<longrightarrow> 0 \<le> holding (w_db w) b denom + net E R cfg mods (w_db w) h b denom)"
    for a denom
  proof -
    have vh: "holding (w_db v) b denom = holding (w_db w) b denom + net E R cfg mods (w_db w) h b denom" if "b \<noteq> []" for b
      using v(5) [OF that] changes_total [OF R m] by (simp add: net_def u)
    have "cfg_VmType cfg \<noteq> EVM \<or> denom \<notin> set negs"
    proof (rule ccontr)
      assume "\<not> ?thesis"
      then have "cfg_VmType cfg = EVM" "denom \<in> set negs" by simp_all
      with v(6) obtain b where "b \<noteq> []" "holding (w_db v) b denom < 0" by blast
      with pos vh \<open>cfg_VmType cfg = EVM\<close> show False by force
    qed
    then have "holding (w_db x) a denom = holding (w_db v) a denom" by (intro holding_cong x(2) x(5)) simp
    moreover have "holding (w_db w') a denom = holding (w_db x) a denom" by (rule holding_cong) (simp_all add: s)
    ultimately show ?thesis using vh [OF a] by (simp only:)
  qed
  ultimately show ?thesis using w'(1) unfolding turned_def by blast
qed

section \<open>Turns beside the rest of the program\<close>

text \<open>
  What the rest of the program does during a pause: it adds accounts, blocks and their transactions, and leaves
  the tables of the rich list and the transactions of stored blocks alone.
\<close>

definition in_chain :: "string \<Rightarrow> db \<Rightarrow> int \<Rightarrow> bool" where
  "in_chain chainId d h \<longleftrightarrow> (\<exists>b \<in> set (t_block d). blk_ChainId b = chainId \<and> blk_Height b = h)"

definition beside :: "env \<Rightarrow> string \<Rightarrow> world \<Rightarrow> world \<Rightarrow> bool" where
  "beside E chainId w w' \<longleftrightarrow> grown w w' \<and> (dict_inv (account_dict E) w \<longrightarrow> dict_inv (account_dict E) w') \<and>
     t_rich_list (w_db w') = t_rich_list (w_db w) \<and> t_rich_list_status (w_db w') = t_rich_list_status (w_db w) \<and>
     (\<forall>h. in_chain chainId (w_db w) h \<longrightarrow> in_chain chainId (w_db w') h \<and> txs_at h (w_db w') = txs_at h (w_db w))"

lemma grown_refl [simp]: "grown w w"
  and grown_trans: "grown u v \<Longrightarrow> grown v w \<Longrightarrow> grown u w"
  by (auto simp: grown_def)

lemma beside_refl [simp]: "beside E c w w"
  by (simp add: beside_def)

lemma beside_trans: "beside E c u v \<Longrightarrow> beside E c v w \<Longrightarrow> beside E c u w"
  unfolding beside_def using grown_trans by (metis (no_types, lifting))

lemma beside_faults: "beside E c w (w\<lparr>w_faults := fs\<rparr>)"
  using fault_freeD [OF dict_inv_ff] by (simp add: beside_def grown_def)

lemma beside_rich_state:
  assumes "beside E c w w'" "rich_state E w"
  shows "rich_state E w'"
proof -
  have "fst ` set (t_account_dict (w_db w)) \<subseteq> fst ` set (t_account_dict (w_db w'))"
    using assms(1) by (simp only: beside_def grown_def) (metis image_mono set_append sup_ge1)
  then show ?thesis using assms by (simp only: beside_def rich_state_def) (elim conjE, intro conjI, blast, simp)
qed

lemma beside_holding:
  assumes b: "beside E c w w'" and st: "rich_state E w"
  shows "holding (w_db w') a denom = holding (w_db w) a denom"
proof (cases "account_id_at (w_db w') a")
  case (Some i)
  have inv: "dict_inv (account_dict E) w'" using beside_rich_state [OF assms] by (simp add: rich_state_def)
  have i: "(i, a) \<in> set (t_account_dict (w_db w'))" using Some account_id_iff [OF inv] by blast
  have g: "grown w w'" using b by (simp add: beside_def)
  show ?thesis using holding_grown [OF st inv g i] holding_is [OF inv i] b by (simp add: beside_def)
next
  case None
  have "find (\<lambda>r. snd r = a) (t_account_dict (w_db w)) = None"
    using None b by (auto simp: account_id_at_def beside_def grown_def find_None_iff)
  with None show ?thesis by (simp add: holding_def account_id_at_def)
qed

lemma first_row_world: "first_row q w = (r, w') \<Longrightarrow> \<exists>fs. w' = w\<lparr>w_faults := fs\<rparr>"
  and query_world: "query f w = (s, w') \<Longrightarrow> \<exists>fs. w' = w\<lparr>w_faults := fs\<rparr>"
  and ctx_world: "ctx_check w = (t, w') \<Longrightarrow> \<exists>fs. w' = w\<lparr>w_faults := fs\<rparr>"
  unfolding first_row_def query_def ctx_check_def stmt_def
  by (auto split: list.splits option.splits intro: exI [of _ "w_faults w"])

text \<open>While a turn waits only the rest of the program acts; then the block and one five above it are stored.\<close>

lemma wait_spec:
  assumes "\<forall>f \<in> set sleeps. \<forall>w. beside E c w (f w)" "GetCollectedBlock c h sleeps w = (r, w')"
  shows "beside E c w w' \<and> (\<forall>b. r = Inr (Some b) \<longrightarrow> in_chain c (w_db w') h)"
  using assms
proof (induction c h sleeps arbitrary: w r w' rule: GetCollectedBlock.induct)
  case (1 c h sleeps)
  define again where "again = (case sleeps of [] \<Rightarrow> ret None
        | others # rest \<Rightarrow> bnd (modify others) (\<lambda>_. bnd ctx_check (\<lambda>_. GetCollectedBlock c h rest)))"
  let ?q = "\<lambda>d. filter (\<lambda>b. blk_ChainId b = c \<and> blk_Height b = h) (t_block d)"
  have again: "beside E c v v' \<and> (\<forall>b. r = Inr (Some b) \<longrightarrow> in_chain c (w_db v') h)" if run: "again v = (r, v')" for v r v'
  proof (cases sleeps)
    case Nil
    with run show ?thesis by (auto simp: again_def)
  next
    case (Cons f fs)
    obtain t x where t: "ctx_check (f v) = (t, x)" by fastforce
    have x: "beside E c v x" using ctx_world [OF t] "1.prems"(1) Cons beside_faults beside_trans
      by (metis list.set_intros(1))
    show ?thesis
    proof (cases t)
      case (Inl e)
      with run Cons t have "v' = x" "r = Inl e" by (simp_all add: again_def bnd_def)
      with x show ?thesis by simp
    next
      case (Inr y)
      with run Cons t have g: "GetCollectedBlock c h fs x = (r, v')" by (simp add: again_def bnd_def)
      have "beside E c x v' \<and> (\<forall>b. r = Inr (Some b) \<longrightarrow> in_chain c (w_db v') h)"
        by (rule "1.IH" [OF Cons]) (use "1.prems"(1) Cons g in auto)
      with x show ?thesis using beside_trans by blast
    qed
  qed
  obtain t x where t: "ctx_check w = (t, x)" by fastforce
  have x: "beside E c w x" using ctx_world [OF t] beside_faults by blast
  note run = "1.prems"(2) [unfolded GetCollectedBlock.simps [of c h sleeps] Let_def, folded again_def]
  show ?case
  proof (cases t)
    case (Inl e)
    with run t have "w' = x" "r = Inl e" by (simp_all add: bnd_def)
    with x show ?thesis by simp
  next
    case (Inr z)
    obtain q y where q: "first_row ?q x = (q, y)" by fastforce
    have y: "beside E c w y" using first_row_world [OF q] x beside_faults beside_trans by metis
    show ?thesis
    proof (cases q)
      case (Inl e)
      with run t Inr q show ?thesis using again [of y r w'] y beside_trans
        by (auto simp: bnd_def split: if_splits)
    next
      case (Inr b)
      from hoareD [OF hoare_first_row refl q [unfolded Inr]] have b: "b \<in> set (?q (w_db y))" by (metis list.set_intros(1))
      obtain l v where l: "GetLatestCollectedBlock c y = (l, v)" by fastforce
      have v': "\<exists>fs. v = y\<lparr>w_faults := fs\<rparr>"
        using l query_world unfolding GetLatestCollectedBlock_def bnd_def
        by (auto split: prod.splits sum.splits option.splits)
      then have v: "beside E c w v" using y beside_faults beside_trans by metis
      have st: "in_chain c (w_db v) h" using v' b by (auto simp: in_chain_def)
      from run t \<open>t = Inr z\<close> q Inr l show ?thesis using again [of v r w'] v st beside_trans
        by (auto simp: bnd_def split: sum.splits if_splits)
    qed
  qed
qed

lemma rich_turn_spec:
  assumes E: "env_ok E" and R: "rich_env_ok R" and st: "rich_state E w" and sl: "\<forall>f \<in> set sleeps. \<forall>w. beside E (cfg_ChainId cfg) w (f w)"
    and run: "rich_turn E R cfg mods sleeps h w = (Inr True, w')"
  shows "\<exists>v x. beside E (cfg_ChainId cfg) w v \<and> in_chain (cfg_ChainId cfg) (w_db v) h \<and> turned E R cfg mods h v x \<and> beside E (cfg_ChainId cfg) x w' \<and> w_db w' = w_db x"
proof -
  from run obtain b v where b: "GetCollectedBlock (cfg_ChainId cfg) h sleeps w = (Inr (Some b), v)"
    and body: "transaction (rich_body E R cfg mods h) v = (Inr (), w')"
    by (auto simp: rich_turn_def bnd_eq_Inr split: option.splits)
  note v = wait_spec [OF sl b]
  from transaction_Inr [OF body] obtain x where x: "rich_body E R cfg mods h v = (Inr (), x)" "w_db w' = w_db x" "only_db x w'" by blast
  have "turned E R cfg mods h v x" by (rule rich_body_spec [OF E R beside_rich_state [OF conjunct1 [OF v] st] x(1)])
  moreover have "dict_inv (account_dict E) x \<longrightarrow> dict_inv (account_dict E) w'"
    using x(2) only_dbD(1,6) [OF x(3)] by (simp add: dict_inv_def account_dict_def)
  then have "beside E (cfg_ChainId cfg) x w'" using x(2) by (simp add: beside_def grown_def)
  ultimately show ?thesis using v x(2) by blast
qed

section \<open>A run\<close>

definition same_blocks :: "string \<Rightarrow> world \<Rightarrow> world \<Rightarrow> bool" where
  "same_blocks c w w' \<longleftrightarrow> (\<forall>h. in_chain c (w_db w) h \<longrightarrow> in_chain c (w_db w') h \<and> txs_at h (w_db w') = txs_at h (w_db w))"

lemma same_blocks_trans: "same_blocks c u v \<Longrightarrow> same_blocks c v w \<Longrightarrow> same_blocks c u w"
  by (simp add: same_blocks_def)

lemma same_blocks_beside: "beside E c w w' \<Longrightarrow> same_blocks c w w'"
  by (simp add: beside_def same_blocks_def)

lemma same_blocks_turned: "turned E R cfg mods h w w' \<Longrightarrow> same_blocks c w w'"
  using only_richD [of "w_db w" "w_db w'"] by (simp add: turned_def same_blocks_def in_chain_def txs_at_def)

lemma net_cong: "txs_at h d = txs_at h d' \<Longrightarrow> net E R cfg mods d h a denom = net E R cfg mods d' h a denom"
  by (simp add: net_def)

lemma turn_summary:
  assumes E: "env_ok E" and R: "rich_env_ok R" and st: "rich_state E w"
    and sl: "\<forall>f \<in> set sleeps. \<forall>w. beside E (cfg_ChainId cfg) w (f w)" and run: "rich_turn E R cfg mods sleeps h w = (Inr True, w')"
  shows "rich_state E w'" "same_blocks (cfg_ChainId cfg) w w'" "in_chain (cfg_ChainId cfg) (w_db w') h"
    "h \<noteq> 0 \<Longrightarrow> length (t_rich_list_status (w_db w)) \<le> 1 \<Longrightarrow> t_rich_list_status (w_db w') = [\<lparr>rls_Height = h\<rparr>]"
    "\<And>a denom. a \<noteq> [] \<Longrightarrow> (cfg_VmType cfg = EVM \<longrightarrow> (\<forall>b. b \<noteq> [] \<longrightarrow> 0 \<le> holding (w_db w) b denom + net E R cfg mods (w_db w') h b denom)) \<Longrightarrow>
       holding (w_db w') a denom = holding (w_db w) a denom + net E R cfg mods (w_db w') h a denom"
proof -
  let ?c = "cfg_ChainId cfg"
  from rich_turn_spec [OF E R st sl run] obtain v x where v: "beside E ?c w v" "in_chain ?c (w_db v) h"
    and x: "turned E R cfg mods h v x" "beside E ?c x w'" "w_db w' = w_db x" by blast
  have sx: "rich_state E x" using x(1) by (simp add: turned_def)
  show "rich_state E w'" by (rule beside_rich_state [OF x(2) sx])
  have sb: "same_blocks ?c v w'" using same_blocks_trans [OF same_blocks_turned [OF x(1)] same_blocks_beside [OF x(2)]] .
  show "same_blocks ?c w w'" by (rule same_blocks_trans [OF same_blocks_beside [OF v(1)] sb])
  show "in_chain ?c (w_db w') h" using sb v(2) by (simp add: same_blocks_def)
  show "t_rich_list_status (w_db w') = [\<lparr>rls_Height = h\<rparr>]" if "h \<noteq> 0" "length (t_rich_list_status (w_db w)) \<le> 1"
    using x(1,3) v(1) that by (simp add: turned_def beside_def)
  have n: "net E R cfg mods (w_db w') h b denom = net E R cfg mods (w_db v) h b denom" for b denom
    using sb v(2) by (intro net_cong) (simp add: same_blocks_def)
  show "holding (w_db w') a denom = holding (w_db w) a denom + net E R cfg mods (w_db w') h a denom"
    if "a \<noteq> []" "cfg_VmType cfg = EVM \<longrightarrow> (\<forall>b. b \<noteq> [] \<longrightarrow> 0 \<le> holding (w_db w) b denom + net E R cfg mods (w_db w') h b denom)" for a denom
  proof -
    have hv: "holding (w_db w) b denom = holding (w_db v) b denom" for b by (rule beside_holding [OF v(1) st, symmetric])
    show ?thesis unfolding n hv unfolding x(3) by (rule turnedD [OF x(1) that(1) that(2) [unfolded n hv]])
  qed
qed

lemma waiting_turn:
  assumes "\<forall>f \<in> set sleeps. \<forall>w. beside E (cfg_ChainId cfg) w (f w)" "rich_turn E R cfg mods sleeps h w = (Inr False, w')"
  shows "beside E (cfg_ChainId cfg) w w'"
proof -
  from assms(2) have "GetCollectedBlock (cfg_ChainId cfg) h sleeps w = (Inr None, w')"
    by (auto simp: rich_turn_def bnd_eq_Inr split: option.splits)
  from wait_spec [OF assms(1) this] show ?thesis by simp
qed

text \<open>A turn that fails leaves both tables as the rest of the program left them.\<close>

lemma failed_turn:
  assumes "\<forall>f \<in> set sleeps. \<forall>w. beside E (cfg_ChainId cfg) w (f w)" "rich_turn E R cfg mods sleeps h w = (Inl e, w')"
  shows "t_rich_list (w_db w') = t_rich_list (w_db w) \<and> t_rich_list_status (w_db w') = t_rich_list_status (w_db w)"
proof -
  obtain r v where b: "GetCollectedBlock (cfg_ChainId cfg) h sleeps w = (r, v)" by fastforce
  have v: "beside E (cfg_ChainId cfg) w v" using wait_spec [OF assms(1) b] by blast
  have "w_db w' = w_db v"
  proof (cases r)
    case (Inl e')
    with assms(2) b show ?thesis by (simp add: rich_turn_def)
  next
    case (Inr blk)
    with assms(2) b obtain x where "blk = Some x" "bnd (transaction (rich_body E R cfg mods h)) (\<lambda>_. ret True) v = (Inl e, w')"
      by (cases blk) (simp_all add: rich_turn_def)
    then have "transaction (rich_body E R cfg mods h) v = (Inl e, w')"
      by (auto simp: bnd_def split: prod.splits sum.splits)
    then show ?thesis by (rule transaction_atomic)
  qed
  with v show ?thesis by (simp add: beside_def)
qed

theorem rich_turns_spec:
  assumes E: "env_ok E" and R: "rich_env_ok R"
    and sl: "\<forall>sleeps \<in> set turns. \<forall>f \<in> set sleeps. \<forall>w. beside E (cfg_ChainId cfg) w (f w)"
    and run: "rich_turns E R cfg mods turns h w = (Inr h', w')" and st: "rich_state E w"
    and h: "0 < h" "h + int (length turns) < 2 ^ 63"
  shows "rich_state E w' \<and> h \<le> h' \<and> same_blocks (cfg_ChainId cfg) w w' \<and>
    (length (t_rich_list_status (w_db w)) \<le> 1 \<longrightarrow>
       t_rich_list_status (w_db w') = (if h < h' then [\<lparr>rls_Height = h' - 1\<rparr>] else t_rich_list_status (w_db w))) \<and>
    (\<forall>denom. (cfg_VmType cfg = EVM \<longrightarrow> (\<forall>k b. h \<le> k \<longrightarrow> k < h' \<longrightarrow> b \<noteq> [] \<longrightarrow>
         0 \<le> holding (w_db w) b denom + (\<Sum>j = h..k. net E R cfg mods (w_db w') j b denom))) \<longrightarrow>
       (\<forall>a. a \<noteq> [] \<longrightarrow> holding (w_db w') a denom = holding (w_db w) a denom + (\<Sum>j = h..<h'. net E R cfg mods (w_db w') j a denom)))"
  using sl run st h
proof (induction turns arbitrary: h w)
  case Nil
  then show ?case by (simp add: same_blocks_def)
next
  case (Cons sleeps turns)
  let ?c = "cfg_ChainId cfg" and ?net = "\<lambda>d. net E R cfg mods d"
  from Cons.prems(2) obtain u p v where u: "ctx_check w = (Inr (), u)" and v: "rich_turn E R cfg mods sleeps h u = (Inr p, v)"
    and rest: "(if p then rich_turns E R cfg mods turns (wrap64 (h + 1)) else ret h) v = (Inr h', w')"
    by (auto simp: bnd_eq_Inr)
  have wu: "beside E ?c w u" using ctx_world [OF u] beside_faults by blast
  have su: "rich_state E u" by (rule beside_rich_state [OF wu Cons.prems(3)])
  have sl: "\<forall>f \<in> set sleeps. \<forall>w. beside E ?c w (f w)" using Cons.prems(1) by simp
  have hu: "holding (w_db u) a denom = holding (w_db w) a denom" for a denom by (rule beside_holding [OF wu Cons.prems(3)])
  have status_u: "t_rich_list_status (w_db u) = t_rich_list_status (w_db w)" using wu by (simp add: beside_def)
  show ?case
  proof (cases p)
    case False
    with rest v have "h' = h" and uv: "beside E ?c u w'" using waiting_turn [OF sl] by auto
    have wv: "beside E ?c w w'" by (rule beside_trans [OF wu uv])
    show ?thesis
      using \<open>h' = h\<close> beside_rich_state [OF wv Cons.prems(3)] same_blocks_beside [OF wv] beside_holding [OF wv Cons.prems(3)] wv
      by (simp add: beside_def)
  next
    case True
    have "rich_turn E R cfg mods sleeps h u = (Inr True, v)" using v True by simp
    note t = turn_summary [OF E R su sl this]
    have "int64_range (h + 1)" using Cons.prems(4,5) by (simp add: int64_range_def)
    with rest True have run: "rich_turns E R cfg mods turns (h + 1) v = (Inr h', w')" by simp
    have sl': "\<forall>sleeps \<in> set turns. \<forall>f \<in> set sleeps. \<forall>w. beside E ?c w (f w)" using Cons.prems(1) by simp
    have h: "0 < h + 1" "h + 1 + int (length turns) < 2 ^ 63" using Cons.prems(4,5) by simp_all
    note ih = Cons.IH [OF sl' run t(1) h]
    then have "h < h'" by simp
    have sb: "same_blocks ?c v w'" using ih by blast
    have n: "?net (w_db v) h b denom = ?net (w_db w') h b denom" for b denom
      using sb t(3) by (intro net_cong) (simp add: same_blocks_def)
    have sum: "(\<Sum>j = h..<h'. f j) = f h + (\<Sum>j = h + 1..<h'. f j)" for f :: "int \<Rightarrow> int"
    proof -
      have "{h..<h'} = insert h {h + 1..<h'}" using \<open>h < h'\<close> by auto
      then show ?thesis by simp
    qed
    have hold: "holding (w_db w') a denom = holding (w_db w) a denom + (\<Sum>j = h..<h'. ?net (w_db w') j a denom)"
      if a: "a \<noteq> []" and pos: "cfg_VmType cfg = EVM \<longrightarrow> (\<forall>k b. h \<le> k \<longrightarrow> k < h' \<longrightarrow> b \<noteq> [] \<longrightarrow>
         0 \<le> holding (w_db w) b denom + (\<Sum>j = h..k. ?net (w_db w') j b denom))" for a denom
    proof -
      have pos0: "0 \<le> holding (w_db u) b denom + ?net (w_db v) h b denom" if "cfg_VmType cfg = EVM" "b \<noteq> []" for b
        using pos that \<open>h < h'\<close> n hu by (auto dest!: spec [of _ h])
      then have v': "holding (w_db v) b denom = holding (w_db w) b denom + ?net (w_db w') h b denom" if "b \<noteq> []" for b
        using t(5) [of b denom] that n hu by simp
      have pos1: "0 \<le> holding (w_db v) b denom + (\<Sum>j = h + 1..k. ?net (w_db w') j b denom)"
        if "cfg_VmType cfg = EVM" "h + 1 \<le> k" "k < h'" "b \<noteq> []" for k b
      proof -
        have "{h..k} = insert h {h + 1..k}" using that(2) by auto
        then have "(\<Sum>j = h..k. ?net (w_db w') j b denom) = ?net (w_db w') h b denom + (\<Sum>j = h + 1..k. ?net (w_db w') j b denom)" by simp
        moreover have "0 \<le> holding (w_db w) b denom + (\<Sum>j = h..k. ?net (w_db w') j b denom)" using pos that by simp
        ultimately show ?thesis using v' [OF that(4)] by simp
      qed
      from ih have "holding (w_db w') a denom = holding (w_db v) a denom + (\<Sum>j = h + 1..<h'. ?net (w_db w') j a denom)"
        using pos1 a by blast
      then show ?thesis using v' [OF a] by (simp add: sum)
    qed
    have "t_rich_list_status (w_db w') = [\<lparr>rls_Height = h' - 1\<rparr>]" if "length (t_rich_list_status (w_db w)) \<le> 1"
    proof -
      have "t_rich_list_status (w_db v) = [\<lparr>rls_Height = h\<rparr>]" using t(4) that Cons.prems(4) status_u by simp
      with ih show ?thesis by (auto split: if_splits)
    qed
    moreover have "same_blocks ?c w w'"
      using same_blocks_trans [OF same_blocks_beside [OF wu] same_blocks_trans [OF t(2) sb]] .
    ultimately show ?thesis using ih hold \<open>h < h'\<close> by auto
  qed
qed

end
