(* ===== verification/Rich_Api.thy ===== *)
theory Rich_Api
  imports Rich_List Nft_Api
begin

text \<open>
  The list of the holders of a token: \<open>src/api/handler/richlist\<close>, and what a client sees that follows the
  keys of pages that are offsets.
\<close>

section \<open>GetTokenHolders\<close>

text \<open>
  Rows with equal amounts come in the order in which Postgres scans the table, \<open>scan\<close>. An account without a
  row in the dictionary is answered as the empty string.
\<close>

definition holder_rows :: "(CollectedRichList list \<Rightarrow> CollectedRichList list) \<Rightarrow> string \<Rightarrow> Pagination \<Rightarrow> db \<Rightarrow> CollectedRichList list" where
  "holder_rows scan denom p d = ordered p rl_Amount (scan (filter (\<lambda>r. rl_Denom r = denom) (t_rich_list d)))"

definition holder_name :: "env \<Rightarrow> config \<Rightarrow> (int \<rightharpoonup> byte list) \<Rightarrow> int \<Rightarrow> string" where
  "holder_name E cfg accountMap i =
     (case accountMap i of
        None \<Rightarrow> []
      | Some account \<Rightarrow> if cfg_VmType cfg = EVM then BytesToHexWithPrefix account else to_bech32 E account)"

definition holder_denom :: "rich_env \<Rightarrow> config \<Rightarrow> string \<Rightarrow> err + string" where
  "holder_denom R cfg param =
     (if param = [] then Inl (Err ''denom parameter is required'')
      else let denom = to_lower (replace_all ''%2F'' ''/'' param) in
        if cfg_VmType cfg = EVM then query_evm_contract R denom else Inr denom)"

definition GetTokenHolders :: "env \<Rightarrow> rich_env \<Rightarrow> config \<Rightarrow> (CollectedRichList list \<Rightarrow> CollectedRichList list) \<Rightarrow> string \<Rightarrow>
    page_query \<Rightarrow> (world, (string \<times> int) list \<times> PaginationResponse) act" where
  "GetTokenHolders E R cfg scan param q =
     bnd (lift_res (holder_denom R cfg param)) (\<lambda>denom.
     bnd (lift_res (ParsePagination q CursorTypeOffset)) (\<lambda>p.
     bnd (query (\<lambda>d. offset_page p (holder_rows scan denom p d))) (\<lambda>richListRecords.
     bnd (if richListRecords = [] then ret Map.empty
          else query (\<lambda>d. dict_map (rl_Id ` set richListRecords) (t_account_dict d))) (\<lambda>accountMap.
     bnd (if p_CountTotal p then query (\<lambda>d. int (length (filter (\<lambda>r. rl_Denom r = denom) (t_rich_list d)))) else ret 0) (\<lambda>tot.
     ret (map (\<lambda>r. (holder_name E cfg accountMap (rl_Id r), rl_Amount r)) richListRecords,
          ToResponse p tot (int (length richListRecords) = p_Limit p)))))))"


section \<open>Pages by offset\<close>

text \<open>
  The key of an answer is the offset of the next page. While the list does not change, the client that follows
  the keys gets the rest of it.
\<close>

lemma parse_offset_key:
  assumes q: "good_query q" and n: "0 \<le> n" "int64_range n" and key: "q_key q = encode_key (Itoa n)"
  shows "ParsePagination q CursorTypeOffset = Inr ((query_page q CursorTypeOffset Map.empty)\<lparr>p_Offset := n\<rparr>)"
proof -
  have digits: "Itoa n \<noteq> []" "\<And>c. c \<in> set (Itoa n) \<Longrightarrow> is_digit c"
    using n(1) nat_digits_props [of "nat n"] by (auto simp: Itoa_def list_all_iff)
  then obtain c r where c: "Itoa n = c # r" "is_digit c" by (cases "Itoa n") auto
  have plain: "trim_left_space k (c # r) = c # r" "\<not> has_prefix (c # r) ''{''" for k
    using c(2) by (cases k; auto simp: has_prefix_def DecodeRune_def code_def space_rune_def is_digit_def)+
  have "q_key q \<noteq> []" using encode_key_nonempty [OF digits(1)] key by simp
  moreover have "string_of_bytes (bytes_of_string s) = s" for s by simp
  ultimately show ?thesis
    using q n plain Atoi_Itoa [OF n(2)]
    by (simp add: ParsePagination_def parsePaginationKey_def parseIntegerCursor_def good_query_def query_page_def key c(1) Let_def)
qed

theorem offset_walk:
  assumes q: "good_query q"
    and req: "\<And>i k. request i (q\<lparr>q_key := k\<rparr>) = rbind (ParsePagination (q\<lparr>q_key := k\<rparr>) CursorTypeOffset)
      (\<lambda>p. Inr (map f (offset_page p rows), ToResponse p tot (int (length (offset_page p rows)) = p_Limit p)))"
    and start: "ParsePagination (q\<lparr>q_key := k\<rparr>) CursorTypeOffset = Inr ((query_page q CursorTypeOffset Map.empty)\<lparr>p_Offset := int n\<rparr>)"
    and size: "int n < 2 ^ 62" "int (length rows) < 2 ^ 62" and fuel: "length rows - n < m"
  shows "\<exists>pages. follow m request i (q\<lparr>q_key := k\<rparr>) = Inr pages \<and> concat pages = map f (drop n rows)"
  using start size fuel
proof (induction m arbitrary: n k i)
  case (Suc m)
  define l where "l = nat (q_limit q)"
  have l: "0 < l" "int l = q_limit q" "int l \<le> 1000" using q by (auto simp: l_def good_query_def MaxLimit_def)
  define p where "p = (query_page q CursorTypeOffset Map.empty)\<lparr>p_Offset := int n\<rparr>"
  have p: "p_Limit p = int l" "p_Offset p = int n" by (simp_all add: p_def query_page_def l(2))
  have page: "offset_page p rows = take l (drop n rows)" by (simp add: offset_page_def limited_def p)
  have r: "request i (q\<lparr>q_key := k\<rparr>) = Inr (map f (take l (drop n rows)), ToResponse p tot (length (take l (drop n rows)) = l))"
    unfolding req Suc.prems(1) p_def [symmetric] by (simp only: rbind.simps page p(1) of_nat_eq_iff)
  show ?case
  proof (cases "length (take l (drop n rows)) = l")
    case False
    then have "take l (drop n rows) = drop n rows" by simp
    with False show ?thesis by (simp add: r ToResponse_def)
  next
    case True
    have sum: "int64_range (int (n + l))" "wrap64 (int n + int l) = int (n + l)"
      using Suc.prems(2) l(3) by (auto simp: int64_range_def)
    have parse: "ParsePagination (q\<lparr>q_key := encode_key (Itoa (int (n + l)))\<rparr>) CursorTypeOffset =
        Inr ((query_page q CursorTypeOffset Map.empty)\<lparr>p_Offset := int (n + l)\<rparr>)"
      using parse_offset_key [of "q\<lparr>q_key := encode_key (Itoa (int (n + l)))\<rparr>", OF _ _ sum(1)] q
      by (simp add: good_query_def query_page_def getOrder_def)
    have rest: "n + l \<le> length rows" using True l(1) by (simp add: min_def split: if_splits)
    obtain pages where pages: "follow m request (Suc i) (q\<lparr>q_key := encode_key (Itoa (int (n + l)))\<rparr>) = Inr pages"
      "concat pages = map f (drop (n + l) rows)"
      using Suc.IH [OF parse, of "Suc i"] rest Suc.prems(3,4) l(1) by (meson diff_less_mono2 less_Suc_eq_le less_add_same_cancel1 less_le_trans of_nat_le_iff order_le_less_trans)
    have "next_key (ToResponse p tot True) = Some (encode_key (Itoa (int (n + l))))"
      by (simp only: ToResponse_def p sum(2)) simp
    with True pages have "follow (Suc m) request i (q\<lparr>q_key := k\<rparr>) = Inr (map f (take l (drop n rows)) # pages)"
      by (simp add: r)
    moreover have "take l (drop n rows) @ drop (n + l) rows = drop n rows"
      by (metis add.commute append_take_drop_id drop_drop)
    ultimately show ?thesis using pages(2) by (simp flip: map_append)
  qed
qed simp


section \<open>The holders\<close>

lemma parsed_order: "ParsePagination q ty = Inr p \<Longrightarrow> p_Order p = getOrder q"
  by (auto simp: ParsePagination_def parsePaginationKey_def parseJSONCursor_def parseIntegerCursor_def Let_def
    split: if_splits sum.splits)

lemma parsed_count: "ParsePagination q ty = Inr p \<Longrightarrow> p_CountTotal p = q_count_total q"
  by (auto simp: ParsePagination_def parsePaginationKey_def parseJSONCursor_def parseIntegerCursor_def Let_def
    split: if_splits sum.splits)

lemma dict_map_at:
  assumes "distinct (map fst t)" "i \<in> ids"
  shows "dict_map ids t i = map_of t i"
proof -
  have "distinct (map fst (filter (\<lambda>r. fst r \<in> ids) t))" using assms(1) by (rule distinct_map_filter)
  then have "map_of (rev (filter (\<lambda>r. fst r \<in> ids) t)) = map_of (filter (\<lambda>r. fst r \<in> ids) t)"
    by (subst map_of_inject_set) (simp_all add: rev_map [symmetric])
  moreover have "map_of (filter (\<lambda>r. fst r \<in> ids) t) i = map_of t i" using assms(2) by (induction t) auto
  ultimately show ?thesis by (simp add: dict_map_def)
qed

lemma holders_request:
  assumes w: "w_faults w = []" and denom: "holder_denom R cfg param = Inr denom"
    and rows: "rows = filter (\<lambda>r. rl_Denom r = denom) (t_rich_list (w_db w))" "mset (scan rows) = mset rows"
    and dict: "distinct (map fst (t_account_dict (w_db w)))"
  shows "fst (GetTokenHolders E R cfg scan param q w) = rbind (ParsePagination q CursorTypeOffset) (\<lambda>p.
    Inr (map (\<lambda>r. (holder_name E cfg (map_of (t_account_dict (w_db w))) (rl_Id r), rl_Amount r)) (offset_page p (ordered p rl_Amount (scan rows))),
      ToResponse p (if p_CountTotal p then int (length rows) else 0) (int (length (offset_page p (ordered p rl_Amount (scan rows)))) = p_Limit p)))"
proof (cases "ParsePagination q CursorTypeOffset")
  case (Inr p)
  define page where "page = offset_page p (ordered p rl_Amount (scan rows))"
  define tot where "tot = (if p_CountTotal p then int (length rows) else 0)"
  have named: "holder_name E cfg (dict_map (rl_Id ` set page) (t_account_dict (w_db w))) (rl_Id r) =
      holder_name E cfg (map_of (t_account_dict (w_db w))) (rl_Id r)" if "r \<in> set page" for r
    using that dict_map_at [OF dict, of "rl_Id r" "rl_Id ` set page"] by (simp add: holder_name_def)
  have "fst (GetTokenHolders E R cfg scan param q w) =
      Inr (map (\<lambda>r. (holder_name E cfg (if page = [] then Map.empty else dict_map (rl_Id ` set page) (t_account_dict (w_db w))) (rl_Id r), rl_Amount r)) page,
        ToResponse p tot (int (length page) = p_Limit p))"
    using w by (simp add: GetTokenHolders_def bnd_def lift_res_def denom Inr holder_rows_def rows(1) [symmetric] page_def [symmetric] tot_def)
  also have "map (\<lambda>r. (holder_name E cfg (if page = [] then Map.empty else dict_map (rl_Id ` set page) (t_account_dict (w_db w))) (rl_Id r), rl_Amount r)) page =
      map (\<lambda>r. (holder_name E cfg (map_of (t_account_dict (w_db w))) (rl_Id r), rl_Amount r)) page"
    by (intro map_cong refl) (use named in auto)
  finally show ?thesis by (simp add: Inr page_def tot_def)
qed (simp add: GetTokenHolders_def bnd_def lift_res_def denom)

text \<open>Following the keys of a list that does not change.\<close>

theorem holders_walk:
  assumes q: "good_query q" "q_key q = []" "q_offset q = 0" and w: "w_faults w = []" and denom: "holder_denom R cfg param = Inr denom"
    and rows: "rows = filter (\<lambda>r. rl_Denom r = denom) (t_rich_list (w_db w))" "mset (scan rows) = mset rows"
    and dict: "distinct (map fst (t_account_dict (w_db w)))" and size: "int (length rows) < 2 ^ 62" "length rows < n"
  shows "\<exists>pages. follow n (\<lambda>i q. fst (GetTokenHolders E R cfg scan param q w)) 0 q = Inr pages \<and>
    concat pages = map (\<lambda>r. (holder_name E cfg (map_of (t_account_dict (w_db w))) (rl_Id r), rl_Amount r))
      ((if q_reverse q then rev else id) (sort_key rl_Amount (scan rows)))"
proof -
  define full where "full = (if q_reverse q then rev else id) (sort_key rl_Amount (scan rows))"
  have o: "ordered p rl_Amount (scan rows) = full" if "ParsePagination (q\<lparr>q_key := k\<rparr>) CursorTypeOffset = Inr p" for k p
    using parsed_order [OF that] by (simp add: ordered_def full_def getOrder_def OrderDesc_def OrderAsc_def)
  have len: "length full = length rows" using mset_eq_length [OF rows(2)] by (simp add: full_def)
  have "\<exists>pages. follow n (\<lambda>i q. fst (GetTokenHolders E R cfg scan param q w)) 0 (q\<lparr>q_key := []\<rparr>) = Inr pages \<and>
      concat pages = map (\<lambda>r. (holder_name E cfg (map_of (t_account_dict (w_db w))) (rl_Id r), rl_Amount r)) (drop 0 full)"
  proof (rule offset_walk [OF q(1)])
    fix i k
    show "fst (GetTokenHolders E R cfg scan param (q\<lparr>q_key := k\<rparr>) w) = rbind (ParsePagination (q\<lparr>q_key := k\<rparr>) CursorTypeOffset) (\<lambda>p.
      Inr (map (\<lambda>r. (holder_name E cfg (map_of (t_account_dict (w_db w))) (rl_Id r), rl_Amount r)) (offset_page p full),
        ToResponse p (if q_count_total q then int (length rows) else 0) (int (length (offset_page p full)) = p_Limit p)))"
      unfolding holders_request [where scan = scan, OF w denom rows dict] using o [of k] parsed_count [of "q\<lparr>q_key := k\<rparr>"]
      by (cases "ParsePagination (q\<lparr>q_key := k\<rparr>) CursorTypeOffset") simp_all
  next
    show "ParsePagination (q\<lparr>q_key := []\<rparr>) CursorTypeOffset = Inr ((query_page q CursorTypeOffset Map.empty)\<lparr>p_Offset := int 0\<rparr>)"
      using q parse_no_key [OF q(1,2)] by (simp add: query_page_def flip: q(2))
  qed (use size len in auto)
  moreover have "q\<lparr>q_key := []\<rparr> = q" using q(2) by (cases q) simp
  ultimately show ?thesis by (simp only: full_def drop_0)
qed

end
