(* ===== verification/Rich_Properties.thy ===== *)
theory Rich_Properties
  imports Rich_Turn Rich_Api Demo
begin

text \<open>
  Properties of the rich list: its balances follow the transactions of the chain, a turn is all or nothing, and
  what amounts, module accounts and long waits do to it.
\<close>

section \<open>A run\<close>

text \<open>C5.
  The rich list follows the chain: after a run over the blocks \<open>h\<close> to \<open>h' - 1\<close>, every address holds what it held
  before plus what the transactions of these blocks moved to it and less what they took from it, whatever the rest
  of the program stored in the meantime. On an EVM chain this holds for a denom no balance of which falls below
  zero; on the other machines it always does.
\<close>

theorem rich_list_follows_chain:
  assumes "env_ok E" "rich_env_ok R" "\<forall>sleeps \<in> set turns. \<forall>f \<in> set sleeps. \<forall>w. beside E (cfg_ChainId cfg) w (f w)"
    and "rich_turns E R cfg mods turns h w = (Inr h', w')" "rich_state E w" "0 < h" "h + int (length turns) < 2 ^ 63" "a \<noteq> []"
    and "cfg_VmType cfg = EVM \<longrightarrow> (\<forall>k b. h \<le> k \<longrightarrow> k < h' \<longrightarrow> b \<noteq> [] \<longrightarrow>
      0 \<le> holding (w_db w) b denom + (\<Sum>j = h..k. net E R cfg mods (w_db w') j b denom))"
  shows "rich_state E w' \<and>
    holding (w_db w') a denom = holding (w_db w) a denom + (\<Sum>j = h..<h'. net E R cfg mods (w_db w') j a denom)"
  using rich_turns_spec [OF assms(1-7)] assms(8,9) by blast

text \<open>Accounts 1 and 2; block 1 moves three coins from the one to the other, and block 6 is the newest.\<close>

definition rich_events :: "event list" where
  "rich_events = [\<lparr>etype = ''transfer'', eattrs = [\<lparr>akey = ''recipient'', aval = ''init102''\<rparr>,
     \<lparr>akey = ''sender'', aval = ''init101''\<rparr>, \<lparr>akey = ''amount'', aval = ''3u''\<rparr>]\<rparr>]"

definition rich_demo_env :: env where
  "rich_demo_env = demo_env\<lparr>unmarshal_tx_events := (\<lambda>_. Inr rich_events)\<rparr>"

definition int256 :: "int \<Rightarrow> err + int" where
  "int256 n = (if \<bar>n\<bar> < 2 ^ 256 then Inr n else Inl (Panic ''Int overflow''))"

definition rich_demo :: rich_env where
  "rich_demo = \<lparr>change_order = (\<lambda>ks. rev ks), holder_order = (\<lambda>hs. hs), int_FromBigInt = int256, int_Add = (\<lambda>a b. int256 (a + b)),
     int_FromString = (\<lambda>s. case Atoi s of Inl e \<Rightarrow> None | Inr n \<Rightarrow> Some n),
     ParseCoinsNormalized = (\<lambda>s. Inr [\<lparr>coin_Denom = ''u'', coin_Amount = 3\<rparr>]), EventTypeCoinMint = ''coinbase'',
     EventTypeCoinBurn = ''burn'', EventTypeTransfer = ''transfer'', query_evm_contract = Inr, query_move_denom = Inr,
     query_erc20 = (\<lambda>c as h. Inr []), query_balances = (\<lambda>a h. Inr []), query_accounts = (\<lambda>h. Inr [])\<rparr>"

definition rich_row :: "int \<Rightarrow> CollectedBlock" where
  "rich_row h = \<lparr>blk_ChainId = ''c'', blk_Height = h, blk_Hash = [], blk_Timestamp = 0, blk_BlockTime = 0, blk_Proposer = [],
     blk_GasUsed = 0, blk_GasWanted = 0, blk_TxCount = 1, blk_TotalFee = []\<rparr>"

definition rich_db :: db where
  "rich_db = empty_db\<lparr>t_block := [rich_row 1, rich_row 6], t_account_dict := [(1, [1])],
     t_tx := [\<lparr>tx_Hash = [7], tx_Height = 1, tx_Sequence = 1, tx_SignerId = 1, tx_Data = ''{}''\<rparr>],
     t_rich_list := [\<lparr>rl_Id = 1, rl_Denom = ''u'', rl_Amount = 10\<rparr>]\<rparr>"

definition rich_world :: world where
  "rich_world = (world_of rich_db)\<lparr>serial_account := 1\<rparr>"

definition rich_cfg :: config where
  "rich_cfg = demo_cfg\<lparr>cfg_VmType := WasmVM\<rparr>"

lemma rich_demo_env_ok: "env_ok rich_demo_env"
  using demo_env_ok by (simp add: env_ok_def bech32_ok_def backfill_ok_def rich_demo_env_def)

lemma rich_demo_ok: "rich_env_ok rich_demo"
proof -
  have "Atoi (Itoa n) = Inr i \<Longrightarrow> i = n" for n i
  proof (cases "int64_range n")
    case False
    then have "Atoi (Itoa n) \<noteq> Inr i" using nat_digits_props [of "nat n"] nat_digits_props [of "nat (- n)"]
      by (auto simp: Atoi_def Itoa_def Let_def split_sign_digits split_sign_def [of "CHR ''-'' # nat_digits (nat (- n))"])
    then show "Atoi (Itoa n) = Inr i \<Longrightarrow> i = n" by simp
  qed (simp add: Atoi_Itoa)
  then show ?thesis by (auto simp: rich_env_ok_def rich_demo_def int256_def split: sum.splits if_splits)
qed

lemma rich_world_state: "rich_state rich_demo_env rich_world"
  by (simp add: rich_state_def dict_inv_def account_dict_def rich_world_def world_of_def rich_db_def empty_db_def)

lemma rich_run: "case rich_turns rich_demo_env rich_demo rich_cfg [] [[], [\<lambda>w. w]] 1 rich_world of (r, w') \<Rightarrow>
   r = Inr 2 \<and> holding (w_db w') [1] ''u'' = 7 \<and> holding (w_db w') [2] ''u'' = 3 \<and> t_rich_list_status (w_db w') = [\<lparr>rls_Height = 1\<rparr>]"
  by code_simp

lemma rich_waits: "\<forall>sleeps \<in> set [[], [\<lambda>w. w]]. \<forall>f \<in> set sleeps. \<forall>w. beside rich_demo_env (cfg_ChainId rich_cfg) w (f w)"
  by simp

theorem rich_list_follows_chain_witness:
  "\<exists>w'. rich_turns rich_demo_env rich_demo rich_cfg [] [[], [\<lambda>w. w]] 1 rich_world = (Inr 2, w') \<and>
     holding (w_db w') [1] ''u'' = 7 \<and> net rich_demo_env rich_demo rich_cfg [] (w_db w') 1 [1] ''u'' = - 3"
proof -
  let ?run = "rich_turns rich_demo_env rich_demo rich_cfg [] [[], [\<lambda>w. w]] 1 rich_world"
  obtain w' where run: "?run = (Inr 2, w')" and seven: "holding (w_db w') [1] ''u'' = 7"
    using rich_run by (cases ?run) auto
  have ten: "holding (w_db rich_world) [1] ''u'' = 10" by code_simp
  have "cfg_VmType rich_cfg \<noteq> EVM" by (simp add: rich_cfg_def)
  then have "holding (w_db w') [1] ''u'' = holding (w_db rich_world) [1] ''u'' +
      (\<Sum>j = 1..<2. net rich_demo_env rich_demo rich_cfg [] (w_db w') j [1] ''u'')"
    using rich_list_follows_chain [OF rich_demo_env_ok rich_demo_ok rich_waits run rich_world_state, of "[1]" "''u''"] by simp
  moreover have "{1..<2 :: int} = {1}" by auto
  ultimately show ?thesis using run seven ten by (auto simp only: sum.insert finite.emptyI empty_iff sum.empty) simp
qed

text \<open>C14.
  A turn of the rich list is all or nothing. When it fails, both its tables are as the rest of the program left them;
  when it succeeds, a restart goes on at the next height and does not start the list anew.
\<close>

theorem rich_turn_atomic:
  assumes "env_ok E" "rich_env_ok R" "\<forall>f \<in> set sleeps. \<forall>w. beside E (cfg_ChainId cfg) w (f w)" "rich_state E w"
    and "rich_turn E R cfg mods sleeps h w = (r, w')" "0 < h" "int64_range (h + 1)" "length (t_rich_list_status (w_db w)) \<le> 1"
  shows "(\<forall>e. r = Inl e \<longrightarrow> t_rich_list (w_db w') = t_rich_list (w_db w) \<and> t_rich_list_status (w_db w') = t_rich_list_status (w_db w)) \<and>
    (r = Inr True \<longrightarrow> fst (Initialize_rich cfg more_sleeps (w'\<lparr>w_faults := []\<rparr>)) = Inr (Some (h + 1, False)))"
proof (intro conjI allI impI)
  fix e assume "r = Inl e"
  with failed_turn [OF assms(3)] assms(5)
  show "t_rich_list (w_db w') = t_rich_list (w_db w)" "t_rich_list_status (w_db w') = t_rich_list_status (w_db w)" by blast+
next
  assume "r = Inr True"
  with turn_summary(4) [OF assms(1,2,4,3)] assms(5,6,8) have "t_rich_list_status (w_db w') = [\<lparr>rls_Height = h\<rparr>]" by simp
  then show "fst (Initialize_rich cfg more_sleeps (w'\<lparr>w_faults := []\<rparr>)) = Inr (Some (h + 1, False))"
    using assms(7) by (simp add: Initialize_rich_def first_row_def order_asc_def)
qed

lemma rich_one_turn: "case rich_turn rich_demo_env rich_demo rich_cfg [] [] 1 rich_world of (r, w') \<Rightarrow> r = Inr True"
  by code_simp

theorem rich_turn_atomic_witness:
  "fst (Initialize_rich rich_cfg [] ((snd (rich_turn rich_demo_env rich_demo rich_cfg [] [] 1 rich_world))\<lparr>w_faults := []\<rparr>)) = Inr (Some (2, False))"
proof -
  obtain w' where run: "rich_turn rich_demo_env rich_demo rich_cfg [] [] 1 rich_world = (Inr True, w')"
    using rich_one_turn by (cases "rich_turn rich_demo_env rich_demo rich_cfg [] [] 1 rich_world") auto
  have "length (t_rich_list_status (w_db rich_world)) \<le> 1" by (simp add: rich_world_def world_of_def rich_db_def empty_db_def)
  with rich_turn_atomic [OF rich_demo_env_ok rich_demo_ok _ rich_world_state run] show ?thesis
    unfolding run by (simp add: int64_range_def)
qed


section \<open>Amounts\<close>

lemma rfold_all: "rfold f xs a = Inr b \<Longrightarrow> x \<in> set xs \<Longrightarrow> \<exists>c d. f x c = Inr d"
  by (induction xs arbitrary: a) (auto simp: rbind_eq_Inr)

text \<open>C24.
  A contract can stop the rich list for good: a transfer log whose amount has more than 256 bits makes the SDK's integer
  panic, so the turn of its block never succeeds, however often it is tried, although other logs that are no proper
  transfers are skipped.
\<close>

theorem wide_amount_stops:
  assumes "\<forall>n \<ge> 2 ^ 256. isl (int_FromBigInt R n)" "cfg_VmType cfg = EVM" "in_chain (cfg_ChainId cfg) (w_db w) h"
    and "tx \<in> set (txs_at h (w_db w))" "unmarshal_tx_events E (tx_Data tx) = Inr events" "event \<in> set events" "attr \<in> set (eattrs event)"
    and "akey attr = ''log''" "Unmarshal dec_EvmEventLog (aval attr) ([], [], []) = Inr (address, [EvmTransferTopic, from, to], data)"
    and "has_prefix data ''0x''" "2 \<le> length data" "big_hex (drop 2 data) = Some n" "2 ^ 256 \<le> n"
    and "\<forall>f \<in> set sleeps. \<forall>w. beside E (cfg_ChainId cfg) w (f w)"
  shows "fst (rich_turn E R cfg mods sleeps h w) \<noteq> Inr True"
proof
  assume "fst (rich_turn E R cfg mods sleeps h w) = Inr True"
  then obtain w' where "rich_turn E R cfg mods sleeps h w = (Inr True, w')" by (cases "rich_turn E R cfg mods sleeps h w") auto
  then obtain b v where b: "GetCollectedBlock (cfg_ChainId cfg) h sleeps w = (Inr (Some b), v)"
    and body: "transaction (rich_body E R cfg mods h) v = (Inr (), w')"
    by (auto simp: rich_turn_def bnd_eq_Inr split: option.splits)
  have v: "beside E (cfg_ChainId cfg) w v" using wait_spec [OF assms(14) b] by blast
  from transaction_Inr [OF body] obtain x where "rich_body E R cfg mods h v = (Inr (), x)" by blast
  then obtain txs u m where txs: "GetBlockCollectedTxs h v = (Inr txs, u)" and m: "ProcessBalanceChanges E R cfg mods txs = Inr m"
    by (auto simp: rich_body_def bnd_eq_Inr)
  have "txs = txs_at h (w_db v)"
    using hoareD [OF hoare_query refl txs [unfolded GetBlockCollectedTxs_def]] by (simp add: txs_at_def)
  then have "tx \<in> set txs" using v assms(3,4) by (simp add: beside_def)
  from rfold_all [OF m [unfolded ProcessBalanceChanges_def ForEachTxEvents_def] this] obtain c d
    where "processEvmTransferEvents E R events c = Inr d" using assms(2,5) by auto
  from rfold_all [OF this [unfolded processEvmTransferEvents_def] assms(6)] obtain c1 d1
    where "rfold (evm_transfer_log E R) (eattrs event) c1 = Inr d1" by blast
  from rfold_all [OF this assms(7)] obtain c2 d2 where "evm_transfer_log E R attr c2 = Inr d2" by blast
  moreover have "isl (ParseHexAmountToSDKInt R data)"
    using assms(1,10,11,12,13) by (auto simp: ParseHexAmountToSDKInt_def isl_def)
  ultimately show False using assms(8,9) by (auto simp: evm_transfer_log_def isl_def)
qed

text \<open>A log whose data is the number \<open>2 ^ 256\<close>.\<close>

definition wide_data :: string where
  "wide_data = ''0x1'' @ replicate 64 (CHR ''0'')"

definition wide_log :: attribute where
  "wide_log = \<lparr>akey = ''log'', aval = print_json (JObj [(''address'', JStr ''0x11''),
     (''topics'', JArr [JStr EvmTransferTopic, JStr ''0x1'', JStr ''0x2'']), (''data'', JStr wide_data)])\<rparr>"

definition wide_event :: event where
  "wide_event = \<lparr>etype = ''evm'', eattrs = [wide_log]\<rparr>"

definition wide_env :: env where
  "wide_env = demo_env\<lparr>unmarshal_tx_events := (\<lambda>_. Inr [wide_event])\<rparr>"

lemma wide_decodes: "Unmarshal dec_EvmEventLog (aval wide_log) ([], [], []) = Inr (''0x11'', [EvmTransferTopic, ''0x1'', ''0x2''], wide_data)"
proof -
  have a: "ascii EvmTransferTopic" "ascii wide_data" by (simp_all add: EvmTransferTopic_def wide_data_def ascii_def list_all_iff)
  have p: "printable (JObj [(''address'', JStr ''0x11''), (''topics'', JArr [JStr EvmTransferTopic, JStr ''0x1'', JStr ''0x2'']),
      (''data'', JStr wide_data)])" using a by (simp, simp add: ascii_def)
  have f: "field_match ''address'' ''address''"
    "\<not> field_match ''address'' ''topics''" "\<not> field_match ''address'' ''data''"
    "\<not> field_match ''topics'' ''address''" "field_match ''topics'' ''topics''" "\<not> field_match ''topics'' ''data''" "\<not> field_match ''data'' ''address''" "\<not> field_match ''data'' ''topics''" "field_match ''data'' ''data''"
    by code_simp+
  show ?thesis
    unfolding Unmarshal_def wide_log_def attribute.select_convs parse_print [OF p]
    by (simp add: dec_EvmEventLog_def dec_struct_def dec_field_def dec_list_def dec_string_def f)
qed

lemma wide_number: "big_hex (drop 2 wide_data) = Some (2 ^ 256)"
proof -
  let ?f = "\<lambda>n c. 16 * n + (case hex_val c of None \<Rightarrow> 0 | Some v \<Rightarrow> int v)"
  have z: "hex_val (CHR ''0'') = Some 0" "hex_val (CHR ''1'') = Some 1" by (simp_all add: hex_val_def)
  have "foldl ?f n (replicate k (CHR ''0'')) = n * 16 ^ k" for n k
    by (induction k arbitrary: n) (simp_all add: z)
  then have "foldl ?f 0 (CHR ''1'' # replicate 64 (CHR ''0'')) = 2 ^ 256" by (simp only: foldl_Cons) (simp add: z)
  moreover have "drop 2 wide_data = CHR ''1'' # replicate 64 (CHR ''0'')" by (simp add: wide_data_def)
  moreover have "split_sign (CHR ''1'' # r) = (False, CHR ''1'' # r)" for r by (simp add: split_sign_def)
  ultimately show ?thesis by (simp only: big_hex_def Let_def prod.case) (simp add: z list_all_iff)
qed

theorem wide_amount_stops_witness:
  "fst (rich_turn wide_env rich_demo (demo_cfg\<lparr>cfg_VmType := EVM\<rparr>) [] [] 1 rich_world) \<noteq> Inr True"
proof (rule wide_amount_stops [OF _ _ _ _ _ _ _ _ wide_decodes _ _ wide_number])
  show "\<forall>n \<ge> 2 ^ 256. isl (int_FromBigInt rich_demo n)" by (auto simp: rich_demo_def int256_def)
  show "in_chain (cfg_ChainId (demo_cfg\<lparr>cfg_VmType := EVM\<rparr>)) (w_db rich_world) 1"
    by (auto simp: in_chain_def demo_cfg_def rich_world_def world_of_def rich_db_def rich_row_def)
  show "\<lparr>tx_Hash = [7], tx_Height = 1, tx_Sequence = 1, tx_SignerId = 1, tx_Data = ''{}''\<rparr> \<in> set (txs_at 1 (w_db rich_world))"
    by (simp add: txs_at_def rich_world_def world_of_def rich_db_def)
  show "unmarshal_tx_events wide_env (tx_Data \<lparr>tx_Hash = [7], tx_Height = 1, tx_Sequence = 1, tx_SignerId = 1, tx_Data = ''{}''\<rparr>) =
      Inr [wide_event]" by (simp add: wide_env_def)
  show "wide_log \<in> set (eattrs wide_event)" by (simp add: wide_event_def)
qed (simp_all add: wide_log_def wide_data_def has_prefix_def)

text \<open>C27.
  On a Wasm chain coins are counted twice when they are minted and sent on: the mint event adds them to the module account
  although module accounts are left out everywhere else, and the transfer takes nothing from it, so the module and the user
  both end up with them.
\<close>

theorem minted_counted_twice:
  assumes "env_ok E" "rich_env_ok R" "cfg_VmType cfg = WasmVM"
    and "EventTypeTransfer R \<noteq> EventTypeCoinMint R" "EventTypeTransfer R \<noteq> EventTypeCoinBurn R"
    and "unmarshal_tx_events E (tx_Data tx) = Inr [mint, transfer]" "etype mint = EventTypeCoinMint R" "etype transfer = EventTypeTransfer R"
    and "one_party E R cfg ''minter'' mint = Inr (module, [coin])" "transfer_parties E R cfg transfer = Inr (user, module, [coin])"
    and "module \<in> set mods" "user \<notin> set mods" "module \<noteq> []" "user \<noteq> []"
    and "ProcessBalanceChanges E R cfg mods [tx] = Inr m"
  shows "map_get m (NewBalanceChangeKey E (coin_Denom coin) module) 0 = coin_Amount coin \<and>
    map_get m (NewBalanceChangeKey E (coin_Denom coin) user) 0 = coin_Amount coin"
proof -
  have "module \<noteq> user" using assms(11,12) by blast
  then have "NewBalanceChangeKey E d module \<noteq> NewBalanceChangeKey E d user" "NewBalanceChangeKey E d user \<noteq> NewBalanceChangeKey E d module" for d
    using to_bech32_inj [OF assms(1,13,14)] by (simp_all add: NewBalanceChangeKey_def eq_commute)
  moreover have "balance_ops E R cfg mods [tx] = [(NewBalanceChangeKey E (coin_Denom coin) module, coin_Amount coin),
      (NewBalanceChangeKey E (coin_Denom coin) user, coin_Amount coin)]"
    using assms by (simp add: balance_ops_def events_ops_def wasm_balance_ops_def coin_ops_def transfer_ops_def)
  ultimately show ?thesis using changes_total [OF assms(2,15)] by simp
qed

definition mint_events :: "event list" where
  "mint_events = [\<lparr>etype = ''coinbase'', eattrs = [\<lparr>akey = ''minter'', aval = ''init101''\<rparr>, \<lparr>akey = ''amount'', aval = ''3u''\<rparr>]\<rparr>,
     \<lparr>etype = ''transfer'', eattrs = [\<lparr>akey = ''recipient'', aval = ''init102''\<rparr>, \<lparr>akey = ''sender'', aval = ''init101''\<rparr>,
       \<lparr>akey = ''amount'', aval = ''3u''\<rparr>]\<rparr>]"

theorem minted_counted_twice_witness:
  "\<exists>m. ProcessBalanceChanges (demo_env\<lparr>unmarshal_tx_events := (\<lambda>_. Inr mint_events)\<rparr>) rich_demo rich_cfg [[1]] (t_tx rich_db) = Inr m \<and>
     map_get m \<lparr>bck_Denom = ''u'', bck_Addr = ''init101''\<rparr> 0 = 3 \<and> map_get m \<lparr>bck_Denom = ''u'', bck_Addr = ''init102''\<rparr> 0 = 3"
proof -
  let ?E = "demo_env\<lparr>unmarshal_tx_events := (\<lambda>_. Inr mint_events)\<rparr>" and ?tx = "\<lparr>tx_Hash = [7], tx_Height = 1, tx_Sequence = 1, tx_SignerId = 1, tx_Data = ''{}''\<rparr>"
  let ?mint = "mint_events ! 0" and ?transfer = "mint_events ! 1" and ?coin = "\<lparr>coin_Denom = ''u'', coin_Amount = 3\<rparr>"
  have E: "env_ok ?E" using demo_env_ok by (simp add: env_ok_def bech32_ok_def backfill_ok_def)
  have txs: "t_tx rich_db = [?tx]" by (simp add: rich_db_def)
  have "\<not> isl (ProcessBalanceChanges ?E rich_demo rich_cfg [[1]] (t_tx rich_db))" by code_simp
  then obtain m where m: "ProcessBalanceChanges ?E rich_demo rich_cfg [[1]] [?tx] = Inr m"
    unfolding txs by (cases "ProcessBalanceChanges ?E rich_demo rich_cfg [[1]] [?tx]") simp_all
  have p: "one_party ?E rich_demo rich_cfg ''minter'' ?mint = Inr ([1], [?coin])"
    "transfer_parties ?E rich_demo rich_cfg ?transfer = Inr ([2], [1], [?coin])" by code_simp+
  have keys: "NewBalanceChangeKey ?E ''u'' [1] = \<lparr>bck_Denom = ''u'', bck_Addr = ''init101''\<rparr>"
    "NewBalanceChangeKey ?E ''u'' [2] = \<lparr>bck_Denom = ''u'', bck_Addr = ''init102''\<rparr>" by code_simp+
  from minted_counted_twice [OF E rich_demo_ok _ _ _ _ _ _ p _ _ _ _ m] keys m show ?thesis
    by (simp add: txs rich_cfg_def rich_demo_def mint_events_def)
qed


section \<open>The list of holders\<close>






section \<open>Waiting\<close>

text \<open>C37.
  The pause while a block is awaited doubles from a tenth of a second to five seconds, as documented, for the first 37
  attempts; from the 57th on the product has overflowed to a number that is not positive, and there is no pause any more.
\<close>

theorem backoff_ends:
  assumes "\<And>p. \<not> int64_range p \<Longrightarrow> conv p \<in> {- (2 ^ 63), 2 ^ 63 - 1}"
  shows "(attempt \<le> 36 \<longrightarrow> ExponentialBackoff_delay conv attempt = min (2 ^ attempt * 100000000) 5000000000) \<and>
    (56 \<le> attempt \<longrightarrow> ExponentialBackoff_delay conv attempt \<le> 0)"
proof (intro conjI impI)
  assume "attempt \<le> 36"
  then have "(2 :: int) ^ attempt \<le> 2 ^ 36" by (intro power_increasing) simp_all
  moreover have "int64_range x \<and> int64_range (x * 100000000)" if "0 \<le> x" "x \<le> 2 ^ 36" for x :: int
    using that by (simp add: int64_range_def)
  ultimately have "int64_range ((2 :: int) ^ attempt)" "int64_range ((2 :: int) ^ attempt * 100000000)" by simp_all
  then show "ExponentialBackoff_delay conv attempt = min (2 ^ attempt * 100000000) 5000000000"
    by (simp add: ExponentialBackoff_delay_def)
next
  assume a: "56 \<le> attempt"
  have zero: "wrap64 (2 ^ 64 * m) = 0" for m :: int
  proof -
    have "(2 ^ 64 * m + 2 ^ 63) mod 2 ^ 64 = (2 ^ 63 :: int)" by simp
    then show ?thesis by (simp add: wrap64_def)
  qed
  show "ExponentialBackoff_delay conv attempt \<le> 0"
  proof (cases "int64_range (2 ^ attempt)")
    case True
    have "(2 :: int) ^ attempt * 100000000 = 2 ^ 64 * (2 ^ (attempt - 56) * 390625)"
      using power_add [of "2 :: int" 56 "attempt - 56"] a by simp
    then have "wrap64 ((2 :: int) ^ attempt * 100000000) = 0" by (simp only: zero)
    with True show ?thesis by (simp add: ExponentialBackoff_delay_def)
  next
    case False
    have "wrap64 (- (2 ^ 63) * 100000000) = 0" "wrap64 ((2 ^ 63 - 1) * 100000000) = - 100000000" by (simp_all add: wrap64_def)
    with False assms [OF False] show ?thesis by (auto simp: ExponentialBackoff_delay_def)
  qed
qed

theorem backoff_ends_witness:
  "ExponentialBackoff_delay (\<lambda>p. - (2 ^ 63)) 3 = 800000000 \<and> ExponentialBackoff_delay (\<lambda>p. - (2 ^ 63)) 100 \<le> 0"
  using backoff_ends [of "\<lambda>p. - (2 ^ 63)" 3] backoff_ends [of "\<lambda>p. - (2 ^ 63)" 100] by simp

end
