(* ===== verification/Querier.thy ===== *)
theory Querier
  imports Complex_Main Dict_Cache Evm_Nft
begin

text \<open>
  The transport of the querier: \<open>src/util/querier\<close> without the queries themselves. A query goes to a list of endpoints,
  each tried several times with pauses in between, and every try is an HTTP request that is itself repeated.
\<close>

section \<open>State\<close>

text \<open>
  What the package keeps between queries, with the clock in nanoseconds. \<open>n_ctx\<close> holds the answers that the context of
  the query will give, one for each look at it: the error it ended with, if it has. \<open>n_tries\<close> counts the requests.
\<close>

record healthState =
  failures :: int
  lastFailureAt :: "int option"

record net =
  n_clock :: int
  n_tries :: nat
  n_ctx :: "err option list"
  healthTracker :: "(string, healthState) gomap"
  jitterSeed :: "32 word"
  rpcRotateIndex :: "32 word"
  evmDenomContractCache :: "(string, string) lru"
  moveDenomCache :: "(string, string) lru"

text \<open>
  The request of the code, and what comes back: a status and a body, or the error of the HTTP client. \<open>nd_send\<close> answers
  the \<open>n\<close>-th request, \<open>nd_took\<close> is the time it needs, \<open>nd_acquire\<close> the error of waiting for the semaphore in front of
  it, \<open>nd_bad_url\<close> what \<open>net/url\<close> has against an address. \<open>nd_fl\<close> rounds to a \<open>float64\<close>.
\<close>

record requestConfig =
  rc_method :: string
  rc_params :: "(string \<times> string) list"
  rc_payload :: "json option"
  rc_headers :: "(string \<times> string) list"

datatype http_reply = Reply int string | NoReply err

record node =
  nd_send :: "nat \<Rightarrow> string \<Rightarrow> requestConfig \<Rightarrow> http_reply"
  nd_took :: "nat \<Rightarrow> int"
  nd_acquire :: "nat \<Rightarrow> err option"
  nd_bad_url :: "string \<Rightarrow> err option"
  nd_cooling :: int
  nd_fl :: "rat \<Rightarrow> rat"
  nd_amount :: "json \<Rightarrow> int \<Rightarrow> err + int"
  nd_evict :: "(string, string) lru \<Rightarrow> (string, string) lru"

text \<open>A look at the context, and a pause that the context can cut short.\<close>

definition poll :: "(net, unit) act" where
  "poll s = (case n_ctx s of [] \<Rightarrow> (Inr (), s)
     | b # rest \<Rightarrow> ((case b of None \<Rightarrow> Inr () | Some e \<Rightarrow> Inl e), s\<lparr>n_ctx := rest\<rparr>))"

definition pause :: "int \<Rightarrow> (net, unit) act" where
  "pause d = bnd poll (\<lambda>_. modify (\<lambda>s. s\<lparr>n_clock := n_clock s + max d 0\<rparr>))"

definition second :: int where
  "second = 1000000000"


section \<open>Health of endpoints: health.go\<close>

definition failureThreshold :: int where
  "failureThreshold = 3"

definition recoveryTimeout :: int where
  "recoveryTimeout = 300 * second"

text \<open>An endpoint without an entry gets the state of a new one.\<close>

definition getEndpointHealth :: "string \<Rightarrow> net \<Rightarrow> healthState" where
  "getEndpointHealth endpoint s = map_get (healthTracker s) endpoint \<lparr>failures = 0, lastFailureAt = None\<rparr>"

definition wrap32 :: "int \<Rightarrow> int" where
  "wrap32 n = (n + 2 ^ 31) mod 2 ^ 32 - 2 ^ 31"

definition recordEndpointSuccess :: "string \<Rightarrow> net \<Rightarrow> net" where
  "recordEndpointSuccess endpoint s =
     s\<lparr>healthTracker := map_put endpoint \<lparr>failures = 0, lastFailureAt = None\<rparr> (healthTracker s)\<rparr>"

definition recordEndpointFailure :: "string \<Rightarrow> net \<Rightarrow> net" where
  "recordEndpointFailure endpoint s =
     s\<lparr>healthTracker := map_put endpoint
        \<lparr>failures = wrap32 (failures (getEndpointHealth endpoint s) + 1), lastFailureAt = Some (n_clock s)\<rparr> (healthTracker s)\<rparr>"

definition isEndpointHealthy :: "net \<Rightarrow> string \<Rightarrow> bool" where
  "isEndpointHealthy s endpoint =
     (let state = getEndpointHealth endpoint s in
      if failures state < failureThreshold then True
      else case lastFailureAt state of None \<Rightarrow> False | Some t \<Rightarrow> n_clock s - t \<ge> recoveryTimeout)"

definition findHealthyEndpoint :: "net \<Rightarrow> string list \<Rightarrow> nat" where
  "findHealthyEndpoint s endpoints =
     (case filter (\<lambda>i. isEndpointHealthy s (endpoints ! i)) [0..<length endpoints] of [] \<Rightarrow> 0 | i # _ \<Rightarrow> i)"


section \<open>Pauses: query.go\<close>

text \<open>A linear congruential generator; the number is between 0 and 1.\<close>

definition simpleRandom :: "node \<Rightarrow> net \<Rightarrow> rat \<times> net" where
  "simpleRandom N s =
     (let newSeed = jitterSeed s * 1103515245 + 12345 in
      (nd_fl N (of_int (uint (and newSeed 0x7FFFFFFF)) / of_int 0x7FFFFFFF), s\<lparr>jitterSeed := newSeed\<rparr>))"

text \<open>The pause before a repetition, in nanoseconds: one second, doubled each time up to thirty, and a tenth up or down.\<close>

definition jittered :: "(rat \<Rightarrow> rat) \<Rightarrow> rat \<Rightarrow> rat \<Rightarrow> rat" where
  "jittered fl delaySeconds random =
     (let jitter = fl (fl (delaySeconds * fl (1 / 10)) * fl (fl (2 * random) - 1)) in max (fl (delaySeconds + jitter)) 1)"

definition calculateBackoffDelay :: "node \<Rightarrow> int \<Rightarrow> net \<Rightarrow> int \<times> net" where
  "calculateBackoffDelay N attempt s =
     (if attempt \<le> 0 then (second, s)
      else let delaySeconds = min (2 ^ nat (attempt - 1)) 30; (random, s') = simpleRandom N s;
               durationMs = \<lfloor>nd_fl N (nd_fl N (jittered (nd_fl N) delaySeconds random * 1000) + 1 / 2)\<rfloor> in
        (durationMs * 1000000, s'))"

definition backoff :: "node \<Rightarrow> int \<Rightarrow> (net, int) act" where
  "backoff N attempt s = (let (d, t) = calculateBackoffDelay N attempt s in bnd (pause d) (\<lambda>_. ret d) t)"


section \<open>Rotation: querier.go\<close>

text \<open>A call that may never return: \<open>None\<close>.\<close>

type_synonym 'a call = "net \<Rightarrow> ((err + 'a) \<times> net) option"

definition cret :: "'a \<Rightarrow> 'a call" where
  "cret x = (\<lambda>s. Some (Inr x, s))"

definition cthrow :: "err \<Rightarrow> 'a call" where
  "cthrow e = (\<lambda>s. Some (Inl e, s))"

definition cbind :: "'a call \<Rightarrow> ('a \<Rightarrow> 'b call) \<Rightarrow> 'b call" where
  "cbind m f = (\<lambda>s. Option.bind (m s) (\<lambda>(r, t). case r of Inl e \<Rightarrow> Some (Inl e, t) | Inr x \<Rightarrow> f x t))"

definition clift :: "err + 'a \<Rightarrow> 'a call" where
  "clift r = (\<lambda>s. Some (r, s))"

definition maxRetriesPerURL :: nat where
  "maxRetriesPerURL = 5"

definition no_endpoints :: err where
  "no_endpoints = Err ''no endpoints configured''"

text \<open>
  One turn of the loop up to the request: after five failures the rotation pauses and goes to the next endpoint, or
  stops when that is the first one again.
\<close>

definition next_try :: "node \<Rightarrow> string list \<Rightarrow> nat \<Rightarrow> nat \<Rightarrow> nat \<Rightarrow> int \<Rightarrow> err \<Rightarrow> (net, nat \<times> nat \<times> int) act" where
  "next_try N endpoints start current retries totalDelay lastErr =
     bnd poll (\<lambda>_.
     if retries \<ge> maxRetriesPerURL then
       bnd (backoff N (int retries)) (\<lambda>d.
       let current' = (current + 1) mod length endpoints in
       if current' = start then throw (Wrapped ''exhausted all endpoints'' lastErr)
       else ret (current', 0, totalDelay + d))
     else ret (current, retries, totalDelay))"

partial_function (option) rotate_endpoints ::
    "node \<Rightarrow> string list \<Rightarrow> (string \<Rightarrow> 'a call) \<Rightarrow> nat \<Rightarrow> nat \<Rightarrow> nat \<Rightarrow> int \<Rightarrow> err \<Rightarrow> net \<Rightarrow> ((err + 'a) \<times> net) option" where
  "rotate_endpoints N endpoints requestFn start current retries totalDelay lastErr s =
     (case next_try N endpoints start current retries totalDelay lastErr s of
        (Inl e, s') \<Rightarrow> Some (Inl e, s')
      | (Inr (current', retries', totalDelay'), s') \<Rightarrow>
          Option.bind (requestFn (endpoints ! current') s') (\<lambda>(res, u). case res of
            Inr x \<Rightarrow> Some (Inr x, recordEndpointSuccess (endpoints ! current') u)
          | Inl e \<Rightarrow> let v = recordEndpointFailure (endpoints ! current') u in
              if totalDelay' > 300 * second then Some (Inl (Wrapped ''total delay exceeded 5 minutes'' e), v)
              else case backoff N (int (Suc retries')) v of
                (Inl e', w) \<Rightarrow> Some (Inl e', w)
              | (Inr d, w) \<Rightarrow> rotate_endpoints N endpoints requestFn start current' (Suc retries') totalDelay' e w))"

definition executeWithEndpointRotation :: "node \<Rightarrow> string list \<Rightarrow> (string \<Rightarrow> 'a call) \<Rightarrow> 'a call" where
  "executeWithEndpointRotation N endpoints requestFn s =
     (if endpoints = [] then Some (Inl no_endpoints, s)
      else let start = findHealthyEndpoint s endpoints in
        rotate_endpoints N endpoints requestFn start start 0 0 (Err ''nil'') s)"


section \<open>Requests: query.go\<close>

definition TooManyRequests :: err where
  "TooManyRequests = Err ''Too Many Requests''"

definition NewNetworkError :: "err \<Rightarrow> err" where
  "NewNetworkError cause = Wrapped ''[NETWORK_ERROR] network request failed'' cause"

definition NewBadRequestError :: "string \<Rightarrow> err" where
  "NewBadRequestError msg = Err (''[BAD_REQUEST] '' @ msg)"

definition NewInvalidHeightError :: err where
  "NewInvalidHeightError = NewBadRequestError ''invalid height: cannot query with height in the future''"

text \<open>An integer field takes a number without fraction and exponent.\<close>

definition dec_int :: "json \<Rightarrow> int \<Rightarrow> err + int" where
  "dec_int j old = (case j of
     JNum s \<Rightarrow> (case Atoi s of Inl e \<Rightarrow> Inl type_error | Inr n \<Rightarrow> Inr n) | JNull \<Rightarrow> Inr old | _ \<Rightarrow> Inl type_error)"

definition dec_ErrorResponse :: "json \<Rightarrow> int \<times> string \<Rightarrow> err + int \<times> string" where
  "dec_ErrorResponse = dec_struct (\<lambda>kvs (status, message).
     rbind (dec_field ''code'' dec_int kvs status) (\<lambda>status'.
     rbind (dec_field ''message'' dec_string kvs message) (\<lambda>message'. Inr (status', message'))))"

definition http_result :: "http_reply \<Rightarrow> err + string" where
  "http_result reply = (case reply of
     NoReply e \<Rightarrow> Inl (NewNetworkError e)
   | Reply status body \<Rightarrow>
       if status = 200 then Inr body
       else if status = 429 then Inl (Wrapped ''[RATE_LIMIT] rate limit exceeded'' TooManyRequests)
       else if status = 500 then
         rbind (Unmarshal dec_ErrorResponse body (0, [])) (\<lambda>(_, message).
           if contains message ''codespace sdk code 26: invalid height'' then Inl NewInvalidHeightError
           else Inl (NewNetworkError (Err (''HTTP 500: '' @ body))))
       else Inl (NewNetworkError (Err (''HTTP '' @ Itoa status @ '': '' @ body))))"

definition executeHTTPRequest :: "node \<Rightarrow> string \<Rightarrow> string \<Rightarrow> requestConfig \<Rightarrow> (net, string) act" where
  "executeHTTPRequest N baseUrl path config s =
     (case nd_bad_url N (baseUrl @ path) of
        Some e \<Rightarrow> (Inl e, s)
      | None \<Rightarrow> let n = n_tries s; s' = s\<lparr>n_tries := Suc n\<rparr> in
          case nd_acquire N n of
            Some e \<Rightarrow> (Inl (Wrapped ''[INTERNAL_ERROR] failed to acquire semaphore'' e), s')
          | None \<Rightarrow> (http_result (nd_send N n (baseUrl @ path) config), s'\<lparr>n_clock := n_clock s + max (nd_took N n) 0\<rparr>))"

definition maxRetries :: nat where
  "maxRetries = 5"

definition future_height :: "err \<Rightarrow> bool" where
  "future_height e \<longleftrightarrow> (case e of Err m \<Rightarrow> has_prefix m ''[BAD_REQUEST] '' \<and> contains m ''invalid height'' | _ \<Rightarrow> False)"

text \<open>A future height, a timeout and a rate limit are repeated without an end; any other error five times.\<close>

partial_function (option) executeWithRetry ::
    "node \<Rightarrow> string \<Rightarrow> string \<Rightarrow> requestConfig \<Rightarrow> nat \<Rightarrow> nat \<Rightarrow> nat \<Rightarrow> net \<Rightarrow> ((err + string) \<times> net) option" where
  "executeWithRetry N baseUrl path config retryCount rateLimitRetries timeoutRetries s =
     (case poll s of
        (Inl e, s') \<Rightarrow> Some (Inl e, s')
      | (Inr _, s') \<Rightarrow>
     (case executeHTTPRequest N baseUrl path config s' of
        (Inr body, t) \<Rightarrow> Some (Inr body, t)
      | (Inl e, t) \<Rightarrow>
          if future_height e then
            (case pause (nd_cooling N) t of
               (Inl e', u) \<Rightarrow> Some (Inl e', u)
             | (Inr _, u) \<Rightarrow> executeWithRetry N baseUrl path config retryCount rateLimitRetries timeoutRetries u)
          else if errors_is e DeadlineExceeded then
            (case backoff N (int (Suc timeoutRetries)) t of
               (Inl e', u) \<Rightarrow> Some (Inl e', u)
             | (Inr _, u) \<Rightarrow> executeWithRetry N baseUrl path config retryCount rateLimitRetries (Suc timeoutRetries) u)
          else if errors_is e TooManyRequests then
            (case backoff N (int (Suc rateLimitRetries)) t of
               (Inl e', u) \<Rightarrow> Some (Inl e', u)
             | (Inr _, u) \<Rightarrow> executeWithRetry N baseUrl path config retryCount (Suc rateLimitRetries) timeoutRetries u)
          else if Suc retryCount \<ge> maxRetries then Some (Inl e, t)
          else (case pause (nd_cooling N) t of
               (Inl e', u) \<Rightarrow> Some (Inl e', u)
             | (Inr _, u) \<Rightarrow> executeWithRetry N baseUrl path config (Suc retryCount) rateLimitRetries timeoutRetries u)))"

definition Get :: "node \<Rightarrow> string \<Rightarrow> string \<Rightarrow> (string \<times> string) list \<Rightarrow> (string \<times> string) list \<Rightarrow> string call" where
  "Get N baseUrl path params headers =
     executeWithRetry N baseUrl path \<lparr>rc_method = ''GET'', rc_params = params, rc_payload = None, rc_headers = headers\<rparr> 0 0 0"

definition Post :: "node \<Rightarrow> string \<Rightarrow> string \<Rightarrow> json \<Rightarrow> (string \<times> string) list \<Rightarrow> string call" where
  "Post N baseUrl path payload headers =
     executeWithRetry N baseUrl path \<lparr>rc_method = ''POST'', rc_params = [], rc_payload = Some payload, rc_headers = headers\<rparr> 0 0 0"

definition extractResponse :: "(json \<Rightarrow> 'a \<Rightarrow> err + 'a) \<Rightarrow> 'a \<Rightarrow> string \<Rightarrow> 'a call" where
  "extractResponse dec zero body = clift (Unmarshal dec body zero)"


section \<open>The RPC endpoint: rpc.go\<close>

definition dec_RpcError :: "json \<Rightarrow> int \<times> string \<times> string \<Rightarrow> err + int \<times> string \<times> string" where
  "dec_RpcError = dec_struct (\<lambda>kvs. dec_field ''error'' (dec_struct (\<lambda>kvs (status, message, data).
     rbind (dec_field ''code'' dec_int kvs status) (\<lambda>status'.
     rbind (dec_field ''message'' dec_string kvs message) (\<lambda>message'.
     rbind (dec_field ''data'' dec_string kvs data) (\<lambda>data'. Inr (status', message', data')))))) kvs)"

text \<open>The digits after the first place where \<open>prefix\<close> is followed by a digit: a regular expression \<open>prefix(\d+)\<close>.\<close>

fun find_number :: "string \<Rightarrow> string \<Rightarrow> string option" where
  "find_number prefix s =
     (if has_prefix s prefix \<and> takeWhile is_digit (drop (length prefix) s) \<noteq> []
      then Some (takeWhile is_digit (drop (length prefix) s))
      else case s of [] \<Rightarrow> None | c # r \<Rightarrow> find_number prefix r)"

declare find_number.simps [simp del]

definition rpc_result :: "http_reply \<Rightarrow> err + string" where
  "rpc_result reply = (case reply of
     NoReply e \<Rightarrow> Inl e
   | Reply status body \<Rightarrow>
       let other = Inl (Err (''http response: '' @ Itoa status @ '', body: '' @ body)) in
       if status = 200 then Inr body
       else if status = 500 then
         rbind (Unmarshal dec_RpcError body (0, [], [])) (\<lambda>(_, _, data).
           case find_number ''current blockchain height '' data of
             Some n \<Rightarrow> Inl (Err (''current height: '' @ n))
           | None \<Rightarrow> (case find_number ''could not find results for height #'' data of
               Some n \<Rightarrow> Inl (Err (''could not find results for height: '' @ n))
             | None \<Rightarrow> other))
       else other)"

definition fetchFromRpc :: "node \<Rightarrow> string \<Rightarrow> (net, string) act" where
  "fetchFromRpc N url s =
     (let n = n_tries s in
      (rpc_result (nd_send N n url \<lparr>rc_method = ''GET'', rc_params = [], rc_payload = None, rc_headers = []\<rparr>),
       s\<lparr>n_tries := Suc n, n_clock := n_clock s + max (nd_took N n) 0\<rparr>))"

text \<open>The text of the errors of the HTTP client and of the JSON decoder starts with neither of the two.\<close>

definition isFutureHeightError :: "err \<Rightarrow> bool" where
  "isFutureHeightError e \<longleftrightarrow> (case e of Err m \<Rightarrow> has_prefix m ''current height'' \<or> has_prefix m ''could not find'' | _ \<Rightarrow> False)"

definition trim_slashes :: "string \<Rightarrow> string" where
  "trim_slashes s = rev (dropWhile (\<lambda>c. c = CHR ''/'') (rev s))"

fun fetch_rpc :: "node \<Rightarrow> string list \<Rightarrow> string \<Rightarrow> nat \<Rightarrow> nat list \<Rightarrow> err \<Rightarrow> (net, string) act" where
  "fetch_rpc N rpcURLs path start [] lastErr = throw lastErr"
| "fetch_rpc N rpcURLs path start (i # is) lastErr = bnd poll (\<lambda>_ s.
     case fetchFromRpc N (trim_slashes (rpcURLs ! ((start + i) mod length rpcURLs)) @ path) s of
       (Inr body, s') \<Rightarrow> (Inr body, s')
     | (Inl e, s') \<Rightarrow> if isFutureHeightError e then (Inl e, s') else fetch_rpc N rpcURLs path start is e s')"

definition FetchRPCWithRotation :: "node \<Rightarrow> string list \<Rightarrow> string \<Rightarrow> (net, string) act" where
  "FetchRPCWithRotation N rpcURLs path =
     (if rpcURLs = [] then throw (Err ''no rpc urls configured'')
      else bnd (gets rpcRotateIndex) (\<lambda>index. bnd (modify (\<lambda>s. s\<lparr>rpcRotateIndex := index + 1\<rparr>)) (\<lambda>_.
        fetch_rpc N rpcURLs path (unat index mod length rpcURLs) [0..<length rpcURLs] (Err ''nil''))))"

end
