(* ===== verification/Querier_Api.thy ===== *)
theory Querier_Api
  imports Querier Rich_List Pagination
begin

text \<open>
  The queries: \<open>src/util/querier/cosmos.go\<close>, \<open>evm.go\<close> and \<open>move.go\<close>. Each is a request to one endpoint, rotated over all
  of them, and the decoding of its answer; the lists come page by page.
\<close>

section \<open>Answers: types/account.go\<close>

record PageInfo =
  pi_NextKey :: "byte list"
  pi_Total :: string

text \<open>A \<open>[]byte\<close> is written in base64, \<open>null\<close> empties it.\<close>

definition dec_bytes :: "json \<Rightarrow> byte list \<Rightarrow> err + byte list" where
  "dec_bytes j old = (case j of JStr s \<Rightarrow> DecodeString s | JNull \<Rightarrow> Inr [] | _ \<Rightarrow> Inl type_error)"

definition dec_PageInfo :: "json \<Rightarrow> PageInfo \<Rightarrow> err + PageInfo" where
  "dec_PageInfo = dec_struct (\<lambda>kvs p.
     rbind (dec_field ''next_key'' dec_bytes kvs (pi_NextKey p)) (\<lambda>key.
     rbind (dec_field ''total'' dec_string kvs (pi_Total p)) (\<lambda>tot. Inr \<lparr>pi_NextKey = key, pi_Total = tot\<rparr>)))"

definition no_page :: PageInfo where
  "no_page = \<lparr>pi_NextKey = [], pi_Total = []\<rparr>"

definition dec_listed :: "string \<Rightarrow> (json \<Rightarrow> 'a \<Rightarrow> err + 'a) \<Rightarrow> 'a \<Rightarrow> json \<Rightarrow> 'a list \<times> PageInfo \<Rightarrow> err + 'a list \<times> PageInfo" where
  "dec_listed name dec zero = dec_struct (\<lambda>kvs (items, page).
     rbind (dec_field name (dec_list dec zero) kvs items) (\<lambda>items'.
     rbind (dec_field ''pagination'' dec_PageInfo kvs page) (\<lambda>page'. Inr (items', page'))))"

text \<open>The address of an account, whatever its type: the one of its base account, or its own.\<close>

definition dec_CosmosAccount :: "json \<Rightarrow> string \<Rightarrow> err + string" where
  "dec_CosmosAccount j old =
     (let none = Inl (Err ''no address field found in account JSON'') in
      case j of
        JObj kvs \<Rightarrow>
          if \<not> floats_ok j then Inl type_error
          else let own = (case map_of (rev kvs) ''address'' of Some (JStr a) \<Rightarrow> Inr a | _ \<Rightarrow> none) in
            (case map_of (rev kvs) ''base_account'' of
               Some (JObj base) \<Rightarrow> (case map_of (rev base) ''address'' of Some (JStr a) \<Rightarrow> Inr a | _ \<Rightarrow> own)
             | _ \<Rightarrow> own)
      | JNull \<Rightarrow> none
      | _ \<Rightarrow> Inl type_error)"

definition dec_ModuleAccount :: "json \<Rightarrow> string \<times> string list \<Rightarrow> err + string \<times> string list" where
  "dec_ModuleAccount = dec_struct (\<lambda>kvs (address, permissions).
     rbind (dec_field ''address'' dec_string kvs address) (\<lambda>address'.
     rbind (dec_field ''permissions'' (dec_list dec_string []) kvs permissions) (\<lambda>permissions'. Inr (address', permissions'))))"

text \<open>The amount of a coin is decoded by the SDK.\<close>

definition dec_Coin :: "(json \<Rightarrow> int \<Rightarrow> err + int) \<Rightarrow> json \<Rightarrow> coin \<Rightarrow> err + coin" where
  "dec_Coin dec_amount = dec_struct (\<lambda>kvs c.
     rbind (dec_field ''denom'' dec_string kvs (coin_Denom c)) (\<lambda>denom.
     rbind (dec_field ''amount'' dec_amount kvs (coin_Amount c)) (\<lambda>amount. Inr \<lparr>coin_Denom = denom, coin_Amount = amount\<rparr>)))"

text \<open>
  The body and the auth info of a transaction are kept as they are written: the text of the members of an object and of
  the elements of an array.
\<close>

fun raw_members :: "nat \<Rightarrow> string \<Rightarrow> (string \<times> string) list" where
  "raw_members 0 s = []"
| "raw_members (Suc n) s =
     (case p_string (Suc (length s)) (tl (skip_ws s)) of
        None \<Rightarrow> []
      | Some (k, t) \<Rightarrow>
          (let u = skip_ws (tl (skip_ws t)) in
           case p_value (2 * length u + 2) u of
             None \<Rightarrow> []
           | Some (_, v) \<Rightarrow> (k, take (length u - length v) u) #
               (if has_prefix (skip_ws v) '','' then raw_members n (tl (skip_ws v)) else [])))"

fun raw_elems :: "nat \<Rightarrow> string \<Rightarrow> string list" where
  "raw_elems 0 s = []"
| "raw_elems (Suc n) s =
     (let u = skip_ws s in
      case p_value (2 * length u + 2) u of
        None \<Rightarrow> []
      | Some (_, v) \<Rightarrow> take (length u - length v) u #
          (if has_prefix (skip_ws v) '','' then raw_elems n (tl (skip_ws v)) else []))"

definition raw_array :: "string \<Rightarrow> string list" where
  "raw_array s = (if has_prefix (skip_ws s) ''['' then raw_elems (length s) (tl (skip_ws s)) else [])"

definition raw_field :: "string \<Rightarrow> string \<Rightarrow> string" where
  "raw_field name s = fold (\<lambda>(k, v) old. if field_match name k then v else old)
     (if has_prefix (skip_ws s) ''{'' then raw_members (length s) (tl (skip_ws s)) else []) []"

definition dec_RestTx :: "string \<Rightarrow> err + RestTx" where
  "dec_RestTx s =
     rbind (Unmarshal (dec_struct (\<lambda>kvs. dec_field ''signatures'' (dec_list dec_string []) kvs)) s []) (\<lambda>signatures.
     Inr \<lparr>rt_Body = raw_field ''body'' s, rt_AuthInfo = raw_field ''auth_info'' s, rt_Signatures = signatures\<rparr>)"

definition dec_RestTxs :: "string \<Rightarrow> err + RestTx list \<times> PageInfo" where
  "dec_RestTxs s =
     rbind (Unmarshal (dec_listed ''txs'' (\<lambda>j _. Inr ()) ()) s ([], no_page)) (\<lambda>(_, page).
     rbind (map_res dec_RestTx (raw_array (raw_field ''txs'' s))) (\<lambda>txs. Inr (txs, page)))"


section \<open>Pages: cosmos.go\<close>

definition paginationLimit :: string where
  "paginationLimit = ''100''"

text \<open>Whether to go on by offset, whether to stop, and whether the next request asks by offset.\<close>

definition handlePaginationNextKey :: "PageInfo \<Rightarrow> int \<Rightarrow> int \<Rightarrow> bool \<Rightarrow> bool \<times> bool \<times> bool" where
  "handlePaginationNextKey page currentCount pageSize useOffset =
     (if pi_NextKey page \<noteq> [] then (False, False, useOffset)
      else if pi_Total page = [] then (False, True, useOffset)
      else case Atoi (pi_Total page) of
        Inl e \<Rightarrow> (False, True, useOffset)
      | Inr tot \<Rightarrow> if currentCount < tot \<and> pageSize = 100 then (True, False, True) else (False, True, useOffset))"

text \<open>
  The loop over the pages, which is the same for transactions, balances and accounts: \<open>fetch\<close> asks for a page by offset
  or by key, \<open>take_page\<close> makes of its items what is collected.
\<close>

partial_function (option) fetch_pages ::
    "(bool \<Rightarrow> int \<Rightarrow> byte list \<Rightarrow> ('a list \<times> PageInfo) call) \<Rightarrow> ('a list \<Rightarrow> 'b list call) \<Rightarrow> 'b list \<Rightarrow> byte list \<Rightarrow> bool \<Rightarrow> int \<Rightarrow>
      net \<Rightarrow> ((err + 'b list) \<times> net) option" where
  "fetch_pages fetch take_page collected nextKey useOffset offset s =
     Option.bind (fetch useOffset offset nextKey s) (\<lambda>(res, t). case res of
       Inl e \<Rightarrow> Some (Inl e, t)
     | Inr (items, page) \<Rightarrow>
         Option.bind (take_page items t) (\<lambda>(res', u). case res' of
           Inl e \<Rightarrow> Some (Inl e, u)
         | Inr items' \<Rightarrow>
             let collected' = collected @ items'; n = int (length collected');
                 (shouldContinue, shouldBreak, useOffset') = handlePaginationNextKey page n (int (length items)) useOffset
             in if shouldBreak then Some (Inr collected', u)
                else if shouldContinue then fetch_pages fetch take_page collected' nextKey useOffset' n u
                else fetch_pages fetch take_page collected' (pi_NextKey page) useOffset' n u))"

definition page_params :: "bool \<Rightarrow> string \<Rightarrow> byte list \<Rightarrow> (string \<times> string) list" where
  "page_params useOffset offset nextKey =
     (''pagination.limit'', paginationLimit) #
     (if useOffset then [(''pagination.offset'', offset)]
      else if nextKey \<noteq> [] then [(''pagination.key'', EncodeToString nextKey)] else [])"

definition height_header :: "int \<Rightarrow> (string \<times> string) list" where
  "height_header height = [(''x-cosmos-block-height'', Itoa height)]"

definition fetchTxs :: "node \<Rightarrow> int \<Rightarrow> bool \<Rightarrow> int \<Rightarrow> byte list \<Rightarrow> string \<Rightarrow> (RestTx list \<times> PageInfo) call" where
  "fetchTxs N height useOffset offset nextKey endpointURL =
     cbind (Get N endpointURL (''/cosmos/tx/v1beta1/txs/block/'' @ Itoa height) (page_params useOffset (Itoa offset) nextKey) [])
       (\<lambda>body. clift (dec_RestTxs body))"

definition fetchAllTxsWithPagination :: "node \<Rightarrow> string list \<Rightarrow> int \<Rightarrow> RestTx list call" where
  "fetchAllTxsWithPagination N restUrls height =
     fetch_pages (\<lambda>useOffset offset nextKey. executeWithEndpointRotation N restUrls (fetchTxs N height useOffset offset nextKey))
       cret [] [] False 0"

text \<open>The transactions are asked for until there are as many as the block has.\<close>

partial_function (option) GetCosmosTxs :: "node \<Rightarrow> string list \<Rightarrow> int \<Rightarrow> nat \<Rightarrow> net \<Rightarrow> ((err + RestTx list) \<times> net) option" where
  "GetCosmosTxs N restUrls height txCount s =
     Option.bind (fetchAllTxsWithPagination N restUrls height s) (\<lambda>(res, t). case res of
       Inl e \<Rightarrow> Some (Inl e, t)
     | Inr allTxs \<Rightarrow> if length allTxs = txCount then Some (Inr allTxs, t) else GetCosmosTxs N restUrls height txCount t)"

text \<open>\<open>Sscanf\<close> with \<open>%d\<close>: the number the text starts with.\<close>

definition Sscanf_int :: "string \<Rightarrow> int option" where
  "Sscanf_int s =
     (let u = dropWhile (\<lambda>c. c = CHR '' '') s; (neg, ds) = split_sign u; digits = takeWhile is_digit ds in
      if digits = [] then None
      else let n = (if neg then - atoi digits else atoi digits) in if int64_range n then Some n else None)"

definition dec_BlockResponse :: "json \<Rightarrow> string \<Rightarrow> err + string" where
  "dec_BlockResponse = dec_struct (\<lambda>kvs. dec_field ''block'' (dec_struct (\<lambda>kvs.
     dec_field ''header'' (dec_struct (\<lambda>kvs. dec_field ''height'' dec_string kvs)) kvs)) kvs)"

definition fetchLatestHeight :: "node \<Rightarrow> string \<Rightarrow> string call" where
  "fetchLatestHeight N endpointURL =
     cbind (Get N endpointURL ''/cosmos/base/tendermint/v1beta1/blocks/latest'' [] []) (extractResponse dec_BlockResponse [])"

definition GetLatestHeight :: "node \<Rightarrow> string list \<Rightarrow> int call" where
  "GetLatestHeight N restUrls =
     cbind (executeWithEndpointRotation N restUrls (fetchLatestHeight N)) (\<lambda>height. case Sscanf_int height of
       None \<Rightarrow> cthrow (InvalidValue ''height'' height ''failed to parse as integer'') | Some n \<Rightarrow> cret n)"

definition fetchMinterBurnerModuleAccounts :: "node \<Rightarrow> string \<Rightarrow> (string \<times> string list) list call" where
  "fetchMinterBurnerModuleAccounts N endpointURL =
     cbind (Get N endpointURL ''/cosmos/auth/v1beta1/module_accounts'' [] [])
       (extractResponse (dec_struct (\<lambda>kvs. dec_field ''accounts'' (dec_list dec_ModuleAccount ([], [])) kvs)) [])"

definition GetMinterBurnerModuleAccounts :: "env \<Rightarrow> node \<Rightarrow> string list \<Rightarrow> byte list list call" where
  "GetMinterBurnerModuleAccounts E N restUrls =
     cbind (executeWithEndpointRotation N restUrls (fetchMinterBurnerModuleAccounts N)) (\<lambda>accounts.
     cret (concat (map (\<lambda>(address, permissions).
       if address \<noteq> [] \<and> (''minter'' \<in> set permissions \<or> ''burner'' \<in> set permissions)
       then (case AccAddressFromString (from_bech32 E) address of Inl e \<Rightarrow> [] | Inr b \<Rightarrow> [b]) else []) accounts)))"


section \<open>EVM: evm.go\<close>

definition dec_address :: "json \<Rightarrow> string \<Rightarrow> err + string" where
  "dec_address = dec_struct (\<lambda>kvs. dec_field ''address'' dec_string kvs)"

definition fetchEvmContractByDenom :: "node \<Rightarrow> string \<Rightarrow> string \<Rightarrow> string call" where
  "fetchEvmContractByDenom N denom endpointURL =
     cbind (Get N endpointURL ''/minievm/evm/v1/contracts/by_denom'' [(''denom'', denom)] []) (extractResponse dec_address [])"

definition GetEvmDenomContractCache :: "string \<Rightarrow> net \<Rightarrow> string option \<times> net" where
  "GetEvmDenomContractCache denom s =
     (let (hit, c) = lru_Get (evmDenomContractCache s) denom in (hit, s\<lparr>evmDenomContractCache := c\<rparr>))"

definition SetEvmDenomContractCache :: "node \<Rightarrow> string \<Rightarrow> string \<Rightarrow> net \<Rightarrow> net" where
  "SetEvmDenomContractCache N denom address s = s\<lparr>evmDenomContractCache := lru_Set (nd_evict N) (evmDenomContractCache s) denom address\<rparr>"

text \<open>The denom as the chain writes it; it is looked up in the cache before, and stored after, it is rewritten.\<close>

definition chain_denom :: "string \<Rightarrow> string" where
  "chain_denom denom =
     (if has_prefix denom ''ibc/'' then ''ibc/'' @ to_upper (drop 4 denom)
      else if to_lower denom = ''gas'' then ''GAS'' else denom)"

definition GetEvmContractByDenom :: "node \<Rightarrow> string list \<Rightarrow> string \<Rightarrow> string call" where
  "GetEvmContractByDenom N restUrls denom s =
     (if has_prefix denom ''0x'' then Some (Inr denom, s)
      else case GetEvmDenomContractCache denom s of
        (Some address, t) \<Rightarrow> Some (Inr address, t)
      | (None, t) \<Rightarrow>
          cbind (executeWithEndpointRotation N restUrls (fetchEvmContractByDenom N (chain_denom denom))) (\<lambda>response u.
            if response = [] then Some (Inl (Err ''empty contract address returned''), u)
            else Some (Inr (to_lower response), SetEvmDenomContractCache N (chain_denom denom) (to_lower response) u)) t)"

definition fetchCosmosBalances :: "env \<Rightarrow> node \<Rightarrow> byte list \<Rightarrow> int \<Rightarrow> bool \<Rightarrow> byte list \<Rightarrow> string \<Rightarrow> (coin list \<times> PageInfo) call" where
  "fetchCosmosBalances E N address height useOffset nextKey endpointURL =
     cbind (Get N endpointURL (''/cosmos/bank/v1beta1/balances/'' @ to_bech32 E address) (page_params useOffset ''0'' nextKey) (height_header height))
       (extractResponse (dec_listed ''balances'' (dec_Coin (nd_amount N)) \<lparr>coin_Denom = [], coin_Amount = 0\<rparr>) ([], no_page))"

fun named_balances :: "node \<Rightarrow> VMType \<Rightarrow> string list \<Rightarrow> coin list \<Rightarrow> coin list call" where
  "named_balances N vmType restUrls [] = cret []"
| "named_balances N vmType restUrls (balance # rest) =
     cbind (if vmType = EVM then GetEvmContractByDenom N restUrls (to_lower (coin_Denom balance)) else cret (to_lower (coin_Denom balance)))
       (\<lambda>denom. cbind (named_balances N vmType restUrls rest) (\<lambda>cs. cret (balance\<lparr>coin_Denom := denom\<rparr> # cs)))"

definition GetAllBalances :: "env \<Rightarrow> node \<Rightarrow> VMType \<Rightarrow> string list \<Rightarrow> byte list \<Rightarrow> int \<Rightarrow> coin list call" where
  "GetAllBalances E N vmType restUrls address height =
     fetch_pages (\<lambda>useOffset _ nextKey. executeWithEndpointRotation N restUrls (fetchCosmosBalances E N address height useOffset nextKey))
       (named_balances N vmType restUrls) [] [] False 0"

definition fetchAllAccountsWithPagination :: "node \<Rightarrow> int \<Rightarrow> bool \<Rightarrow> byte list \<Rightarrow> string \<Rightarrow> (string list \<times> PageInfo) call" where
  "fetchAllAccountsWithPagination N height useOffset nextKey endpointURL =
     cbind (Get N endpointURL ''/cosmos/auth/v1beta1/accounts'' (page_params useOffset ''0'' nextKey) (height_header height))
       (extractResponse (dec_listed ''accounts'' dec_CosmosAccount []) ([], no_page))"

definition extractAddressesFromAccounts :: "env \<Rightarrow> VMType \<Rightarrow> string list \<Rightarrow> byte list list" where
  "extractAddressesFromAccounts E vmType accounts = concat (map (\<lambda>address.
     if address = [] then []
     else case AccAddressFromString (from_bech32 E) address of
       Inl e \<Rightarrow> []
     | Inr b \<Rightarrow> if vmType = EVM \<and> length b > 20 then [] else [b]) accounts)"

definition FetchAllAccountsWithPagination :: "env \<Rightarrow> node \<Rightarrow> VMType \<Rightarrow> string list \<Rightarrow> int \<Rightarrow> byte list list call" where
  "FetchAllAccountsWithPagination E N vmType restUrls height =
     fetch_pages (\<lambda>useOffset _ nextKey. executeWithEndpointRotation N restUrls (fetchAllAccountsWithPagination N height useOffset nextKey))
       (\<lambda>accounts. cret (extractAddressesFromAccounts E vmType accounts)) [] [] False 0"

definition json_header :: "(string \<times> string) list" where
  "json_header = [(''Content-Type'', ''application/json'')]"

definition fetchEvmCall :: "node \<Rightarrow> string \<Rightarrow> byte list \<Rightarrow> int \<Rightarrow> string \<Rightarrow> string call" where
  "fetchEvmCall N contractAddr input height endpointURL =
     cbind (Post N endpointURL ''/minievm/evm/v1/call'' (JObj [(''sender'', JStr ''init1qqqqqqqqqqqqqqqqqqqqqqqqqqqqqqqpqr5e3d''),
         (''contract_addr'', JStr contractAddr), (''input'', JStr (''0x'' @ hex_encode input)), (''value'', JStr ''0'')]) (height_header height)) (\<lambda>body.
     cbind (extractResponse (dec_struct (\<lambda>kvs (response, e). rbind (dec_field ''response'' dec_string kvs response) (\<lambda>response'.
         rbind (dec_field ''error'' dec_string kvs e) (\<lambda>e'. Inr (response', e'))))) ([], []) body) (\<lambda>(response, e).
     if e \<noteq> [] then cthrow (Err (''error from evm call: '' @ e)) else cret response))"

definition evmCall :: "node \<Rightarrow> string list \<Rightarrow> string \<Rightarrow> byte list \<Rightarrow> int \<Rightarrow> byte list call" where
  "evmCall N restUrls contractAddr input height =
     cbind (executeWithEndpointRotation N restUrls (fetchEvmCall N contractAddr input height)) (\<lambda>response.
     clift (hex_decode (trim_prefix response ''0x'')))"

fun hex_digits :: "nat \<Rightarrow> string" where
  "hex_digits n = (if n < 16 then [hex_digit n] else hex_digits (n div 16) @ [hex_digit (n mod 16)])"

declare hex_digits.simps [simp del]

text \<open>\<open>%x\<close> of a height.\<close>

definition hex_height :: "int \<Rightarrow> string" where
  "hex_height height = (if height < 0 then ''0x-'' @ hex_digits (nat (- height)) else ''0x'' @ hex_digits (nat height))"

definition dec_JSONRPCResponse :: "json \<Rightarrow> JSONRPCResponse \<Rightarrow> err + JSONRPCResponse" where
  "dec_JSONRPCResponse = dec_struct (\<lambda>kvs r.
     rbind (dec_field ''jsonrpc'' dec_string kvs []) (\<lambda>_.
     rbind (dec_field ''result'' dec_string kvs (rpc_Result r)) (\<lambda>result.
     rbind (dec_field ''error'' (\<lambda>j old. if j = JNull then Inr None else
         rbind (dec_struct (\<lambda>kvs (c, m). rbind (dec_field ''code'' dec_int kvs c) (\<lambda>c'.
           rbind (dec_field ''message'' dec_string kvs m) (\<lambda>m'. Inr (c', m')))) j (case old of None \<Rightarrow> (0, []) | Some e \<Rightarrow> e))
           (\<lambda>e. Inr (Some e))) kvs (rpc_Error r)) (\<lambda>e.
     rbind (dec_field ''id'' dec_int kvs (rpc_ID r)) (\<lambda>i. Inr \<lparr>rpc_Result = result, rpc_Error = e, rpc_ID = i\<rparr>)))))"

text \<open>\<open>strconv.ParseInt\<close> with base 16 and 64 bits.\<close>

definition ParseInt16 :: "string \<Rightarrow> int option" where
  "ParseInt16 s =
     (let (neg, ds) = split_sign s in
      if ds = [] \<or> \<not> list_all (\<lambda>c. hex_val c \<noteq> None) ds then None
      else let n = foldl (\<lambda>n c. 16 * n + (case hex_val c of None \<Rightarrow> 0 | Some v \<Rightarrow> int v)) 0 ds; m = (if neg then - n else n)
        in if int64_range m then Some m else None)"

fun parseLatestHeightFromBatch :: "JSONRPCResponse list \<Rightarrow> err + int" where
  "parseLatestHeightFromBatch [] = Inl (Err ''eth_blockNumber response (ID 0) not found in batch'')"
| "parseLatestHeightFromBatch (resp # rest) =
     (if rpc_ID resp \<noteq> 0 then parseLatestHeightFromBatch rest
      else if rpc_Error resp \<noteq> None then Inl (Err ''JSON-RPC error for eth_blockNumber'')
      else case ParseInt16 (trim_prefix (rpc_Result resp) ''0x'') of
        None \<Rightarrow> Inl (Err ''failed to parse eth_blockNumber result'') | Some h \<Rightarrow> Inr h)"

definition balance_request :: "string \<Rightarrow> int \<Rightarrow> nat \<times> string \<Rightarrow> json" where
  "balance_request erc20Address height = (\<lambda>(idx, address).
     let param = trim_prefix address ''0x''; padded = replicate (64 - length param) (CHR ''0'') @ param in
     JObj [(''jsonrpc'', JStr ''2.0''), (''method'', JStr ''eth_call''),
       (''params'', JArr [JObj [(''data'', JStr (''0x70a08231'' @ padded)), (''to'', JStr erc20Address)], JStr (hex_height height)]),
       (''id'', JNum (Itoa (int idx + 1)))])"

definition balance_requests :: "string \<Rightarrow> string list \<Rightarrow> int \<Rightarrow> json" where
  "balance_requests erc20Address addresses height =
     JArr (JObj [(''jsonrpc'', JStr ''2.0''), (''method'', JStr ''eth_blockNumber''), (''params'', JArr []), (''id'', JNum ''0'')] #
       map (balance_request erc20Address height) (zip [0..<length addresses] addresses))"

definition check_batch :: "nat \<Rightarrow> int \<Rightarrow> JSONRPCResponse list \<Rightarrow> err + JSONRPCResponse list" where
  "check_batch n height batchResponses =
     (if length batchResponses \<noteq> n + 1 then Inl (Err ''batch response count mismatch'')
      else rbind (parseLatestHeightFromBatch batchResponses) (\<lambda>latestHeight.
        if latestHeight < height then Inl (Err ''latest height is less than requested height'') else Inr batchResponses))"

definition fetchERC20Balances :: "node \<Rightarrow> string \<Rightarrow> string list \<Rightarrow> int \<Rightarrow> string \<Rightarrow> JSONRPCResponse list call" where
  "fetchERC20Balances N erc20Address addresses height endpointURL =
     cbind (Post N endpointURL [] (balance_requests erc20Address addresses height) json_header) (\<lambda>body.
     cbind (extractResponse (dec_list dec_JSONRPCResponse \<lparr>rpc_Result = [], rpc_Error = None, rpc_ID = 0\<rparr>) [] body) (\<lambda>batchResponses.
     clift (check_batch (length addresses) height batchResponses)))"

definition QueryERC20Balances :: "node \<Rightarrow> string list \<Rightarrow> string \<Rightarrow> string list \<Rightarrow> int \<Rightarrow> JSONRPCResponse list call" where
  "QueryERC20Balances N jsonRpcUrls erc20Address addresses height =
     executeWithEndpointRotation N jsonRpcUrls (fetchERC20Balances N erc20Address addresses height)"


section \<open>Move: move.go\<close>

definition MoveMetadataTypeTag :: string where
  "MoveMetadataTypeTag = ''0x1::fungible_asset::Metadata''"

text \<open>Of the answer only \<open>move_resource\<close> is used, but all its fields are decoded.\<close>

definition dec_QueryMoveResourceResponse :: "json \<Rightarrow> string \<Rightarrow> err + string" where
  "dec_QueryMoveResourceResponse = dec_struct (\<lambda>kvs. dec_field ''resource'' (dec_struct (\<lambda>kvs r.
     rbind (dec_field ''address'' dec_string kvs []) (\<lambda>_.
     rbind (dec_field ''struct_tag'' dec_string kvs []) (\<lambda>_.
     rbind (dec_field ''raw_bytes'' dec_string kvs []) (\<lambda>_. dec_field ''move_resource'' dec_string kvs r))))) kvs)"

definition fetchMoveResource :: "node \<Rightarrow> string \<Rightarrow> string \<Rightarrow> int \<Rightarrow> string \<Rightarrow> string call" where
  "fetchMoveResource N addr structTag height endpointURL =
     cbind (Get N endpointURL (''/initia/move/v1/accounts/'' @ addr @ ''/resources/by_struct_tag'') [(''struct_tag'', structTag)] (height_header height))
       (extractResponse dec_QueryMoveResourceResponse [])"

definition GetMoveResource :: "node \<Rightarrow> string list \<Rightarrow> string \<Rightarrow> string \<Rightarrow> int \<Rightarrow> string call" where
  "GetMoveResource N restUrls addr structTag height = executeWithEndpointRotation N restUrls (fetchMoveResource N addr structTag height)"

text \<open>The data of a resource stays undecoded; without any, decoding it fails.\<close>

definition dec_MoveResource :: "json \<Rightarrow> json option \<Rightarrow> err + json option" where
  "dec_MoveResource = dec_struct (\<lambda>kvs d. rbind (dec_field ''type'' dec_string kvs []) (\<lambda>_. dec_field ''data'' (\<lambda>j _. Inr (Some j)) kvs d))"

definition dec_uint8 :: "json \<Rightarrow> int \<Rightarrow> err + int" where
  "dec_uint8 j old = rbind (dec_int j old) (\<lambda>n. if 0 \<le> n \<and> n < 256 then Inr n else Inl type_error)"

definition dec_MoveMetadata :: "json \<Rightarrow> int \<times> string \<Rightarrow> err + int \<times> string" where
  "dec_MoveMetadata = dec_struct (\<lambda>kvs (decimals, symbol).
     rbind (dec_field ''decimals'' dec_uint8 kvs decimals) (\<lambda>decimals'.
     rbind (dec_field ''icon_uri'' dec_string kvs []) (\<lambda>_.
     rbind (dec_field ''name'' dec_string kvs []) (\<lambda>_.
     rbind (dec_field ''project_uri'' dec_string kvs []) (\<lambda>_.
     rbind (dec_field ''symbol'' dec_string kvs symbol) (\<lambda>symbol'. Inr (decimals', symbol')))))))"

text \<open>\<open>strings.Replace\<close> of the first occurrence.\<close>

fun replace_first :: "string \<Rightarrow> string \<Rightarrow> string \<Rightarrow> string" where
  "replace_first old new s =
     (if has_prefix s old then new @ drop (length old) s else case s of [] \<Rightarrow> [] | c # r \<Rightarrow> c # replace_first old new r)"

declare replace_first.simps [simp del]

definition move_denom :: "string \<Rightarrow> string \<Rightarrow> err + string" where
  "move_denom metadataAddr moveResource =
     rbind (Unmarshal dec_MoveResource moveResource None) (\<lambda>data. case data of
       None \<Rightarrow> Inl syntax_error
     | Some j \<Rightarrow> rbind (dec_MoveMetadata j (0, [])) (\<lambda>(decimals, symbol).
         Inr (if decimals = 0 \<and> symbol \<noteq> [] then to_lower symbol else replace_first ''0x'' ''move/'' metadataAddr)))"

definition GetMoveDenomByMetadataAddr :: "node \<Rightarrow> string list \<Rightarrow> string \<Rightarrow> string call" where
  "GetMoveDenomByMetadataAddr N restUrls metadataAddr s =
     (let key = to_lower metadataAddr in
      case lru_Get (moveDenomCache s) key of
        (Some denom, c) \<Rightarrow> Some (Inr denom, s\<lparr>moveDenomCache := c\<rparr>)
      | (None, c) \<Rightarrow>
          cbind (GetMoveResource N restUrls metadataAddr MoveMetadataTypeTag 0) (\<lambda>resource.
          cbind (clift (move_denom metadataAddr resource)) (\<lambda>denom t.
            Some (Inr denom, t\<lparr>moveDenomCache := lru_Set (nd_evict N) (moveDenomCache t) key denom\<rparr>))) (s\<lparr>moveDenomCache := c\<rparr>))"

end
