(* ===== verification/Querier_Proofs.thy ===== *)
theory Querier_Proofs
  imports Querier
begin

text \<open>
  Pauses, rotation and repetition: how long a pause is, when a rotation returns and with what, when a request is given up.
\<close>

section \<open>Pauses\<close>

text \<open>What the code relies on of \<open>float64\<close>: the relative error of a rounding.\<close>

definition float_ok :: "(rat \<Rightarrow> rat) \<Rightarrow> bool" where
  "float_ok fl \<longleftrightarrow> (\<forall>x. \<bar>fl x - x\<bar> \<le> \<bar>x\<bar> / 2 ^ 53)"

lemma float_abs:
  assumes "float_ok fl" "\<bar>x\<bar> \<le> y"
  shows "\<bar>fl x\<bar> \<le> y * (1 + 1 / 2 ^ 53)"
proof -
  have "\<bar>fl x - x\<bar> \<le> \<bar>x\<bar> / 2 ^ 53" using assms(1) by (simp add: float_ok_def)
  then have "\<bar>fl x\<bar> \<le> \<bar>x\<bar> + \<bar>x\<bar> / 2 ^ 53" by linarith
  then have "\<bar>fl x\<bar> \<le> \<bar>x\<bar> * (1 + 1 / 2 ^ 53)" by (simp only: distrib_left mult_1_right times_divide_eq_right)
  also have "\<dots> \<le> y * (1 + 1 / 2 ^ 53)" using assms(2) by (intro mult_right_mono) simp_all
  finally show ?thesis .
qed

lemma float_near:
  assumes "float_ok fl" "\<bar>x\<bar> \<le> y" "y / 2 ^ 53 \<le> d"
  shows "x - d \<le> fl x" "fl x \<le> x + d"
proof -
  have "\<bar>fl x - x\<bar> \<le> \<bar>x\<bar> / 2 ^ 53" using assms(1) by (simp add: float_ok_def)
  also have "\<dots> \<le> y / 2 ^ 53" using assms(2) by (simp add: divide_right_mono)
  finally show "x - d \<le> fl x" "fl x \<le> x + d" using assms(3) by linarith+
qed

text \<open>The jitter is at most a tenth, but for the roundings.\<close>

lemma jittered_bounds:
  assumes fl: "float_ok fl" and D: "1 \<le> D" "D \<le> 30" and r: "0 \<le> r" "r \<le> 1 + 1 / 10 ^ 10"
  shows "1 \<le> jittered fl D r" "jittered fl D r \<le> D * 11 / 10 + 1 / 10 ^ 7"
proof -
  define e :: rat where "e = 1 + 1 / 2 ^ 53"
  have tenth: "\<bar>fl (1 / 10)\<bar> \<le> 1 / 10 * e" using float_abs [OF fl, of "1 / 10" "1 / 10"] by (simp add: e_def)
  have "\<bar>D * fl (1 / 10)\<bar> \<le> D * (1 / 10 * e)"
    using tenth D(1) by (simp add: abs_mult)
  from float_abs [OF fl this] have a: "\<bar>fl (D * fl (1 / 10))\<bar> \<le> D / 10 * e ^ 2" by (simp add: e_def power2_eq_square)
  have "\<bar>2 * r\<bar> \<le> 2 * (1 + 1 / 10 ^ 10)" using r by simp
  from float_near [OF fl this, of "1 / 10 ^ 10"] have "2 * r - 1 / 10 ^ 10 \<le> fl (2 * r)" "fl (2 * r) \<le> 2 * r + 1 / 10 ^ 10" by simp_all
  moreover have "(1 :: rat) / 10 ^ 9 \<ge> 3 * (1 / 10 ^ 10)" by simp
  ultimately have "\<bar>fl (2 * r) - 1\<bar> \<le> 1 + 1 / 10 ^ 9" unfolding abs_le_iff using r by linarith
  from float_abs [OF fl this] have b: "\<bar>fl (fl (2 * r) - 1)\<bar> \<le> (1 + 1 / 10 ^ 9) * e" by (simp add: e_def)
  have "\<bar>fl (D * fl (1 / 10)) * fl (fl (2 * r) - 1)\<bar> \<le> (D / 10 * e ^ 2) * ((1 + 1 / 10 ^ 9) * e)"
    unfolding abs_mult by (rule mult_mono [OF a b]) (use D(1) in \<open>simp_all add: e_def\<close>)
  from float_abs [OF fl this] have "\<bar>fl (fl (D * fl (1 / 10)) * fl (fl (2 * r) - 1))\<bar> \<le> D / 10 * (e ^ 2 * (1 + 1 / 10 ^ 9) * e * e)"
    by (simp add: e_def mult.assoc)
  also have "\<dots> \<le> D / 10 * (1 + 1 / 10 ^ 8)"
    using D(1) by (intro mult_left_mono) (simp_all add: e_def power2_eq_square)
  finally have j: "\<bar>fl (fl (D * fl (1 / 10)) * fl (fl (2 * r) - 1))\<bar> \<le> D / 10 * (1 + 1 / 10 ^ 8)" .
  define j where "j = fl (fl (D * fl (1 / 10)) * fl (fl (2 * r) - 1))"
  have "\<bar>D + j\<bar> \<le> 40" "j \<le> D / 10 + 3 / 10 ^ 8" using j D by (auto simp: j_def abs_le_iff field_simps)
  with float_near [OF fl, of "D + j" 40 "1 / 10 ^ 8"] have "fl (D + j) \<le> D + D / 10 + 1 / 10 ^ 7" by simp
  then show "1 \<le> jittered fl D r" "jittered fl D r \<le> D * 11 / 10 + 1 / 10 ^ 7"
    using D(1) unfolding jittered_def Let_def j_def [symmetric] by simp_all
qed

lemma random_bounds:
  assumes "float_ok (nd_fl N)"
  shows "0 \<le> fst (simpleRandom N s)" "fst (simpleRandom N s) \<le> 1 + 1 / 10 ^ 10"
proof -
  define v where "v = and (jitterSeed s * 1103515245 + 12345) (0x7FFFFFFF :: 32 word)"
  have "v \<le> 0x7FFFFFFF" unfolding v_def by (rule word_and_le1)
  then have v: "uint v \<le> 0x7FFFFFFF" by (simp add: word_le_def)
  define q :: rat where "q = of_int (uint v) / of_int 0x7FFFFFFF"
  have "(of_int (uint v) :: rat) \<le> of_int 0x7FFFFFFF" using v by (simp only: of_int_le_iff)
  moreover have "(0 :: rat) \<le> of_int (uint v)" by (simp only: of_int_0_le_iff uint_ge_0)
  ultimately have q: "0 \<le> q" "q \<le> 1" unfolding q_def by (simp_all only: zero_le_divide_iff) simp_all
  have "fst (simpleRandom N s) = nd_fl N q" by (simp add: simpleRandom_def Let_def v_def q_def)
  moreover have "\<bar>nd_fl N q - q\<bar> \<le> q / 2 ^ 53" using assms q(1) by (metis abs_of_nonneg float_ok_def)
  moreover have "q / 2 ^ 53 \<le> 1 / 2 ^ 53" using q(2) by (simp add: divide_right_mono)
  moreover have "q - q / 2 ^ 53 \<ge> 0" using q(1) by simp
  moreover have "(1 :: rat) / 2 ^ 53 \<le> 1 / 10 ^ 10" by simp
  ultimately show "0 \<le> fst (simpleRandom N s)" "fst (simpleRandom N s) \<le> 1 + 1 / 10 ^ 10" using q(2) by linarith+
qed

lemma backoff_delay_bounds:
  assumes fl: "float_ok (nd_fl N)" and d: "calculateBackoffDelay N attempt s = (d, s')" and D: "D = min (2 ^ nat (attempt - 1)) 30"
  shows "second \<le> d" "d \<le> D * 1100000000" "healthTracker s' = healthTracker s" "n_ctx s' = n_ctx s" "n_tries s' = n_tries s"
    "n_clock s' = n_clock s"
proof -
  have s': "healthTracker s' = healthTracker s \<and> n_ctx s' = n_ctx s \<and> n_tries s' = n_tries s \<and> n_clock s' = n_clock s"
    using d by (auto simp: calculateBackoffDelay_def simpleRandom_def Let_def split: if_splits)
  then show "healthTracker s' = healthTracker s" "n_ctx s' = n_ctx s" "n_tries s' = n_tries s" "n_clock s' = n_clock s" by simp_all
  have "1 \<le> D" "D \<le> 30" by (simp_all add: D)
  show "second \<le> d" "d \<le> D * 1100000000"
  proof (atomize (full), cases "attempt \<le> 0")
    case True
    then show "second \<le> d \<and> d \<le> D * 1100000000" using d D by (simp add: calculateBackoffDelay_def second_def)
  next
    case False
    define fl where "fl = nd_fl N"
    define x where "x = jittered fl (of_int D) (fst (simpleRandom N s))"
    have D': "(of_int D :: rat) = min (2 ^ nat (attempt - 1)) 30"
      using of_int_le_iff [of "2 ^ nat (attempt - 1)" 30, where 'a = rat] by (simp add: D min_def)
    have x: "1 \<le> x" "x \<le> of_int D * 11 / 10 + 1 / 10 ^ 7"
      using jittered_bounds [of fl "of_int D" "fst (simpleRandom N s)"] random_bounds [OF fl, of s] fl \<open>1 \<le> D\<close> \<open>D \<le> 30\<close>
      by (simp_all add: x_def fl_def)
    have d': "d = \<lfloor>fl (fl (x * 1000) + 1 / 2)\<rfloor> * 1000000"
      using d False by (simp add: calculateBackoffDelay_def x_def fl_def D' Let_def case_prod_beta)
    have top: "(of_int D :: rat) \<le> 30" using \<open>D \<le> 30\<close> by simp
    have "\<bar>x * 1000\<bar> \<le> 34000" using x top by simp
    from float_near [OF _ this, of fl "1 / 10 ^ 6"] fl
    have y: "x * 1000 - 1 / 10 ^ 6 \<le> fl (x * 1000)" "fl (x * 1000) \<le> x * 1000 + 1 / 10 ^ 6" by (simp_all add: fl_def)
    have "\<bar>fl (x * 1000) + 1 / 2\<bar> \<le> 35000" using y x top by simp
    from float_near [OF _ this, of fl "1 / 10 ^ 6"] fl
    have z: "fl (x * 1000) + 1 / 2 - 1 / 10 ^ 6 \<le> fl (fl (x * 1000) + 1 / 2)" "fl (fl (x * 1000) + 1 / 2) \<le> fl (x * 1000) + 1 / 2 + 1 / 10 ^ 6"
      by (simp_all add: fl_def)
    have "1000 \<le> \<lfloor>fl (fl (x * 1000) + 1 / 2)\<rfloor>" using z(1) y(1) x(1) by (simp add: le_floor_iff)
    moreover have "\<lfloor>fl (fl (x * 1000) + 1 / 2)\<rfloor> < D * 1100 + 1"
    proof -
      have "fl (fl (x * 1000) + 1 / 2) < of_int (D * 1100 + 1)" using z(2) y(2) x(2) by simp
      then show ?thesis by (simp only: floor_less_iff)
    qed
    ultimately show "second \<le> d \<and> d \<le> D * 1100000000" by (simp add: d' second_def)
  qed
qed


section \<open>Rotation\<close>

lemma poll_keeps: "poll s = (r, t) \<Longrightarrow> n_tries t = n_tries s \<and> healthTracker t = healthTracker s"
  by (auto simp: poll_def split: list.splits)

lemma poll_quiet [simp]: "n_ctx s = [] \<Longrightarrow> poll s = (Inr (), s)"
  by (simp add: poll_def)

lemma pause_keeps: "pause d s = (r, t) \<Longrightarrow> n_tries t = n_tries s \<and> healthTracker t = healthTracker s"
  using poll_keeps by (fastforce simp: pause_def bnd_def split: prod.splits sum.splits)

lemma pause_quiet: "n_ctx s = [] \<Longrightarrow> \<exists>t. pause d s = (Inr (), t) \<and> n_ctx t = []"
  by (simp add: pause_def bnd_def)

lemma delay_keeps: "calculateBackoffDelay N a s = (d, t) \<Longrightarrow> n_tries t = n_tries s \<and> healthTracker t = healthTracker s \<and> n_ctx t = n_ctx s"
  by (auto simp: calculateBackoffDelay_def simpleRandom_def Let_def split: if_splits)

lemma backoff_keeps: "backoff N a s = (r, t) \<Longrightarrow> n_tries t = n_tries s \<and> healthTracker t = healthTracker s"
  by (cases "calculateBackoffDelay N a s", cases "pause (fst (calculateBackoffDelay N a s)) (snd (calculateBackoffDelay N a s))")
    (auto simp: backoff_def bnd_def dest!: delay_keeps pause_keeps split: sum.splits)

lemma backoff_delay: "backoff N a s = (Inr d, t) \<Longrightarrow> d = fst (calculateBackoffDelay N a s)"
  by (auto simp: backoff_def bnd_def split: prod.splits sum.splits)

lemma backoff_quiet:
  assumes "n_ctx s = []"
  shows "\<exists>t. backoff N a s = (Inr (fst (calculateBackoffDelay N a s)), t) \<and> n_ctx t = []"
proof -
  obtain d u where d: "calculateBackoffDelay N a s = (d, u)" by (cases "calculateBackoffDelay N a s")
  with delay_keeps [OF this] assms obtain t where "pause d u = (Inr (), t)" "n_ctx t = []" using pause_quiet [of u d] by auto
  with d show ?thesis by (simp add: backoff_def)
qed

text \<open>A turn stays with its endpoint or goes to the next one.\<close>

lemma next_try_cases:
  assumes "next_try N endpoints start current retries tot lastErr s = (Inr (current', retries', tot'), t)"
  shows "n_tries t = n_tries s \<and>
    (retries < 5 \<and> current' = current \<and> retries' = retries \<and> tot' = tot \<or>
     5 \<le> retries \<and> current' = (current + 1) mod length endpoints \<and> current' \<noteq> start \<and> retries' = 0 \<and>
       (\<exists>u. tot' = tot + fst (calculateBackoffDelay N (int retries) u)))"
proof -
  from assms obtain v where v: "poll s = (Inr (), v)" "(if retries \<ge> maxRetriesPerURL then
       bnd (backoff N (int retries)) (\<lambda>d.
       let current' = (current + 1) mod length endpoints in
       if current' = start then throw (Wrapped ''exhausted all endpoints'' lastErr)
       else ret (current', 0, tot + d))
     else ret (current, retries, tot)) v = (Inr (current', retries', tot'), t)"
    by (auto simp: next_try_def bnd_eq_Inr)
  have k: "n_tries v = n_tries s" using poll_keeps [OF v(1)] by simp
  show ?thesis
  proof (cases "retries \<ge> maxRetriesPerURL")
    case True
    from v(2) [unfolded if_P [OF True]] obtain d where d: "backoff N (int retries) v = (Inr d, t)"
      "(current + 1) mod length endpoints \<noteq> start" "current' = (current + 1) mod length endpoints" "retries' = 0" "tot' = tot + d"
      by (auto simp: bnd_eq_Inr Let_def split: if_splits)
    with backoff_keeps [OF d(1)] backoff_delay [OF d(1)] k True show ?thesis by (auto simp: maxRetriesPerURL_def)
  next
    case False
    then show ?thesis using v(2) k by (simp add: maxRetriesPerURL_def)
  qed
qed

lemma tries_recorded [simp]: "n_tries (recordEndpointFailure e s) = n_tries s" "n_tries (recordEndpointSuccess e s) = n_tries s"
  "n_ctx (recordEndpointFailure e s) = n_ctx s" "n_ctx (recordEndpointSuccess e s) = n_ctx s"
  by (simp_all add: recordEndpointFailure_def recordEndpointSuccess_def)

lemma rotated:
  fixes k n start :: nat
  assumes "k + 1 < n" "start < n"
  shows "(start + (k + 1)) mod n \<noteq> start"
proof (cases "start + (k + 1) < n")
  case False
  then have "(start + (k + 1)) mod n = start + (k + 1) - n" using assms by (simp add: le_mod_geq)
  with assms False show ?thesis by arith
next
  case True
  then show ?thesis by simp
qed

text \<open>\<open>k\<close> endpoints have been given up.\<close>

lemma next_endpoint:
  assumes turn: "next_try N endpoints start (((start + k) mod length endpoints)) retries tot lastErr s = (Inr (current', retries', tot'), t)"
    and k: "k < length endpoints" "start < length endpoints" "retries \<le> 5"
  obtains (same) "retries < 5" "current' = (start + k) mod length endpoints" "retries' = retries" "tot' = tot"
  | (other) u where "retries = 5" "Suc k < length endpoints" "current' = (start + Suc k) mod length endpoints" "retries' = 0"
      "tot' = tot + fst (calculateBackoffDelay N 5 u)"
proof (cases "retries < 5")
  case True
  then show thesis using next_try_cases [OF turn] same by simp
next
  case False
  with next_try_cases [OF turn] k(3) obtain u where c: "current' = Suc ((start + k) mod length endpoints) mod length endpoints" "current' \<noteq> start"
    "retries' = 0" "tot' = tot + fst (calculateBackoffDelay N 5 u)" by auto
  have c1: "current' = (start + Suc k) mod length endpoints" using c(1) by (simp add: mod_Suc_eq)
  have "Suc k \<noteq> length endpoints"
  proof
    assume "Suc k = length endpoints"
    then have "current' = (start + length endpoints) mod length endpoints" using c1 by (simp only:)
    then show False using c(2) k(2) by simp
  qed
  then show thesis using other [OF _ _ c1 c(3,4)] False k(1,3) by simp
qed

lemma rotate_unfold:
  assumes "next_try N endpoints start current retries tot lastErr s = (Inr (current', retries', tot'), u)"
    and "requestFn (endpoints ! current') u = Some (res, v)"
  shows "rotate_endpoints N endpoints requestFn start current retries tot lastErr s = (case res of
      Inr x \<Rightarrow> Some (Inr x, recordEndpointSuccess (endpoints ! current') v)
    | Inl e \<Rightarrow> if tot' > 300 * second then Some (Inl (Wrapped ''total delay exceeded 5 minutes'' e), recordEndpointFailure (endpoints ! current') v)
        else case backoff N (int (Suc retries')) (recordEndpointFailure (endpoints ! current') v) of
          (Inl e', w) \<Rightarrow> Some (Inl e', w)
        | (Inr d, w) \<Rightarrow> rotate_endpoints N endpoints requestFn start current' (Suc retries') tot' e w)"
  by (subst rotate_endpoints.simps, cases res) (simp_all add: assms)

text \<open>Each request moves on, so the rotation returns, after at most five requests for every endpoint.\<close>

lemma next_try_tries: "next_try N endpoints start current retries tot lastErr s = (r, u) \<Longrightarrow> n_tries u = n_tries s"
  using poll_keeps backoff_keeps by (fastforce simp: next_try_def bnd_def Let_def split: prod.splits sum.splits if_splits)

lemma rotate_returns:
  assumes req: "\<And>e s. e \<in> set endpoints \<Longrightarrow> \<exists>r t. requestFn e s = Some (r, t) \<and> n_tries t \<le> n_tries s + b" and start: "start < length endpoints"
  shows "k < length endpoints \<Longrightarrow> retries \<le> 5 \<Longrightarrow>
    \<exists>r t. rotate_endpoints N endpoints requestFn start ((start + k) mod length endpoints) retries tot lastErr s = Some (r, t) \<and>
      n_tries t \<le> n_tries s + ((length endpoints - k) * 5 - retries) * b"
proof (induction "(length endpoints - k) * 5 - retries" arbitrary: k retries tot lastErr s rule: less_induct)
  case less
  let ?now = "rotate_endpoints N endpoints requestFn start ((start + k) mod length endpoints) retries tot lastErr s"
  show ?case
  proof (cases "next_try N endpoints start ((start + k) mod length endpoints) retries tot lastErr s")
    case (Pair r u)
    note u = next_try_tries [OF Pair]
    show ?thesis
    proof (cases r)
      case (Inl e)
      then show ?thesis using u Pair by (simp add: rotate_endpoints.simps)
    next
      case (Inr x)
      obtain current' retries' tot' where turn: "next_try N endpoints start ((start + k) mod length endpoints) retries tot lastErr s =
          (Inr (current', retries', tot'), u)" using Pair Inr by (cases x) simp
      from turn less.prems(1) start less.prems(2) obtain k' where k': "k' < length endpoints" "current' = (start + k') mod length endpoints"
        "retries' < 5" "(length endpoints - k') * 5 - retries' \<le> (length endpoints - k) * 5 - retries"
      proof (cases rule: next_endpoint)
        case same
        then show ?thesis using that [of k] less.prems(1) by simp
      next
        case (other w)
        then show ?thesis using that [of "Suc k"] by simp
      qed
      have "endpoints ! current' \<in> set endpoints" unfolding k'(2)
    using start by (intro nth_mem mod_less_divisor) (cases endpoints, simp_all)
      then obtain res v where v: "requestFn (endpoints ! current') u = Some (res, v)" "n_tries v \<le> n_tries u + b" using req by blast
      define left where "left = (length endpoints - k') * 5 - Suc retries'"
      have fewer: "Suc left \<le> (length endpoints - k) * 5 - retries" using k' by (simp add: left_def)
      from mult_le_mono1 [OF this, of b] v(2) u
      have bound: "n_tries v + left * b \<le> n_tries s + ((length endpoints - k) * 5 - retries) * b" by simp
      show ?thesis
      proof (cases res)
        case (Inr y)
        then show ?thesis using bound by (simp add: rotate_unfold [where requestFn = requestFn, OF turn v(1)])
      next
        case (Inl e)
        define v' where "v' = recordEndpointFailure (endpoints ! current') v"
        obtain d w where w: "backoff N (int (Suc retries')) v' = (d, w)" "n_tries w = n_tries v"
          using backoff_keeps [of N "int (Suc retries')" v'] by (cases "backoff N (int (Suc retries')) v'") (auto simp: v'_def)
        obtain r' t where again: "rotate_endpoints N endpoints requestFn start ((start + k') mod length endpoints) (Suc retries') tot' e w = Some (r', t)"
            "n_tries t \<le> n_tries w + left * b"
          using less.hyps [of k' "Suc retries'" tot' e w] fewer k'(1,3) by (auto simp: left_def)
        have "n_tries v' = n_tries v" by (simp add: v'_def)
        then show ?thesis
          using Inl w again bound
          by (cases "tot' > 300 * second"; cases d)
            (simp_all add: rotate_unfold [where requestFn = requestFn, OF turn v(1)] v'_def [symmetric] k'(2) [symmetric])
      qed
    qed
  qed
qed

text \<open>An endpoint \<open>m\<close> places on that always answers is reached, when there are not more than eighteen.\<close>

lemma five_failures: "float_ok (nd_fl N) \<Longrightarrow> fst (calculateBackoffDelay N 5 u) \<le> 17600000000"
  using backoff_delay_bounds(2) [of N 5 u "fst (calculateBackoffDelay N 5 u)" "snd (calculateBackoffDelay N 5 u)"] by simp

lemma next_try_quiet:
  assumes "n_ctx s = []" "retries < 5 \<or> Suc k < length endpoints" "start < length endpoints"
  shows "\<exists>x u. next_try N endpoints start ((start + k) mod length endpoints) retries tot lastErr s = (Inr x, u) \<and> n_ctx u = []"
proof -
  obtain t where t: "backoff N (int retries) s = (Inr (fst (calculateBackoffDelay N (int retries) s)), t)" "n_ctx t = []"
    using backoff_quiet [OF assms(1)] by blast
  have "5 \<le> retries \<Longrightarrow> Suc ((start + k) mod length endpoints) mod length endpoints \<noteq> start"
    using rotated [of k "length endpoints" start] assms(2,3) by (simp add: mod_Suc_eq)
  then show ?thesis using assms(1) t by (simp add: next_try_def maxRetriesPerURL_def Let_def)
qed

lemma rotate_reaches:
  assumes fl: "float_ok (nd_fl N)" and start: "start < length endpoints" and m: "m < length endpoints" "m \<le> 17"
    and req: "\<And>e s. e \<in> set endpoints \<Longrightarrow> n_ctx s = [] \<Longrightarrow> \<exists>r t. requestFn e s = Some (r, t) \<and> n_ctx t = []"
    and live: "\<And>s r t. n_ctx s = [] \<Longrightarrow> requestFn (endpoints ! ((start + m) mod length endpoints)) s = Some (r, t) \<Longrightarrow> \<exists>x. r = Inr x"
  shows "k \<le> m \<Longrightarrow> retries < 5 \<or> k < m \<Longrightarrow> retries \<le> 5 \<Longrightarrow> n_ctx s = [] \<Longrightarrow> tot \<le> 17600000000 * int k \<Longrightarrow>
    \<exists>x t. rotate_endpoints N endpoints requestFn start ((start + k) mod length endpoints) retries tot lastErr s = Some (Inr x, t) \<and> n_ctx t = []"
proof (induction "(length endpoints - k) * 5 - retries" arbitrary: k retries tot lastErr s rule: less_induct)
  case less
  have "retries < 5 \<or> Suc k < length endpoints" using less.prems(2) m(1) by auto
  from next_try_quiet [OF less.prems(4) this start] obtain x u where
    "next_try N endpoints start ((start + k) mod length endpoints) retries tot lastErr s = (Inr x, u)" "n_ctx u = []" by blast
  then obtain current' retries' tot' where
    turn: "next_try N endpoints start ((start + k) mod length endpoints) retries tot lastErr s = (Inr (current', retries', tot'), u)"
    and u: "n_ctx u = []" by (cases x) simp
  have "k < length endpoints" using less.prems(1) m(1) by simp
  from turn this start less.prems(3) obtain k' where k': "k' \<le> m" "current' = (start + k') mod length endpoints"
    "retries' < 5" "(length endpoints - k') * 5 - retries' \<le> (length endpoints - k) * 5 - retries" "tot' \<le> 17600000000 * int k'"
  proof (cases rule: next_endpoint)
    case same
    then show ?thesis using that [of k] less.prems(1,5) by simp
  next
    case (other w)
    then show ?thesis using that [of "Suc k"] less.prems(2,5) five_failures [OF fl, of w] by simp
  qed
  have "endpoints ! current' \<in> set endpoints" unfolding k'(2)
    using start by (intro nth_mem mod_less_divisor) (cases endpoints, simp_all)
  then obtain res v where v: "requestFn (endpoints ! current') u = Some (res, v)" "n_ctx v = []" using req [OF _ u] by blast
  show ?case
  proof (cases res)
    case (Inr y)
    then show ?thesis using v(2) by (simp add: rotate_unfold [where requestFn = requestFn, OF turn v(1)])
  next
    case (Inl e)
    have "k' \<noteq> m" using live [OF u, of res v] v(1) k'(2) Inl by auto
    then have km: "k' < m" using k'(1) by simp
    define v' where "v' = recordEndpointFailure (endpoints ! current') v"
    obtain d w where w: "backoff N (int (Suc retries')) v' = (Inr d, w)" "n_ctx w = []"
      using backoff_quiet [of v' N "int (Suc retries')"] v(2) by (auto simp: v'_def)
    have "17600000000 * int k' \<le> 17600000000 * 17" using km m(2) by simp
    then have cap: "\<not> 300 * second < tot'" using k'(5) by (simp add: second_def)
    have "(length endpoints - k') * 5 - Suc retries' < (length endpoints - k) * 5 - retries" using k'(3,4) km m(1) by simp
    from less.hyps [OF this k'(1) _ _ w(2) k'(5), of e] km k'(3) obtain y t where
      "rotate_endpoints N endpoints requestFn start ((start + k') mod length endpoints) (Suc retries') tot' e w = Some (Inr y, t)" "n_ctx t = []"
      by auto
    with Inl w(1) cap show ?thesis
      by (simp add: rotate_unfold [where requestFn = requestFn, OF turn v(1)] v'_def [symmetric] k'(2) [symmetric])
  qed
qed

text \<open>The query as a whole.\<close>

lemma healthy_in_range: "endpoints \<noteq> [] \<Longrightarrow> findHealthyEndpoint s endpoints < length endpoints"
proof (cases "filter (\<lambda>i. isEndpointHealthy s (endpoints ! i)) [0..<length endpoints]")
  case (Cons i rest)
  then have "i \<in> set (filter (\<lambda>i. isEndpointHealthy s (endpoints ! i)) [0..<length endpoints])" by (simp only: list.set_intros)
  then have "i < length endpoints" by simp
  with Cons show ?thesis by (simp add: findHealthyEndpoint_def)
qed (simp add: findHealthyEndpoint_def)

theorem rotation_bounded:
  assumes "\<And>e s. e \<in> set endpoints \<Longrightarrow> \<exists>r t. requestFn e s = Some (r, t) \<and> n_tries t \<le> n_tries s + b"
  shows "\<exists>r t. executeWithEndpointRotation N endpoints requestFn s = Some (r, t) \<and> n_tries t \<le> n_tries s + 5 * length endpoints * b"
proof (cases "endpoints = []")
  case False
  define start where "start = findHealthyEndpoint s endpoints"
  have start: "start < length endpoints" using healthy_in_range [OF False] by (simp add: start_def)
  from rotate_returns [where requestFn = requestFn, OF assms this, of 0 0 N 0 "Err ''nil''" s] start
  show ?thesis using False by (simp add: executeWithEndpointRotation_def start_def [symmetric] mult.commute)
qed (simp add: executeWithEndpointRotation_def)

theorem rotation_reaches:
  assumes "float_ok (nd_fl N)" "length endpoints \<le> 18" "i < length endpoints" "n_ctx s = []"
    and "\<And>e s. e \<in> set endpoints \<Longrightarrow> n_ctx s = [] \<Longrightarrow> \<exists>r t. requestFn e s = Some (r, t) \<and> n_ctx t = []"
    and "\<And>s r t. n_ctx s = [] \<Longrightarrow> requestFn (endpoints ! i) s = Some (r, t) \<Longrightarrow> \<exists>x. r = Inr x"
  shows "\<exists>x t. executeWithEndpointRotation N endpoints requestFn s = Some (Inr x, t) \<and> n_ctx t = []"
proof -
  define n where "n = length endpoints"
  define start where "start = findHealthyEndpoint s endpoints"
  have ne: "endpoints \<noteq> []" using assms(3) by auto
  have start: "start < n" using healthy_in_range [OF ne] by (simp add: start_def n_def)
  define m where "m = (i + n - start) mod n"
  have "(start + m) mod n = (start + (i + n - start)) mod n" by (simp add: m_def mod_add_right_eq)
  also have "start + (i + n - start) = i + n" using start by simp
  finally have i: "(start + m) mod n = i" using assms(3) by (simp add: n_def)
  have "0 < n" using start by simp
  then have "m < n" by (simp add: m_def)
  then have m: "m < n" "m \<le> 17" using assms(2) by (simp_all add: n_def)
  from rotate_reaches [where requestFn = requestFn, OF assms(1) start [unfolded n_def] m(1) [unfolded n_def] m(2) assms(5), of 0 0 s 0 "Err ''nil''"]
    assms(4,6) start i show ?thesis
    using ne by (simp add: executeWithEndpointRotation_def start_def [symmetric] n_def)
qed

text \<open>What the first endpoint does: its answer is the result, and when it does not return, nothing else is tried.\<close>

lemma rotation_first:
  assumes "endpoints \<noteq> []" "n_ctx s = []"
  shows "requestFn (endpoints ! findHealthyEndpoint s endpoints) s = Some (Inr x, t) \<Longrightarrow>
      executeWithEndpointRotation N endpoints requestFn s = Some (Inr x, recordEndpointSuccess (endpoints ! findHealthyEndpoint s endpoints) t)"
    and "requestFn (endpoints ! findHealthyEndpoint s endpoints) s = None \<Longrightarrow> executeWithEndpointRotation N endpoints requestFn s = None"
proof -
  define start where "start = findHealthyEndpoint s endpoints"
  have "next_try N endpoints start start 0 0 (Err ''nil'') s = (Inr (start, 0, 0), s)"
    using assms(2) by (simp add: next_try_def maxRetriesPerURL_def)
  then show "requestFn (endpoints ! findHealthyEndpoint s endpoints) s = Some (Inr x, t) \<Longrightarrow>
      executeWithEndpointRotation N endpoints requestFn s = Some (Inr x, recordEndpointSuccess (endpoints ! findHealthyEndpoint s endpoints) t)"
    and "requestFn (endpoints ! findHealthyEndpoint s endpoints) s = None \<Longrightarrow> executeWithEndpointRotation N endpoints requestFn s = None"
    using assms(1) by (simp_all add: executeWithEndpointRotation_def start_def [symmetric] rotate_endpoints.simps [of N endpoints requestFn start start])
qed


section \<open>Repetition\<close>

definition ordinary :: "err \<Rightarrow> bool" where
  "ordinary e \<longleftrightarrow> \<not> future_height e \<and> \<not> errors_is e DeadlineExceeded \<and> \<not> errors_is e TooManyRequests"

lemma request_keeps:
  "executeHTTPRequest N url path config s = (r, t) \<Longrightarrow> n_ctx t = n_ctx s \<and> n_tries t \<le> Suc (n_tries s) \<and> healthTracker t = healthTracker s"
  by (auto simp: executeHTTPRequest_def Let_def split: option.splits)

lemma retry_returns:
  assumes "\<forall>s e. fst (executeHTTPRequest N url path config s) = Inl e \<longrightarrow> ordinary e"
  shows "retryCount < 5 \<Longrightarrow> \<exists>r t. executeWithRetry N url path config retryCount rl tm s = Some (r, t) \<and> n_tries t \<le> n_tries s + (5 - retryCount) \<and>
    (n_ctx s = [] \<longrightarrow> n_ctx t = [])"
proof (induction "5 - retryCount" arbitrary: retryCount s rule: less_induct)
  case less
  show ?case
  proof (cases "fst (poll s)")
    case (Inl e)
    then show ?thesis using poll_keeps [of s] by (cases "poll s") (auto simp: executeWithRetry.simps [of N url path config retryCount])
  next
    case (Inr x)
    then obtain u where u: "poll s = (Inr (), u)" "n_tries u = n_tries s" using poll_keeps [of s] by (cases "poll s") auto
    have uq: "n_ctx s = [] \<Longrightarrow> n_ctx u = []" using u(1) by simp
    show ?thesis
    proof (cases "executeHTTPRequest N url path config u")
      case (Pair r t)
      note t = request_keeps [OF Pair]
      show ?thesis
      proof (cases r)
        case (Inr body)
        then show ?thesis using u Pair t uq less.prems by (auto simp: executeWithRetry.simps [of N url path config retryCount])
      next
        case (Inl e)
        have "ordinary e" using assms Pair Inl by (metis fst_conv)
        note o = this [unfolded ordinary_def]
        show ?thesis
        proof (cases "Suc retryCount \<ge> maxRetries")
          case True
          then show ?thesis using u Pair Inl t o uq less.prems
            by (auto simp: executeWithRetry.simps [of N url path config retryCount] maxRetries_def)
        next
          case False
          obtain p v where v: "pause (nd_cooling N) t = (p, v)" "n_tries v = n_tries t" using pause_keeps [of "nd_cooling N" t] by fastforce
          have vq: "n_ctx t = [] \<Longrightarrow> n_ctx v = []" using pause_quiet [of t "nd_cooling N"] v(1) by auto
          obtain r' w where w: "executeWithRetry N url path config (Suc retryCount) rl tm v = Some (r', w)" "n_tries w \<le> n_tries v + (5 - Suc retryCount)"
            "n_ctx v = [] \<Longrightarrow> n_ctx w = []"
            using less.hyps [of "Suc retryCount" v] less.prems False diff_less_mono2 [of retryCount "Suc retryCount" 5] by (auto simp: maxRetries_def)
          show ?thesis using u Pair Inl t o uq v vq w less.prems False
            by (cases p) (auto simp: executeWithRetry.simps [of N url path config retryCount])
        qed
      qed
    qed
  qed
qed

lemma retry_first:
  assumes "n_ctx s = []" "executeHTTPRequest N url path config s = (Inr body, t)"
  shows "executeWithRetry N url path config retryCount rl tm s = Some (Inr body, t)"
  by (subst executeWithRetry.simps) (simp add: assms)

text \<open>While the endpoint answers that there are too many requests, the query does not return.\<close>

lemma retry_blocked:
  assumes "\<And>s. n_ctx s = [] \<Longrightarrow> \<exists>e t. executeHTTPRequest N url path config s = (Inl e, t) \<and> \<not> future_height e \<and> errors_is e TooManyRequests"
    and "n_ctx s = []"
  shows "executeWithRetry N url path config retryCount rl tm s = None"
proof (cases "executeWithRetry N url path config retryCount rl tm s")
  case (Some y)
  have "N = N \<and> url = url \<and> path = path \<and> config = config \<longrightarrow> n_ctx s \<noteq> []"
  proof (rule executeWithRetry.raw_induct [where P = "\<lambda>N' u p c _ _ _ s _. N' = N \<and> u = url \<and> p = path \<and> c = config \<longrightarrow> n_ctx s \<noteq> []", OF _ Some],
      intro impI notI, elim conjE, goal_cases)
    case (1 f N' u p c retryCount rl tm s r)
    from assms(1) [OF 1(3)] obtain e t where t: "executeHTTPRequest N url path config s = (Inl e, t)" "\<not> future_height e" "errors_is e TooManyRequests"
      by blast
    then have q: "n_ctx t = []" using request_keeps [OF t(1)] 1(3) by simp
    obtain v where v: "backoff N (int (Suc rl)) t = (Inr (fst (calculateBackoffDelay N (int (Suc rl)) t)), v)" "n_ctx v = []"
      using backoff_quiet [OF q] by blast
    have "\<not> errors_is e DeadlineExceeded" using t(3) by (simp add: errors_is_def TooManyRequests_def)
    with 1(2-7) t v have "f N url path config retryCount (Suc rl) tm v = Some r" by simp
    from 1(1) [OF this] v(2) show False by simp
  qed
  with assms(2) show ?thesis by simp
qed


section \<open>The RPC endpoints\<close>

text \<open>
  An error about a future height ends the rotation at once; any other error says that every endpoint has been asked once, and
  that none of them answered.
\<close>

lemma fetch_rpc_all:
  assumes "n_ctx s = []" "fetch_rpc N urls path start idx lastErr s = (Inl e, t)" "\<not> isFutureHeightError e"
  shows "n_tries t = n_tries s + length idx"
  using assms
proof (induction idx arbitrary: s lastErr)
  case (Cons i rest)
  obtain r u where u: "fetchFromRpc N (trim_slashes (urls ! ((start + i) mod length urls)) @ path) s = (r, u)" "n_ctx u = []" "n_tries u = Suc (n_tries s)"
    using Cons.prems(1) by (simp add: fetchFromRpc_def Let_def)
  show ?case
  proof (cases r)
    case (Inl e')
    then show ?thesis using Cons u by (cases "isFutureHeightError e'") (auto simp: bnd_def)
  qed (use Cons.prems u in \<open>simp add: bnd_def\<close>)
qed simp

text \<open>Consecutive queries start at consecutive endpoints.\<close>

lemma rpc_start_moves:
  assumes "rpcURLs \<noteq> []" "FetchRPCWithRotation N rpcURLs path s = (r, t)"
  shows "rpcRotateIndex t = rpcRotateIndex s + 1"
proof -
  have p: "poll s = (a, t) \<Longrightarrow> rpcRotateIndex t = rpcRotateIndex s" for s t and a :: "err + unit"
    by (auto simp: poll_def split: list.splits)
  have f: "fetchFromRpc N url s = (a, t) \<Longrightarrow> rpcRotateIndex t = rpcRotateIndex s" for url s t a
    by (auto simp: fetchFromRpc_def Let_def)
  have "fetch_rpc N rpcURLs path start idx lastErr s = (r, t) \<Longrightarrow> rpcRotateIndex t = rpcRotateIndex s" for start idx lastErr s
  proof (induction idx arbitrary: s lastErr)
    case (Cons i rest)
    obtain a u where u: "poll s = (a, u)" by (cases "poll s")
    obtain b v where v: "fetchFromRpc N (trim_slashes (rpcURLs ! ((start + i) mod length rpcURLs)) @ path) u = (b, v)" by (cases "fetchFromRpc N (trim_slashes (rpcURLs ! ((start + i) mod length rpcURLs)) @ path) u")
    from Cons p [OF u] f [OF v] u v show ?case by (cases a; cases b) (auto simp: bnd_def split: if_splits)
  qed simp
  from this [of _ _ _ "s\<lparr>rpcRotateIndex := rpcRotateIndex s + 1\<rparr>"] assms show ?thesis by (auto simp: FetchRPCWithRotation_def bnd_def)
qed

end
