(* ===== verification/Querier_Pages.thy ===== *)
theory Querier_Pages
  imports Querier_Api Querier_Proofs
begin

text \<open>Lists that come page by page: when the loop collects everything, and what it does when a node leaves out the next key.\<close>

lemma cret_run [simp]: "cret x s = Some (Inr x, s)"
  and cthrow_run [simp]: "cthrow e s = Some (Inl e, s)"
  and clift_run [simp]: "clift r s = Some (r, s)"
  by (simp_all add: cret_def cthrow_def clift_def)

lemma cbind_Inr [simp]: "m s = Some (Inr x, t) \<Longrightarrow> cbind m f s = f x t"
  and cbind_Inl [simp]: "m s = Some (Inl e, t) \<Longrightarrow> cbind m f s = Some (Inl e, t)"
  and cbind_None [simp]: "m s = None \<Longrightarrow> cbind m f s = None"
  by (simp_all add: cbind_def)

lemma fetch_pages_step:
  assumes "fetch useOffset offset key s = Some (Inr (items, page), t)"
  shows "fetch_pages fetch (\<lambda>xs. cret (f xs)) collected key useOffset offset s =
    (case handlePaginationNextKey page (int (length (collected @ f items))) (int (length items)) useOffset of (more_offset, stop, useOffset') \<Rightarrow>
      if stop then Some (Inr (collected @ f items), t)
      else fetch_pages fetch (\<lambda>xs. cret (f xs)) (collected @ f items) (if more_offset then key else pi_NextKey page) useOffset'
        (int (length (collected @ f items))) t)"
  by (subst fetch_pages.simps) (simp add: assms Let_def split: prod.split)


section \<open>All pages\<close>

text \<open>
  A node that serves the list \<open>xs\<close>: the page that starts at \<open>i\<close> ends at \<open>j\<close>. It has the key of the position after it, or
  none; a node that leaves the key out although there is more has sent a full page and says how many there are.
\<close>

definition page_end :: "nat \<Rightarrow> (byte list \<Rightarrow> nat) \<Rightarrow> nat \<Rightarrow> nat \<Rightarrow> PageInfo \<Rightarrow> bool" where
  "page_end len pos i j page \<longleftrightarrow> i \<le> j \<and> j \<le> len \<and>
     (if pi_NextKey page \<noteq> [] then pos (pi_NextKey page) = j \<and> i < j
      else if j < len then pi_Total page = Itoa (int len) \<and> j = i + 100
      else \<forall>n. Atoi (pi_Total page) = Inr n \<longrightarrow> n \<le> int len)"

definition serves :: "(net \<Rightarrow> bool) \<Rightarrow> (bool \<Rightarrow> int \<Rightarrow> byte list \<Rightarrow> ('a list \<times> PageInfo) call) \<Rightarrow> (byte list \<Rightarrow> nat) \<Rightarrow> 'a list \<Rightarrow> bool" where
  "serves P fetch pos xs \<longleftrightarrow> (\<forall>useOffset offset key s. P s \<longrightarrow>
     (\<forall>i. i = (if useOffset then nat offset else pos key) \<longrightarrow> i \<le> length xs \<longrightarrow>
       (\<exists>j page t. fetch useOffset offset key s = Some (Inr (take (j - i) (drop i xs), page), t) \<and> P t \<and> page_end (length xs) pos i j page)))"

lemma pages_all:
  assumes serves: "serves P fetch pos xs" and size: "int64_range (int (length xs))"
  shows "P s \<Longrightarrow> i \<le> length xs \<Longrightarrow> i = (if useOffset then nat offset else pos key) \<Longrightarrow>
    \<exists>t. fetch_pages fetch cret (take i xs) key useOffset offset s = Some (Inr xs, t) \<and> P t"
proof (induction "length xs - i" arbitrary: i key useOffset offset s rule: less_induct)
  case less
  obtain j page t where page: "fetch useOffset offset key s = Some (Inr (take (j - i) (drop i xs), page), t)" "P t" "page_end (length xs) pos i j page"
    using serves less.prems unfolding serves_def by blast
  have j: "i \<le> j" "j \<le> length xs" using page(3) by (simp_all add: page_end_def)
  have got: "take i xs @ take (j - i) (drop i xs) = take j xs" "length (take (j - i) (drop i xs)) = j - i"
    using j take_add [of i "j - i" xs] by simp_all
  have len: "length (take j xs) = j" using j(2) by simp
  have step: "fetch_pages fetch cret (take i xs) key useOffset offset s =
    (case handlePaginationNextKey page (int j) (int (j - i)) useOffset of (more_offset, stop, useOffset') \<Rightarrow>
      if stop then Some (Inr (take j xs), t)
      else fetch_pages fetch cret (take j xs) (if more_offset then key else pi_NextKey page) useOffset' (int j) t)"
    using fetch_pages_step [of fetch useOffset offset key s _ page t "\<lambda>x. x" "take i xs", OF page(1)]
    unfolding got len .
  consider (key) "pi_NextKey page \<noteq> []" | (early) "pi_NextKey page = []" "j < length xs" | (finished) "pi_NextKey page = []" "j = length xs"
    using j(2) by fastforce
  then show ?case
  proof cases
    case key
    then have "pos (pi_NextKey page) = j" "i < j" using page(3) by (simp_all add: page_end_def)
    then have "\<exists>t'. fetch_pages fetch cret (take j xs) (pi_NextKey page) useOffset (int j) t = Some (Inr xs, t') \<and> P t'"
      using less.hyps [of j t useOffset "int j" "pi_NextKey page"] page(2) j by auto
    with step key show ?thesis by (simp add: handlePaginationNextKey_def)
  next
    case early
    then have e: "pi_Total page = Itoa (int (length xs))" "j = i + 100" using page(3) by (simp_all add: page_end_def)
    have "Itoa (int (length xs)) \<noteq> []" using nat_digits_props [of "length xs"] by (auto simp: Itoa_def)
    then have "handlePaginationNextKey page (int j) (int (j - i)) useOffset = (True, False, True)"
      using early e Atoi_Itoa [OF size] by (simp add: handlePaginationNextKey_def)
    moreover have "length xs - j < length xs - i" using e(2) early(2) by simp
    from less.hyps [OF this page(2) j(2), of True "int j" key]
    have "\<exists>t'. fetch_pages fetch cret (take j xs) key True (int j) t = Some (Inr xs, t') \<and> P t'" by simp
    ultimately show ?thesis using step by simp
  next
    case finished
    then have "\<forall>n. Atoi (pi_Total page) = Inr n \<longrightarrow> n \<le> int (length xs)" using page(3) by (simp add: page_end_def)
    then have "handlePaginationNextKey page (int j) (int (j - i)) useOffset = (False, True, useOffset)"
      using finished by (auto simp: handlePaginationNextKey_def split: sum.splits)
    then show ?thesis using step finished page(2) by simp
  qed
qed


section \<open>The first page again\<close>

text \<open>Asked by offset zero, a node that leaves out the next key sends its first page again and again.\<close>

lemma pages_repeat:
  assumes fetch: "\<And>useOffset offset s. P s \<Longrightarrow> \<exists>t. fetch useOffset offset [] s = Some (Inr (items, \<lparr>pi_NextKey = [], pi_Total = Itoa tot\<rparr>), t) \<and> P t"
    and tot: "int64_range tot" and items: "length items = 100" "f items \<noteq> []"
  shows "P s \<Longrightarrow> \<exists>k t. fetch_pages fetch (\<lambda>xs. cret (f xs)) collected [] useOffset offset s =
    Some (Inr (collected @ concat (replicate (Suc k) (f items))), t) \<and> P t"
proof (induction "nat (tot - int (length collected))" arbitrary: collected useOffset offset s rule: less_induct)
  case less
  obtain t where t: "fetch useOffset offset [] s = Some (Inr (items, \<lparr>pi_NextKey = [], pi_Total = Itoa tot\<rparr>), t)" "P t"
    using fetch [OF less.prems] by blast
  have ne: "Itoa tot \<noteq> []" using nat_digits_props [of "nat tot"] nat_digits_props [of "nat (- tot)"] by (auto simp: Itoa_def)
  define n where "n = int (length (collected @ f items))"
  show ?case
  proof (cases "n < tot")
    case True
    have "nat (tot - n) < nat (tot - int (length collected))" using True items(2) by (simp add: n_def)
    from less.hyps [of "collected @ f items", folded n_def, OF this t(2)] obtain k u where
      "fetch_pages fetch (\<lambda>xs. cret (f xs)) (collected @ f items) [] True n t = Some (Inr ((collected @ f items) @ concat (replicate (Suc k) (f items))), u)" "P u"
      by blast
    then have "fetch_pages fetch (\<lambda>xs. cret (f xs)) collected [] useOffset offset s =
        Some (Inr (collected @ concat (replicate (Suc (Suc k)) (f items))), u)" "P u"
      using True ne items(1) Atoi_Itoa [OF tot]
      by (simp_all add: fetch_pages_step [where fetch = fetch, OF t(1)] handlePaginationNextKey_def n_def)
    then show ?thesis by blast
  next
    case False
    then have "fetch_pages fetch (\<lambda>xs. cret (f xs)) collected [] useOffset offset s =
        Some (Inr (collected @ concat (replicate (Suc 0) (f items))), t)"
      using ne items(1) Atoi_Itoa [OF tot]
      by (simp add: fetch_pages_step [where fetch = fetch, OF t(1)] handlePaginationNextKey_def n_def)
    with t(2) show ?thesis by blast
  qed
qed

text \<open>When nothing on that page counts, the loop never ends.\<close>

lemma pages_never:
  assumes fetch: "\<And>useOffset offset s. P s \<Longrightarrow> \<exists>t. fetch useOffset offset [] s = Some (Inr (items, \<lparr>pi_NextKey = [], pi_Total = Itoa tot\<rparr>), t) \<and> P t"
    and tot: "int64_range tot" "0 < tot" and items: "length items = 100" "f items = []" and s: "P s"
  shows "fetch_pages fetch (\<lambda>xs. cret (f xs)) [] [] useOffset offset s = None"
proof (cases "fetch_pages fetch (\<lambda>xs. cret (f xs)) [] [] useOffset offset s")
  case (Some y)
  have ne: "Itoa tot \<noteq> []" using nat_digits_props [of "nat tot"] tot(2) by (auto simp: Itoa_def)
  have "fetch = fetch \<and> (\<lambda>xs. cret (f xs)) = (\<lambda>xs. cret (f xs)) \<and> [] = ([] :: 'b list) \<and> [] = ([] :: byte list) \<longrightarrow> \<not> P s"
  proof (rule fetch_pages.raw_induct [where P = "\<lambda>g c xs key _ _ s _. g = fetch \<and> c = (\<lambda>xs. cret (f xs)) \<and> xs = [] \<and> key = [] \<longrightarrow> \<not> P s", OF _ Some],
      intro impI notI, elim conjE, goal_cases)
    case (1 pages g c xs key useOffset offset s r)
    obtain t where t: "fetch useOffset offset [] s = Some (Inr (items, \<lparr>pi_NextKey = [], pi_Total = Itoa tot\<rparr>), t)" "P t"
      using fetch [OF 1(3)] by blast
    from 1(2-7) have "pages fetch (\<lambda>xs. cret (f xs)) [] [] True 0 t = Some r"
      using ne items tot(2) Atoi_Itoa [OF tot(1)] by (simp add: t(1) handlePaginationNextKey_def)
    from 1(1) [OF this] t(2) show False by simp
  qed
  with s show ?thesis by simp
qed

end
