(* ===== verification/Querier_Properties.thy ===== *)
theory Querier_Properties
  imports Querier_Pages Demo
begin

text \<open>
  Properties of the querier: when a query is answered, when it returns and when it does not, and what the paged queries
  collect.
\<close>

section \<open>Queries\<close>

abbreviation get_config :: "(string \<times> string) list \<Rightarrow> (string \<times> string) list \<Rightarrow> requestConfig" where
  "get_config params headers \<equiv> \<lparr>rc_method = ''GET'', rc_params = params, rc_payload = None, rc_headers = headers\<rparr>"

text \<open>C10.
  A query reaches an endpoint that works: with at most eighteen endpoints, one of which answers every request, while the
  others may fail in any way that is not repeated without an end, the query returns an answer, wherever the rotation starts.
\<close>

theorem live_endpoint_reached:
  assumes "float_ok (nd_fl N)" "length endpoints \<le> 18" "url \<in> set endpoints" "n_ctx s = []"
    and "\<And>s. \<exists>body. fst (executeHTTPRequest N url path (get_config params headers) s) = Inr body"
    and "\<And>u s e. u \<in> set endpoints \<Longrightarrow> fst (executeHTTPRequest N u path (get_config params headers) s) = Inl e \<Longrightarrow> ordinary e"
  shows "\<exists>body t. executeWithEndpointRotation N endpoints (\<lambda>u. Get N u path params headers) s = Some (Inr body, t)"
proof -
  obtain i where i: "i < length endpoints" "endpoints ! i = url" using assms(3) by (auto simp: in_set_conv_nth)
  have "\<exists>r t. Get N e path params headers s = Some (r, t) \<and> n_ctx t = []" if "e \<in> set endpoints" "n_ctx s = []" for e s
  proof -
    have "\<forall>s x. fst (executeHTTPRequest N e path (get_config params headers) s) = Inl x \<longrightarrow> ordinary x"
      using assms(6) [OF that(1)] by blast
    from retry_returns [OF this, of 0 0 0 s] that(2) show ?thesis unfolding Get_def by auto
  qed
  moreover have "\<exists>x. r = Inr x" if "n_ctx s = []" "Get N (endpoints ! i) path params headers s = Some (r, t)" for s r t
    using assms(5) [of s] retry_first [OF that(1), of N url path "get_config params headers"] that(2)
    by (cases "executeHTTPRequest N url path (get_config params headers) s") (auto simp: Get_def i(2))
  ultimately show ?thesis
    using rotation_reaches [OF assms(1,2) i(1) assms(4), of "\<lambda>u. Get N u path params headers"] by blast
qed

text \<open>The first endpoint refuses, or has too many requests; the second answers.\<close>

definition demo_node :: "http_reply \<Rightarrow> node" where
  "demo_node first = \<lparr>nd_send = (\<lambda>n url config. if has_prefix url ''a'' then first else Reply 200 ''{}''), nd_took = (\<lambda>n. 1),
     nd_acquire = (\<lambda>n. None), nd_bad_url = (\<lambda>url. None), nd_cooling = 1, nd_fl = (\<lambda>x. x),
     nd_amount = (\<lambda>j n. Inr n), nd_evict = (\<lambda>c. c)\<rparr>"

definition demo_net :: net where
  "demo_net = \<lparr>n_clock = 0, n_tries = 0, n_ctx = [], healthTracker = [], jitterSeed = 1, rpcRotateIndex = 0,
     evmDenomContractCache = [], moveDenomCache = []\<rparr>"

lemma demo_float [simp]: "float_ok (nd_fl (demo_node r))"
  by (simp add: float_ok_def demo_node_def)

lemma demo_request: "fst (executeHTTPRequest (demo_node r) url path config s) =
    http_result (if has_prefix (url @ path) ''a'' then r else Reply 200 ''{}'')"
  by (simp add: executeHTTPRequest_def demo_node_def Let_def)

lemma refused_ordinary: "http_result (NoReply (Err ''refused'')) = Inl e \<Longrightarrow> ordinary e"
  by (auto simp: http_result_def NewNetworkError_def ordinary_def future_height_def errors_is_def TooManyRequests_def)

theorem live_endpoint_reached_witness:
  "\<exists>body t. executeWithEndpointRotation (demo_node (NoReply (Err ''refused''))) [''a'', ''b''] (\<lambda>u. Get (demo_node (NoReply (Err ''refused''))) u ''/x'' [] [])
     demo_net = Some (Inr body, t)"
proof (rule live_endpoint_reached [where url = "''b''"])
  show "\<exists>body. fst (executeHTTPRequest (demo_node (NoReply (Err ''refused''))) ''b'' ''/x'' (get_config [] []) s) = Inr body" for s
    by (simp add: demo_request has_prefix_def http_result_def)
  show "ordinary e" if "u \<in> set [''a'', ''b'']" "fst (executeHTTPRequest (demo_node (NoReply (Err ''refused''))) u ''/x'' (get_config [] []) s) = Inl e" for u s e
    using that refused_ordinary by (auto simp: demo_request has_prefix_def http_result_def)
qed (simp_all add: demo_net_def)

text \<open>C31.
  A query returns after at most twenty-five requests for every endpoint, five tries of five requests, when no endpoint fails in
  a way that is repeated without an end.
\<close>

theorem query_returns:
  assumes "\<And>u s e. u \<in> set endpoints \<Longrightarrow> fst (executeHTTPRequest N u path (get_config params headers) s) = Inl e \<Longrightarrow> ordinary e"
  shows "\<exists>r t. executeWithEndpointRotation N endpoints (\<lambda>u. Get N u path params headers) s = Some (r, t) \<and>
    n_tries t \<le> n_tries s + 25 * length endpoints"
proof -
  have "\<exists>r t. Get N e path params headers s = Some (r, t) \<and> n_tries t \<le> n_tries s + 5" if "e \<in> set endpoints" for e s
  proof -
    have "\<forall>s x. fst (executeHTTPRequest N e path (get_config params headers) s) = Inl x \<longrightarrow> ordinary x"
      using assms [OF that] by blast
    from retry_returns [OF this, of 0 0 0 s] show ?thesis unfolding Get_def by auto
  qed
  from rotation_bounded [of endpoints "\<lambda>u. Get N u path params headers" 5, OF this, of N s]
  have "\<exists>r t. executeWithEndpointRotation N endpoints (\<lambda>u. Get N u path params headers) s = Some (r, t) \<and>
    n_tries t \<le> n_tries s + 5 * length endpoints * 5" by blast
  moreover have "5 * length endpoints * 5 = 25 * length endpoints" by simp
  ultimately show ?thesis by (simp only:)
qed

theorem query_returns_witness:
  "\<exists>r t. executeWithEndpointRotation (demo_node (NoReply (Err ''refused''))) [''a''] (\<lambda>u. Get (demo_node (NoReply (Err ''refused''))) u ''/x'' [] []) demo_net =
     Some (r, t) \<and> n_tries t \<le> 25"
proof -
  have "\<exists>r t. executeWithEndpointRotation (demo_node (NoReply (Err ''refused''))) [''a''] (\<lambda>u. Get (demo_node (NoReply (Err ''refused''))) u ''/x'' [] []) demo_net =
      Some (r, t) \<and> n_tries t \<le> n_tries demo_net + 25 * length [''a'']"
  proof (rule query_returns)
    show "ordinary e" if "u \<in> set [''a'']" "fst (executeHTTPRequest (demo_node (NoReply (Err ''refused''))) u ''/x'' (get_config [] []) s) = Inl e" for u s e
      using that refused_ordinary by (auto simp: demo_request has_prefix_def)
  qed
  then show ?thesis by (simp add: demo_net_def)
qed




section \<open>Pages\<close>

text \<open>C17.
  The transactions of a block are collected completely and in order from a node that serves its list page by page, by key or by
  offset, even when it leaves out the next key too early; when there are as many as the block has, \<open>GetCosmosTxs\<close> returns them.
\<close>

theorem txs_all_collected:
  assumes "serves P (\<lambda>useOffset offset key. executeWithEndpointRotation N restUrls (fetchTxs N height useOffset offset key)) pos txs"
    and "pos [] = 0" "int64_range (int (length txs))" "P s"
  shows "\<exists>t. GetCosmosTxs N restUrls height (length txs) s = Some (Inr txs, t)"
proof -
  from pages_all [OF assms(1,3,4), of 0 False 0 "[]"] assms(2) obtain t where
    "fetchAllTxsWithPagination N restUrls height s = Some (Inr txs, t)" by (auto simp: fetchAllTxsWithPagination_def)
  then show ?thesis by (subst GetCosmosTxs.simps) simp
qed

text \<open>A node with two transactions, one to a page.\<close>

definition tx_page :: "nat \<Rightarrow> string" where
  "tx_page i = (if i = 0 then
       [CHR ''{'', CHR 0x22] @ ''txs'' @ [CHR 0x22] @ '':[{'' @ [CHR 0x22] @ ''body'' @ [CHR 0x22] @ '':1}],'' @ [CHR 0x22] @ ''pagination'' @ [CHR 0x22] @ '':{'' @
         [CHR 0x22] @ ''next_key'' @ [CHR 0x22] @ '':'' @ [CHR 0x22] @ ''AQ=='' @ [CHR 0x22] @ ''}}''
     else if i = 1 then
       [CHR ''{'', CHR 0x22] @ ''txs'' @ [CHR 0x22] @ '':[{'' @ [CHR 0x22] @ ''body'' @ [CHR 0x22] @ '':2}]}''
     else ''{}'')"

definition tx_list :: "RestTx list" where
  "tx_list = map (\<lambda>b. \<lparr>rt_Body = b, rt_AuthInfo = [], rt_Signatures = []\<rparr>) [''1'', ''2'']"

definition tx_pos :: "byte list \<Rightarrow> nat" where
  "tx_pos key = (if key = [] then 0 else if key = [1] then 1 else 2)"

definition tx_node :: node where
  "tx_node = (demo_node (NoReply (Err ''refused'')))\<lparr>nd_send := (\<lambda>n url config. Reply 200 (tx_page
     (case map_of (rc_params config) ''pagination.offset'' of
        Some offset \<Rightarrow> (if offset = ''1'' then 1 else if offset = ''2'' then 2 else 0)
      | None \<Rightarrow> (case map_of (rc_params config) ''pagination.key'' of
          None \<Rightarrow> 0 | Some key \<Rightarrow> if key = EncodeToString [1] then 1 else 2))))\<rparr>"

lemma tx_pages_decode:
  "dec_RestTxs (tx_page 0) = Inr (take 1 tx_list, \<lparr>pi_NextKey = [1], pi_Total = []\<rparr>)"
  "dec_RestTxs (tx_page 1) = Inr (drop 1 tx_list, no_page)"
  "dec_RestTxs (tx_page 2) = Inr ([], no_page)"
  by code_simp+

lemma one_endpoint [simp]: "findHealthyEndpoint s [u] = 0"
  by (simp add: findHealthyEndpoint_def)

text \<open>A query to one endpoint that answers.\<close>

lemma answered:
  assumes "n_ctx s = []" "\<And>s. fst (executeHTTPRequest N u path (get_config params headers) s) = Inr body" "dec body = Inr x"
  shows "\<exists>t. executeWithEndpointRotation N [u] (\<lambda>u. cbind (Get N u path params headers) (\<lambda>body. clift (dec body))) s = Some (Inr x, t) \<and> n_ctx t = []"
proof -
  obtain t where t: "executeHTTPRequest N u path (get_config params headers) s = (Inr body, t)" using assms(2) by (metis prod.collapse)
  then have "Get N u path params headers s = Some (Inr body, t)" unfolding Get_def by (rule retry_first [OF assms(1)])
  then have "cbind (Get N u path params headers) (\<lambda>body. clift (dec body)) s = Some (Inr x, t)" by (simp add: assms(3))
  then show ?thesis
    using rotation_first(1) [of "[u]" s "\<lambda>u. cbind (Get N u path params headers) (\<lambda>body. clift (dec body))" x t N] assms(1) request_keeps [OF t] by simp
qed

lemma tx_node_request:
  assumes i: "i = (if useOffset then nat offset else tx_pos key)" "i \<le> 2"
  shows "fst (executeHTTPRequest tx_node u path (get_config (page_params useOffset (Itoa offset) key) headers) s) = Inr (tx_page i)"
proof -
  have small: "Itoa 0 = ''0''" "Itoa 1 = ''1''" "Itoa 2 = ''2''" by code_simp+
  have neg: "offset < 0 \<Longrightarrow> Itoa offset \<noteq> ''1'' \<and> Itoa offset \<noteq> ''2''" by (simp add: Itoa_def)
  note defs = executeHTTPRequest_def tx_node_def demo_node_def http_result_def page_params_def tx_pos_def Let_def
  show ?thesis
  proof (cases useOffset)
    case True
    then have "offset < 0 \<and> i = 0 \<or> offset = 0 \<and> i = 0 \<or> offset = 1 \<and> i = 1 \<or> offset = 2 \<and> i = 2" using i by (simp, arith)
    then show ?thesis using True small neg by (elim disjE conjE) (simp_all add: defs)
  next
    case False
    moreover have "EncodeToString key = EncodeToString [1] \<longleftrightarrow> key = [1]" by (rule EncodeToString_inj)
    ultimately show ?thesis using i by (simp add: defs)
  qed
qed

lemma tx_node_serves: "serves (\<lambda>s. n_ctx s = []) (\<lambda>useOffset offset key. executeWithEndpointRotation tx_node [''n''] (fetchTxs tx_node 5 useOffset offset key)) tx_pos tx_list"
  unfolding serves_def
proof (intro allI impI)
  fix useOffset offset key i and s :: net
  assume s: "n_ctx s = []" and i: "i = (if useOffset then nat offset else tx_pos key)" "i \<le> length tx_list"
  have len: "length tx_list = 2" by (simp add: tx_list_def)
  define page where "page = (if i = 0 then \<lparr>pi_NextKey = [1], pi_Total = []\<rparr> else no_page)"
  have "i = 0 \<or> i = 1 \<or> i = 2" using i(2) len by arith
  then have "dec_RestTxs (tx_page i) = Inr (take (min 2 (i + 1) - i) (drop i tx_list), page)"
    using tx_pages_decode by (elim disjE) (simp_all add: page_def len tx_list_def)
  moreover have "fst (executeHTTPRequest tx_node ''n'' (''/cosmos/tx/v1beta1/txs/block/'' @ Itoa 5) (get_config (page_params useOffset (Itoa offset) key) []) s) =
      Inr (tx_page i)" for s by (rule tx_node_request [OF i(1)]) (use i(2) len in simp)
  ultimately have "\<exists>t. executeWithEndpointRotation tx_node [''n''] (\<lambda>u. cbind (Get tx_node u (''/cosmos/tx/v1beta1/txs/block/'' @ Itoa 5)
      (page_params useOffset (Itoa offset) key) []) (\<lambda>body. clift (dec_RestTxs body))) s = Some (Inr (take (min 2 (i + 1) - i) (drop i tx_list), page), t) \<and> n_ctx t = []"
    by (intro answered [OF s])
  then have "\<exists>t. executeWithEndpointRotation tx_node [''n''] (fetchTxs tx_node 5 useOffset offset key) s =
      Some (Inr (take (min 2 (i + 1) - i) (drop i tx_list), page), t) \<and> n_ctx t = []"
    by (simp add: fetchTxs_def [abs_def])
  moreover have "page_end (length tx_list) tx_pos i (min 2 (i + 1)) page"
    using \<open>i = 0 \<or> i = 1 \<or> i = 2\<close> by (elim disjE) (simp_all add: page_end_def page_def len tx_pos_def no_page_def Atoi_def split_sign_def)
  ultimately show "\<exists>j page t. executeWithEndpointRotation tx_node [''n''] (fetchTxs tx_node 5 useOffset offset key) s = Some (Inr (take (j - i) (drop i tx_list), page), t) \<and>
      n_ctx t = [] \<and> page_end (length tx_list) tx_pos i j page" by blast
qed

theorem txs_all_collected_witness: "\<exists>t. GetCosmosTxs tx_node [''n''] 5 2 demo_net = Some (Inr tx_list, t)"
proof -
  have "length tx_list = 2" by (simp add: tx_list_def)
  then show ?thesis
    using txs_all_collected [OF tx_node_serves, of demo_net] by (simp add: tx_pos_def demo_net_def int64_range_def)
qed







text \<open>
  An account that holds its address deeper than in a base account, as vesting accounts do, makes its page fail, and with it the
  whole list.
\<close>

lemma map_res_fails: "x \<in> set xs \<Longrightarrow> isl (f x) \<Longrightarrow> isl (map_res f xs)"
proof (induction xs)
  case (Cons y ys)
  show ?case
  proof (cases "f y")
    case (Inr z)
    with Cons have "isl (map_res f ys)" by auto
    then show ?thesis using Inr by (cases "map_res f ys") simp_all
  qed simp
qed simp

lemma vesting_account_fails:
  assumes "JObj kvs \<in> set accounts" "map_of (rev kvs) ''base_account'' = None" "map_of (rev kvs) ''address'' = None"
  shows "isl (dec_list dec_CosmosAccount [] (JArr accounts) old)"
proof -
  have "isl (dec_CosmosAccount (JObj kvs) [])" using assms(2,3) by (simp add: dec_CosmosAccount_def Let_def)
  from map_res_fails [OF assms(1), of "\<lambda>x. dec_CosmosAccount x []", OF this] show ?thesis by (simp add: dec_list_def)
qed

text \<open>A denom that is rewritten is never found in the cache.\<close>

lemma rewritten_denom_not_cached:
  assumes "chain_denom denom \<noteq> denom" "map_of (evmDenomContractCache s) denom = None" "evicts (nd_evict N)"
  shows "map_of (evmDenomContractCache (SetEvmDenomContractCache N (chain_denom denom) address s)) denom = None"
proof -
  have "denom \<notin> fst ` set (nd_evict N ((chain_denom denom, address) # filter (\<lambda>p. fst p \<noteq> chain_denom denom) (evmDenomContractCache s)))"
  proof -
    have "set (nd_evict N ((chain_denom denom, address) # filter (\<lambda>p. fst p \<noteq> chain_denom denom) (evmDenomContractCache s))) \<subseteq>
        set ((chain_denom denom, address) # filter (\<lambda>p. fst p \<noteq> chain_denom denom) (evmDenomContractCache s))"
      using assms(3) unfolding evicts_def by blast
    then show ?thesis using assms(1,2) by (auto simp: map_of_eq_None_iff)
  qed
  then show ?thesis by (simp add: SetEvmDenomContractCache_def lru_Set_def map_of_eq_None_iff)
qed

end
