(* ===== verification/Spec2Isabelle.thy ===== *)
theory Spec2Isabelle
  imports Data_Properties Sync_Properties Ext_Properties Nft_Properties Api_Properties Rich_Properties Querier_Properties
begin

text \<open>
  Rollytics indexes a Move, Wasm or EVM minitia into a Postgres database and serves it over HTTP. This development models
  the indexer, everything between the answers of the node and the rows of the database; the extensions that work on
  these rows afterwards; and the lists the API serves of blocks, transactions, collections and tokens.

  \<^bold>\<open>The program and its theories.\<close> The scraper (\<open>src/indexer/scraper\<close>) turns the answers of the node into scraped blocks and
  delivers them, in any order, to the indexer (\<open>src/indexer/indexer.go\<close>). The indexer prepares several blocks at once and collects
  them one by one, in the order of their heights. To collect a block is one database transaction (\<open>src/indexer/collector/collector.go\<close>)
  in which the block, the transaction and the NFT submodule write their rows. The submodules get the ids of accounts, message
  types, type tags, hashes and tokens from dictionaries, tables with a cache in front (\<open>src/util/cache/cache.go\<close>). The extensions run
  beside the indexer on the stored rows.

  \<^item> \<open>Prelude\<close>: errors as Go wraps them, the state-and-error monad, its Hoare triples, 64-bit wrap-around.
  \<^item> \<open>Hex_Addr\<close>, \<open>Base64\<close>, \<open>Json\<close>: \<open>src/util/util.go\<close> and the parts of the standard library that decide what is stored: \<open>hex\<close>,
    \<open>base64\<close>, a JSON parser, decoder and printer over bytes.
  \<^item> \<open>Sql_Table\<close>, \<open>Schema\<close>: tables as lists of rows, insert with conflict clauses, updates and deletes; the rows of
    \<open>src/types/table.go\<close>, the scraped data, the state \<open>world\<close> (database, caches, faults to come), the environment \<open>env\<close> and the
    configuration, and the primitives \<open>query\<close>, \<open>exec\<close>, \<open>transaction\<close>, \<open>ctx_check\<close>.
  \<^item> \<open>Dict_Cache\<close>, \<open>Dict_Ids\<close>: the dictionaries. The operations are written once over a record \<open>dict\<close>, the functions of the code are
    its instances. \<open>dict_store\<close> is their interface, interpreted for the five dictionaries.
  \<^item> \<open>Db_Ops\<close>: \<open>CreateInBatches\<close>, the sequence table (\<open>src/indexer/util/util.go\<close>).
  \<^item> \<open>Events\<close>, \<open>Tx_Address\<close>, \<open>Tx_Collector\<close>: \<open>src/indexer/util/event.go\<close> and \<open>src/indexer/collector/tx\<close>; \<open>Tx_Spec\<close> says which rows belong to a
    transaction, \<open>Tx_Collect_Proofs\<close> that \<open>collect_tx\<close> stores them.
  \<^item> \<open>Block_Collector\<close>, \<open>Collector\<close>: \<open>src/indexer/collector/block\<close> and \<open>collector.go\<close>, with the interfaces \<open>block_submodule\<close> and \<open>submodule\<close>.
  \<^item> \<open>Pipeline\<close>: the loops of \<open>indexer.go\<close> as the step relation \<open>step\<close>, one rule per thing a goroutine does between two
    accesses to shared state; \<open>reachable\<close> closes it.
  \<^item> \<open>Scraper\<close>: \<open>parseScrapedBlock\<close>, the time format, fast sync as the step relation \<open>fstep\<close> (with \<open>fgrow\<close> for a chain that grows),
    slow sync as \<open>slow_step\<close>, and \<open>Run\<close> as their composition.
  \<^item> \<open>Internal_Tx\<close>, \<open>Itx_Extension\<close>: \<open>src/indexer/extension/internaltx\<close>: the rows of a call tree, the bounded queue, producer and consumer as
    the step relation \<open>ext_step\<close>.
  \<^item> \<open>Edge_Cleanup\<close>, \<open>Evm_Ret\<close>, \<open>Tx_Account_Cleanup\<close>, \<open>Cleanup_Progress\<close>: \<open>src/indexer/extension/evmret\<close> and \<open>txaccountcleanup\<close>, which repair the account edges
    of stored transactions.
  \<^item> \<open>Go_Map\<close>, \<open>Decimal\<close>: maps the code ranges over, decimal and hexadecimal numerals.
  \<^item> \<open>Nft_Common\<close>, \<open>Wasm_Nft\<close>, \<open>Evm_Nft\<close>, \<open>Move_Nft\<close>: \<open>src/indexer/collector/wasm-nft\<close>, \<open>evm-nft\<close>, \<open>move-nft\<close> and \<open>nft-pair\<close>: the data a
    block needs of the node, the maps that collect its mints, transfers and burns, the statements that write them.
    \<open>Nft_Proofs\<close> says what these leave alone, \<open>Nft_Submodules\<close> interprets the interfaces of the collector on them and models the
    choice by virtual machine.
  \<^item> \<open>Nft_Ledger\<close>: the specification of the token table, a ledger that mints, transfers and burns change one after the other;
    \<open>Nft_Rows\<close> relates it to the rows, \<open>Evm_Ledger\<close> and \<open>Wasm_Ledger\<close> prove that a collected block takes one ledger to the next,
    \<open>Nft_Counts\<close> that the counts of collections follow.
  \<^item> \<open>Float64\<close>, \<open>Pagination\<close>, \<open>Page_Walk\<close>: \<open>src/util/common-handler/common/pagination.go\<close> with the numbers of JSON as Go reads them; the
    interface \<open>cursor_endpoint\<close> and the client that follows the keys of the pages. \<open>Tx_Api\<close>, \<open>Evm_Api\<close>, \<open>Nft_Api\<close>: the handlers
    under \<open>src/api/handler\<close>, on which the interface is interpreted.
  \<^item> \<open>Data_Properties\<close>, \<open>Sync_Properties\<close>, \<open>Ext_Properties\<close>, \<open>Nft_Properties\<close>, \<open>Api_Properties\<close> and this theory hold the properties,
    \<open>Demo\<close> and \<open>Demo_Nft\<close> the concrete inputs of their witnesses.

  \<^bold>\<open>State and effects.\<close> An operation of the code that uses the database is a function of type \<open>(world, 'a) act\<close>, from a \<open>world\<close> to an error or
  a value and the next \<open>world\<close>. The field \<open>w_faults\<close> holds the faults of the statements to come (a lost connection, a
  serialization failure, a cancelled context); every statement takes one entry, so a theorem that does not restrict it holds
  whatever fails and wherever. A transaction that ends in an error restores the database but not the caches, which live in memory.
  Integers are HOL integers with \<open>wrap64\<close> written where the code can overflow. Strings are lists of bytes.

  \<^bold>\<open>Parameters.\<close> What the code takes from other packages is a field of \<open>env\<close>: bech32, the protobuf codec, SHA-256, the unmarshalling of
  logs, the order in which Go iterates over a map. \<open>env_ok\<close>, \<open>bech32_ok\<close> and \<open>codec_ok\<close> say what the code relies on: bech32
  is injective and reads back what it writes, an iteration order is a permutation, the codec round-trips. \<open>plain_events\<close> says that the
  attributes of events are written the way the chain writes them. Each has a concrete instance in the witnesses.

  \<open>nft_env\<close> has those of the NFT submodules: the answers of the node at a height, the class ids of the NFT-transfer module, the order
  in which Go ranges over a map of tokens (\<open>nft_env_ok\<close>). Of the API, the collation of the database, the normal form of collection names
  (the tables of Unicode), the entries a cache has dropped, and whether a count ran into its timeout are arguments of the handlers.

  \<^bold>\<open>What the lemmas show.\<close> Dictionaries: an invariant \<open>dict_inv\<close> (cache and table agree, ids are unique), kept by every operation, and
  the ids returned are those of the rows. Collectors: exactly which rows a collect writes, what it keeps, that it is atomic (this
  theory and \<open>Data_Properties\<close>). Tokens: the table shows the ledger, the counts are right, and where they are not (\<open>Nft_Properties\<close>).
  Pipeline: order, bounds and nothing lost for every interleaving (this theory). Scraper: what is delivered, where it goes on, what a
  growing chain loses (\<open>Sync_Properties\<close>). Extensions: what they write and remove, that they return, what they never reach
  (\<open>Ext_Properties\<close>). API: a client that follows the keys sees every row once, a key reads back, requests are bounded, and which
  answers are not what was asked (\<open>Api_Properties\<close>).

  \<^bold>\<open>Loops.\<close> Most recursions are structural, over the list the code ranges over. \<open>chunks\<close> ends because each chunk is not empty,
  \<open>reverse_loop\<close> because the sequence falls in every round. The loop of the return-address cleanup does not end: \<open>clean_turns\<close> follows
  it for any number of rounds, and \<open>ret_cleanup_exact\<close> says what has happened after them. \<open>wait_for_chain\<close> reads the list of the answers the node
  will give. The goroutines are step relations, so nothing bounds their runs. A client follows the
  keys of at most \<open>n\<close> pages, where \<open>n\<close> is above the number of rows, since every page with a key holds a row.

  \<^bold>\<open>Not modelled.\<close> The rich-list extension, the extension manager, the one-off patches, the routes and middleware of the HTTP
  server, the querier with its retries, configuration parsing, the ORM connection, metrics, logging and the command line. The version
  probe and RPC batching of \<open>internaltx\<close> are answers of the environment.
\<close>

section \<open>Collecting a block\<close>

text \<open>C1.
  A successful \<open>collect\<close> of the transaction submodule stores, for the block that was prepared, one entry per
  raw transaction, numbered consecutively from the sequence the database held, each with its row and exactly the
  account, message-type and type-tag edges that its raw bytes, its result and its events give it, the ids being those
  of the dictionaries; the sequence moves on by the number of transactions, no other table changes, and the
  dictionaries stay sound and only grow.
\<close>

theorem collect_tx_rows:
  assumes "env_ok E" "codec_ok E" "valid_config cfg" "dict_invs E w" "collect_tx E cfg block w = (Inr (), w')"
  shows "dict_invs E w' \<and> grows w w' \<and>
    (\<exists>cd es stores. txCache w (sb_Height block) = Some cd \<and> fa_rows E cfg block = Inr stores \<and>
      length es = length (sb_Txs block) \<and>
      (\<forall>i < length es. entry_ok E cfg block (rest_tx_map (cd_RestTxs cd)) w' i (sb_Txs block ! i)
         (seq_value (w_db w) ''tx'' + int i + 1) (es ! i)) \<and>
      stored block es stores (w_db w) (w_db w'))"
  using collect_tx_spec [OF assms] by blast

lemma demo_collect_tx: "collect_tx demo_env demo_cfg demo_block demo_world =
    (Inr (), snd (collect_tx demo_env demo_cfg demo_block demo_world))"
  using demo_collects_tx by (cases "collect_tx demo_env demo_cfg demo_block demo_world") simp

theorem collect_tx_rows_witness:
  "\<exists>es stores. length es = 1 \<and>
     stored demo_block es stores empty_db (w_db (snd (collect_tx demo_env demo_cfg demo_block demo_world)))"
  using collect_tx_rows [OF demo_env_ok demo_codec_ok demo_valid demo_dicts(2) demo_collect_tx]
  by (force simp: demo_world_def world_of_def demo_block_def)

text \<open>C2.
  Whatever the database, the node and the context do, whichever virtual machine the chain runs, and whether it returns an
  error or not, \<open>Collect\<close> with the NFT submodule of that machine keeps the table of blocks a chain: one row per height, and every row but a first one has its predecessor stored and a block
  time that is the difference of the two timestamps.
\<close>

theorem collect_keeps_chain:
  assumes "chain_ok cfg (w_db w)" "Collect (nft_submodule N) E cfg block w = (r, w')"
  shows "chain_ok cfg (w_db w')"
  by (rule keepsD [OF nft_sub.keeps_chain_ok assms])

theorem collect_keeps_chain_witness:
  "chain_ok demo_cfg (w_db (snd (Collect (nft_submodule demo_nft_env) demo_env demo_cfg demo_block demo_move_world)))"
proof -
  have "chain_ok demo_cfg (w_db demo_move_world)"
    by (simp add: chain_ok_def linked_def demo_move_world_def demo_world_def world_of_def empty_db_def unique_key_def)
  then show ?thesis using collect_keeps_chain prod.collapse by metis
qed

text \<open>C3.
  \<open>Collect\<close> is atomic: when it returns an error the database is what it was, and a block whose row is stored
  is not collected again, whatever fails.
\<close>

theorem collect_atomic:
  assumes "Collect nft E cfg block w = (r, w')"
    and "r \<noteq> Inr () \<or> (sb_ChainId block, sb_Height block) \<in> block_key ` set (t_block (w_db w))"
  shows "w_db w' = w_db w"
proof (cases r)
  case (Inl e)
  with assms(1) show ?thesis by (simp add: Collect_error)
next
  case (Inr x)
  with assms(2) have "(sb_ChainId block, sb_Height block) \<in> block_key ` set (t_block (w_db w))" by simp
  then show ?thesis using assms(1) by (rule Collect_stored)
qed

theorem collect_atomic_witness:
  "w_db (snd (Collect demo_nft demo_env demo_cfg demo_block (world_of empty_db))) = empty_db"
proof -
  have "fst (Collect demo_nft demo_env demo_cfg demo_block (world_of empty_db)) \<noteq> Inr ()" by code_simp
  then show ?thesis
    using collect_atomic [of demo_nft demo_env demo_cfg demo_block "world_of empty_db"] prod.collapse
    by (metis world.select_convs(1) world_of_def)
qed

text \<open>C18.
  A row that \<open>Collect\<close> of the block submodule writes says what the scraped block says: its hash, time, proposer and
  fees, the number of its transactions, the gas of their results summed with 64-bit wrap-around, and the time since the
  stored predecessor.
\<close>

theorem collect_block_row:
  assumes "collect_block E cfg block w = (Inr (), w')"
  shows "\<exists>r. block_row E cfg block (w_db w) r \<and>
    w_db w' = (w_db w)\<lparr>t_block := insert_row block_key r (t_block (w_db w))\<rparr> \<and>
    blk_GasUsed r = wrap64 (\<Sum>i \<leftarrow> [0..<length (sb_Txs block)]. tr_GasUsed (sb_TxResults block ! i)) \<and>
    blk_GasWanted r = wrap64 (\<Sum>i \<leftarrow> [0..<length (sb_Txs block)]. tr_GasWanted (sb_TxResults block ! i))"
  using collect_block_spec [OF assms] unfolding block_row_def by (blast dest: gas_sums_Inr)

theorem collect_block_row_witness:
  "\<exists>r. w_db (snd (collect_block demo_env demo_cfg demo_block demo_world)) =
     empty_db\<lparr>t_block := insert_row block_key r []\<rparr> \<and> blk_GasUsed r = 1 \<and> blk_GasWanted r = 2"
proof -
  have "fst (collect_block demo_env demo_cfg demo_block demo_world) = Inr ()" by code_simp
  then have "collect_block demo_env demo_cfg demo_block demo_world =
      (Inr (), snd (collect_block demo_env demo_cfg demo_block demo_world))" by (metis prod.collapse)
  from collect_block_row [OF this] show ?thesis
    by (auto simp: demo_world_def world_of_def empty_db_def demo_block_def demo_result_def wrap64_def)
qed

section \<open>The pipeline\<close>

text \<open>C6.
  Whatever the interleaving of the scraper, the preparing goroutines and the collect loop, blocks are collected
  strictly in the order of their heights, each height once, starting at the start height; the block the loop holds
  is the one of the current height, every block of the map is under its own height, the counter of preparing
  goroutines is their number, the channels stay within their capacities, and pause and start signals alternate.
\<close>

theorem pipeline_order:
  assumes "reachable prep coll (init_indexer h0 w) s"
  shows "map sb_Height (collected s) = map (\<lambda>k. h0 + int k) [0..<length (collected s)] \<and>
    i_height s = h0 + int (length (collected s)) \<and>
    (\<forall>b. collecting s = Some b \<longrightarrow> sb_Height b = i_height s) \<and>
    (\<forall>(h, b) \<in> set (blockMap s). sb_Height b = h) \<and> distinct (map fst (blockMap s)) \<and>
    prepareCount s = int (length (preparing s)) \<and>
    int (length (blockChan s)) \<le> MaxInflightBlocks \<and> length (controlChan s) \<le> 1 \<and>
    alternating False (signals s)"
proof -
  have inv: "indexer_inv h0 s" by (rule reachable_inv [OF assms])
  then have "map sb_Height (collected s) = map (\<lambda>k. h0 + int k) [0..<length (collected s)]"
    by (intro nth_equalityI) (simp_all add: indexer_inv_def)
  with inv show ?thesis unfolding indexer_inv_def by blast
qed

theorem pipeline_order_witness: "map sb_Height (collected demo_end) = [1] \<and> i_height demo_end = 2"
  using pipeline_order [OF demo_run [unfolded demo_start_def]]
  by (simp add: demo_end_def demo_start_def init_indexer_def demo_block_def)

text \<open>C7.
  No scraped block is lost: a height the scraper delivered is below the current height, or its preparation was
  cancelled, or its block waits in the channel, in a preparing goroutine, in the map, or in the collect loop.
\<close>

theorem pipeline_no_loss:
  assumes "reachable prep coll (init_indexer h0 w) s" "h \<in> set (received s)"
  shows "h < i_height s \<or> h \<in> set (dropped s) \<or> held s h"
  using reachable_no_loss [OF assms(1)] assms(2) unfolding no_loss_def by blast

theorem pipeline_no_loss_witness: "1 < i_height demo_end \<or> 1 \<in> set (dropped demo_end) \<or> held demo_end 1"
  by (rule pipeline_no_loss [OF demo_run [unfolded demo_start_def]])
    (simp add: demo_end_def demo_start_def init_indexer_def)



text \<open>C39.
  A block that was scraped twice and reaches the map after its height has been collected stays there in every later
  state: the collect loop deletes the entry of the current height only.
\<close>

theorem stale_block_stays:
  assumes "reachable prep coll s s'" "h < i_height s" "h \<in> fst ` set (blockMap s)"
  shows "h < i_height s' \<and> h \<in> fst ` set (blockMap s')"
  using assms(1)
proof (induction rule: reachable.induct)
  case (more t t')
  show ?case by (rule stale_step [OF more(2)]) (use more(3) in simp_all)
qed (use assms(2,3) in simp)

theorem stale_block_stays_witness:
  "reachable demo_prep demo_coll demo_start demo_end \<and> 1 < i_height demo_end \<and> 1 \<in> fst ` set (blockMap demo_end)"
  using demo_run stale_block_stays [OF reachable.start [of demo_prep demo_coll demo_end], of 1]
  by (simp add: demo_end_def)

end
